(* ===== verification/Prelude.thy ===== *)
theory Prelude
  imports Main "HOL-Library.Sublist" "HOL-Library.List_Lexorder" "HOL-Library.Char_ord"
    "HOL-Library.Multiset"
begin

text \<open>
  Shared vocabulary of the development: the parts of the Go language and of its
  standard library that the modelled packages use, and the generic lemmas about them.

  \<^item> Go's \<open>int64\<close> is an \<open>int\<close> with the wrap-around written out (\<open>wrap64\<close>);
    \<open>in_int64\<close> says that a value is representable.
  \<^item> A Go string is a byte list (\<open>string\<close>); \<open>TrimSpace\<close> removes the UTF-8 encodings of
    every Unicode white-space character, \<open>ToLower\<close> and \<open>ToUpper\<close> act on ASCII letters
    (the modelled code compares their results with ASCII constants only).
  \<^item> A Go map is an association list whose order stands for one iteration order.
  \<^item> A fallible operation returns a sum, \<open>Inl\<close> for the error.
\<close>

named_theorems go_simps \<open>characteristic equations of the Go library model\<close>
named_theorems range_intros \<open>representability of results as machine integers\<close>

section \<open>Machine integers\<close>

type_synonym int64 = int

definition max_int64 :: int64 where
  "max_int64 = 9223372036854775807"

definition min_int64 :: int64 where
  "min_int64 = - 9223372036854775808"

definition in_int64 :: "int \<Rightarrow> bool" where
  "in_int64 x \<longleftrightarrow> min_int64 \<le> x \<and> x \<le> max_int64"

definition wrap64 :: "int \<Rightarrow> int64" where
  "wrap64 x = (x + 9223372036854775808) mod 18446744073709551616 - 9223372036854775808"

lemmas int64_bounds = max_int64_def min_int64_def in_int64_def

lemma wrap64_in_range [range_intros, simp]: "in_int64 (wrap64 x)"
proof -
  have "0 \<le> (x + 9223372036854775808) mod 18446744073709551616"
    and "(x + 9223372036854775808) mod 18446744073709551616 < 18446744073709551616"
    by simp_all
  then show ?thesis by (simp add: wrap64_def int64_bounds)
qed

lemma wrap64_id: "in_int64 x \<Longrightarrow> wrap64 x = x"
  by (simp add: wrap64_def int64_bounds mod_pos_pos_trivial)

lemma wrap64_0 [simp]: "wrap64 0 = 0"
  by (simp add: wrap64_def)

lemma wrap64_periodic: "wrap64 (x + 18446744073709551616) = wrap64 x" "wrap64 (x - 18446744073709551616) = wrap64 x"
proof -
  have "wrap64 (y + 18446744073709551616) = wrap64 y" for y
    using mod_add_self2 [of "y + 9223372036854775808" "18446744073709551616"] by (simp add: wrap64_def algebra_simps)
  from this [of x] this [of "x - 18446744073709551616"] show "wrap64 (x + 18446744073709551616) = wrap64 x"
    "wrap64 (x - 18446744073709551616) = wrap64 x" by simp_all
qed

section \<open>Results\<close>

fun rbind :: "'e + 'a \<Rightarrow> ('a \<Rightarrow> 'e + 'b) \<Rightarrow> 'e + 'b" where
  "rbind (Inl e) f = Inl e"
| "rbind (Inr a) f = f a"

lemma rbind_eq_Inr_iff: "rbind m f = Inr b \<longleftrightarrow> (\<exists>a. m = Inr a \<and> f a = Inr b)"
  by (cases m) auto

lemma rbind_eq_Inl_iff: "rbind m f = Inl e \<longleftrightarrow> m = Inl e \<or> (\<exists>a. m = Inr a \<and> f a = Inl e)"
  by (cases m) auto

text \<open>A \<open>for\<close> loop over a slice whose body may return an error.\<close>

fun foldr_res :: "('a \<Rightarrow> 's \<Rightarrow> 'e + 's) \<Rightarrow> 'a list \<Rightarrow> 's \<Rightarrow> 'e + 's" where
  "foldr_res f [] s = Inr s"
| "foldr_res f (x # xs) s = rbind (f x s) (foldr_res f xs)"

lemma foldr_res_append:
  "foldr_res f (xs @ ys) s = rbind (foldr_res f xs s) (foldr_res f ys)"
proof (induction xs arbitrary: s)
  case Nil
  show ?case by simp
next
  case (Cons x xs)
  then show ?case by (cases "f x s") simp_all
qed

text \<open>The invariant rule for such a loop: what holds before and is kept by every successful
  iteration holds of the final state.\<close>

lemma foldr_res_invariant:
  assumes "foldr_res f xs s = Inr t" and "I s"
    and "\<And>x s t. x \<in> set xs \<Longrightarrow> I s \<Longrightarrow> f x s = Inr t \<Longrightarrow> I t"
  shows "I t"
  using assms
proof (induction xs arbitrary: s)
  case Nil
  then show ?case by simp
next
  case (Cons x xs)
  from Cons.prems(1) obtain u where "f x s = Inr u" and "foldr_res f xs u = Inr t"
    by (auto simp: rbind_eq_Inr_iff)
  with Cons.prems(2,3) Cons.IH show ?case by (metis list.set_intros)
qed

section \<open>Characters and strings\<close>

definition code_of :: "char \<Rightarrow> nat" where
  "code_of c = of_char c"

lemma code_of_less [simp]: "code_of c < 256"
  by (simp add: code_of_def)

definition is_digit_char :: "char \<Rightarrow> bool" where
  "is_digit_char c \<longleftrightarrow> 48 \<le> code_of c \<and> code_of c \<le> 57"

definition digit_char :: "nat \<Rightarrow> char" where
  "digit_char d = char_of (48 + d)"

definition digit_val :: "char \<Rightarrow> nat" where
  "digit_val c = code_of c - 48"

lemma digit_char_props [simp]:
  assumes "d < 10"
  shows "is_digit_char (digit_char d)" and "digit_val (digit_char d) = d"
  using assms by (simp_all add: is_digit_char_def digit_char_def digit_val_def code_of_def)

text \<open>Decimal printing of a non-negative integer (\<open>strconv.FormatInt(n, 10)\<close>,
  \<open>big.Int.String\<close>).\<close>

fun show_nat :: "nat \<Rightarrow> string" where
  "show_nat n = (if n < 10 then [digit_char n] else show_nat (n div 10) @ [digit_char (n mod 10)])"

declare show_nat.simps [simp del]

definition digits_val :: "string \<Rightarrow> nat" where
  "digits_val s = foldl (\<lambda>a c. 10 * a + digit_val c) 0 s"

lemma digits_val_Nil [simp]: "digits_val [] = 0"
  by (simp add: digits_val_def)

lemma digits_val_snoc [simp]: "digits_val (s @ [c]) = 10 * digits_val s + digit_val c"
  by (simp add: digits_val_def)

lemma foldl_digits: "foldl (\<lambda>a c. 10 * a + digit_val c) a s = a * 10 ^ length s + digits_val s"
  by (induction s rule: rev_induct) (simp_all add: algebra_simps)

lemma digits_val_append: "digits_val (s @ t) = digits_val s * 10 ^ length t + digits_val t"
  using foldl_digits [of "digits_val s" t] by (simp add: digits_val_def)

lemma digits_val_Cons: "digits_val (c # s) = digit_val c * 10 ^ length s + digits_val s"
  using digits_val_append [of "[c]" s] digits_val_snoc [of "[]" c] by simp

lemma digits_val_show_nat [simp]: "digits_val (show_nat n) = n"
proof (induction n rule: show_nat.induct)
  case (1 n)
  then show ?case
    by (cases "n < 10") (use digits_val_snoc [of "[]"] in \<open>simp_all add: show_nat.simps [of n]\<close>)
qed

lemma show_nat_digits: "list_all is_digit_char (show_nat n)"
proof (induction n rule: show_nat.induct)
  case (1 n)
  then show ?case
    by (cases "n < 10") (simp_all add: show_nat.simps [of n])
qed

lemma show_nat_nonempty [simp]: "show_nat n \<noteq> []"
  by (subst show_nat.simps) simp

lemma show_nat_hd_zero: "hd (show_nat n) = digit_char 0 \<Longrightarrow> n = 0"
proof (induction n rule: show_nat.induct)
  case (1 n)
  show ?case
  proof (cases "n < 10")
    case True
    then have "digit_val (hd (show_nat n)) = n" by (simp add: show_nat.simps [of n])
    with "1.prems" show ?thesis by simp
  next
    case False
    then have "hd (show_nat n) = hd (show_nat (n div 10))"
      by (simp add: show_nat.simps [of n])
    with "1.prems" "1.IH" False have "n div 10 = 0" by simp
    with False show ?thesis by simp
  qed
qed

lemma show_nat_length_le: "n < 10 ^ k \<Longrightarrow> 0 < k \<Longrightarrow> length (show_nat n) \<le> k"
proof (induction n arbitrary: k rule: show_nat.induct)
  case (1 n)
  show ?case
  proof (cases "n < 10")
    case True
    with "1.prems" show ?thesis by (simp add: show_nat.simps [of n])
  next
    case False
    with "1.prems" obtain j where k: "k = Suc j" and j: "0 < j"
      by (cases k; cases "k - 1") auto
    with "1.prems" have "n div 10 < 10 ^ j" by (simp add: less_mult_imp_div_less mult.commute)
    with "1.IH" False j have "length (show_nat (n div 10)) \<le> j" by simp
    with False k show ?thesis by (simp add: show_nat.simps [of n])
  qed
qed

lemma digits_val_less: "list_all is_digit_char s \<Longrightarrow> digits_val s < 10 ^ length s"
proof (induction s rule: rev_induct)
  case Nil
  show ?case by simp
next
  case (snoc c s)
  then have "digit_val c \<le> 9" and "digits_val s < 10 ^ length s"
    by (auto simp: is_digit_char_def digit_val_def)
  then show ?case by simp
qed

text \<open>Zero padding on the left, as \<open>fmt.Sprintf("%0*d", w, n)\<close> does for \<open>n \<ge> 0\<close>.\<close>

definition pad_zeros :: "nat \<Rightarrow> string \<Rightarrow> string" where
  "pad_zeros w s = replicate (w - length s) (digit_char 0) @ s"

lemma digits_val_replicate_zero [simp]: "digits_val (replicate k (digit_char 0)) = 0"
  by (induction k) (simp_all add: digits_val_Cons)

lemma digits_val_pad_zeros [simp]: "digits_val (pad_zeros w s) = digits_val s"
  by (simp add: pad_zeros_def digits_val_append)

lemma pad_zeros_digits: "list_all is_digit_char s \<Longrightarrow> list_all is_digit_char (pad_zeros w s)"
  by (auto simp: pad_zeros_def list_all_iff)

lemma length_pad_zeros: "length (pad_zeros w s) = max w (length s)"
  by (simp add: pad_zeros_def)

section \<open>Truncating division and signed printing\<close>

text \<open>Go's integer division and \<open>big.Int.QuoRem\<close> truncate toward zero.\<close>

definition tquot :: "int \<Rightarrow> int \<Rightarrow> int" where
  "tquot n d = sgn n * sgn d * (\<bar>n\<bar> div \<bar>d\<bar>)"

definition trem :: "int \<Rightarrow> int \<Rightarrow> int" where
  "trem n d = n - tquot n d * d"

definition show_int :: "int \<Rightarrow> string" where
  "show_int n = (if n < 0 then CHR ''-'' # show_nat (nat (- n)) else show_nat (nat n))"

definition fmt_0d :: "nat \<Rightarrow> int \<Rightarrow> string" where
  "fmt_0d w n = (if n < 0 then CHR ''-'' # pad_zeros (w - 1) (show_nat (nat (- n)))
                 else pad_zeros w (show_nat (nat n)))"

lemma tquot_nonneg: "0 \<le> n \<Longrightarrow> 0 < d \<Longrightarrow> tquot n d = n div d"
  by (cases "n = 0") (simp_all add: tquot_def)

lemma tquot_neg:
  assumes "n < 0" and "0 < d"
  shows "tquot n d = - ((- n) div d)" and "n - tquot n d * d \<le> 0"
proof -
  show q: "tquot n d = - ((- n) div d)" using assms by (simp add: tquot_def)
  have "(- n) div d * d + (- n) mod d = - n" by (rule div_mult_mod_eq)
  moreover have "0 \<le> (- n) mod d" using assms by simp
  ultimately have "(- n) div d * d \<le> - n" by linarith
  with q show "n - tquot n d * d \<le> 0" by simp
qed

lemma trem_nonneg: "0 \<le> n \<Longrightarrow> 0 < d \<Longrightarrow> trem n d = n mod d"
  by (simp add: trem_def tquot_nonneg minus_div_mult_eq_mod)

lemma zero_char: "CHR ''0'' = digit_char 0"
  by code_simp

end
