(* ===== verification/GoStrings.thy ===== *)
theory GoStrings
  imports Prelude
begin

text \<open>
  The functions of Go's \<open>strings\<close> package that the modelled code calls, on byte strings:
  \<open>TrimSpace\<close>, \<open>ToLower\<close>, \<open>ToUpper\<close>, \<open>EqualFold\<close>, \<open>Split\<close> on one byte, \<open>Join\<close>,
  \<open>TrimRight\<close> of one byte and \<open>HasPrefix\<close> (\<open>prefix\<close> of HOL-Library), with the
  characteristic facts the component proofs use: trimming is idempotent, leaves printable
  ASCII alone, and splitting inverts joining.
\<close>

section \<open>Trimming\<close>

definition go_spaces :: "string list" where
  "go_spaces =
     [[CHR 0x20], [CHR 0x09], [CHR 0x0A], [CHR 0x0B], [CHR 0x0C], [CHR 0x0D],
      [CHR 0xC2, CHR 0x85], [CHR 0xC2, CHR 0xA0], [CHR 0xE1, CHR 0x9A, CHR 0x80],
      [CHR 0xE2, CHR 0x80, CHR 0x80], [CHR 0xE2, CHR 0x80, CHR 0x81],
      [CHR 0xE2, CHR 0x80, CHR 0x82], [CHR 0xE2, CHR 0x80, CHR 0x83],
      [CHR 0xE2, CHR 0x80, CHR 0x84], [CHR 0xE2, CHR 0x80, CHR 0x85],
      [CHR 0xE2, CHR 0x80, CHR 0x86], [CHR 0xE2, CHR 0x80, CHR 0x87],
      [CHR 0xE2, CHR 0x80, CHR 0x88], [CHR 0xE2, CHR 0x80, CHR 0x89],
      [CHR 0xE2, CHR 0x80, CHR 0x8A], [CHR 0xE2, CHR 0x80, CHR 0xA8],
      [CHR 0xE2, CHR 0x80, CHR 0xA9], [CHR 0xE2, CHR 0x80, CHR 0xAF],
      [CHR 0xE2, CHR 0x81, CHR 0x9F], [CHR 0xE3, CHR 0x80, CHR 0x80]]"

lemma go_spaces_nonempty: "w \<in> set go_spaces \<Longrightarrow> w \<noteq> []"
  by (auto simp: go_spaces_def)

lemma find_SomeD: "find P xs = Some x \<Longrightarrow> x \<in> set xs \<and> P x"
  by (induction xs) (auto split: if_splits)

lemma find_space_drop:
  "find (\<lambda>w. P w s) go_spaces = Some w \<Longrightarrow> (\<And>w s. P w s \<Longrightarrow> length w \<le> length s) \<Longrightarrow>
     0 < length s \<and> length s - length w < length s \<and> length w \<le> length s"
proof -
  assume "find (\<lambda>w. P w s) go_spaces = Some w"
    and le: "\<And>w s. P w s \<Longrightarrow> length w \<le> length s"
  then have "w \<in> set go_spaces" and "P w s" by (auto dest: find_SomeD)
  then have "0 < length w" and "length w \<le> length s"
    using go_spaces_nonempty le by auto
  then show ?thesis by arith
qed

function trim_left :: "string \<Rightarrow> string" where
  "trim_left s =
     (case find (\<lambda>w. prefix w s) go_spaces of
        None \<Rightarrow> s
      | Some w \<Rightarrow> trim_left (drop (length w) s))"
  by pat_completeness auto
termination
  by (relation "measure length")
    (auto dest!: find_space_drop [where P = prefix] simp: prefix_length_le simp del: length_greater_0_conv)

function trim_right :: "string \<Rightarrow> string" where
  "trim_right s =
     (case find (\<lambda>w. suffix w s) go_spaces of
        None \<Rightarrow> s
      | Some w \<Rightarrow> trim_right (take (length s - length w) s))"
  by pat_completeness auto
termination
  by (relation "measure length")
    (auto dest!: find_space_drop [where P = suffix] simp: suffix_length_le simp del: length_greater_0_conv)

declare trim_left.simps [simp del] trim_right.simps [simp del]

definition TrimSpace :: "string \<Rightarrow> string" where
  "TrimSpace s = trim_right (trim_left s)"

lemma trim_left_fixed: "find (\<lambda>w. prefix w (trim_left s)) go_spaces = None"
proof (induction s rule: trim_left.induct)
  case (1 s)
  then show ?case
    by (cases "find (\<lambda>w. prefix w s) go_spaces") (simp_all add: trim_left.simps [of s])
qed

lemma trim_right_fixed: "find (\<lambda>w. suffix w (trim_right s)) go_spaces = None"
proof (induction s rule: trim_right.induct)
  case (1 s)
  then show ?case
    by (cases "find (\<lambda>w. suffix w s) go_spaces") (simp_all add: trim_right.simps [of s])
qed

lemma trim_left_id: "find (\<lambda>w. prefix w s) go_spaces = None \<Longrightarrow> trim_left s = s"
  by (simp add: trim_left.simps [of s])

lemma trim_right_id: "find (\<lambda>w. suffix w s) go_spaces = None \<Longrightarrow> trim_right s = s"
  by (simp add: trim_right.simps [of s])

lemma trim_right_prefix: "prefix (trim_right s) s"
proof (induction s rule: trim_right.induct)
  case (1 s)
  show ?case
  proof (cases "find (\<lambda>w. suffix w s) go_spaces")
    case None
    then show ?thesis by (simp add: trim_right_id)
  next
    case (Some w)
    with 1 have "prefix (trim_right s) (take (length s - length w) s)"
      by (simp add: trim_right.simps [of s])
    then show ?thesis using take_is_prefix prefix_order.trans by blast
  qed
qed

lemma TrimSpace_idem [simp]: "TrimSpace (TrimSpace s) = TrimSpace s"
proof -
  let ?t = "trim_right (trim_left s)"
  have "find (\<lambda>w. prefix w ?t) go_spaces = None"
    using trim_left_fixed [of s] trim_right_prefix [of "trim_left s"]
    by (auto simp: find_None_iff dest: prefix_order.trans)
  then have "trim_left ?t = ?t" by (rule trim_left_id)
  moreover have "trim_right ?t = ?t" by (rule trim_right_id [OF trim_right_fixed])
  ultimately show ?thesis by (simp add: TrimSpace_def)
qed

text \<open>Printable ASCII is never trimmed.\<close>

definition is_graph :: "char \<Rightarrow> bool" where
  "is_graph c \<longleftrightarrow> 33 \<le> code_of c \<and> code_of c \<le> 126"

lemma go_spaces_edges: "w \<in> set go_spaces \<Longrightarrow> \<not> is_graph (hd w) \<and> \<not> is_graph (last w)"
  by (auto simp: go_spaces_def is_graph_def code_of_def)

lemma TrimSpace_graph:
  assumes "s = [] \<or> is_graph (hd s) \<and> is_graph (last s)"
  shows "TrimSpace s = s"
proof -
  have "\<not> prefix w s \<and> \<not> suffix w s" if "w \<in> set go_spaces" for w
    using assms go_spaces_nonempty [OF that] go_spaces_edges [OF that]
    by (auto simp: prefix_def suffix_def)
  then have "find (\<lambda>w. prefix w s) go_spaces = None" and "find (\<lambda>w. suffix w s) go_spaces = None"
    by (auto simp: find_None_iff)
  then show ?thesis by (simp add: TrimSpace_def trim_left_id trim_right_id)
qed

lemma TrimSpace_graph_all: "list_all is_graph s \<Longrightarrow> TrimSpace s = s"
  by (rule TrimSpace_graph) (cases s; auto simp: list_all_iff)

lemma TrimSpace_Nil [simp]: "TrimSpace [] = []"
  by (rule TrimSpace_graph) simp

lemma is_graph_digit: "is_digit_char c \<Longrightarrow> is_graph c"
  by (simp add: is_digit_char_def is_graph_def)

section \<open>Case mapping\<close>

definition lower_char :: "char \<Rightarrow> char" where
  "lower_char c = (if 65 \<le> code_of c \<and> code_of c \<le> 90 then char_of (code_of c + 32) else c)"

definition upper_char :: "char \<Rightarrow> char" where
  "upper_char c = (if 97 \<le> code_of c \<and> code_of c \<le> 122 then char_of (code_of c - 32) else c)"

definition ToLower :: "string \<Rightarrow> string" where
  "ToLower = map lower_char"

definition ToUpper :: "string \<Rightarrow> string" where
  "ToUpper = map upper_char"

definition EqualFold :: "string \<Rightarrow> string \<Rightarrow> bool" where
  "EqualFold s t \<longleftrightarrow> ToLower s = ToLower t"

lemma code_of_char_of: "n < 256 \<Longrightarrow> code_of (char_of n) = n"
  by (simp add: code_of_def)

lemma lower_char_idem [simp]: "lower_char (lower_char c) = lower_char c"
  by (simp add: lower_char_def code_of_char_of)

lemma upper_char_idem [simp]: "upper_char (upper_char c) = upper_char c"
  by (auto simp: upper_char_def code_of_char_of)

lemma ToLower_idem [simp]: "ToLower (ToLower s) = ToLower s"
  by (simp add: ToLower_def)

lemma ToUpper_idem [simp]: "ToUpper (ToUpper s) = ToUpper s"
  by (simp add: ToUpper_def)

section \<open>Splitting and joining\<close>

fun Split :: "string \<Rightarrow> char \<Rightarrow> string list" where
  "Split [] sep = [[]]"
| "Split (c # cs) sep =
     (if c = sep then [] # Split cs sep
      else case Split cs sep of [] \<Rightarrow> [[c]] | x # xs \<Rightarrow> (c # x) # xs)"

fun Join :: "string list \<Rightarrow> char \<Rightarrow> string" where
  "Join [] sep = []"
| "Join [x] sep = x"
| "Join (x # y # ys) sep = x @ sep # Join (y # ys) sep"

lemma Split_nonempty [simp]: "Split s sep \<noteq> []"
  by (induction s) (auto split: list.splits)

lemma Split_no_sep: "sep \<notin> set x \<Longrightarrow> Split x sep = [x]"
  by (induction x) auto

lemma Split_append_sep: "sep \<notin> set x \<Longrightarrow> Split (x @ sep # s) sep = x # Split s sep"
  by (induction x) auto

lemma Split_Join:
  "xs \<noteq> [] \<Longrightarrow> \<forall>x \<in> set xs. sep \<notin> set x \<Longrightarrow> Split (Join xs sep) sep = xs"
  by (induction xs sep rule: Join.induct) (auto simp: Split_no_sep Split_append_sep)

lemma Split_parts_no_sep: "x \<in> set (Split s sep) \<Longrightarrow> sep \<notin> set x"
  by (induction s arbitrary: x) (auto split: list.splits if_splits)

lemma Split_part_subset: "x \<in> set (Split s sep) \<Longrightarrow> set x \<subseteq> set s"
  by (induction s arbitrary: x) (auto split: list.splits if_splits, blast+)

section \<open>Trimming one byte on the right\<close>

definition trim_right_byte :: "string \<Rightarrow> char \<Rightarrow> string" where
  "trim_right_byte s c = rev (dropWhile (\<lambda>d. d = c) (rev s))"

lemma trim_right_byte_decomp:
  "\<exists>k. s = trim_right_byte s c @ replicate k c"
proof -
  have "rev s = takeWhile (\<lambda>d. d = c) (rev s) @ dropWhile (\<lambda>d. d = c) (rev s)"
    by simp
  moreover have "takeWhile (\<lambda>d. d = c) (rev s) = replicate (length (takeWhile (\<lambda>d. d = c) (rev s))) c"
    by (rule replicate_eqI) (auto dest: set_takeWhileD)
  ultimately have "rev s = replicate (length (takeWhile (\<lambda>d. d = c) (rev s))) c @ dropWhile (\<lambda>d. d = c) (rev s)"
    by simp
  then have "s = rev (dropWhile (\<lambda>d. d = c) (rev s)) @ replicate (length (takeWhile (\<lambda>d. d = c) (rev s))) c"
    by (metis rev_append rev_replicate rev_rev_ident)
  then show ?thesis unfolding trim_right_byte_def by blast
qed

section \<open>First non-empty value\<close>

fun firstNonEmpty :: "string list \<Rightarrow> string" where
  "firstNonEmpty [] = []"
| "firstNonEmpty (v # vs) = (if TrimSpace v \<noteq> [] then TrimSpace v else firstNonEmpty vs)"

end
