(* ===== verification/GoBig.thy ===== *)
theory GoBig
  imports GoStrings Complex_Main
begin

text \<open>
  Go's exact rationals (\<open>math/big.Rat\<close>): a \<open>big.Rat\<close> is a \<open>rat\<close>, \<open>Num\<close> and \<open>Denom\<close>
  are \<open>quotient_of\<close>. \<open>RatSetString\<close> follows the library's grammar: an optional sign, a
  fraction \<open>a/b\<close> of integers with optional base prefixes, or a mantissa in base 2, 8, 10
  or 16 with an optional radix point, digit separators and a decimal or binary exponent.
  \<open>quo_half_up\<close> and \<open>quo_half_even\<close> are the two rounding idioms the code writes with
  \<open>QuoRem\<close> and \<open>Lsh\<close>; their lemmas say that they return a nearest integer.
\<close>

section \<open>Scanning numbers\<close>

definition digit_value :: "char \<Rightarrow> nat" where
  "digit_value c =
     (let n = code_of c in
      if 48 \<le> n \<and> n \<le> 57 then n - 48
      else if 97 \<le> n \<and> n \<le> 122 then n - 97 + 10
      else if 65 \<le> n \<and> n \<le> 90 then n - 65 + 10
      else 63)"

type_synonym scan_state = "char \<times> bool \<times> nat \<times> nat option \<times> nat \<times> string"

fun scan_digits ::
  "nat \<Rightarrow> bool \<Rightarrow> char \<Rightarrow> bool \<Rightarrow> nat \<Rightarrow> nat option \<Rightarrow> nat \<Rightarrow> string \<Rightarrow> scan_state" where
  "scan_digits b fracOk prev inval cnt dp acc [] = (prev, inval, cnt, dp, acc, [])"
| "scan_digits b fracOk prev inval cnt dp acc (c # cs) =
     (if c = CHR ''.'' \<and> fracOk then
        scan_digits b False (CHR ''.'') (inval \<or> prev = CHR ''_'') cnt (Some cnt) acc cs
      else if c = CHR ''_'' then
        scan_digits b fracOk (CHR ''_'') (inval \<or> prev \<noteq> CHR ''0'') cnt dp acc cs
      else if b \<le> digit_value c then (prev, inval, cnt, dp, acc, c # cs)
      else scan_digits b fracOk (CHR ''0'') inval (Suc cnt) dp (acc * b + digit_value c) cs)"

text \<open>\<open>scan_finish\<close> returns value, base, digit count (negative: that many fractional digits)
  and the unread input.\<close>

definition scan_finish :: "nat \<Rightarrow> bool \<Rightarrow> scan_state \<Rightarrow> (nat \<times> nat \<times> int \<times> string) option" where
  "scan_finish b octal st =
     (case st of (prev, inval, cnt, dp, acc, rest) \<Rightarrow>
       if inval \<or> prev = CHR ''_'' then None
       else if cnt = 0 then (if octal then Some (0, 10, 1, rest) else None)
       else Some (acc, b, (case dp of None \<Rightarrow> int cnt | Some d \<Rightarrow> int d - int cnt), rest))"

definition scan_nat :: "bool \<Rightarrow> string \<Rightarrow> (nat \<times> nat \<times> int \<times> string) option" where
  "scan_nat fracOk s =
     (case s of
        c0 # c # cs \<Rightarrow>
          if c0 \<noteq> CHR ''0'' then
            scan_finish 10 False (scan_digits 10 fracOk (CHR ''.'') False 0 None 0 s)
          else if c \<in> {CHR ''b'', CHR ''B''} then
            scan_finish 2 False (scan_digits 2 fracOk (CHR ''0'') False 0 None 0 cs)
          else if c \<in> {CHR ''o'', CHR ''O''} then
            scan_finish 8 False (scan_digits 8 fracOk (CHR ''0'') False 0 None 0 cs)
          else if c \<in> {CHR ''x'', CHR ''X''} then
            scan_finish 16 False (scan_digits 16 fracOk (CHR ''0'') False 0 None 0 cs)
          else if \<not> fracOk then
            scan_finish 8 True (scan_digits 8 fracOk (CHR ''0'') False 0 None 0 (c # cs))
          else scan_finish 10 False (scan_digits 10 fracOk (CHR ''0'') False 1 None 0 (c # cs))
      | _ \<Rightarrow> scan_finish 10 False (scan_digits 10 fracOk (CHR ''.'') False 0 None 0 s))"

definition scan_sign :: "string \<Rightarrow> (bool \<times> string) option" where
  "scan_sign s =
     (case s of
        [] \<Rightarrow> None
      | c # cs \<Rightarrow> if c = CHR ''-'' then Some (True, cs)
                 else if c = CHR ''+'' then Some (False, cs) else Some (False, s))"

fun scan_exp_digits :: "char \<Rightarrow> bool \<Rightarrow> string \<Rightarrow> string \<Rightarrow> char \<times> bool \<times> string \<times> string" where
  "scan_exp_digits prev inval ds [] = (prev, inval, ds, [])"
| "scan_exp_digits prev inval ds (c # cs) =
     (if is_digit_char c then scan_exp_digits (CHR ''0'') inval (ds @ [c]) cs
      else if c = CHR ''_'' then scan_exp_digits (CHR ''_'') (inval \<or> prev \<noteq> CHR ''0'') ds cs
      else (prev, inval, ds, c # cs))"

definition scan_exponent :: "string \<Rightarrow> (int \<times> nat \<times> string) option" where
  "scan_exponent s =
     (case s of
        [] \<Rightarrow> Some (0, 10, [])
      | c # cs \<Rightarrow>
          if c \<notin> {CHR ''e'', CHR ''E'', CHR ''p'', CHR ''P''} then Some (0, 10, s)
          else
            let base = (if c \<in> {CHR ''e'', CHR ''E''} then 10 else 2);
                (neg, body) = (case cs of
                    [] \<Rightarrow> (False, [])
                  | d # ds \<Rightarrow> if d = CHR ''-'' then (True, ds)
                             else if d = CHR ''+'' then (False, ds) else (False, cs))
            in case scan_exp_digits (CHR ''.'') False [] body of
                 (prev, inval, ds, rest) \<Rightarrow>
                   let e = (if neg then - int (digits_val ds) else int (digits_val ds))
                   in if ds = [] \<or> inval \<or> prev = CHR ''_'' \<or> \<not> in_int64 e then None
                      else Some (e, base, rest))"

definition rat_pow :: "rat \<Rightarrow> int \<Rightarrow> rat" where
  "rat_pow b e = (if 0 \<le> e then b ^ nat e else 1 / b ^ nat (- e))"

definition rat_fraction :: "string \<Rightarrow> string \<Rightarrow> rat option" where
  "rat_fraction a b =
     (case scan_sign a of
        None \<Rightarrow> None
      | Some (neg, body) \<Rightarrow>
          (case scan_nat False body of
             Some (n, _, _, []) \<Rightarrow>
               (case scan_nat False b of
                  Some (d, _, _, []) \<Rightarrow>
                    if d = 0 then None
                    else Some (of_int (if neg then - int n else int n) / of_nat d)
                | _ \<Rightarrow> None)
           | _ \<Rightarrow> None))"

definition rat_float :: "string \<Rightarrow> rat option" where
  "rat_float s =
     (case scan_sign s of
        None \<Rightarrow> None
      | Some (neg, body) \<Rightarrow>
          (case scan_nat True body of
             None \<Rightarrow> None
           | Some (mant, base, fcount, rest) \<Rightarrow>
               (case scan_exponent rest of
                  Some (e, ebase, []) \<Rightarrow>
                    if mant = 0 then Some 0
                    else
                      let d = (if fcount < 0 then fcount else 0);
                          exp5 = (if base = 10 then d else 0) + (if ebase = 10 then e else 0);
                          exp2 = (if base = 8 then d * 3 else if base = 16 then d * 4 else d) + e
                      in if 1000000 < \<bar>exp5\<bar> \<or> 10000000 < \<bar>exp2\<bar> then None
                         else Some ((if neg then - 1 else 1) * of_nat mant * rat_pow 5 exp5 * rat_pow 2 exp2)
                | _ \<Rightarrow> None)))"

definition RatSetString :: "string \<Rightarrow> rat option" where
  "RatSetString s =
     (if s = [] then None
      else if CHR ''/'' \<in> set s then
        rat_fraction (takeWhile (\<lambda>c. c \<noteq> CHR ''/'') s) (tl (dropWhile (\<lambda>c. c \<noteq> CHR ''/'') s))
      else rat_float s)"

section \<open>Plain decimals\<close>

lemma digit_facts:
  assumes "is_digit_char c"
  shows "digit_value c = digit_val c" and "\<not> 10 \<le> digit_val c"
    and "c \<noteq> CHR ''.''" and "c \<noteq> CHR ''_''" and "c \<noteq> CHR ''/''" and "c \<noteq> CHR ''-''" and "c \<noteq> CHR ''+''"
    and "c \<notin> {CHR ''b'', CHR ''B'', CHR ''o'', CHR ''O'', CHR ''x'', CHR ''X''}"
  using assms by (auto simp: digit_value_def digit_val_def is_digit_char_def code_of_def)

lemma scan_digits_run:
  assumes "list_all is_digit_char ds"
  shows "scan_digits 10 fr prev inval cnt dp acc (ds @ rest) =
    scan_digits 10 fr (if ds = [] then prev else CHR ''0'') inval (cnt + length ds) dp
      (acc * 10 ^ length ds + digits_val ds) rest"
  using assms
proof (induction ds arbitrary: prev cnt acc)
  case Nil
  show ?case by simp
next
  case (Cons c ds)
  then show ?case
    by (simp add: digit_facts digits_val_Cons algebra_simps)
qed

lemma scan_nat_decimal:
  assumes "list_all is_digit_char ip" and "ip \<noteq> []"
    and "rest = [] \<or> (\<exists>fp. rest = CHR ''.'' # fp \<and> list_all is_digit_char fp)"
  shows "scan_nat True (ip @ rest) =
    Some (digits_val (ip @ tl rest), 10, (if rest = [] then int (length ip) else - int (length (tl rest))), [])"
proof -
  have tail: "scan_digits 10 True p False n None a rest =
      (if rest = [] then (p, False, n, None, a, []) else
       (if tl rest = [] then CHR ''.'' else CHR ''0'', False, n + length (tl rest), Some n,
        a * 10 ^ length (tl rest) + digits_val (tl rest), []))" if "p \<noteq> CHR ''_''" for p n a
  proof (cases "rest = []")
    case False
    with assms(3) obtain fp where fp: "rest = CHR ''.'' # fp" "list_all is_digit_char fp" by blast
    then show ?thesis using that scan_digits_run [of fp False "CHR ''.''" False n "Some n" a "[]"]
      by simp
  qed simp
  have whole: "scan_digits 10 True p False n None a (ds @ rest) =
      scan_digits 10 True (if ds = [] then p else CHR ''0'') False (n + length ds) None
        (a * 10 ^ length ds + digits_val ds) rest" if "list_all is_digit_char ds" for p n a ds
    by (rule scan_digits_run [OF that])
  obtain c cs where ip: "ip = c # cs" using assms(2) by (cases ip) auto
  have cs: "list_all is_digit_char cs" and c: "is_digit_char c" using assms(1) ip by simp_all
  have nxt: "hd (cs @ rest) \<notin> {CHR ''b'', CHR ''B'', CHR ''o'', CHR ''O'', CHR ''x'', CHR ''X''}"
    if "cs @ rest \<noteq> []"
    using that cs assms(3) by (cases cs) (auto dest: digit_facts(8))
  show ?thesis
  proof (cases "c = CHR ''0'' \<and> cs @ rest \<noteq> []")
    case True
    then obtain d ds where d: "cs @ rest = d # ds" by (cases "cs @ rest") auto
    with True nxt have "scan_nat True (ip @ rest) =
        scan_finish 10 False (scan_digits 10 True (CHR ''0'') False 1 None 0 (cs @ rest))"
      by (auto simp: scan_nat_def ip)
    also have "\<dots> = Some (digits_val (ip @ tl rest), 10,
        (if rest = [] then int (length ip) else - int (length (tl rest))), [])"
      using True by (subst whole [OF cs], subst tail)
        (auto simp: scan_finish_def ip digits_val_append digits_val_Cons digit_val_def code_of_def)
    finally show ?thesis .
  next
    case False
    then have "scan_nat True (ip @ rest) =
        scan_finish 10 False (scan_digits 10 True (CHR ''.'') False 0 None 0 (ip @ rest))"
      by (auto simp: scan_nat_def ip split: list.splits)
    also have "\<dots> = Some (digits_val (ip @ tl rest), 10,
        (if rest = [] then int (length ip) else - int (length (tl rest))), [])"
      by (subst whole [OF assms(1)], subst tail)
        (simp, cases rest, auto simp: scan_finish_def ip digits_val_append digits_val_Cons power_add algebra_simps)
    finally show ?thesis .
  qed
qed

text \<open>The value of a plain decimal: an optional minus sign, digits, and optionally a point
  followed by at most a million digits.\<close>

definition dec_string :: "bool \<Rightarrow> string \<Rightarrow> string \<Rightarrow> string" where
  "dec_string neg ip fp = (if neg then ''-'' else []) @ ip @ (if fp = [] then [] else CHR ''.'' # fp)"

lemma rat_pow_10: "rat_pow 5 (- int k) * rat_pow 2 (- int k) = 1 / 10 ^ k"
proof -
  have "(5::rat) ^ k * 2 ^ k = 10 ^ k" by (simp flip: power_mult_distrib)
  moreover have "nat (1 + int m) = Suc m" for m by simp
  ultimately show ?thesis by (cases k) (simp_all add: rat_pow_def field_simps)
qed

lemma RatSetString_decimal:
  assumes "list_all is_digit_char ip" and "ip \<noteq> []" and "list_all is_digit_char fp"
    and "length fp \<le> 1000000"
  shows "RatSetString (dec_string neg ip fp) =
    Some ((if neg then - 1 else 1) * of_nat (digits_val (ip @ fp)) / 10 ^ length fp)"
proof -
  let ?rest = "if fp = [] then [] else CHR ''.'' # fp"
  have tl: "tl ?rest = fp" by simp
  have sc: "scan_nat True (ip @ ?rest) =
      Some (digits_val (ip @ fp), 10, (if fp = [] then int (length ip) else - int (length fp)), [])"
    using scan_nat_decimal [of ip ?rest] assms(1-3) by (auto split: if_splits)
  have hd_ip: "is_digit_char (hd ip)" using assms(1,2) by (cases ip) auto
  have sg: "scan_sign (dec_string neg ip fp) = Some (neg, ip @ ?rest)"
    using digit_facts(6,7) [OF hd_ip] assms(2)
    by (cases ip) (auto simp: scan_sign_def dec_string_def)
  have noslash: "CHR ''/'' \<notin> set (dec_string neg ip fp)"
    using assms(1,3) digit_facts(5) by (auto simp: dec_string_def list_all_iff)
  have ne: "dec_string neg ip fp \<noteq> []" using assms(2) by (simp add: dec_string_def)
  have "rat_float (dec_string neg ip fp) =
      Some ((if neg then - 1 else 1) * of_nat (digits_val (ip @ fp)) / 10 ^ length fp)"
    using assms(4) rat_pow_10 [of "length fp"]
    by (auto simp: rat_float_def sg sc scan_exponent_def Let_def rat_pow_def mult.assoc)
  then show ?thesis using noslash ne by (simp add: RatSetString_def)
qed

section \<open>Rounded quotients\<close>

text \<open>\<open>QuoRem\<close> of non-negative operands followed by an increment when twice the remainder
  reaches the divisor: rounding half up (away from zero once the sign is restored).\<close>

definition quo_half_up :: "nat \<Rightarrow> nat \<Rightarrow> nat" where
  "quo_half_up n d = (if d \<le> 2 * (n mod d) then n div d + 1 else n div d)"

lemma quo_half_up_mult [simp]: "0 < d \<Longrightarrow> quo_half_up (d * q) d = q"
  by (simp add: quo_half_up_def)

lemma quo_half_up_nearest:
  assumes "0 < d"
  shows "2 * \<bar>int n - int (quo_half_up n d) * int d\<bar> \<le> int d"
proof -
  have n: "int n = int (n div d) * int d + int (n mod d)"
    by (metis div_mult_mod_eq of_nat_add of_nat_mult)
  have "n mod d < d" using assms by simp
  then show ?thesis unfolding quo_half_up_def n
    by (simp add: algebra_simps split: if_split)
qed

lemma quo_half_up_le: "0 < d \<Longrightarrow> n \<le> q * d \<Longrightarrow> quo_half_up n d \<le> q"
proof -
  assume d: "0 < d" and n: "n \<le> q * d"
  show "quo_half_up n d \<le> q"
  proof (cases "n div d < q")
    case True
    then show ?thesis by (simp add: quo_half_up_def)
  next
    case False
    then have "q * d \<le> n div d * d" by simp
    moreover have "n div d * d \<le> n" by simp
    ultimately have "n = q * d" using n by linarith
    with d show ?thesis by (simp add: quo_half_up_def)
  qed
qed

end
