(* ===== verification/Rounding.thy ===== *)
theory Rounding
  imports GoBig
begin

text \<open>
  Rounding an exact amount to a number of smallest units. The locale \<open>integer_rounding\<close> is
  what callers rely on: integers are kept and the order is kept. Both pricing packages
  promise it (interpretations in \<open>Metering\<close> and \<open>ReconMoney\<close>), and the locale derives from
  it that a rounded amount is less than one unit away, is never below the floor or above the
  ceiling, and keeps the sign. The reference functions are \<open>half_even\<close> here and \<open>round\<close>
  (half up) and \<open>ceiling\<close> of HOL.
\<close>

locale integer_rounding =
  fixes rnd :: "rat \<Rightarrow> int"
  assumes rnd_of_int: "rnd (of_int z) = z"
    and rnd_mono: "x \<le> y \<Longrightarrow> rnd x \<le> rnd y"
begin

lemma rnd_le_ceiling: "rnd x \<le> \<lceil>x\<rceil>"
proof -
  have "rnd x \<le> rnd (of_int \<lceil>x\<rceil>)" by (rule rnd_mono) simp
  then show ?thesis by (simp add: rnd_of_int)
qed

lemma floor_le_rnd: "\<lfloor>x\<rfloor> \<le> rnd x"
proof -
  have "rnd (of_int \<lfloor>x\<rfloor>) \<le> rnd x" by (rule rnd_mono) simp
  then show ?thesis by (simp add: rnd_of_int)
qed

lemma rnd_error: "\<bar>of_int (rnd x) - x\<bar> < 1"
proof -
  have "of_int (rnd x) \<le> (of_int \<lceil>x\<rceil> :: rat)" using rnd_le_ceiling by simp
  moreover have "(of_int \<lceil>x\<rceil> :: rat) < x + 1" by linarith
  moreover have "(of_int \<lfloor>x\<rfloor> :: rat) \<le> of_int (rnd x)" using floor_le_rnd by simp
  moreover have "x - 1 < (of_int \<lfloor>x\<rfloor> :: rat)" by linarith
  ultimately show ?thesis by linarith
qed

lemma rnd_nonneg: "0 \<le> x \<Longrightarrow> 0 \<le> rnd x"
  using rnd_mono [of 0 x] rnd_of_int [of 0] by simp

end

definition half_even :: "rat \<Rightarrow> int" where
  "half_even x =
     (if frac x > 1 / 2 \<or> frac x = 1 / 2 \<and> odd \<lfloor>x\<rfloor> then \<lfloor>x\<rfloor> + 1 else \<lfloor>x\<rfloor>)"

lemma half_even_of_int [simp]: "half_even (of_int z) = z"
  by (simp add: half_even_def)

lemma half_even_bounds: "\<lfloor>x\<rfloor> \<le> half_even x" "half_even x \<le> \<lfloor>x\<rfloor> + 1"
  by (simp_all add: half_even_def)

lemma half_even_mono: "x \<le> y \<Longrightarrow> half_even x \<le> half_even y"
proof -
  assume xy: "x \<le> y"
  then have fl: "\<lfloor>x\<rfloor> \<le> \<lfloor>y\<rfloor>" by (rule floor_mono)
  show ?thesis
  proof (cases "\<lfloor>x\<rfloor> = \<lfloor>y\<rfloor>")
    case True
    with xy have "frac x \<le> frac y" by (simp add: frac_def)
    with True show ?thesis by (auto simp: half_even_def)
  next
    case False
    with fl have "\<lfloor>x\<rfloor> + 1 \<le> \<lfloor>y\<rfloor>" by simp
    then show ?thesis using half_even_bounds [of x] half_even_bounds [of y] by linarith
  qed
qed

lemma half_even_nearest: "\<bar>of_int (half_even x) - x\<bar> \<le> 1 / 2"
proof -
  have x: "x = of_int \<lfloor>x\<rfloor> + frac x" by (simp add: frac_def)
  have "0 \<le> frac x" and "frac x < 1" by (simp_all add: frac_lt_1)
  then show ?thesis
    by (subst (2) x) (auto simp: half_even_def)
qed

lemma half_even_tie: "\<bar>of_int (half_even x) - x\<bar> = 1 / 2 \<Longrightarrow> even (half_even x)"
proof -
  assume tie: "\<bar>of_int (half_even x) - x\<bar> = 1 / 2"
  have x: "x = of_int \<lfloor>x\<rfloor> + frac x" by (simp add: frac_def)
  have "0 \<le> frac x" and "frac x < 1" by (simp_all add: frac_lt_1)
  with tie have "frac x = 1 / 2"
    by (subst (asm) (2) x) (auto simp: half_even_def split: if_splits)
  then show ?thesis by (simp add: half_even_def)
qed

section \<open>Quotient and remainder of a rational\<close>

lemma floor_quotient_of: "quotient_of x = (n, d) \<Longrightarrow> \<lfloor>x\<rfloor> = n div d"
  using quotient_of_div [of x n d] by (simp add: floor_divide_of_int_eq)

lemma frac_quotient_of: "quotient_of x = (n, d) \<Longrightarrow> frac x = of_int (n mod d) / of_int d"
proof -
  assume q: "quotient_of x = (n, d)"
  then have d: "0 < d" by (rule quotient_of_denom_pos)
  have "x = of_int n / of_int d" by (rule quotient_of_div [OF q])
  moreover have "of_int n = (of_int (n div d) * of_int d + of_int (n mod d) :: rat)"
    by (metis div_mult_mod_eq of_int_add of_int_mult)
  ultimately show ?thesis using d floor_quotient_of [OF q]
    by (simp add: frac_def field_simps)
qed

end
