(* ===== verification/Metering.thy ===== *)
theory Metering
  imports Rounding
begin

text \<open>
  Exact pricing (\<open>backend/internal/metering/pricing.go\<close>, \<open>native_units.go\<close>): decimal rates
  as strings, token counts as \<open>int64\<close>, charges computed on exact rationals and rounded once
  to twelve decimals. \<open>Price\<close> rounds half to even, \<open>Reserve\<close> rounds up. On an error Go
  returns the charge built so far beside the error; callers discard it, and the model
  returns the error alone.

  Shown: both rounding modes satisfy \<open>integer_rounding\<close>; a printed amount reads back as the
  rounded number of units; \<open>Price\<close> rounds the exact sum once and converts the unrounded sum;
  exactly which inputs it accepts; a reservation covers every usage within its bounds.
\<close>

section \<open>Data\<close>

record Rates =
  r_Input :: string
  r_CacheRead :: string
  r_CacheWrite :: string
  r_CacheWrite5m :: string
  r_CacheWrite1h :: string
  r_Output :: string

record Units =
  u_Input :: int64
  u_CacheRead :: int64
  u_CacheWrite :: int64
  u_CacheWrite5m :: int64
  u_CacheWrite1h :: int64
  u_Output :: int64

record Line =
  l_Quantity :: string
  l_Kind :: string
  l_Units :: int64
  l_Rate :: string
  l_Amount :: string

record Charge =
  c_Currency :: string
  c_Amount :: string
  c_USD :: string
  c_ExchangeRate :: string
  c_Lines :: "Line list"

datatype metering_error =
    InvalidDecimal
  | RateError string metering_error
  | BadCurrency
  | NegativeUnits string
  | PriceMissing string
  | BadExchangeRate
  | NegativeBounds
  | UnsupportedUnit

section \<open>Decimals\<close>

definition decimalPattern :: "string \<Rightarrow> bool" where
  "decimalPattern s =
     (let ip = takeWhile is_digit_char s; rest = dropWhile is_digit_char s in
      (ip = ''0'' \<or> ip \<noteq> [] \<and> hd ip \<noteq> CHR ''0'' \<and> length ip \<le> 18) \<and>
      (case rest of
         [] \<Rightarrow> True
       | c # fp \<Rightarrow> c = CHR ''.'' \<and> fp \<noteq> [] \<and> length fp \<le> 12 \<and> list_all is_digit_char fp))"

definition currencyPattern :: "string \<Rightarrow> bool" where
  "currencyPattern s \<longleftrightarrow> length s = 3 \<and> list_all (\<lambda>c. 65 \<le> code_of c \<and> code_of c \<le> 90) s"

definition Decimal :: "string \<Rightarrow> metering_error + rat" where
  "Decimal value =
     (if \<not> decimalPattern value then Inl InvalidDecimal
      else case RatSetString value of None \<Rightarrow> Inl InvalidDecimal | Some q \<Rightarrow> Inr q)"

definition rate_values :: "Rates \<Rightarrow> string list" where
  "rate_values r =
     [r_Input r, r_CacheRead r, r_CacheWrite r, r_CacheWrite5m r, r_CacheWrite1h r, r_Output r]"

definition unit_values :: "Units \<Rightarrow> int64 list" where
  "unit_values u =
     [u_Input u, u_CacheRead u, u_CacheWrite u, u_CacheWrite5m u, u_CacheWrite1h u, u_Output u]"

definition names :: "string list" where
  "names = [''input'', ''cache_read'', ''cache_write'', ''cache_write_5m'', ''cache_write_1h'', ''output'']"

fun validate_values :: "bool \<Rightarrow> (string \<times> string) list \<Rightarrow> metering_error + unit" where
  "validate_values full [] = Inr ()"
| "validate_values full ((name, value) # rest) =
     (if value = [] \<and> \<not> full then validate_values full rest
      else case Decimal value of
             Inl e \<Rightarrow> Inl (RateError name e)
           | Inr _ \<Rightarrow> validate_values full rest)"

definition Validate :: "Rates \<Rightarrow> bool \<Rightarrow> metering_error + unit" where
  "Validate r full = validate_values full (zip names (rate_values r))"

section \<open>Rounding to twelve decimals\<close>

definition round_scaled :: "rat \<Rightarrow> bool \<Rightarrow> int" where
  "round_scaled scaled ceil =
     (let (n, d) = quotient_of scaled;
          quo = tquot n d;
          rmd = n - quo * d
      in if ceil \<and> rmd > 0 \<or>
            \<not> ceil \<and> (2 * rmd > d \<or> 2 * rmd = d \<and> odd quo)
         then quo + 1 else quo)"

definition format12 :: "int \<Rightarrow> string" where
  "format12 quo =
     (let digits = show_int quo;
          padded = (if length digits \<le> 12
                    then replicate (13 - length digits) (CHR ''0'') @ digits else digits)
      in take (length padded - 12) padded @ CHR ''.'' # drop (length padded - 12) padded)"

definition round12 :: "rat \<Rightarrow> bool \<Rightarrow> string" where
  "round12 value ceil = format12 (round_scaled (value * 1000000000000) ceil)"

section \<open>Prices and reservations\<close>

fun price_lines ::
  "(string \<times> string \<times> int64) list \<Rightarrow> rat \<Rightarrow> Line list \<Rightarrow> metering_error + rat \<times> Line list" where
  "price_lines [] tot lines = Inr (tot, lines)"
| "price_lines ((name, value, cnt) # rest) tot lines =
     (if cnt < 0 then Inl (NegativeUnits name)
      else if cnt = 0 then price_lines rest tot lines
      else case Decimal value of
             Inl _ \<Rightarrow> Inl (PriceMissing name)
           | Inr rate \<Rightarrow>
               let amount = rate * (of_int cnt / 1000000)
               in price_lines rest (tot + amount)
                    (lines @ [\<lparr>l_Quantity = [], l_Kind = name, l_Units = cnt, l_Rate = value,
                               l_Amount = round12 amount False\<rparr>]))"

definition settle_currency :: "metering_error \<Rightarrow> Charge \<Rightarrow> rat \<Rightarrow> string \<Rightarrow> string \<Rightarrow> metering_error + Charge" where
  "settle_currency err charge tot currency fx =
     (if currency = ''USD'' then
        Inr (charge\<lparr>c_USD := c_Amount charge, c_ExchangeRate := ''1''\<rparr>)
      else if fx \<noteq> [] then
        (case Decimal fx of
           Inl _ \<Rightarrow> Inl err
         | Inr rate \<Rightarrow> if rate \<le> 0 then Inl err
                      else Inr (charge\<lparr>c_USD := round12 (tot * rate) False\<rparr>))
      else Inr charge)"

definition Price :: "Rates \<Rightarrow> Units \<Rightarrow> string \<Rightarrow> string \<Rightarrow> metering_error + Charge" where
  "Price r u currency fx =
     (if \<not> currencyPattern currency then Inl BadCurrency
      else rbind (Validate r False) (\<lambda>_.
        rbind (price_lines (zip names (zip (rate_values r) (unit_values u))) 0 []) (\<lambda>(tot, lines).
          settle_currency BadExchangeRate
            \<lparr>c_Currency = currency, c_Amount = round12 tot False, c_USD = [],
             c_ExchangeRate = fx, c_Lines = lines\<rparr> tot currency fx)))"

fun max_rate :: "rat \<Rightarrow> string list \<Rightarrow> rat" where
  "max_rate m [] = m"
| "max_rate m (value # rest) =
     (case Decimal value of
        Inl _ \<Rightarrow> max_rate m rest
      | Inr rate \<Rightarrow> max_rate (if rate > m then rate else m) rest)"

definition Reserve :: "Rates \<Rightarrow> int64 \<Rightarrow> int64 \<Rightarrow> metering_error + string" where
  "Reserve r inputBound outputBound =
     (if inputBound < 0 \<or> outputBound < 0 then Inl NegativeBounds
      else rbind (Validate r True) (\<lambda>_. rbind (Decimal (r_Output r)) (\<lambda>output.
        Inr (round12 ((max_rate 0 (take 5 (rate_values r)) * of_int inputBound
                       + output * of_int outputBound) / 1000000) True))))"

definition PriceNative :: "string \<Rightarrow> int64 \<Rightarrow> string \<Rightarrow> string \<Rightarrow> string \<Rightarrow> metering_error + Charge" where
  "PriceNative unit quantity rate currency fx =
     (if unit \<noteq> ''search_unit'' \<or> quantity < 0 then Inl UnsupportedUnit
      else if \<not> currencyPattern currency then Inl BadCurrency
      else rbind (Decimal rate) (\<lambda>parsed.
        let amount = parsed * of_int quantity in
        settle_currency BadExchangeRate
          \<lparr>c_Currency = currency, c_Amount = round12 amount False, c_USD = [], c_ExchangeRate = fx,
           c_Lines = [\<lparr>l_Quantity = [], l_Kind = unit, l_Units = quantity, l_Rate = rate,
                       l_Amount = round12 amount False\<rparr>]\<rparr> amount currency fx))"

section \<open>The rounding modes\<close>

lemma compare_half:
  assumes "0 < d"
  shows "(1 / 2 < of_int m / (of_int d :: rat)) \<longleftrightarrow> d < 2 * m"
    and "(of_int m / (of_int d :: rat) = 1 / 2) \<longleftrightarrow> 2 * m = d"
proof -
  have "(1 / 2 < of_int m / (of_int d :: rat)) \<longleftrightarrow> (of_int d :: rat) < of_int (2 * m)"
    using assms by (simp add: field_simps)
  then show "(1 / 2 < of_int m / (of_int d :: rat)) \<longleftrightarrow> d < 2 * m"
    by (simp only: of_int_less_iff)
  have "(of_int m / (of_int d :: rat) = 1 / 2) \<longleftrightarrow> (of_int (2 * m) :: rat) = of_int d"
    using assms by (auto simp: field_simps)
  then show "(of_int m / (of_int d :: rat) = 1 / 2) \<longleftrightarrow> 2 * m = d"
    by (simp only: of_int_eq_iff)
qed

lemma round_scaled_half_even: "0 \<le> x \<Longrightarrow> round_scaled x False = half_even x"
proof -
  assume x: "0 \<le> x"
  obtain n d where q: "quotient_of x = (n, d)" by (cases "quotient_of x")
  then have d: "0 < d" by (rule quotient_of_denom_pos)
  have "0 \<le> of_int n / (of_int d :: rat)" using x quotient_of_div [OF q] by simp
  with d have n: "0 \<le> n" by (simp add: zero_le_divide_iff)
  have r: "n - n div d * d = n mod d" by (simp add: minus_div_mult_eq_mod)
  have gt: "frac x > 1 / 2 \<longleftrightarrow> 2 * (n mod d) > d"
    by (simp only: frac_quotient_of [OF q] compare_half [OF d])
  have eq: "frac x = 1 / 2 \<longleftrightarrow> 2 * (n mod d) = d"
    by (simp only: frac_quotient_of [OF q] compare_half [OF d])
  show ?thesis
    unfolding round_scaled_def q tquot_nonneg [OF n d] Let_def prod.case r half_even_def gt eq
      floor_quotient_of [OF q]
    by simp
qed

lemma ceiling_quotient_of: "quotient_of x = (n, d) \<Longrightarrow> \<lceil>x\<rceil> = - ((- n) div d)"
  using quotient_of_div [of x n d] by (simp add: ceiling_def flip: of_int_minus)
    (metis floor_divide_of_int_eq minus_divide_left of_int_minus)

lemma round_scaled_neg: "x < 0 \<Longrightarrow> round_scaled x c = \<lceil>x\<rceil>"
proof -
  assume x: "x < 0"
  obtain n d where q: "quotient_of x = (n, d)" by (cases "quotient_of x")
  then have d: "0 < d" by (rule quotient_of_denom_pos)
  have "of_int n / (of_int d :: rat) < 0" using x quotient_of_div [OF q] by simp
  with d have n: "n < 0" by (simp add: divide_less_0_iff)
  show ?thesis using tquot_neg [OF n d] d
    by (auto simp: round_scaled_def q ceiling_quotient_of [OF q] Let_def)
qed

lemma round_scaled_ceiling: "round_scaled x True = \<lceil>x\<rceil>"
proof (cases "x < 0")
  case True
  then show ?thesis by (rule round_scaled_neg)
next
  case False
  obtain n d where q: "quotient_of x = (n, d)" by (cases "quotient_of x")
  then have d: "0 < d" by (rule quotient_of_denom_pos)
  have "0 \<le> of_int n / (of_int d :: rat)" using False quotient_of_div [OF q] by simp
  with d have n: "0 \<le> n" by (simp add: zero_le_divide_iff)
  have r: "n - n div d * d = n mod d" by (simp add: minus_div_mult_eq_mod)
  have "0 \<le> n mod d" using d by simp
  moreover have "(- n) div d = - (n div d) - (if n mod d = 0 then 0 else 1)"
    using d by (simp add: zdiv_zminus1_eq_if)
  ultimately show ?thesis
    unfolding round_scaled_def q tquot_nonneg [OF n d] Let_def prod.case r ceiling_quotient_of [OF q]
    by auto
qed

interpretation round_nearest: integer_rounding "\<lambda>x. round_scaled x False"
proof
  show "round_scaled (of_int z) False = z" for z
    by (cases "of_int z < (0::rat)") (simp_all add: round_scaled_neg round_scaled_half_even)
  show "round_scaled x False \<le> round_scaled y False" if "x \<le> y" for x y
  proof (cases "x < 0")
    case True
    then have x: "round_scaled x False = \<lceil>x\<rceil>" by (rule round_scaled_neg)
    show ?thesis
    proof (cases "y < 0")
      case True
      then show ?thesis using that x by (simp add: round_scaled_neg ceiling_mono)
    next
      case False
      have "\<lceil>x\<rceil> \<le> 0" using \<open>x < 0\<close> by (simp add: ceiling_le_iff del: ceiling_le_zero)
      moreover have "0 \<le> half_even y" using False half_even_mono [of 0 y] half_even_of_int [of 0] by simp
      ultimately show ?thesis using x False by (simp only: round_scaled_half_even not_less)
    qed
  next
    case False
    then show ?thesis using that by (simp add: round_scaled_half_even half_even_mono)
  qed
qed

interpretation round_up: integer_rounding "\<lambda>x. round_scaled x True"
  by unfold_locales (simp_all add: round_scaled_ceiling ceiling_mono)

section \<open>Printed amounts\<close>

lemma format12_digits:
  assumes "0 \<le> q"
  obtains ip fp where "format12 q = ip @ CHR ''.'' # fp" and "list_all is_digit_char ip"
    and "ip \<noteq> []" and "list_all is_digit_char fp" and "length fp = 12"
    and "digits_val (ip @ fp) = nat q"
    and "ip = ''0'' \<or> hd ip \<noteq> CHR ''0''"
    and "q < 10 ^ 30 \<longrightarrow> length ip \<le> 18"
proof -
  define digits where "digits = show_nat (nat q)"
  define padded where "padded = (if length digits \<le> 12
    then replicate (13 - length digits) (CHR ''0'') @ digits else digits)"
  define ip where "ip = take (length padded - 12) padded"
  define fp where "fp = drop (length padded - 12) padded"
  have d: "list_all is_digit_char digits" by (simp add: digits_def show_nat_digits)
  have p: "list_all is_digit_char padded"
    using d by (auto simp: padded_def list_all_iff zero_char)
  have len: "13 \<le> length padded" by (simp add: padded_def)
  have val: "digits_val padded = nat q"
    by (simp add: padded_def zero_char digits_val_append digits_def)
  have cat: "ip @ fp = padded" by (simp add: ip_def fp_def)
  have "format12 q = ip @ CHR ''.'' # fp"
    using assms by (simp add: format12_def show_int_def digits_def padded_def ip_def fp_def Let_def)
  moreover have "list_all is_digit_char ip" and "list_all is_digit_char fp"
    using p by (auto simp: ip_def fp_def list_all_iff dest: in_set_takeD in_set_dropD)
  moreover have "ip \<noteq> []" and "length fp = 12" using len by (auto simp: ip_def fp_def)
  moreover have "ip = ''0'' \<or> hd ip \<noteq> CHR ''0''"
  proof (cases "length digits \<le> 12")
    case True
    then have pd: "padded = replicate (13 - length digits) (CHR ''0'') @ digits"
      by (simp add: padded_def)
    with True have "length padded = 13" by simp
    then have "ip = take 1 padded" by (simp add: ip_def)
    moreover obtain m where "13 - length digits = Suc m" using True by (cases "13 - length digits") auto
    ultimately show ?thesis using pd by simp
  next
    case False
    then have pd: "padded = digits" by (simp add: padded_def)
    have "hd digits \<noteq> CHR ''0''"
    proof
      assume "hd digits = CHR ''0''"
      then have "nat q = 0" using show_nat_hd_zero [of "nat q"] by (simp only: digits_def zero_char)
      then have "length digits = 1" by (simp add: digits_def show_nat.simps [of 0])
      with False show False by simp
    qed
    then show ?thesis using pd False by (simp add: ip_def hd_take)
  qed
  moreover have "q < 10 ^ 30 \<longrightarrow> length ip \<le> 18"
  proof
    assume "q < 10 ^ 30"
    then have "nat q < 10 ^ 30" using assms by (simp add: nat_less_iff)
    then have "length digits \<le> 30" unfolding digits_def by (rule show_nat_length_le) simp
    then show "length ip \<le> 18" by (auto simp: ip_def padded_def)
  qed
  moreover have "digits_val (ip @ fp) = nat q" using val cat by simp
  ultimately show thesis using that by blast
qed

lemma format12_value:
  assumes "0 \<le> q"
  shows "RatSetString (format12 q) = Some (of_int q / 10 ^ 12)"
proof -
  from assms obtain ip fp where f: "format12 q = ip @ CHR ''.'' # fp" and ds: "list_all is_digit_char ip"
    "ip \<noteq> []" "list_all is_digit_char fp" and l: "length fp = 12" and v: "digits_val (ip @ fp) = nat q"
    by (rule format12_digits)
  have "format12 q = dec_string False ip fp" using f l by (auto simp: dec_string_def)
  moreover have "(of_nat (nat q) :: rat) = of_int q" using assms by simp
  ultimately show ?thesis using RatSetString_decimal [OF ds, of False] l v by simp
qed

lemma round_scaled_nonneg: "0 \<le> x \<Longrightarrow> 0 \<le> round_scaled x c"
  using round_nearest.rnd_nonneg round_up.rnd_nonneg by (cases c) auto

lemma round12_value:
  assumes "0 \<le> q"
  shows "RatSetString (round12 q c) = Some (of_int (round_scaled (q * 10 ^ 12) c) / 10 ^ 12)"
  using format12_value [OF round_scaled_nonneg [of "q * 10 ^ 12" c]] assms
  by (simp add: round12_def)

lemma decimalPattern_intro:
  assumes "list_all is_digit_char ip" and "ip = ''0'' \<or> ip \<noteq> [] \<and> hd ip \<noteq> CHR ''0'' \<and> length ip \<le> 18"
    and "list_all is_digit_char fp" and "fp \<noteq> []" and "length fp \<le> 12"
  shows "decimalPattern (ip @ CHR ''.'' # fp)"
proof -
  have "\<not> is_digit_char (CHR ''.'')" by (simp add: is_digit_char_def code_of_def)
  then have "takeWhile is_digit_char (ip @ CHR ''.'' # fp) = ip"
    and "dropWhile is_digit_char (ip @ CHR ''.'' # fp) = CHR ''.'' # fp"
    using assms(1) by (simp_all add: list_all_iff takeWhile_append dropWhile_append3)
  then show ?thesis using assms by (simp add: decimalPattern_def)
qed

lemma decimalPattern_parts:
  assumes "decimalPattern s"
  obtains ip fp where "s = dec_string False ip fp" and "list_all is_digit_char ip" and "ip \<noteq> []"
    and "list_all is_digit_char fp" and "length fp \<le> 12"
proof -
  define ip where "ip = takeWhile is_digit_char s"
  define rest where "rest = dropWhile is_digit_char s"
  define fp where "fp = tl rest"
  have ip: "list_all is_digit_char ip" by (auto simp: ip_def list_all_iff dest: set_takeWhileD)
  have ne: "ip \<noteq> []"
    using assms unfolding decimalPattern_def Let_def ip_def [symmetric] by auto
  have "rest = [] \<or> (\<exists>f. rest = CHR ''.'' # f \<and> f \<noteq> [] \<and> length f \<le> 12 \<and> list_all is_digit_char f)"
    using assms unfolding decimalPattern_def Let_def rest_def [symmetric] by (cases rest) auto
  then have fp: "list_all is_digit_char fp" "length fp \<le> 12" "rest = (if fp = [] then [] else CHR ''.'' # fp)"
    by (auto simp: fp_def)
  have "s = ip @ rest" by (simp add: ip_def rest_def)
  then have "s = dec_string False ip fp"
    by (simp add: dec_string_def fp(3) flip: fp_def)
  then show thesis using ip ne fp(1,2) that by blast
qed

lemma Decimal_total: "decimalPattern s \<Longrightarrow> \<exists>q. Decimal s = Inr q \<and> 0 \<le> q"
proof -
  assume pat: "decimalPattern s"
  then obtain ip fp where s: "s = dec_string False ip fp" and ds: "list_all is_digit_char ip" "ip \<noteq> []"
    "list_all is_digit_char fp" and l: "length fp \<le> 12"
    by (rule decimalPattern_parts)
  have "RatSetString s = Some (of_nat (digits_val (ip @ fp)) / 10 ^ length fp)"
    using RatSetString_decimal [OF ds, of False] l s by simp
  moreover have "(0::rat) \<le> of_nat (digits_val (ip @ fp)) / 10 ^ length fp"
    by (simp only: of_nat_0_le_iff zero_le_divide_iff) simp
  ultimately show ?thesis using pat by (simp add: Decimal_def)
qed

lemma Decimal_Inr_iff: "(\<exists>q. Decimal s = Inr q) \<longleftrightarrow> decimalPattern s"
  using Decimal_total by (auto simp: Decimal_def split: if_splits)

lemma Decimal_nonneg: "Decimal s = Inr q \<Longrightarrow> 0 \<le> q"
  using Decimal_total [of s] Decimal_Inr_iff [of s] by auto

lemma Decimal_format12:
  assumes "0 \<le> q" and "q < 10 ^ 30"
  shows "Decimal (format12 q) = Inr (of_int q / 10 ^ 12)"
proof -
  from assms(1) obtain ip fp where f: "format12 q = ip @ CHR ''.'' # fp" "list_all is_digit_char ip"
    "ip \<noteq> []" "list_all is_digit_char fp" "length fp = 12" "ip = ''0'' \<or> hd ip \<noteq> CHR ''0''"
    "q < 10 ^ 30 \<longrightarrow> length ip \<le> 18"
    by (rule format12_digits)
  then have "decimalPattern (format12 q)" using decimalPattern_intro [of ip fp] assms(2) by force
  then show ?thesis using format12_value [OF assms(1)] by (simp add: Decimal_def)
qed

section \<open>What a price is\<close>

text \<open>The exact charge of a usage: a missing rate only ever meets zero units.\<close>

definition rate_of :: "string \<Rightarrow> rat" where
  "rate_of value = (case Decimal value of Inl _ \<Rightarrow> 0 | Inr q \<Rightarrow> q)"

definition exact_total :: "Rates \<Rightarrow> Units \<Rightarrow> rat" where
  "exact_total r u =
     (\<Sum>(value, n) \<leftarrow> zip (rate_values r) (unit_values u). rate_of value * of_int n / 1000000)"

definition price_line :: "string \<times> string \<times> int64 \<Rightarrow> Line" where
  "price_line x = (case x of (name, value, n) \<Rightarrow>
     \<lparr>l_Quantity = [], l_Kind = name, l_Units = n, l_Rate = value,
      l_Amount = round12 (rate_of value * of_int n / 1000000) False\<rparr>)"

lemma rate_of_nonneg [simp]: "0 \<le> rate_of v"
  by (auto simp: rate_of_def Decimal_nonneg split: sum.splits)

lemma price_lines_result:
  "price_lines xs t ls = Inr (t', ls') \<longleftrightarrow>
     list_all (\<lambda>(name, v, n). 0 \<le> n \<and> (0 < n \<longrightarrow> (\<exists>q. Decimal v = Inr q))) xs \<and>
     t' = t + (\<Sum>(name, v, n) \<leftarrow> xs. rate_of v * of_int n / 1000000) \<and>
     ls' = ls @ map price_line (filter (\<lambda>(name, v, n). n \<noteq> 0) xs)"
proof (induction xs arbitrary: t ls)
  case Nil
  show ?case by auto
next
  case (Cons x xs)
  obtain name v n where x: "x = (name, v, n)" by (cases x)
  show ?case
  proof (cases "n > 0 \<and> (\<exists>q. Decimal v = Inr q)")
    case True
    then obtain q where q: "Decimal v = Inr q" by blast
    then have "rate_of v = q" by (simp add: rate_of_def)
    with True q show ?thesis
      by (simp add: x Cons.IH price_line_def Let_def add.assoc)
  next
    case False
    then show ?thesis
      by (cases "Decimal v") (auto simp: x Cons.IH)
  qed
qed

lemma zip_names_total:
  "(\<Sum>(name, v, n) \<leftarrow> zip names (zip (rate_values r) (unit_values u)). rate_of v * of_int n / 1000000)
     = exact_total r u"
  by (simp add: exact_total_def names_def rate_values_def unit_values_def)

lemma exact_total_nonneg:
  "list_all (\<lambda>n. 0 \<le> n) (unit_values u) \<Longrightarrow> 0 \<le> exact_total r u"
  by (simp add: exact_total_def rate_values_def unit_values_def)

lemma settle_currency_fields:
  "settle_currency e charge tot cur fx = Inr c \<Longrightarrow>
     c_Amount c = c_Amount charge \<and> c_Lines c = c_Lines charge \<and> c_Currency c = c_Currency charge"
  by (auto simp: settle_currency_def split: if_splits sum.splits)

lemma Price_result:
  assumes "Price r u currency fx = Inr c"
  shows "list_all (\<lambda>n. 0 \<le> n) (unit_values u)"
    and "c_Amount c = round12 (exact_total r u) False"
    and "c_Lines c = map price_line
           (filter (\<lambda>(name, v, n). n \<noteq> 0) (zip names (zip (rate_values r) (unit_values u))))"
    and "settle_currency BadExchangeRate
           \<lparr>c_Currency = currency, c_Amount = round12 (exact_total r u) False, c_USD = [],
            c_ExchangeRate = fx, c_Lines = c_Lines c\<rparr> (exact_total r u) currency fx = Inr c"
proof -
  from assms obtain tot ls where
    pl: "price_lines (zip names (zip (rate_values r) (unit_values u))) 0 [] = Inr (tot, ls)" and
    st: "settle_currency BadExchangeRate \<lparr>c_Currency = currency, c_Amount = round12 tot False,
      c_USD = [], c_ExchangeRate = fx, c_Lines = ls\<rparr> tot currency fx = Inr c"
    by (auto simp: Price_def rbind_eq_Inr_iff split: if_splits)
  from pl have tot: "tot = exact_total r u"
    and ls: "ls = map price_line
      (filter (\<lambda>(name, v, n). n \<noteq> 0) (zip names (zip (rate_values r) (unit_values u))))"
    by (auto simp: price_lines_result zip_names_total)
  from pl have "list_all (\<lambda>(name, v, n). 0 \<le> n) (zip names (zip (rate_values r) (unit_values u)))"
    unfolding price_lines_result by (auto simp: list_all_iff)
  then show "list_all (\<lambda>n. 0 \<le> n) (unit_values u)"
    by (simp add: names_def rate_values_def unit_values_def)
  show "c_Amount c = round12 (exact_total r u) False"
    and "c_Lines c = map price_line
      (filter (\<lambda>(name, v, n). n \<noteq> 0) (zip names (zip (rate_values r) (unit_values u))))"
    using settle_currency_fields [OF st] tot ls by auto
  show "settle_currency BadExchangeRate
     \<lparr>c_Currency = currency, c_Amount = round12 (exact_total r u) False, c_USD = [],
      c_ExchangeRate = fx, c_Lines = c_Lines c\<rparr> (exact_total r u) currency fx = Inr c"
    using st settle_currency_fields [OF st] tot by auto
qed

section \<open>Properties\<close>

lemma round12_half_even:
  "0 \<le> q \<Longrightarrow> RatSetString (round12 q False) = Some (of_int (half_even (q * 10 ^ 12)) / 10 ^ 12)"
  by (simp add: round12_value round_scaled_half_even)

text \<open>\<open>round\<close> prints a nearest multiple of one \<open>10 ^ -12\<close> unit, a tie going to the even
  one; asked for the ceiling it prints the least multiple that is not below the amount.\<close>

theorem round12_correct:
  assumes "0 \<le> q"
  shows "(\<exists>m :: int. RatSetString (round12 q False) = Some (of_int m / 10 ^ 12) \<and>
           \<bar>of_int m / 10 ^ 12 - q\<bar> \<le> 1 / (2 * 10 ^ 12) \<and>
           (\<bar>of_int m / 10 ^ 12 - q\<bar> = 1 / (2 * 10 ^ 12) \<longrightarrow> even m)) \<and>
         (\<exists>m :: int. RatSetString (round12 q True) = Some (of_int m / 10 ^ 12) \<and>
           q \<le> of_int m / 10 ^ 12 \<and> of_int m / 10 ^ 12 < q + 1 / 10 ^ 12)"
proof (rule conjI)
  let ?x = "q * 10 ^ 12" and ?m = "half_even (q * 10 ^ 12)"
  have scale: "\<bar>of_int k / 10 ^ 12 - q\<bar> = \<bar>of_int k - ?x\<bar> / 10 ^ 12" for k :: int
    by (simp add: abs_divide field_simps flip: abs_mult)
  show "\<exists>m :: int. RatSetString (round12 q False) = Some (of_int m / 10 ^ 12) \<and>
      \<bar>of_int m / 10 ^ 12 - q\<bar> \<le> 1 / (2 * 10 ^ 12) \<and>
      (\<bar>of_int m / 10 ^ 12 - q\<bar> = 1 / (2 * 10 ^ 12) \<longrightarrow> even m)"
    using half_even_nearest [of ?x] half_even_tie [of ?x]
    by (intro exI [of _ ?m]) (simp add: round12_half_even [OF assms] scale field_simps)
  show "\<exists>m :: int. RatSetString (round12 q True) = Some (of_int m / 10 ^ 12) \<and>
      q \<le> of_int m / 10 ^ 12 \<and> of_int m / 10 ^ 12 < q + 1 / 10 ^ 12"
    using le_of_int_ceiling [of ?x] ceiling_correct [of ?x]
    by (intro exI [of _ "\<lceil>?x\<rceil>"]) (simp add: round12_value [OF assms] round_scaled_ceiling field_simps)
qed

theorem round12_correct_witness:
  "\<exists>m :: int. RatSetString (round12 (1 / 3) False) = Some (of_int m / 10 ^ 12) \<and>
     \<bar>of_int m / 10 ^ 12 - 1 / 3\<bar> \<le> 1 / (2 * 10 ^ 12 :: rat)"
  using round12_correct [of "1 / 3"] by auto

definition sample_rates :: Rates where
  "sample_rates = \<lparr>r_Input = ''2.5'', r_CacheRead = ''0.25'', r_CacheWrite = ''3'',
     r_CacheWrite5m = ''3'', r_CacheWrite1h = ''5'', r_Output = ''10''\<rparr>"

definition sample_units :: Units where
  "sample_units = \<lparr>u_Input = 1200, u_CacheRead = 300, u_CacheWrite = 0, u_CacheWrite5m = 0,
     u_CacheWrite1h = 0, u_Output = 77\<rparr>"

lemma sample_decimals:
  "decimalPattern ''2.5''" "decimalPattern ''0.25''" "decimalPattern ''3''" "decimalPattern ''5''"
  "decimalPattern ''10''" "currencyPattern ''USD''"
  by code_simp+

lemma validate_values_ok:
  "validate_values full xs = Inr () \<longleftrightarrow>
     list_all (\<lambda>(name, v). v = [] \<and> \<not> full \<or> decimalPattern v) xs"
proof (induction xs)
  case Nil
  show ?case by simp
next
  case (Cons x xs)
  obtain name v where x: "x = (name, v)" by (cases x)
  show ?case
  proof (cases "decimalPattern v")
    case True
    with Decimal_total obtain q where "Decimal v = Inr q" by blast
    with True Cons show ?thesis by (cases full) (simp_all add: x)
  next
    case False
    then have "Decimal v = Inl InvalidDecimal" by (simp add: Decimal_def)
    with False Cons show ?thesis by (cases full) (simp_all add: x)
  qed
qed

lemma Validate_ok:
  "Validate r full = Inr () \<longleftrightarrow> list_all (\<lambda>v. v = [] \<and> \<not> full \<or> decimalPattern v) (rate_values r)"
  unfolding Validate_def validate_values_ok by (simp add: names_def rate_values_def)

lemma rates_present:
  "list_all (\<lambda>v. v = [] \<or> decimalPattern v) rs \<and>
   list_all (\<lambda>(v, n). (0::int) \<le> n \<and> (0 < n \<longrightarrow> decimalPattern v)) (zip rs us) \<longleftrightarrow>
   list_all (\<lambda>v. v = [] \<or> decimalPattern v) rs \<and>
   list_all (\<lambda>(v, n). 0 \<le> n \<and> (0 < n \<longrightarrow> v \<noteq> [])) (zip rs us)"
proof -
  have "\<not> decimalPattern []" by (simp add: decimalPattern_def)
  then show ?thesis by (induction rs us rule: list_induct2') auto
qed

lemma settle_currency_ok:
  "(\<exists>c. settle_currency e charge tot currency fx = Inr c) \<longleftrightarrow>
     currency = ''USD'' \<or> fx = [] \<or> (\<exists>q > 0. Decimal fx = Inr q)"
  by (auto simp: settle_currency_def split: sum.splits)

text \<open>(C38) \<open>Price\<close> accepts exactly: a three-letter upper-case currency; rates that are empty or
  decimals; non-negative counts with a rate for every non-zero one; and, for a currency other
  than USD with an exchange rate given, a positive decimal exchange rate.\<close>

theorem Price_accepts:
  "(\<exists>c. Price r u currency fx = Inr c) \<longleftrightarrow>
     currencyPattern currency \<and>
     list_all (\<lambda>v. v = [] \<or> decimalPattern v) (rate_values r) \<and>
     list_all (\<lambda>(v, n). 0 \<le> n \<and> (0 < n \<longrightarrow> v \<noteq> [])) (zip (rate_values r) (unit_values u)) \<and>
     (currency = ''USD'' \<or> fx = [] \<or> (\<exists>q > 0. Decimal fx = Inr q))"
proof -
  let ?xs = "zip names (zip (rate_values r) (unit_values u))"
  have lines: "(\<exists>p. price_lines ?xs 0 [] = Inr p) \<longleftrightarrow>
      list_all (\<lambda>(v, n). 0 \<le> n \<and> (0 < n \<longrightarrow> decimalPattern v)) (zip (rate_values r) (unit_values u))"
    by (simp add: price_lines_result Decimal_Inr_iff split_paired_Ex)
      (simp add: names_def rate_values_def unit_values_def)
  have "(\<exists>c. Price r u currency fx = Inr c) \<longleftrightarrow>
      currencyPattern currency \<and> Validate r False = Inr () \<and> (\<exists>p. price_lines ?xs 0 [] = Inr p) \<and>
      (currency = ''USD'' \<or> fx = [] \<or> (\<exists>q > 0. Decimal fx = Inr q))"
    by (cases "Validate r False"; cases "price_lines ?xs 0 []")
      (simp_all add: Price_def settle_currency_ok split_beta)
  also have "\<dots> \<longleftrightarrow> currencyPattern currency \<and>
     list_all (\<lambda>v. v = [] \<or> decimalPattern v) (rate_values r) \<and>
     list_all (\<lambda>(v, n). 0 \<le> n \<and> (0 < n \<longrightarrow> v \<noteq> [])) (zip (rate_values r) (unit_values u)) \<and>
     (currency = ''USD'' \<or> fx = [] \<or> (\<exists>q > 0. Decimal fx = Inr q))"
    unfolding lines Validate_ok using rates_present [of "rate_values r" "unit_values u"] by auto
  finally show ?thesis .
qed

theorem Price_accepts_witness: "\<exists>c. Price sample_rates sample_units ''USD'' [] = Inr c"
  using Price_accepts [of sample_rates sample_units "''USD''" "[]"] sample_decimals
  by (simp add: sample_rates_def sample_units_def rate_values_def unit_values_def)

lemma sample_price: "\<exists>c. Price sample_rates sample_units ''USD'' [] = Inr c"
proof -
  have v: "Validate sample_rates False = Inr ()"
    using sample_decimals by (simp add: Validate_ok sample_rates_def rate_values_def)
  have "\<exists>q. Decimal ''2.5'' = Inr q" "\<exists>q. Decimal ''0.25'' = Inr q" "\<exists>q. Decimal ''10'' = Inr q"
    using sample_decimals by (simp_all add: Decimal_Inr_iff)
  then obtain p where "price_lines (zip names (zip (rate_values sample_rates) (unit_values sample_units))) 0 [] = Inr p"
    by (auto simp: names_def rate_values_def unit_values_def sample_rates_def sample_units_def Let_def)
  with v show ?thesis using sample_decimals
    by (cases p) (simp add: Price_def settle_currency_def)
qed

text \<open>(C1) \<open>Price\<close> adds the exact amounts of all categories and rounds their sum once, half to
  even; a foreign currency is converted from the unrounded sum, USD is its own amount, and
  one line per used category records its own rounded amount.\<close>

theorem Price_exact:
  assumes "Price r u currency fx = Inr c"
  shows "RatSetString (c_Amount c) = Some (of_int (half_even (exact_total r u * 10 ^ 12)) / 10 ^ 12) \<and>
    (currency = ''USD'' \<longrightarrow> c_USD c = c_Amount c \<and> c_ExchangeRate c = ''1'') \<and>
    (currency \<noteq> ''USD'' \<and> fx \<noteq> [] \<longrightarrow> (\<exists>rate > 0. Decimal fx = Inr rate \<and>
       RatSetString (c_USD c) = Some (of_int (half_even (exact_total r u * rate * 10 ^ 12)) / 10 ^ 12))) \<and>
    (currency \<noteq> ''USD'' \<and> fx = [] \<longrightarrow> c_USD c = []) \<and>
    c_Lines c = map price_line
      (filter (\<lambda>(name, v, n). n \<noteq> 0) (zip names (zip (rate_values r) (unit_values u))))"
proof (intro conjI)
  note res = Price_result [OF assms]
  have nn: "0 \<le> exact_total r u" by (rule exact_total_nonneg [OF res(1)])
  show "RatSetString (c_Amount c) = Some (of_int (half_even (exact_total r u * 10 ^ 12)) / 10 ^ 12)"
    using res(2) round12_half_even [OF nn] by simp
  show "currency = ''USD'' \<longrightarrow> c_USD c = c_Amount c \<and> c_ExchangeRate c = ''1''"
    using res(4) by (cases c) (auto simp: settle_currency_def)
  show "currency \<noteq> ''USD'' \<and> fx = [] \<longrightarrow> c_USD c = []"
    using res(4) by (cases c) (auto simp: settle_currency_def)
  show "currency \<noteq> ''USD'' \<and> fx \<noteq> [] \<longrightarrow> (\<exists>rate > 0. Decimal fx = Inr rate \<and>
      RatSetString (c_USD c) = Some (of_int (half_even (exact_total r u * rate * 10 ^ 12)) / 10 ^ 12))"
    using res(4) nn
    by (cases c) (auto simp: settle_currency_def round12_half_even split: sum.splits if_splits)
qed (rule Price_result(3) [OF assms])

theorem Price_exact_witness:
  "\<exists>c. Price sample_rates sample_units ''USD'' [] = Inr c \<and>
     RatSetString (c_Amount c) =
       Some (of_int (half_even (exact_total sample_rates sample_units * 10 ^ 12)) / 10 ^ 12)"
proof -
  obtain c where "Price sample_rates sample_units ''USD'' [] = Inr c" using sample_price ..
  with Price_exact [OF this] show ?thesis by blast
qed

lemma max_rate_ge: "m \<le> max_rate m vs"
proof (induction vs arbitrary: m)
  case Nil
  show ?case by simp
next
  case (Cons v vs)
  show ?case
  proof (cases "Decimal v")
    case (Inl e)
    then show ?thesis using Cons by simp
  next
    case (Inr q)
    then show ?thesis using Cons.IH [of "if q > m then q else m"] by (auto split: if_splits)
  qed
qed

lemma max_rate_upper: "v \<in> set vs \<Longrightarrow> 0 \<le> m \<Longrightarrow> rate_of v \<le> max_rate m vs"
proof (induction vs arbitrary: m)
  case Nil
  then show ?case by simp
next
  case (Cons w vs)
  let ?m = "case Decimal w of Inl _ \<Rightarrow> m | Inr q \<Rightarrow> if q > m then q else m"
  have eq: "max_rate m (w # vs) = max_rate ?m vs" by (simp split: sum.split)
  have m: "0 \<le> ?m" "rate_of w \<le> ?m" using Cons.prems(2) by (auto simp: rate_of_def split: sum.split)
  show ?case
  proof (cases "v = w")
    case True
    then show ?thesis using m(2) max_rate_ge [of ?m vs] eq by simp
  next
    case False
    then show ?thesis using Cons.IH [of ?m] Cons.prems(1) m(1) eq by simp
  qed
qed

lemma exact_total_bound:
  assumes nn: "list_all (\<lambda>n. 0 \<le> n) (unit_values u)"
    and inp: "u_Input u + u_CacheRead u + u_CacheWrite u + u_CacheWrite5m u + u_CacheWrite1h u \<le> ib"
    and out: "u_Output u \<le> ob"
  shows "exact_total r u \<le>
    (max_rate 0 (take 5 (rate_values r)) * of_int ib + rate_of (r_Output r) * of_int ob) / 1000000"
proof -
  let ?m = "max_rate 0 (take 5 (rate_values r))"
  have m0: "0 \<le> ?m" by (rule max_rate_ge)
  have le: "rate_of v * of_int n \<le> ?m * of_int n" if "v \<in> set (take 5 (rate_values r))" "0 \<le> n" for v n
    using max_rate_upper [OF that(1), of 0] that(2) by (simp add: mult_right_mono)
  have mem: "r_Input r \<in> set (take 5 (rate_values r))" "r_CacheRead r \<in> set (take 5 (rate_values r))"
    "r_CacheWrite r \<in> set (take 5 (rate_values r))" "r_CacheWrite5m r \<in> set (take 5 (rate_values r))"
    "r_CacheWrite1h r \<in> set (take 5 (rate_values r))"
    by (simp_all add: rate_values_def)
  have u: "0 \<le> u_Input u" "0 \<le> u_CacheRead u" "0 \<le> u_CacheWrite u" "0 \<le> u_CacheWrite5m u"
    "0 \<le> u_CacheWrite1h u" "0 \<le> u_Output u"
    using nn by (simp_all add: unit_values_def)
  have "rate_of (r_Input r) * of_int (u_Input u) + rate_of (r_CacheRead r) * of_int (u_CacheRead u)
      + rate_of (r_CacheWrite r) * of_int (u_CacheWrite u) + rate_of (r_CacheWrite5m r) * of_int (u_CacheWrite5m u)
      + rate_of (r_CacheWrite1h r) * of_int (u_CacheWrite1h u)
      \<le> ?m * of_int (u_Input u + u_CacheRead u + u_CacheWrite u + u_CacheWrite5m u + u_CacheWrite1h u)"
    using le [OF mem(1) u(1)] le [OF mem(2) u(2)] le [OF mem(3) u(3)] le [OF mem(4) u(4)] le [OF mem(5) u(5)]
    by (simp add: distrib_left)
  also have "\<dots> \<le> ?m * of_int ib" using inp m0 by (intro mult_left_mono) simp_all
  finally have inputs: "rate_of (r_Input r) * of_int (u_Input u) + rate_of (r_CacheRead r) * of_int (u_CacheRead u)
      + rate_of (r_CacheWrite r) * of_int (u_CacheWrite u) + rate_of (r_CacheWrite5m r) * of_int (u_CacheWrite5m u)
      + rate_of (r_CacheWrite1h r) * of_int (u_CacheWrite1h u) \<le> ?m * of_int ib" .
  have "rate_of (r_Output r) * of_int (u_Output u) \<le> rate_of (r_Output r) * of_int ob"
    using out by (intro mult_left_mono) simp_all
  with inputs show ?thesis
    by (simp add: exact_total_def rate_values_def unit_values_def divide_right_mono
        flip: add_divide_distrib)
qed

text \<open>(C2) A reservation covers the request: whenever \<open>Reserve\<close> accepted the bounds, a usage
  whose input categories together stay within the input bound and whose output stays within
  the output bound is never charged more than the reserved amount.\<close>

theorem Reserve_covers:
  assumes "Reserve r inputBound outputBound = Inr s" and "Price r u currency fx = Inr c"
    and "u_Input u + u_CacheRead u + u_CacheWrite u + u_CacheWrite5m u + u_CacheWrite1h u \<le> inputBound"
    and "u_Output u \<le> outputBound"
  shows "\<exists>charged reserved. RatSetString (c_Amount c) = Some charged \<and>
    RatSetString s = Some reserved \<and> charged \<le> reserved"
proof -
  let ?t = "exact_total r u"
  let ?b = "(max_rate 0 (take 5 (rate_values r)) * of_int inputBound
    + rate_of (r_Output r) * of_int outputBound) / 1000000"
  note res = Price_result [OF assms(2)]
  have s: "s = round12 ?b True"
    using assms(1) by (auto simp: Reserve_def rbind_eq_Inr_iff rate_of_def split: if_splits)
  have t0: "0 \<le> ?t" by (rule exact_total_nonneg [OF res(1)])
  have tb: "?t \<le> ?b" by (rule exact_total_bound [OF res(1) assms(3,4)])
  have "round_scaled (?t * 10 ^ 12) False \<le> \<lceil>?t * 10 ^ 12\<rceil>" by (rule round_nearest.rnd_le_ceiling)
  also have "\<dots> \<le> round_scaled (?b * 10 ^ 12) True"
    using tb by (simp add: round_scaled_ceiling ceiling_mono)
  finally have "(of_int (round_scaled (?t * 10 ^ 12) False) :: rat) / 10 ^ 12 \<le>
      of_int (round_scaled (?b * 10 ^ 12) True) / 10 ^ 12"
    by (simp add: divide_right_mono)
  moreover have "RatSetString (c_Amount c) = Some (of_int (round_scaled (?t * 10 ^ 12) False) / 10 ^ 12)"
    unfolding res(2) by (rule round12_value [OF t0])
  moreover have "RatSetString s = Some (of_int (round_scaled (?b * 10 ^ 12) True) / 10 ^ 12)"
    unfolding s using t0 tb by (intro round12_value) (rule order_trans)
  ultimately show ?thesis by blast
qed

lemma sample_reserve: "\<exists>s. Reserve sample_rates 1500 77 = Inr s"
proof -
  have "Validate sample_rates True = Inr ()"
    using sample_decimals by (simp add: Validate_ok sample_rates_def rate_values_def)
  moreover obtain q where "Decimal (r_Output sample_rates) = Inr q"
    using sample_decimals Decimal_Inr_iff [of "''10''"] by (auto simp: sample_rates_def)
  ultimately show ?thesis by (simp add: Reserve_def)
qed

theorem Reserve_covers_witness:
  "\<exists>s c charged reserved. Reserve sample_rates 1500 77 = Inr s \<and>
     Price sample_rates sample_units ''USD'' [] = Inr c \<and>
     RatSetString (c_Amount c) = Some charged \<and> RatSetString s = Some reserved \<and> charged \<le> reserved"
proof -
  obtain s where s: "Reserve sample_rates 1500 77 = Inr s" using sample_reserve ..
  obtain c where c: "Price sample_rates sample_units ''USD'' [] = Inr c" using sample_price ..
  have "u_Input sample_units + u_CacheRead sample_units + u_CacheWrite sample_units
      + u_CacheWrite5m sample_units + u_CacheWrite1h sample_units \<le> 1500"
    and "u_Output sample_units \<le> 77"
    by (simp_all add: sample_units_def)
  from Reserve_covers [OF s c this] s c show ?thesis by blast
qed

end
