(* ===== verification/GoFloat.thy ===== *)
theory GoFloat
  imports Rounding
begin

text \<open>
  Go's \<open>float64\<close>: not-a-number, the two infinities, or a finite value, which is a rational.
  Only the operations the modelled code uses are here: the tests \<open>IsNaN\<close> and \<open>IsInf\<close>,
  comparison, \<open>strconv.FormatFloat(v, 'f', k, 64)\<close>, which prints the exact value rounded half
  to even to \<open>k\<close> decimals, and addition, multiplication and division, which round the exact
  result to the nearest double with ties to even. The sign of a zero is not represented; an
  infinity carries \<open>True\<close> when it is negative.
\<close>

datatype f64 = NaN | Inf bool | Fin rat

fun f64_is_zero :: "f64 \<Rightarrow> bool" where
  "f64_is_zero (Fin q) = (q = 0)"
| "f64_is_zero _ = False"

definition fixed_digits :: "nat \<Rightarrow> nat \<Rightarrow> string \<times> string" where
  "fixed_digits k n =
     (let padded = pad_zeros (Suc k) (show_nat n)
      in (take (length padded - k) padded, drop (length padded - k) padded))"

definition FormatFixed :: "nat \<Rightarrow> rat \<Rightarrow> string" where
  "FormatFixed k q =
     (case fixed_digits k (nat (half_even (\<bar>q\<bar> * 10 ^ k))) of
        (ip, fp) \<Rightarrow> dec_string (q < 0) ip fp)"

lemma fixed_digits_props:
  assumes "fixed_digits k n = (ip, fp)"
  shows "list_all is_digit_char ip" and "ip \<noteq> []" and "list_all is_digit_char fp"
    and "length fp = k" and "digits_val (ip @ fp) = n"
proof -
  let ?p = "pad_zeros (Suc k) (show_nat n)"
  have ip: "ip = take (length ?p - k) ?p" and fp: "fp = drop (length ?p - k) ?p"
    using assms by (auto simp: fixed_digits_def Let_def)
  have len: "Suc k \<le> length ?p" by (simp add: length_pad_zeros)
  have "list_all is_digit_char ?p" by (intro pad_zeros_digits show_nat_digits)
  then show "list_all is_digit_char ip" and "list_all is_digit_char fp"
    by (auto simp: ip fp list_all_iff dest: in_set_takeD in_set_dropD)
  show "ip \<noteq> []" and "length fp = k" using len by (auto simp: ip fp)
  have "ip @ fp = ?p" by (simp add: ip fp)
  then show "digits_val (ip @ fp) = n" by simp
qed

lemma RatSetString_FormatFixed:
  assumes "k \<le> 1000000"
  shows "RatSetString (FormatFixed k q) =
    Some ((if q < 0 then - 1 else 1) * of_int (half_even (\<bar>q\<bar> * 10 ^ k)) / 10 ^ k)"
proof -
  let ?n = "half_even (\<bar>q\<bar> * 10 ^ k)"
  obtain ip fp where d: "fixed_digits k (nat ?n) = (ip, fp)" by fastforce
  note props = fixed_digits_props [OF d]
  have "0 \<le> ?n" using half_even_mono [of 0 "\<bar>q\<bar> * 10 ^ k"] half_even_of_int [of 0] by simp
  then have "(of_nat (nat ?n) :: rat) = of_int ?n" by simp
  moreover have "FormatFixed k q = dec_string (q < 0) ip fp" by (simp add: FormatFixed_def d)
  ultimately show ?thesis
    using RatSetString_decimal [OF props(1,2,3), of "q < 0"] props(4,5) assms by simp
qed

section \<open>Arithmetic\<close>

fun bit_length :: "nat \<Rightarrow> nat" where
  "bit_length n = (if n = 0 then 0 else Suc (bit_length (n div 2)))"

declare bit_length.simps [simp del]

definition pow2 :: "int \<Rightarrow> rat" where
  "pow2 e = (if e \<ge> 0 then 2 ^ nat e else 1 / 2 ^ nat (- e))"

text \<open>The exponent \<open>e\<close> of a positive rational, \<open>2 ^ e \<le> q < 2 ^ (e + 1)\<close>.\<close>

definition rat_exponent :: "rat \<Rightarrow> int" where
  "rat_exponent q =
     (case quotient_of q of (a, b) \<Rightarrow>
        let k = int (bit_length (nat a)) - int (bit_length (nat b))
        in if q < pow2 k then k - 1 else k)"

definition f64_round :: "rat \<Rightarrow> f64" where
  "f64_round q =
     (if q = 0 then Fin 0
      else let ulp = pow2 (max (rat_exponent \<bar>q\<bar>) (- 1022) - 52);
               r = of_int (half_even (q / ulp)) * ulp
           in if pow2 1024 \<le> \<bar>r\<bar> then Inf (q < 0) else Fin r)"

fun f64_add :: "f64 \<Rightarrow> f64 \<Rightarrow> f64" where
  "f64_add (Fin a) (Fin b) = f64_round (a + b)"
| "f64_add (Inf s) (Fin b) = Inf s"
| "f64_add (Fin a) (Inf s) = Inf s"
| "f64_add (Inf s) (Inf t) = (if s = t then Inf s else NaN)"
| "f64_add NaN y = NaN"
| "f64_add x NaN = NaN"

fun f64_mul :: "f64 \<Rightarrow> f64 \<Rightarrow> f64" where
  "f64_mul (Fin a) (Fin b) = f64_round (a * b)"
| "f64_mul (Inf s) (Fin b) = (if b = 0 then NaN else Inf (s \<noteq> (b < 0)))"
| "f64_mul (Fin a) (Inf s) = (if a = 0 then NaN else Inf (s \<noteq> (a < 0)))"
| "f64_mul (Inf s) (Inf t) = Inf (s \<noteq> t)"
| "f64_mul NaN y = NaN"
| "f64_mul x NaN = NaN"

text \<open>Division; a zero divisor is a positive zero.\<close>

fun f64_div :: "f64 \<Rightarrow> f64 \<Rightarrow> f64" where
  "f64_div (Fin a) (Fin b) = (if b = 0 then (if a = 0 then NaN else Inf (a < 0)) else f64_round (a / b))"
| "f64_div (Inf s) (Fin b) = Inf (s \<noteq> (b < 0))"
| "f64_div (Fin a) (Inf s) = Fin 0"
| "f64_div (Inf s) (Inf t) = NaN"
| "f64_div NaN y = NaN"
| "f64_div x NaN = NaN"

fun f64_less :: "f64 \<Rightarrow> f64 \<Rightarrow> bool" where
  "f64_less (Fin a) (Fin b) = (a < b)"
| "f64_less (Inf s) (Fin b) = s"
| "f64_less (Fin a) (Inf s) = (\<not> s)"
| "f64_less (Inf s) (Inf t) = (s \<and> \<not> t)"
| "f64_less NaN y = False"
| "f64_less x NaN = False"

definition f64_le :: "f64 \<Rightarrow> f64 \<Rightarrow> bool" where
  "f64_le x y \<longleftrightarrow> x \<noteq> NaN \<and> (f64_less x y \<or> x = y)"

lemma f64_less_irrefl [simp]: "\<not> f64_less x x"
  by (cases x) auto

lemma f64_less_trans: "f64_less x y \<Longrightarrow> f64_less y z \<Longrightarrow> f64_less x z"
  by (cases x; cases y; cases z) auto

lemma f64_le_less_trans: "f64_le x y \<Longrightarrow> f64_less y z \<Longrightarrow> f64_less x z"
  by (cases x; cases y; cases z) (auto simp: f64_le_def)

lemma f64_not_less: "x \<noteq> NaN \<Longrightarrow> y \<noteq> NaN \<Longrightarrow> \<not> f64_less x y \<longleftrightarrow> f64_le y x"
  by (cases x; cases y) (auto simp: f64_le_def)

lemma f64_round_not_NaN [simp]: "f64_round q \<noteq> NaN"
  by (simp add: f64_round_def Let_def)

text \<open>Small integers are represented exactly.\<close>

lemma bit_length_bounds: "0 < n \<Longrightarrow> 2 ^ (bit_length n - 1) \<le> n \<and> n < 2 ^ bit_length n"
proof (induction n rule: bit_length.induct)
  case (1 n)
  then have len: "bit_length n = Suc (bit_length (n div 2))" by (simp add: bit_length.simps)
  show ?case
  proof (cases "n div 2 = 0")
    case True
    then have "n = 1" using 1 by (simp add: div_eq_0_iff)
    then show ?thesis by (simp add: len bit_length.simps)
  next
    case False
    then have ih: "2 ^ (bit_length (n div 2) - 1) \<le> n div 2" "n div 2 < 2 ^ bit_length (n div 2)" using 1 by auto
    have pos: "0 < bit_length (n div 2)" using False by (simp add: bit_length.simps [of "n div 2"])
    then have "(2::nat) ^ bit_length (n div 2) = 2 * 2 ^ (bit_length (n div 2) - 1)" by (metis power_eq_if not_gr0)
    moreover have "2 ^ (bit_length n - 1) = (2::nat) ^ bit_length (n div 2)" "(2::nat) ^ bit_length n = 2 * 2 ^ bit_length (n div 2)"
      using len by simp_all
    ultimately show ?thesis using ih by linarith
  qed
qed

lemma rat_exponent_int:
  assumes "0 < n"
  shows "rat_exponent (of_int n) = int (bit_length (nat n)) - 1"
proof -
  have q: "quotient_of (of_int n) = (n, 1)" by (simp add: rat_number_collapse quotient_of_int Rat.quotient_of_int)
  have "0 < bit_length (nat n)" using assms by (simp add: bit_length.simps)
  moreover have "bit_length 1 = 1" by (simp add: bit_length.simps)
  moreover have "(2::rat) ^ (bit_length (nat n) - 1) \<le> of_int n"
  proof -
    have "2 ^ (bit_length (nat n) - 1) \<le> nat n" using bit_length_bounds [of "nat n"] assms by simp
    then have "int (2 ^ (bit_length (nat n) - 1)) \<le> n" using assms by linarith
    then have "(of_int (int (2 ^ (bit_length (nat n) - 1))) :: rat) \<le> of_int n" by (simp only: of_int_le_iff)
    then show ?thesis by simp
  qed
  ultimately show ?thesis by (simp add: rat_exponent_def q pow2_def nat_diff_distrib of_nat_diff Let_def)
qed

lemma f64_round_int:
  assumes "\<bar>n\<bar> < 2 ^ 53"
  shows "f64_round (of_int n) = Fin (of_int n)"
proof (cases "n = 0")
  case True
  then show ?thesis by (simp add: f64_round_def)
next
  case False
  let ?m = "nat \<bar>n\<bar>"
  have pos: "0 < ?m" using False by simp
  have len: "0 < bit_length ?m" using pos by (simp add: bit_length.simps)
  have "2 ^ (bit_length ?m - 1) \<le> ?m" using bit_length_bounds [OF pos] by simp
  also have "?m < 2 ^ 53" using assms by (simp add: nat_less_iff)
  finally have "(2::nat) ^ (bit_length ?m - 1) < 2 ^ 53" .
  then have "bit_length ?m - 1 < 53" by (rule power_less_imp_less_exp [rotated]) simp
  then have le: "bit_length ?m \<le> 53" by simp
  define k where "k = 53 - bit_length ?m"
  have e: "rat_exponent \<bar>of_int n\<bar> = 52 - int k"
    using rat_exponent_int [of "\<bar>n\<bar>"] False le by (simp add: k_def of_nat_diff)
  have ulp: "pow2 (max (rat_exponent \<bar>of_int n\<bar>) (- 1022) - 52) = 1 / 2 ^ k"
    using le by (auto simp: e pow2_def k_def max_def nat_diff_distrib)
  have "of_int n / (1 / 2 ^ k) = (of_int (n * 2 ^ k) :: rat)" by simp
  then have h: "half_even (of_int n / (1 / 2 ^ k)) = n * 2 ^ k" by (simp only: half_even_of_int)
  have r: "of_int (n * 2 ^ k) * (1 / 2 ^ k) = (of_int n :: rat)" by simp
  have "\<bar>of_int n :: rat\<bar> < 2 ^ 53" using assms by (metis of_int_abs of_int_less_iff of_int_numeral of_int_power)
  also have "\<dots> \<le> (2::rat) ^ 1024" by (rule power_increasing) simp_all
  also have "\<dots> = pow2 1024" by (simp add: pow2_def)
  finally have "\<not> pow2 1024 \<le> \<bar>of_int n :: rat\<bar>" by simp
  then show ?thesis using False unfolding f64_round_def Let_def ulp h r by simp
qed

end
