(* ===== verification/ReconMoney.thy ===== *)
theory ReconMoney
  imports GoFloat
begin

text \<open>
  Fixed-point amounts of the reconciliation package
  (\<open>backend/internal/reconciliation/money.go\<close>): an \<open>int64\<close> number of 10\<open>^-9\<close> units.
  Sums and products are checked and never equal the least \<open>int64\<close>; plain Go subtraction and
  negation wrap (\<open>wrap64\<close>).

  Shown: amounts round half away from zero and satisfy \<open>integer_rounding\<close>; printing and
  parsing an amount is the identity; addition is exact or fails, and fails exactly when the
  sum is not representable.
\<close>

section \<open>Errors\<close>

datatype ErrorKind = ErrorInvalidInput | ErrorConflict | ErrorNotFound | ErrorUnavailable

text \<open>\<open>BadAmount\<close> to \<open>AmountOverflow\<close> are the errors of \<open>money.go\<close>; \<open>DomainError\<close> is the
  package's \<open>Error\<close> type; \<open>Wrapped\<close> is \<open>fmt.Errorf("<prefix>: %w", err)\<close>; \<open>OtherError\<close>
  carries the text of an error of the standard library or of a port.\<close>

datatype recon_error =
    BadAmount string
  | PrecisionExceeded string
  | BadFloat
  | AmountOverflow
  | DomainError ErrorKind string string
  | Wrapped string recon_error
  | OtherError string

section \<open>Operations\<close>

type_synonym money = int64

definition moneyScale :: int64 where "moneyScale = 1000000000"
definition moneyOutputScale :: int64 where "moneyOutputScale = 1000000"
definition moneyOutputRatio :: int64 where "moneyOutputRatio = tquot moneyScale moneyOutputScale"

text \<open>The rounding step of \<open>parseMoney\<close>: absolute numerator, \<open>QuoRem\<close>, round half up,
  restore the sign.\<close>

definition round_away :: "rat \<Rightarrow> int" where
  "round_away scaled =
     (let (n, d) = quotient_of scaled; q = int (quo_half_up (nat \<bar>n\<bar>) (nat d))
      in if n < 0 then - q else q)"

definition parseMoney :: "string \<Rightarrow> recon_error + money" where
  "parseMoney value0 =
     (let trimmed = TrimSpace value0; value = (if trimmed = [] then ''0'' else trimmed)
      in case RatSetString value of
           None \<Rightarrow> Inl (BadAmount value)
         | Some rational \<Rightarrow>
             let parsed = round_away (rational * of_int moneyScale)
             in if \<not> in_int64 parsed \<or> parsed = min_int64 then Inl (PrecisionExceeded value)
                else Inr parsed)"

fun moneyFromFloat :: "f64 \<Rightarrow> recon_error + money" where
  "moneyFromFloat (Fin q) = parseMoney (FormatFixed 9 q)"
| "moneyFromFloat _ = Inl BadFloat"

definition formatScaledMoney :: "money \<Rightarrow> int64 \<Rightarrow> nat \<Rightarrow> string" where
  "formatScaledMoney value scale precision =
     (let negative = value < 0;
          amount = (if negative then wrap64 (- value) else value);
          whole = tquot amount scale;
          fraction = trem amount scale;
          formatted = show_int whole @
            (if fraction \<noteq> 0
             then CHR ''.'' # trim_right_byte (fmt_0d precision fraction) (CHR ''0'') else [])
      in if negative \<and> formatted \<noteq> ''0'' then CHR ''-'' # formatted else formatted)"

definition money_String :: "money \<Rightarrow> string" where
  "money_String value = formatScaledMoney value moneyScale 9"

definition OutputString :: "money \<Rightarrow> string" where
  "OutputString value =
     (let negative = value < 0;
          amount = (if negative then wrap64 (- value) else value);
          q0 = tquot amount moneyOutputRatio;
          rmd = trem amount moneyOutputRatio;
          q1 = (if wrap64 (rmd * 2) \<ge> moneyOutputRatio then q0 + 1 else q0);
          q2 = (if negative then - q1 else q1)
      in formatScaledMoney q2 moneyOutputScale 6)"

definition addMoney :: "money \<Rightarrow> money \<Rightarrow> recon_error + money" where
  "addMoney left right =
     (if right > 0 \<and> left > max_int64 - right then Inl AmountOverflow
      else if right < 0 \<and> left < min_int64 - right then Inl AmountOverflow
      else let result = wrap64 (left + right)
           in if result = min_int64 then Inl AmountOverflow else Inr result)"

definition multiplyMoney :: "money \<Rightarrow> money \<Rightarrow> recon_error + money" where
  "multiplyMoney amount rate =
     (let product = amount * rate;
          q = int (quo_half_up (nat \<bar>product\<bar>) (nat moneyScale));
          signed = (if product < 0 then - q else q)
      in if \<not> in_int64 signed \<or> signed = min_int64 then Inl AmountOverflow else Inr signed)"

definition absoluteMoney :: "money \<Rightarrow> money" where
  "absoluteMoney value = (if value < 0 then wrap64 (- value) else value)"

definition ratio :: "money \<Rightarrow> money \<Rightarrow> money" where
  "ratio difference provider =
     (let denominator = absoluteMoney provider in
      if denominator = 0 then (if difference = 0 then 0 else moneyScale)
      else
        let numerator = absoluteMoney difference * moneyScale;
            q = tquot numerator denominator;
            r = numerator - q * denominator;
            q' = (if 2 * r \<ge> denominator then q + 1 else q)
        in if \<not> in_int64 q' then max_int64 else q')"

definition addMoneyString :: "string \<Rightarrow> money \<Rightarrow> recon_error + string" where
  "addMoneyString current amount =
     rbind (parseMoney current) (\<lambda>parsed.
     rbind (addMoney parsed amount) (\<lambda>tot. Inr (money_String tot)))"

section \<open>Rounding half away from zero\<close>

text \<open>An amount is well formed when it is representable and not the least \<open>int64\<close>.\<close>

definition money_ok :: "money \<Rightarrow> bool" where
  "money_ok m \<longleftrightarrow> in_int64 m \<and> m \<noteq> min_int64"

lemma money_ok_bounds: "money_ok m \<longleftrightarrow> - max_int64 \<le> m \<and> m \<le> max_int64"
  by (auto simp: money_ok_def int64_bounds)

lemma quo_half_up_round:
  assumes "0 < d"
  shows "int (quo_half_up n d) = round (of_nat n / of_nat d :: rat)"
proof -
  let ?x = "of_nat n / of_nat d :: rat" and ?q = "n div d" and ?r = "n mod d"
  have "(of_nat n :: rat) = of_nat ?q * of_nat d + of_nat ?r"
    by (metis div_mult_mod_eq of_nat_add of_nat_mult)
  then have quo: "?x = of_nat ?q + of_nat ?r / of_nat d" using assms by (simp add: field_simps)
  define f :: rat where "f = of_nat ?r / of_nat d"
  have x: "?x = of_nat ?q + f" by (simp add: quo f_def)
  have r: "?r < d" using assms by simp
  have lt: "f < 1" using r assms by (simp add: f_def)
  have f0: "0 \<le> f" by (simp add: f_def)
  have half: "1 / 2 \<le> f \<longleftrightarrow> d \<le> 2 * ?r"
  proof -
    have "1 / 2 \<le> f \<longleftrightarrow> (of_nat d :: rat) \<le> of_nat (2 * ?r)"
      using assms by (simp add: f_def field_simps)
    then show ?thesis by (simp only: of_nat_le_iff)
  qed
  have "round ?x = int (quo_half_up n d)"
  proof (rule round_unique)
    show "?x - 1 / 2 < of_int (int (quo_half_up n d))"
      using half lt by (subst x) (simp add: quo_half_up_def, linarith)
    show "of_int (int (quo_half_up n d)) \<le> ?x + 1 / 2"
      using half f0 unfolding x quo_half_up_def by (cases "d \<le> 2 * ?r") simp_all
  qed
  then show ?thesis by simp
qed

lemma round_away_eq: "round_away x = (if x < 0 then - round (- x) else round x)"
proof -
  obtain n d where q: "quotient_of x = (n, d)" by (cases "quotient_of x")
  then have d: "0 < d" by (rule quotient_of_denom_pos)
  have x: "x = of_int n / of_int d" by (rule quotient_of_div [OF q])
  have neg: "x < 0 \<longleftrightarrow> n < 0" using d x by (simp add: divide_less_0_iff)
  have "int (quo_half_up (nat \<bar>n\<bar>) (nat d)) = round (of_nat (nat \<bar>n\<bar>) / of_nat (nat d) :: rat)"
    using d by (intro quo_half_up_round) simp
  also have "\<dots> = round \<bar>x\<bar>" using d by (simp add: x)
  finally have away: "int (quo_half_up (nat \<bar>n\<bar>) (nat d)) = round \<bar>x\<bar>" .
  show ?thesis unfolding round_away_def q Let_def prod.case away using neg by auto
qed

lemma round_nonneg: "0 \<le> x \<Longrightarrow> 0 \<le> round x"
  using round_mono [of 0 x] by simp

interpretation round_money: integer_rounding round_away
proof
  show "round_away (of_int z) = z" for z
    unfolding round_away_eq of_int_minus [symmetric] round_of_int by simp
  show "round_away x \<le> round_away y" if "x \<le> y" for x y
  proof (cases "x < 0 \<and> \<not> y < 0")
    case True
    then have "0 \<le> round (- x)" and "0 \<le> round y" by (auto intro: round_nonneg)
    with True show ?thesis by (simp add: round_away_eq)
  next
    case False
    then show ?thesis using that round_mono [of x y] round_mono [of "- y" "- x"]
      by (auto simp: round_away_eq)
  qed
qed

lemma round_away_nearest: "\<bar>of_int (round_away x) - x\<bar> \<le> 1 / 2"
proof (cases "x < 0")
  case True
  have "of_int (- round (- x)) - x = - (of_int (round (- x)) - (- x))" by simp
  then have "\<bar>of_int (- round (- x)) - x\<bar> = \<bar>of_int (round (- x)) - (- x)\<bar>"
    by (simp only: abs_minus_cancel)
  with True of_int_round_abs_le [of "- x"] show ?thesis by (simp add: round_away_eq)
next
  case False
  with of_int_round_abs_le [of x] show ?thesis by (simp add: round_away_eq)
qed

section \<open>Addition\<close>

lemma addMoney_eq:
  assumes "money_ok a" and "money_ok b"
  shows "addMoney a b = (if money_ok (a + b) then Inr (a + b) else Inl AmountOverflow)"
  using assms by (auto simp: addMoney_def money_ok_bounds wrap64_def int64_bounds Let_def)

section \<open>Printing and parsing\<close>

lemma dec_string_graph:
  assumes "list_all is_digit_char ip" and "list_all is_digit_char fp"
  shows "list_all is_graph (dec_string neg ip fp)"
proof -
  have "is_graph (CHR ''.'')" and "is_graph (CHR ''-'')" by (simp_all add: is_graph_def code_of_def)
  with assms show ?thesis by (auto simp: dec_string_def list_all_iff is_graph_digit)
qed

lemma parseMoney_dec_string:
  assumes "list_all is_digit_char ip" "ip \<noteq> []" "list_all is_digit_char fp" "length fp \<le> 1000000"
  shows "parseMoney (dec_string neg ip fp) =
    (let m = round_away ((if neg then - 1 else 1) * of_nat (digits_val (ip @ fp)) / 10 ^ length fp * of_int moneyScale)
     in if money_ok m then Inr m else Inl (PrecisionExceeded (dec_string neg ip fp)))"
proof -
  have "TrimSpace (dec_string neg ip fp) = dec_string neg ip fp"
    by (rule TrimSpace_graph_all [OF dec_string_graph [OF assms(1,3)]])
  moreover have "dec_string neg ip fp \<noteq> []" using assms(2) by (simp add: dec_string_def)
  ultimately show ?thesis
    by (simp add: parseMoney_def RatSetString_decimal [OF assms] Let_def money_ok_def)
qed

text \<open>The fraction printed with trailing zeros removed has the same value.\<close>

lemma trimmed_fraction:
  assumes "0 < n" and "n < 10 ^ k" and "0 < k"
  defines "fp \<equiv> trim_right_byte (fmt_0d k (int n)) (CHR ''0'')"
  shows "list_all is_digit_char fp" and "fp \<noteq> []" and "length fp \<le> k"
    and "digits_val fp * 10 ^ (k - length fp) = n"
proof -
  let ?s = "pad_zeros k (show_nat n)"
  obtain j where j: "?s = fp @ replicate j (CHR ''0'')"
    using trim_right_byte_decomp [of ?s "CHR ''0''"] by (auto simp: fp_def fmt_0d_def)
  have "length (show_nat n) \<le> k" by (rule show_nat_length_le [OF assms(2,3)])
  then have "length ?s = k" by (simp add: length_pad_zeros)
  with j have k: "length fp + j = k" by (metis length_append length_replicate)
  have "list_all is_digit_char ?s" by (intro pad_zeros_digits show_nat_digits)
  with j show "list_all is_digit_char fp" by simp
  have "digits_val ?s = n" by simp
  with j have v: "digits_val fp * 10 ^ j = n" by (simp add: digits_val_append zero_char)
  with assms(1) show "fp \<noteq> []" by auto
  show "length fp \<le> k" using k by simp
  show "digits_val fp * 10 ^ (k - length fp) = n" using v k by auto
qed

lemma formatScaledMoney_dec:
  assumes "\<bar>m\<bar> \<le> max_int64" and "scale = 10 ^ k" and "0 < k" and "k \<le> 18"
  obtains ip fp where "formatScaledMoney m scale k = dec_string (m < 0) ip fp"
    and "list_all is_digit_char ip" and "ip \<noteq> []" and "list_all is_digit_char fp" and "length fp \<le> k"
    and "digits_val (ip @ fp) * 10 ^ (k - length fp) = nat \<bar>m\<bar>"
proof -
  let ?a = "nat \<bar>m\<bar>" and ?s = "(10::nat) ^ k"
  define w where "w = ?a div ?s"
  define f where "f = ?a mod ?s"
  define ip where "ip = show_nat w"
  define fp where "fp = (if f = 0 then [] else trim_right_byte (fmt_0d k (int f)) (CHR ''0''))"
  have amount: "(if m < 0 then wrap64 (- m) else m) = int ?a"
    using assms(1) by (auto simp: wrap64_def int64_bounds)
  have s: "0 < scale" "scale = int ?s" using assms(2) by simp_all
  have whole: "tquot (int ?a) scale = int w"
    unfolding s(2) w_def by (simp add: tquot_nonneg zdiv_int)
  have frac: "trem (int ?a) scale = int f"
    unfolding s(2) f_def by (simp add: trem_nonneg zmod_int)
  have formatted: "show_int (int w) @ (if int f \<noteq> 0
      then CHR ''.'' # trim_right_byte (fmt_0d k (int f)) (CHR ''0'') else []) =
      ip @ (if fp = [] then [] else CHR ''.'' # fp)"
  proof (cases "f = 0")
    case True
    then show ?thesis by (simp add: show_int_def ip_def fp_def)
  next
    case False
    then have "fp \<noteq> []" using trimmed_fraction(2) [of f k] assms(3) by (simp add: fp_def f_def)
    with False show ?thesis by (simp add: show_int_def ip_def fp_def)
  qed
  have zero: "ip @ (if fp = [] then [] else CHR ''.'' # fp) = ''0'' \<Longrightarrow> \<not> m < 0"
  proof -
    assume z: "ip @ (if fp = [] then [] else CHR ''.'' # fp) = ''0''"
    then have "ip = ''0''" by (cases "fp = []") (auto simp: ip_def append_eq_Cons_conv split: if_splits)
    moreover have "fp = []" using z by (cases ip; cases "fp = []") auto
    ultimately have "f = 0" and "w = 0"
      using trimmed_fraction(2) [of f k] assms(3) digits_val_show_nat [of w]
      by (auto simp: fp_def f_def ip_def zero_char digits_val_Cons split: if_splits)
    then have "?a = 0" using div_mult_mod_eq [of ?a ?s] by (simp add: w_def f_def)
    then show "\<not> m < 0" by simp
  qed
  have 1: "formatScaledMoney m scale k = dec_string (m < 0) ip fp"
    unfolding formatScaledMoney_def Let_def amount whole frac formatted
    using zero by (auto simp: dec_string_def)
  have 2: "list_all is_digit_char ip" "ip \<noteq> []" by (simp_all add: ip_def show_nat_digits)
  have 3: "list_all is_digit_char fp \<and> length fp \<le> k \<and> digits_val fp * 10 ^ (k - length fp) = f"
    using trimmed_fraction [of f k] assms(3) by (auto simp: fp_def f_def)
  have "digits_val (ip @ fp) * 10 ^ (k - length fp) = w * ?s + f"
    using 3 by (simp add: digits_val_append ip_def algebra_simps flip: power_add)
  also have "\<dots> = ?a" unfolding w_def f_def by (rule div_mult_mod_eq)
  finally show thesis using 1 2 3 that by blast
qed

lemma dec_scaled:
  assumes "d * 10 ^ (k - l) = nat \<bar>m\<bar>" and "l \<le> k"
  shows "(if m < 0 then - 1 else 1) * of_nat d / 10 ^ l * (10 ^ k :: rat) = of_int m"
proof -
  have "(10 ^ k :: rat) = 10 ^ l * 10 ^ (k - l)" using assms(2) by (simp flip: power_add)
  then have "of_nat d / 10 ^ l * (10 ^ k :: rat) = of_nat (d * 10 ^ (k - l))" by simp
  also have "\<dots> = of_int \<bar>m\<bar>" using assms(1) by simp
  finally show ?thesis by (cases "m < 0") simp_all
qed

lemma formatScaledMoney_value:
  assumes "\<bar>m\<bar> \<le> max_int64" and "scale = 10 ^ k" and "0 < k" and "k \<le> 18"
  shows "RatSetString (formatScaledMoney m scale k) = Some (of_int m / 10 ^ k)"
proof -
  from assms obtain ip fp where f: "formatScaledMoney m scale k = dec_string (m < 0) ip fp"
    and ds: "list_all is_digit_char ip" "ip \<noteq> []" "list_all is_digit_char fp" and l: "length fp \<le> k"
    and v: "digits_val (ip @ fp) * 10 ^ (k - length fp) = nat \<bar>m\<bar>"
    by (rule formatScaledMoney_dec)
  have "length fp \<le> 1000000" using l assms(4) by simp
  from RatSetString_decimal [OF ds this, of "m < 0"] dec_scaled [OF v l]
  show ?thesis by (simp add: f field_simps)
qed

lemma multiplyMoney_eq:
  "multiplyMoney a r =
     (let m = round_away (of_int (a * r) / of_int moneyScale)
      in if money_ok m then Inr m else Inl AmountOverflow)"
proof -
  have away: "(if p < 0 then - int (quo_half_up (nat \<bar>p\<bar>) (nat moneyScale))
      else int (quo_half_up (nat \<bar>p\<bar>) (nat moneyScale))) = round_away (of_int p / of_int moneyScale)" for p
    using quo_half_up_round [of "nat moneyScale" "nat \<bar>p\<bar>"]
    by (cases "p < 0") (simp_all add: round_away_eq moneyScale_def divide_less_0_iff)
  show ?thesis unfolding multiplyMoney_def Let_def away by (auto simp: money_ok_def)
qed

lemma parseMoney_money_String:
  assumes "money_ok m"
  shows "parseMoney (money_String m) = Inr m"
proof -
  have m: "\<bar>m\<bar> \<le> max_int64" using assms by (auto simp: money_ok_bounds)
  obtain ip fp where f: "formatScaledMoney m moneyScale 9 = dec_string (m < 0) ip fp"
    and ds: "list_all is_digit_char ip" "ip \<noteq> []" "list_all is_digit_char fp" and l: "length fp \<le> 9"
    and v: "digits_val (ip @ fp) * 10 ^ (9 - length fp) = nat \<bar>m\<bar>"
    by (rule formatScaledMoney_dec [OF m, of moneyScale 9]) (simp_all add: moneyScale_def)
  have "length fp \<le> 1000000" using l by simp
  moreover have "(if m < 0 then - 1 else 1) * of_nat (digits_val (ip @ fp)) / 10 ^ length fp
      * (of_int moneyScale :: rat) = of_int m"
    using dec_scaled [OF v l] by (simp add: moneyScale_def)
  ultimately show ?thesis
    using parseMoney_dec_string [OF ds, of "m < 0"] assms
    by (simp add: money_String_def f round_money.rnd_of_int)
qed

lemma parseMoney_ok: "parseMoney s = Inr m \<Longrightarrow> money_ok m"
  by (auto simp: parseMoney_def Let_def money_ok_def split: option.splits if_splits)

lemma multiplyMoney_ok: "multiplyMoney a r = Inr m \<Longrightarrow> money_ok m"
  by (auto simp: multiplyMoney_eq Let_def split: if_splits)

text \<open>A float that is a multiple of the money unit is converted exactly.\<close>

lemma moneyFromFloat_exact:
  assumes "money_ok m"
  shows "moneyFromFloat (Fin (of_int m / 10 ^ 9)) = Inr m"
proof -
  let ?q = "of_int m / 10 ^ 9 :: rat"
  obtain ip fp where d: "fixed_digits 9 (nat (half_even (\<bar>?q\<bar> * 10 ^ 9))) = (ip, fp)" by fastforce
  note props = fixed_digits_props [OF d]
  have "\<bar>?q\<bar> * 10 ^ 9 = of_int \<bar>m\<bar>" by simp
  then have v: "digits_val (ip @ fp) = nat \<bar>m\<bar>" using props(5) by (metis half_even_of_int)
  have neg: "?q < 0 \<longleftrightarrow> m < 0" by (simp add: divide_less_0_iff)
  have "parseMoney (dec_string (m < 0) ip fp) = Inr m"
    using parseMoney_dec_string [OF props(1,2,3), of "m < 0"] v props(4) assms
      dec_scaled [of "digits_val (ip @ fp)" 9 9 m]
    by (simp add: round_money.rnd_of_int moneyScale_def Let_def)
  then show ?thesis by (simp only: moneyFromFloat.simps FormatFixed_def d prod.case neg)
qed

section \<open>Properties\<close>

text \<open>(C39) Printing an amount with \<open>String\<close> and reading it back with \<open>parseMoney\<close> is the
  identity on every representable amount: running totals, which the engine keeps as strings,
  lose nothing.\<close>

theorem money_roundtrip:
  assumes "money_ok m"
  shows "parseMoney (money_String m) = Inr m"
  by (rule parseMoney_money_String [OF assms])

theorem money_roundtrip_witness:
  "parseMoney (money_String (- 1234500000)) = Inr (- 1234500000)"
  by (rule money_roundtrip) (simp add: money_ok_def int64_bounds)

text \<open>\<open>parseMoney\<close> returns the amount nearest to the decimal it reads, at most half a unit
  away, and only amounts whose negation is representable as well.\<close>

theorem parseMoney_nearest:
  assumes "parseMoney s = Inr m"
  shows "money_ok m \<and> (\<exists>q. RatSetString (if TrimSpace s = [] then ''0'' else TrimSpace s) = Some q \<and>
    \<bar>of_int m - q * of_int moneyScale\<bar> \<le> 1 / 2)"
  using assms round_away_nearest
  by (auto simp: parseMoney_def Let_def money_ok_def split: option.splits if_splits)

theorem parseMoney_nearest_witness:
  "money_ok 1500000000 \<and> (\<exists>q. RatSetString (if TrimSpace (money_String 1500000000) = [] then ''0''
      else TrimSpace (money_String 1500000000)) = Some q \<and>
    \<bar>of_int 1500000000 - q * of_int moneyScale\<bar> \<le> 1 / 2)"
proof -
  have ok: "money_ok 1500000000" by (simp add: money_ok_def int64_bounds)
  obtain ip fp where "formatScaledMoney 1500000000 moneyScale 9 = dec_string False ip fp"
    and ds: "list_all is_digit_char ip" "ip \<noteq> []" "list_all is_digit_char fp" and l: "length fp \<le> 9"
    and v: "digits_val (ip @ fp) * 10 ^ (9 - length fp) = nat \<bar>1500000000\<bar>"
    by (rule formatScaledMoney_dec [of 1500000000 moneyScale 9]) (simp_all add: moneyScale_def int64_bounds)
  then have "parseMoney (money_String 1500000000) = Inr 1500000000"
    using parseMoney_dec_string [OF ds, of False] ok dec_scaled [OF v l]
    by (simp add: money_String_def round_money.rnd_of_int [of 1500000000, simplified] moneyScale_def)
  then show ?thesis by (rule parseMoney_nearest)
qed

text \<open>Addition of amounts never wraps: the result is the exact sum, and an error is
  returned exactly when that sum is not a representable amount.\<close>

theorem addMoney_exact:
  assumes "money_ok a" and "money_ok b"
  shows "addMoney a b = (if money_ok (a + b) then Inr (a + b) else Inl AmountOverflow)"
  by (rule addMoney_eq [OF assms])

theorem addMoney_exact_witness:
  "addMoney max_int64 1 = Inl AmountOverflow"
  using addMoney_exact [of max_int64 1] by (simp add: money_ok_def int64_bounds)

section \<open>The ratio of a difference\<close>

text \<open>\<open>ratio\<close> rounds to the nearest unit, so a bound on it is a bound on twice the exact quotient.\<close>

lemma nearest_quotient_le:
  fixes N d q k :: int
  assumes "0 \<le> N" and "0 < d" and "q = N div d"
  shows "(if d \<le> 2 * (N - q * d) then q + 1 else q) \<le> k \<longleftrightarrow> 2 * N < (2 * k + 1) * d"
proof -
  define r where "r = N mod d"
  have r: "0 \<le> r" "r < d" "N - q * d = r" using assms by (simp_all add: r_def minus_div_mult_eq_mod)
  then have n: "2 * N = 2 * q * d + 2 * r" by (simp add: algebra_simps)
  show ?thesis
  proof (cases "d \<le> 2 * r")
    case True
    have "q + 1 \<le> k \<longleftrightarrow> (2 * q + 1) * d < (2 * k + 1) * d" using assms(2) by auto
    also have "\<dots> \<longleftrightarrow> 2 * N < (2 * k + 1) * d"
    proof
      assume "(2 * q + 1) * d < (2 * k + 1) * d"
      then have "q + 1 \<le> k" using assms(2) by auto
      then have "(2 * q + 2) * d \<le> 2 * k * d" using assms(2) by auto
      then show "2 * N < (2 * k + 1) * d" using n r(2) assms(2) by (simp add: algebra_simps)
    next
      assume "2 * N < (2 * k + 1) * d"
      then show "(2 * q + 1) * d < (2 * k + 1) * d" using n True by (simp add: algebra_simps)
    qed
    finally show ?thesis using True r(3) by simp
  next
    case False
    have "q \<le> k \<longleftrightarrow> 2 * q * d < (2 * k + 1) * d" using assms(2) by auto
    also have "\<dots> \<longleftrightarrow> 2 * N < (2 * k + 1) * d"
    proof
      assume "2 * q * d < (2 * k + 1) * d"
      then have "2 * q * d \<le> 2 * k * d" using assms(2) by auto
      then show "2 * N < (2 * k + 1) * d" using n False by (simp add: algebra_simps)
    next
      assume "2 * N < (2 * k + 1) * d"
      then show "2 * q * d < (2 * k + 1) * d" using n r(1) by (simp add: algebra_simps)
    qed
    finally show ?thesis using False r(3) by simp
  qed
qed

lemma clamp_le: "0 \<le> x \<Longrightarrow> r < max_int64 \<Longrightarrow> (if in_int64 x then x else max_int64) \<le> r \<longleftrightarrow> x \<le> r"
  by (auto simp: int64_bounds)

lemma absoluteMoney_eq: "in_int64 d \<Longrightarrow> absoluteMoney d = (if d = min_int64 then min_int64 else \<bar>d\<bar>)"
  using wrap64_id [of "- d"] by (auto simp: absoluteMoney_def int64_bounds wrap64_def)

lemma ratio_le_iff:
  assumes "absoluteMoney d = w" and "0 \<le> w" and "d = 0 \<longleftrightarrow> w = 0" and "in_int64 p" and "p \<noteq> min_int64" and "0 \<le> rT" and "rT < max_int64"
  shows "ratio d p \<le> rT \<longleftrightarrow> (if p = 0 then w = 0 \<or> moneyScale \<le> rT else 2 * w * moneyScale < (2 * rT + 1) * \<bar>p\<bar>)"
proof (cases "p = 0")
  case True
  then show ?thesis using assms by (auto simp: ratio_def absoluteMoney_def Let_def)
next
  case False
  have den: "absoluteMoney p = \<bar>p\<bar>" using assms(4,5) by (auto simp: absoluteMoney_def int64_bounds wrap64_def)
  let ?q = "w * moneyScale div \<bar>p\<bar>"
  let ?q' = "if \<bar>p\<bar> \<le> 2 * (w * moneyScale - ?q * \<bar>p\<bar>) then ?q + 1 else ?q"
  have N: "0 \<le> w * moneyScale" using assms(2) by (simp add: moneyScale_def)
  have "0 \<le> ?q" using N by (simp add: pos_imp_zdiv_nonneg_iff False)
  then have pos: "0 \<le> ?q'" by auto
  have "ratio d p = (if in_int64 ?q' then ?q' else max_int64)"
    using False N by (simp add: ratio_def Let_def den assms(1) tquot_nonneg)
  also have "\<dots> \<le> rT \<longleftrightarrow> ?q' \<le> rT" by (rule clamp_le [OF pos assms(7)])
  also have "\<dots> \<longleftrightarrow> 2 * (w * moneyScale) < (2 * rT + 1) * \<bar>p\<bar>"
    using N False by (intro nearest_quotient_le) simp_all
  finally show ?thesis using False by (simp add: mult.assoc)
qed

end
