(* ===== verification/GoTime.thy ===== *)
theory GoTime
  imports GoStrings
begin

text \<open>
  Go's \<open>time\<close> and the text encodings of it that the modelled code uses. An instant is the
  number of nanoseconds since the Unix epoch; Go's zero \<open>Time\<close> is the first second of year 1.
  A location is its lookup function: for a Unix second, the offset in force and the half-open
  range of seconds in which it is in force. The zone database, which \<open>time.LoadLocation\<close>
  reads, is a parameter of the definitions that call it. The calendar is the proleptic
  Gregorian one; \<open>DateIn\<close> (Go's \<open>time.Date\<close>) resolves a local time as the library does, by a
  first lookup and a second one when the first offset does not apply.
\<close>

type_synonym instant = int
type_synonym duration = int64
type_synonym location = "int \<Rightarrow> int \<times> int \<times> int"
type_synonym zone_db = "string \<Rightarrow> location option"

definition UTC :: location where
  "UTC = (\<lambda>_. (0, min_int64, max_int64))"

definition zero_time :: instant where
  "zero_time = - 62135596800000000000"

definition Minute :: duration where "Minute = 60000000000"
definition Hour :: duration where "Hour = 3600000000000"

definition minutes_duration :: "int64 \<Rightarrow> duration" where
  "minutes_duration n = wrap64 (n * Minute)"

text \<open>\<open>Time.Sub\<close> saturates at the bounds of a duration.\<close>

definition time_Sub :: "instant \<Rightarrow> instant \<Rightarrow> duration" where
  "time_Sub t u = max min_int64 (min max_int64 (t - u))"

section \<open>Calendar\<close>

definition civil_from_days :: "int \<Rightarrow> int \<times> int \<times> int" where
  "civil_from_days z0 =
     (let z = z0 + 719468; era = z div 146097; doe = z mod 146097;
          yoe = (doe - doe div 1460 + doe div 36524 - doe div 146096) div 365;
          doy = doe - (365 * yoe + yoe div 4 - yoe div 100);
          mp = (5 * doy + 2) div 153;
          d = doy - (153 * mp + 2) div 5 + 1;
          m = (if mp < 10 then mp + 3 else mp - 9)
      in (yoe + era * 400 + (if m \<le> 2 then 1 else 0), m, d))"

definition days_from_civil :: "int \<Rightarrow> int \<Rightarrow> int \<Rightarrow> int" where
  "days_from_civil y0 m d =
     (let y = (if m \<le> 2 then y0 - 1 else y0); era = y div 400; yoe = y mod 400;
          doy = (153 * (m + (if m > 2 then - 3 else 9)) + 2) div 5 + d - 1;
          doe = yoe * 365 + yoe div 4 - yoe div 100 + doy
      in era * 146097 + doe - 719468)"

definition zone_offset :: "location \<Rightarrow> int \<Rightarrow> int" where
  "zone_offset loc unix = fst (loc unix)"

definition local_secs :: "location \<Rightarrow> instant \<Rightarrow> int" where
  "local_secs loc t = (let u = t div 1000000000 in u + zone_offset loc u)"

definition local_date :: "location \<Rightarrow> instant \<Rightarrow> int \<times> int \<times> int" where
  "local_date loc t = civil_from_days (local_secs loc t div 86400)"

definition local_hour :: "location \<Rightarrow> instant \<Rightarrow> int" where
  "local_hour loc t = local_secs loc t mod 86400 div 3600"

definition local_minute :: "location \<Rightarrow> instant \<Rightarrow> int" where
  "local_minute loc t = local_secs loc t mod 3600 div 60"

definition local_second :: "location \<Rightarrow> instant \<Rightarrow> int" where
  "local_second loc t = local_secs loc t mod 60"

definition local_weekday :: "location \<Rightarrow> instant \<Rightarrow> int" where
  "local_weekday loc t = (local_secs loc t div 86400 + 4) mod 7"

definition DateIn :: "location \<Rightarrow> int \<Rightarrow> int \<Rightarrow> int \<Rightarrow> int \<Rightarrow> int \<Rightarrow> int \<Rightarrow> int \<Rightarrow> instant" where
  "DateIn loc year month day hour minute sec nsec =
     (let y = year + (month - 1) div 12; m = (month - 1) mod 12 + 1;
          unix = days_from_civil y m day * 86400 + hour * 3600 + minute * 60 + sec;
          (offset, start, finish) = loc unix;
          resolved =
            (if offset = 0 then unix
             else let utc = unix - offset
                  in if utc < start \<or> finish \<le> utc then unix - zone_offset loc utc else utc)
      in resolved * 1000000000 + nsec)"

definition AddDate :: "location \<Rightarrow> instant \<Rightarrow> int \<Rightarrow> int \<Rightarrow> int \<Rightarrow> instant" where
  "AddDate loc t years months days =
     (case local_date loc t of (y, m, d) \<Rightarrow>
        DateIn loc (y + years) (m + months) (d + days)
          (local_hour loc t) (local_minute loc t) (local_second loc t) (t mod 1000000000))"

lemma UTC_fields [simp]:
  "zone_offset UTC u = 0" "local_secs UTC t = t div 1000000000"
  by (simp_all add: zone_offset_def UTC_def local_secs_def Let_def)

section \<open>Text\<close>

definition pad_int :: "nat \<Rightarrow> int \<Rightarrow> string" where
  "pad_int w n = (if n < 0 then CHR ''-'' # pad_zeros w (show_nat (nat (- n)))
                  else pad_zeros w (show_nat (nat n)))"

text \<open>\<open>t.UTC().Format(time.RFC3339Nano)\<close>.\<close>

definition format_rfc3339nano :: "instant \<Rightarrow> string" where
  "format_rfc3339nano t =
     (case local_date UTC t of (y, m, d) \<Rightarrow>
        let ns = t mod 1000000000;
            fraction = (if ns = 0 then [] else CHR ''.'' # trim_right_byte (pad_int 9 ns) (CHR ''0''))
        in pad_int 4 y @ ''-'' @ pad_int 2 m @ ''-'' @ pad_int 2 d @ ''T'' @
           pad_int 2 (local_hour UTC t) @ '':'' @ pad_int 2 (local_minute UTC t) @ '':'' @
           pad_int 2 (local_second UTC t) @ fraction @ ''Z'')"

text \<open>\<open>json.Marshal\<close> of a string: quotes, backslashes, control characters and the HTML
  characters are escaped, U+2028 and U+2029 too; other bytes of valid UTF-8 are copied.\<close>

definition hex_digit :: "nat \<Rightarrow> char" where
  "hex_digit n = (if n < 10 then digit_char n else char_of (87 + n))"

definition json_escape_char :: "char \<Rightarrow> string" where
  "json_escape_char c =
     (let n = code_of c in
      if c = CHR 0x22 then [CHR 0x5C, CHR 0x22]
      else if c = CHR 0x5C then [CHR 0x5C, CHR 0x5C]
      else if n = 8 then [CHR 0x5C, CHR ''b'']
      else if n = 12 then [CHR 0x5C, CHR ''f'']
      else if n = 10 then [CHR 0x5C, CHR ''n'']
      else if n = 13 then [CHR 0x5C, CHR ''r'']
      else if n = 9 then [CHR 0x5C, CHR ''t'']
      else if n < 32 \<or> c = CHR ''<'' \<or> c = CHR ''>'' \<or> c = CHR ''&'' then
        [CHR 0x5C, CHR ''u'', CHR ''0'', CHR ''0'', hex_digit (n div 16), hex_digit (n mod 16)]
      else [c])"

fun json_escape :: "string \<Rightarrow> string" where
  "json_escape [] = []"
| "json_escape (c # cs) =
     (if c = CHR 0xE2 \<and> take 2 cs = [CHR 0x80, CHR 0xA8] then
        CHR 0x5C # ''u2028'' @ json_escape (drop 2 cs)
      else if c = CHR 0xE2 \<and> take 2 cs = [CHR 0x80, CHR 0xA9] then
        CHR 0x5C # ''u2029'' @ json_escape (drop 2 cs)
      else json_escape_char c @ json_escape cs)"

definition json_string :: "string \<Rightarrow> string" where
  "json_string s = [CHR 0x22] @ json_escape s @ [CHR 0x22]"

definition json_strings :: "string list \<Rightarrow> string" where
  "json_strings xs = ''['' @ Join (map json_string xs) (CHR '','') @ '']''"

section \<open>Facts\<close>

lemma time_Sub_exact: "in_int64 (t - u) \<Longrightarrow> time_Sub t u = t - u"
  by (auto simp: time_Sub_def in_int64_def)

lemma time_Sub_in_range [simp]: "in_int64 (time_Sub t u)"
  by (auto simp: time_Sub_def int64_bounds)

lemma local_clock_bounds:
  "0 \<le> local_hour loc t" "local_hour loc t < 24" "0 \<le> local_minute loc t" "local_minute loc t < 60"
proof -
  let ?s = "local_secs loc t"
  have a: "0 \<le> ?s mod 86400" "?s mod 86400 < 86400" "0 \<le> ?s mod 3600" "?s mod 3600 < 3600" by simp_all
  show "0 \<le> local_hour loc t" "local_hour loc t < 24" using a(1,2) by (auto simp: local_hour_def)
  show "0 \<le> local_minute loc t" "local_minute loc t < 60" using a(3,4) by (auto simp: local_minute_def)
qed

end
