(* ===== verification/ReconTypes.thy ===== *)
theory ReconTypes
  imports ReconMoney GoTime "HOL-Library.AList"
begin

text \<open>
  The data of the reconciliation package (\<open>backend/internal/reconciliation/types.go\<close>): rules,
  inputs and patches, runs, items, the projections of usage and billing records, and errors.
  A record field carries the name of its struct first, since Isabelle record fields share one
  name space. A Go map is an association list whose order stands for one iteration order; a
  \<open>*time.Time\<close> is an option. The enumerations are strings, as in the source, since values
  outside the enumeration are representable and handled.
\<close>

section \<open>Maps with string keys\<close>

definition lookup_str :: "(string \<times> string) list \<Rightarrow> string \<Rightarrow> string" where
  "lookup_str m k = (case map_of m k of None \<Rightarrow> [] | Some v \<Rightarrow> v)"

lemma lookup_str_update [simp]:
  "lookup_str (AList.update k v m) k' = (if k = k' then v else lookup_str m k')"
  by (simp add: lookup_str_def update_conv')

section \<open>Constants\<close>

definition GranularityDetail :: string where "GranularityDetail = ''detail''"
definition GranularityHour :: string where "GranularityHour = ''hour''"
definition GranularityDay :: string where "GranularityDay = ''day''"
definition GranularityMonth :: string where "GranularityMonth = ''month''"

definition Matched :: string where "Matched = ''matched''"
definition ProviderOnly :: string where "ProviderOnly = ''provider_only''"
definition TokenHubOnly :: string where "TokenHubOnly = ''tokenhub_only''"
definition AmountMismatch :: string where "AmountMismatch = ''amount_mismatch''"

definition RunRunning :: string where "RunRunning = ''running''"
definition RunSucceeded :: string where "RunSucceeded = ''succeeded''"
definition RunFailed :: string where "RunFailed = ''failed''"

definition StatusActive :: string where "StatusActive = ''active''"
definition StatusDisabled :: string where "StatusDisabled = ''disabled''"

lemmas granularity_defs = GranularityDetail_def GranularityHour_def GranularityDay_def GranularityMonth_def
lemmas item_status_defs = Matched_def ProviderOnly_def TokenHubOnly_def AmountMismatch_def
lemmas run_status_defs = RunRunning_def RunSucceeded_def RunFailed_def

definition recon_dimensions :: "string list" where
  "recon_dimensions =
     [''request_id'', ''provider'', ''resource_account'', ''model'', ''project'', ''currency'']"

section \<open>Records\<close>

type_synonym mappings = "(string \<times> (string \<times> string) list) list"

record Rule =
  Rule_ID :: string
  Rule_Name :: string
  Rule_ConnectorID :: string
  Rule_ConnectorType :: string
  Rule_ProviderID :: string
  Rule_ProviderResourceID :: string
  Rule_Status :: string
  Rule_Granularity :: string
  Rule_MatchDimensions :: "string list"
  Rule_DimensionMappings :: mappings
  Rule_AmountTolerance :: string
  Rule_RatioTolerance :: string
  Rule_USDExchangeRate :: string
  Rule_TimeWindowMinutes :: int64
  Rule_BillingDelayMinutes :: int64
  Rule_ScheduleIntervalMinutes :: int64
  Rule_Timezone :: string
  Rule_Currency :: string
  Rule_Version :: int64
  Rule_RuleHash :: string
  Rule_CreatedBy :: string
  Rule_UpdatedBy :: string
  Rule_LastRunAt :: "instant option"
  Rule_NextRunAt :: "instant option"
  Rule_CreatedAt :: instant
  Rule_UpdatedAt :: instant

record RuleInput =
  In_Name :: string
  In_ConnectorID :: string
  In_Status :: string
  In_Granularity :: string
  In_MatchDimensions :: "string list"
  In_DimensionMappings :: mappings
  In_AmountTolerance :: string
  In_RatioTolerance :: string
  In_USDExchangeRate :: string
  In_TimeWindowMinutes :: int64
  In_BillingDelayMinutes :: int64
  In_ScheduleIntervalMinutes :: int64
  In_Timezone :: string
  In_Currency :: string

record RulePatch =
  Patch_Name :: "string option"
  Patch_Status :: "string option"
  Patch_Granularity :: "string option"
  Patch_MatchDimensions :: "string list option"
  Patch_DimensionMappings :: "mappings option"
  Patch_AmountTolerance :: "string option"
  Patch_RatioTolerance :: "string option"
  Patch_USDExchangeRate :: "string option"
  Patch_TimeWindowMinutes :: "int64 option"
  Patch_BillingDelayMinutes :: "int64 option"
  Patch_ScheduleIntervalMinutes :: "int64 option"
  Patch_Timezone :: "string option"
  Patch_Currency :: "string option"

record Run =
  Run_ID :: string
  Run_RuleID :: string
  Run_ConnectorID :: string
  Run_ConnectorType :: string
  Run_ProviderID :: string
  Run_ProviderResourceID :: string
  Run_Trigger :: string
  Run_Status :: string
  Run_PeriodStart :: instant
  Run_PeriodEnd :: instant
  Run_Granularity :: string
  Run_MatchDimensions :: "string list"
  Run_DimensionMappings :: mappings
  Run_AmountTolerance :: string
  Run_RatioTolerance :: string
  Run_USDExchangeRate :: string
  Run_TimeWindowMinutes :: int64
  Run_BillingDelayMinutes :: int64
  Run_Timezone :: string
  Run_Currency :: string
  Run_RuleVersion :: int64
  Run_RuleHash :: string
  Run_InputHash :: string
  Run_ProviderRecordCount :: int64
  Run_TokenHubRecordCount :: int64
  Run_MatchedCount :: int64
  Run_ProviderOnlyCount :: int64
  Run_TokenHubOnlyCount :: int64
  Run_AmountMismatchCount :: int64
  Run_ProviderAmount :: string
  Run_TokenHubAmount :: string
  Run_DifferenceAmount :: string
  Run_CreatedBy :: string
  Run_StartedAt :: instant
  Run_FinishedAt :: "instant option"
  Run_LockedAt :: "instant option"
  Run_LockedBy :: string
  Run_ErrorCode :: string
  Run_ErrorMessage :: string

record RunInput =
  RunInput_PeriodStart :: instant
  RunInput_PeriodEnd :: instant

record Item =
  Item_ID :: string
  Item_RunID :: string
  Item_MatchKey :: string
  Item_Status :: string
  Item_BucketStart :: instant
  Item_BucketEnd :: instant
  Item_RequestID :: string
  Item_Provider :: string
  Item_ResourceAccount :: string
  Item_ResourceAccountMasked :: string
  Item_Model :: string
  Item_Project :: string
  Item_Currency :: string
  Item_ProviderAmount :: string
  Item_TokenHubAmount :: string
  Item_DifferenceAmount :: string
  Item_DifferenceRatio :: string
  Item_PossibleReason :: string
  Item_ProviderRecordIDs :: "string list"
  Item_TokenHubRecordIDs :: "string list"
  Item_CreatedAt :: instant

record Usage =
  Usage_ID :: string
  Usage_RequestID :: string
  Usage_ProjectID :: string
  Usage_ModelName :: string
  Usage_ProviderID :: string
  Usage_ProviderResourceID :: string
  Usage_CostUSD :: f64
  Usage_ProviderCostUSD :: f64
  Usage_ProviderCostKnown :: bool
  Usage_CreatedAt :: instant

record ConnectorSnapshot =
  Conn_Type :: string
  Conn_ProviderID :: string
  Conn_ProviderResourceID :: string

record BillingRecord =
  Bill_ID :: string
  Bill_ExternalID :: string
  Bill_SourceType :: string
  Bill_AccountID :: string
  Bill_ProviderID :: string
  Bill_ProviderResourceID :: string
  Bill_ResourceID :: string
  Bill_ProjectID :: string
  Bill_Model :: string
  Bill_Currency :: string
  Bill_NetAmount :: string
  Bill_UsageStartAt :: instant
  Bill_ExternalRequestID :: string

text \<open>The zero values \<open>Rule{}\<close> and \<open>Run{}\<close>.\<close>

definition zero_Rule :: Rule where
  "zero_Rule = \<lparr>Rule_ID = [], Rule_Name = [], Rule_ConnectorID = [], Rule_ConnectorType = [],
     Rule_ProviderID = [], Rule_ProviderResourceID = [], Rule_Status = [], Rule_Granularity = [],
     Rule_MatchDimensions = [], Rule_DimensionMappings = [], Rule_AmountTolerance = [],
     Rule_RatioTolerance = [], Rule_USDExchangeRate = [], Rule_TimeWindowMinutes = 0,
     Rule_BillingDelayMinutes = 0, Rule_ScheduleIntervalMinutes = 0, Rule_Timezone = [],
     Rule_Currency = [], Rule_Version = 0, Rule_RuleHash = [], Rule_CreatedBy = [],
     Rule_UpdatedBy = [], Rule_LastRunAt = None, Rule_NextRunAt = None,
     Rule_CreatedAt = zero_time, Rule_UpdatedAt = zero_time\<rparr>"

definition zero_Run :: Run where
  "zero_Run = \<lparr>Run_ID = [], Run_RuleID = [], Run_ConnectorID = [], Run_ConnectorType = [],
     Run_ProviderID = [], Run_ProviderResourceID = [], Run_Trigger = [], Run_Status = [],
     Run_PeriodStart = zero_time, Run_PeriodEnd = zero_time, Run_Granularity = [],
     Run_MatchDimensions = [], Run_DimensionMappings = [], Run_AmountTolerance = [],
     Run_RatioTolerance = [], Run_USDExchangeRate = [], Run_TimeWindowMinutes = 0,
     Run_BillingDelayMinutes = 0, Run_Timezone = [], Run_Currency = [], Run_RuleVersion = 0,
     Run_RuleHash = [], Run_InputHash = [], Run_ProviderRecordCount = 0, Run_TokenHubRecordCount = 0,
     Run_MatchedCount = 0, Run_ProviderOnlyCount = 0, Run_TokenHubOnlyCount = 0,
     Run_AmountMismatchCount = 0, Run_ProviderAmount = [], Run_TokenHubAmount = [],
     Run_DifferenceAmount = [], Run_CreatedBy = [], Run_StartedAt = zero_time, Run_FinishedAt = None,
     Run_LockedAt = None, Run_LockedBy = [], Run_ErrorCode = [], Run_ErrorMessage = []\<rparr>"

section \<open>Errors\<close>

definition NewError :: "ErrorKind \<Rightarrow> string \<Rightarrow> string \<Rightarrow> recon_error" where
  "NewError kind code message = DomainError kind code message"

text \<open>\<open>errors.As\<close> follows the chain of wrapped errors to the first domain error.\<close>

fun ErrorInfo :: "recon_error \<Rightarrow> (ErrorKind \<times> string \<times> string) option" where
  "ErrorInfo (DomainError kind code message) = Some (kind, code, message)"
| "ErrorInfo (Wrapped _ err) = ErrorInfo err"
| "ErrorInfo _ = None"

text \<open>The text of an error; \<open>quote\<close> is the \<open>%q\<close> verb of \<open>fmt\<close>.\<close>

fun error_text :: "(string \<Rightarrow> string) \<Rightarrow> recon_error \<Rightarrow> string" where
  "error_text quote (BadAmount value) = ''invalid decimal amount '' @ quote value"
| "error_text quote (PrecisionExceeded value) =
     ''decimal amount '' @ quote value @ '' exceeds supported precision''"
| "error_text quote BadFloat = ''invalid floating-point amount''"
| "error_text quote AmountOverflow = ''reconciliation amount overflow''"
| "error_text quote (DomainError _ _ message) = message"
| "error_text quote (Wrapped pre err) = pre @ '': '' @ error_text quote err"
| "error_text quote (OtherError message) = message"

definition errorDetails :: "(string \<Rightarrow> string) \<Rightarrow> recon_error option \<Rightarrow> string \<times> string" where
  "errorDetails quote err =
     (case err of
        None \<Rightarrow> (''internal_error'', ''Internal error'')
      | Some e \<Rightarrow>
          (case ErrorInfo e of
             Some (_, code, message) \<Rightarrow> (code, message)
           | None \<Rightarrow> (''internal_error'', error_text quote e)))"

end
