(* ===== verification/ReconPolicy.thy ===== *)
theory ReconPolicy
  imports ReconTypes
begin

text \<open>
  Scheduling, locking and scoping rules of the reconciliation package (\<open>policy.go\<close>,
  \<open>scope.go\<close>). Shown: a locked run stays locked and cannot be replaced; scope strings are
  normalised to a canonical form (sorted, without duplicates or blanks) that depends on the
  set of identifiers only; usages are selected by resource when the run names resources and by
  provider otherwise.
\<close>

section \<open>Scheduling and locking\<close>

definition ApplyRuleSchedule :: "Rule \<Rightarrow> Rule option \<Rightarrow> instant \<Rightarrow> Rule" where
  "ApplyRuleSchedule rule previous now =
     (if Rule_Status rule \<noteq> StatusActive \<or> Rule_ScheduleIntervalMinutes rule \<le> 0
      then rule\<lparr>Rule_NextRunAt := None\<rparr>
      else
        let fresh = rule\<lparr>Rule_NextRunAt := Some (now + minutes_duration (Rule_ScheduleIntervalMinutes rule))\<rparr>
        in case previous of
             None \<Rightarrow> fresh
           | Some p \<Rightarrow>
               if Rule_ScheduleIntervalMinutes p = Rule_ScheduleIntervalMinutes rule \<and>
                  Rule_Status p = Rule_Status rule \<and> Rule_NextRunAt p \<noteq> None
               then rule\<lparr>Rule_NextRunAt := Rule_NextRunAt p\<rparr>
               else fresh)"

definition ApplyRunCompletion :: "Rule \<Rightarrow> Run \<Rightarrow> Rule" where
  "ApplyRunCompletion rule run =
     (let finishedAt = (case Run_FinishedAt run of None \<Rightarrow> Run_StartedAt run | Some t \<Rightarrow> t);
          rule1 = rule\<lparr>Rule_LastRunAt := Some finishedAt\<rparr>
      in if Run_Trigger run = ''scheduled'' then ApplyRuleSchedule rule1 None finishedAt else rule1)"

definition PrepareRunLock :: "Run \<Rightarrow> string \<Rightarrow> instant \<Rightarrow> recon_error + (Run \<times> bool)" where
  "PrepareRunLock run actor now =
     (if Run_Status run \<noteq> RunSucceeded then
        Inl (NewError ErrorConflict ''reconciliation_run_not_complete''
               ''Only successful reconciliation runs can be locked'')
      else if Run_LockedAt run \<noteq> None then Inr (run, False)
      else Inr (run\<lparr>Run_LockedAt := Some now, Run_LockedBy := TrimSpace actor\<rparr>, True))"

definition ValidateRunReplacement :: "Run \<Rightarrow> recon_error + unit" where
  "ValidateRunReplacement run =
     (if Run_LockedAt run \<noteq> None then
        Inl (NewError ErrorConflict ''reconciliation_run_locked''
               ''Locked reconciliation runs cannot be recalculated'')
      else Inr ())"

section \<open>Scopes\<close>

definition addScopeValues :: "string set \<Rightarrow> string \<Rightarrow> string set" where
  "addScopeValues target raw =
     fold (\<lambda>value t. let v = TrimSpace value in if v \<noteq> [] then insert v t else t)
       (Split raw (CHR '','')) target"

definition normalizeScope :: "string \<Rightarrow> string" where
  "normalizeScope raw = Join (sorted_list_of_set (addScopeValues {} raw)) (CHR '','')"

definition ConnectorNewAPI :: string where "ConnectorNewAPI = ''newapi''"

definition validateConnectorSnapshot :: "string \<Rightarrow> string \<Rightarrow> string \<Rightarrow> recon_error + unit" where
  "validateConnectorSnapshot granularity connectorType providerID =
     (if normalizeScope providerID = [] then
        Inl (NewError ErrorInvalidInput ''reconciliation_scope_required''
               ''The billing connector must define provider_id before it can be used for reconciliation'')
      else
        let ctype = ToLower (TrimSpace connectorType) in
        if ctype = [] then
          Inl (NewError ErrorInvalidInput ''reconciliation_connector_snapshot_required''
                 ''The billing connector type must be captured before reconciliation'')
        else if ctype = ConnectorNewAPI \<and> granularity = GranularityDetail then
          Inl (NewError ErrorInvalidInput ''reconciliation_detail_unsupported''
                 ''The selected billing connector does not provide request-level identifiers'')
        else Inr ())"

text \<open>The two snapshot functions return the updated value together with the verdict on it: the
  callers keep or drop the update depending on the error.\<close>

definition snapshotConnector :: "Rule \<Rightarrow> ConnectorSnapshot \<Rightarrow> recon_error + Rule" where
  "snapshotConnector rule connector =
     (let rule1 = rule\<lparr>Rule_ConnectorType := ToLower (TrimSpace (Conn_Type connector)),
                       Rule_ProviderID := normalizeScope (Conn_ProviderID connector),
                       Rule_ProviderResourceID := normalizeScope (Conn_ProviderResourceID connector)\<rparr>
      in rbind (validateConnectorSnapshot (Rule_Granularity rule1) (Rule_ConnectorType rule1)
                  (Rule_ProviderID rule1)) (\<lambda>_. Inr rule1))"

definition snapshotRunConnector :: "Run \<Rightarrow> ConnectorSnapshot \<Rightarrow> recon_error + Run" where
  "snapshotRunConnector run connector =
     (let run1 = run\<lparr>Run_ConnectorType := ToLower (TrimSpace (Conn_Type connector)),
                     Run_ProviderID := normalizeScope (Conn_ProviderID connector),
                     Run_ProviderResourceID := normalizeScope (Conn_ProviderResourceID connector)\<rparr>
      in rbind (validateConnectorSnapshot (Run_Granularity run1) (Run_ConnectorType run1)
                  (Run_ProviderID run1)) (\<lambda>_. Inr run1))"

definition scopeUsages :: "Run \<Rightarrow> Usage list \<Rightarrow> Usage list" where
  "scopeUsages run usages =
     (let providerIDs = addScopeValues {} (Run_ProviderID run);
          resourceIDs = addScopeValues {} (Run_ProviderResourceID run)
      in filter (\<lambda>usage.
           if resourceIDs \<noteq> {} then TrimSpace (Usage_ProviderResourceID usage) \<in> resourceIDs
           else TrimSpace (Usage_ProviderID usage) \<in> providerIDs) usages)"

section \<open>Facts\<close>

definition scope_set :: "string \<Rightarrow> string set" where
  "scope_set raw = {v. v \<noteq> [] \<and> (\<exists>p \<in> set (Split raw (CHR '','')). v = TrimSpace p)}"

lemma addScopeValues_eq: "addScopeValues target raw = target \<union> scope_set raw"
proof -
  have "fold (\<lambda>value t. let v = TrimSpace value in if v \<noteq> [] then insert v t else t) ps t =
      t \<union> {v. v \<noteq> [] \<and> (\<exists>p \<in> set ps. v = TrimSpace p)}" for ps t
    by (induction ps arbitrary: t) (auto simp: Let_def)
  then show ?thesis by (simp add: addScopeValues_def scope_set_def)
qed

lemma scope_set_finite [simp]: "finite (scope_set raw)"
  by (rule finite_subset [of _ "TrimSpace ` set (Split raw (CHR '',''))"]) (auto simp: scope_set_def)

lemma normalizeScope_eq: "normalizeScope raw = Join (sorted_list_of_set (scope_set raw)) (CHR '','')"
  by (simp add: normalizeScope_def addScopeValues_eq)

lemma trim_left_subset: "set (trim_left s) \<subseteq> set s"
proof (induction s rule: trim_left.induct)
  case (1 s)
  then show ?case
    by (subst trim_left.simps) (auto split: option.splits dest!: in_set_dropD)
qed

lemma TrimSpace_subset: "set (TrimSpace s) \<subseteq> set s"
  using trim_left_subset [of s] set_mono_prefix [OF trim_right_prefix, of "trim_left s"]
  by (auto simp: TrimSpace_def)

lemma scope_set_no_comma: "v \<in> scope_set raw \<Longrightarrow> CHR '','' \<notin> set v"
  using TrimSpace_subset by (fastforce simp: scope_set_def dest: Split_parts_no_sep)

lemma scope_set_trimmed: "v \<in> scope_set raw \<Longrightarrow> TrimSpace v = v \<and> v \<noteq> []"
  by (auto simp: scope_set_def)

lemma scope_set_Join:
  assumes "\<And>v. v \<in> set vs \<Longrightarrow> TrimSpace v = v \<and> v \<noteq> [] \<and> CHR '','' \<notin> set v"
  shows "scope_set (Join vs (CHR '','')) = set vs"
proof (cases "vs = []")
  case True
  then show ?thesis by (simp add: scope_set_def)
next
  case False
  then have "Split (Join vs (CHR '','')) (CHR '','') = vs" using assms by (intro Split_Join) auto
  with assms show ?thesis by (auto simp: scope_set_def)
qed

lemma scope_set_normalizeScope [simp]: "scope_set (normalizeScope raw) = scope_set raw"
  unfolding normalizeScope_eq
  by (subst scope_set_Join) (auto dest: scope_set_trimmed scope_set_no_comma)

text \<open>A scope string and its normal form name the same identifiers; normalising is
  idempotent, and two scope strings have the same normal form exactly when they name the same
  set of identifiers, whatever their order, repetitions and blanks.\<close>

theorem normalizeScope_canonical:
  "scope_set (normalizeScope raw) = scope_set raw \<and>
   normalizeScope (normalizeScope raw) = normalizeScope raw \<and>
   (normalizeScope raw = normalizeScope raw' \<longleftrightarrow> scope_set raw = scope_set raw')"
  by (metis normalizeScope_eq scope_set_normalizeScope)

text \<open>A run selects the usages of its resources when it names any resource, and those of
  its providers otherwise; blank scopes select nothing.\<close>

theorem scopeUsages_exact:
  "u \<in> set (scopeUsages run usages) \<longleftrightarrow> u \<in> set usages \<and>
     (if scope_set (Run_ProviderResourceID run) = {}
      then TrimSpace (Usage_ProviderID u) \<in> scope_set (Run_ProviderID run)
      else TrimSpace (Usage_ProviderResourceID u) \<in> scope_set (Run_ProviderResourceID run))"
  by (simp add: scopeUsages_def addScopeValues_eq)

lemma ValidateRunReplacement_iff [simp]:
  "ValidateRunReplacement run = Inr () \<longleftrightarrow> Run_LockedAt run = None"
  by (simp add: ValidateRunReplacement_def)

lemma PrepareRunLock_Inr:
  assumes "PrepareRunLock run actor now = Inr (run', changed)"
  shows "Run_Status run = RunSucceeded" and "Run_LockedAt run' \<noteq> None"
    and "changed \<longleftrightarrow> Run_LockedAt run = None" and "\<not> changed \<longrightarrow> run' = run"
    and "run' = run\<lparr>Run_LockedAt := Run_LockedAt run', Run_LockedBy := Run_LockedBy run'\<rparr>"
  using assms by (auto simp: PrepareRunLock_def split: if_splits)

text \<open>\<open>RunAuditSnapshot\<close> (\<open>audit.go\<close>) keeps a run's identity, outcome and counters and only
  tells whether the scopes are configured. Its values are strings, times, counters and flags.\<close>

datatype audit_value =
  AuditString string | AuditBool bool | AuditInt int64 | AuditTime instant | AuditTimeOpt "instant option"

definition RunAuditSnapshot :: "Run \<Rightarrow> (string \<times> audit_value) list" where
  "RunAuditSnapshot run =
     [(''id'', AuditString (Run_ID run)), (''rule_id'', AuditString (Run_RuleID run)),
      (''connector_id'', AuditString (Run_ConnectorID run)),
      (''connector_type'', AuditString (Run_ConnectorType run)),
      (''provider_scope_configured'', AuditBool (Run_ProviderID run \<noteq> [])),
      (''provider_resource_scope_configured'', AuditBool (Run_ProviderResourceID run \<noteq> [])),
      (''status'', AuditString (Run_Status run)), (''trigger'', AuditString (Run_Trigger run)),
      (''rule_version'', AuditInt (Run_RuleVersion run)), (''rule_hash'', AuditString (Run_RuleHash run)),
      (''input_hash'', AuditString (Run_InputHash run)),
      (''period_start'', AuditTime (Run_PeriodStart run)), (''period_end'', AuditTime (Run_PeriodEnd run)),
      (''matched_count'', AuditInt (Run_MatchedCount run)),
      (''provider_only_count'', AuditInt (Run_ProviderOnlyCount run)),
      (''tokenhub_only_count'', AuditInt (Run_TokenHubOnlyCount run)),
      (''amount_mismatch_count'', AuditInt (Run_AmountMismatchCount run)),
      (''error_code'', AuditString (Run_ErrorCode run)), (''started_at'', AuditTime (Run_StartedAt run)),
      (''finished_at'', AuditTimeOpt (Run_FinishedAt run)),
      (''locked_at'', AuditTimeOpt (Run_LockedAt run))]"

text \<open>The snapshot does not depend on the provider identifiers themselves.\<close>

lemma RunAuditSnapshot_redacts:
  assumes "Run_ProviderID run = [] \<longleftrightarrow> p = []" and "Run_ProviderResourceID run = [] \<longleftrightarrow> r = []"
  shows "RunAuditSnapshot (run\<lparr>Run_ProviderID := p, Run_ProviderResourceID := r\<rparr>) = RunAuditSnapshot run"
  using assms by (simp add: RunAuditSnapshot_def)

end
