(* ===== verification/ReconEngine.thy ===== *)
theory ReconEngine
  imports ReconPolicy "HOL-Library.Product_Lexorder"
begin

text \<open>
  The aggregation of billing and usage records into reconciliation items
  (\<open>backend/internal/reconciliation/engine.go\<close>). \<open>sha\<close> is the hexadecimal SHA-256 of a byte
  string, \<open>zones\<close> the zone database and \<open>now\<close> the clock; the results hold for all of them.
  \<open>sort.Slice\<close> is modelled by a stable sort, one of the orders Go permits.

  Shown for the aggregated granularities: the loops implement grouping by key (one item per key,
  with the exact sums and the identifiers of its records), every record in the period is in
  exactly one item, and the totals and counters of the run agree with the items.
\<close>

section \<open>Definitions\<close>

record bucket =
  b_key :: string
  b_dimensions :: "(string \<times> string) list"
  b_bucketStart :: instant
  b_bucketEnd :: instant
  b_providerAmount :: money
  b_tokenHubAmount :: money
  b_providerRecordIDs :: "string list"
  b_tokenHubRecordIDs :: "string list"
  b_providerTimes :: "instant list"
  b_tokenHubTimes :: "instant list"

record digestRow =
  Row_Side :: string
  Row_ID :: string
  Row_SourceID :: string
  Row_Dimensions :: "(string \<times> string) list"
  Row_Amount :: string
  Row_OccurredAt :: string

definition selectedDimensions :: "string list \<Rightarrow> (string \<times> string) list \<Rightarrow> (string \<times> string) list" where
  "selectedDimensions names dims =
     fold (\<lambda>name sel. AList.update name (TrimSpace (lookup_str dims name)) sel) names []"

definition apply_mappings :: "mappings \<Rightarrow> (string \<times> string) list \<Rightarrow> (string \<times> string) list" where
  "apply_mappings maps dims0 =
     fold (\<lambda>(dimension, entries) dims.
             let canonical = TrimSpace (lookup_str entries (lookup_str dims dimension))
             in if canonical \<noteq> [] then AList.update dimension canonical dims else dims) maps dims0"

definition providerDimensions :: "Run \<Rightarrow> BillingRecord \<Rightarrow> (string \<times> string) list" where
  "providerDimensions run b =
     apply_mappings (Run_DimensionMappings run)
       [(''request_id'', TrimSpace (Bill_ExternalRequestID b)),
        (''provider'', firstNonEmpty [Bill_ProviderID b, Bill_SourceType b]),
        (''resource_account'', firstNonEmpty [Bill_ProviderResourceID b, Bill_ResourceID b, Bill_AccountID b]),
        (''model'', TrimSpace (Bill_Model b)),
        (''project'', TrimSpace (Bill_ProjectID b)),
        (''currency'', ToUpper (TrimSpace (Bill_Currency b)))]"

definition tokenHubDimensions :: "Run \<Rightarrow> Usage \<Rightarrow> (string \<times> string) list" where
  "tokenHubDimensions run u =
     [(''request_id'', TrimSpace (Usage_RequestID u)),
      (''provider'', TrimSpace (Usage_ProviderID u)),
      (''resource_account'', TrimSpace (Usage_ProviderResourceID u)),
      (''model'', TrimSpace (Usage_ModelName u)),
      (''project'', TrimSpace (Usage_ProjectID u)),
      (''currency'', Run_Currency run)]"

definition bucketRange :: "string \<Rightarrow> instant \<Rightarrow> location \<Rightarrow> instant \<times> instant" where
  "bucketRange granularity t loc =
     (case local_date loc t of (y, m, d) \<Rightarrow>
        if granularity = GranularityHour then
          let start = DateIn loc y m d (local_hour loc t) 0 0 0 in (start, start + Hour)
        else if granularity = GranularityDay then
          let start = DateIn loc y m d 0 0 0 0 in (start, AddDate loc start 0 0 1)
        else if granularity = GranularityMonth then
          let start = DateIn loc y m 1 0 0 0 0 in (start, AddDate loc start 0 1 0)
        else (t, t))"

definition bucket_key :: "Run \<Rightarrow> (string \<times> string) list \<Rightarrow> instant \<Rightarrow> location \<Rightarrow> string" where
  "bucket_key run dims occurredAt loc =
     (let selected = selectedDimensions (Run_MatchDimensions run) dims;
          start = fst (bucketRange (Run_Granularity run) occurredAt loc);
          keyParts = (if Run_Granularity run \<noteq> GranularityDetail then [format_rfc3339nano start] else []) @
            map (\<lambda>dimension. dimension @ ''='' @ lookup_str selected dimension) (Run_MatchDimensions run)
      in json_strings keyParts)"

text \<open>\<open>bucketFor\<close> returns a pointer into the map; here it returns the key under which the bucket
  stands in the updated map.\<close>

definition new_bucket :: "Run \<Rightarrow> (string \<times> string) list \<Rightarrow> instant \<Rightarrow> location \<Rightarrow> bucket" where
  "new_bucket run dims occurredAt loc =
     (case bucketRange (Run_Granularity run) occurredAt loc of (start, finish) \<Rightarrow>
        \<lparr>b_key = bucket_key run dims occurredAt loc,
         b_dimensions = selectedDimensions (Run_MatchDimensions run) dims,
         b_bucketStart = start, b_bucketEnd = finish, b_providerAmount = 0, b_tokenHubAmount = 0,
         b_providerRecordIDs = [], b_tokenHubRecordIDs = [], b_providerTimes = [], b_tokenHubTimes = []\<rparr>)"

definition bucketFor ::
  "Run \<Rightarrow> (string \<times> string) list \<Rightarrow> instant \<Rightarrow> location \<Rightarrow> (string \<times> bucket) list \<Rightarrow> string \<times> bucket" where
  "bucketFor run dims occurredAt loc buckets =
     (let key = bucket_key run dims occurredAt loc;
          found = (case map_of buckets key of None \<Rightarrow> new_bucket run dims occurredAt loc | Some b \<Rightarrow> b);
          b1 = (if Run_Granularity run = GranularityDetail \<and>
                   (b_bucketStart found = zero_time \<or> occurredAt < b_bucketStart found)
                then found\<lparr>b_bucketStart := occurredAt\<rparr> else found);
          b2 = (if Run_Granularity run = GranularityDetail \<and> b_bucketEnd b1 < occurredAt
                then b1\<lparr>b_bucketEnd := occurredAt\<rparr> else b1)
      in (key, b2))"

definition maskIdentifier :: "string \<Rightarrow> string" where
  "maskIdentifier value0 =
     (let value = TrimSpace value0 in
      if value = [] then []
      else if length value \<le> 4 then ''****''
      else take 2 value @ ''****'' @ drop (length value - 2) value)"

definition item_status :: "bucket \<Rightarrow> money \<Rightarrow> money \<Rightarrow> string" where
  "item_status b amountTolerance ratioTolerance =
     (let difference = wrap64 (b_providerAmount b - b_tokenHubAmount b) in
      if b_providerRecordIDs b = [] then TokenHubOnly
      else if b_tokenHubRecordIDs b = [] then ProviderOnly
      else if absoluteMoney difference \<le> amountTolerance \<or>
              ratio difference (b_providerAmount b) \<le> ratioTolerance then Matched
      else AmountMismatch)"

definition item_reason :: "bucket \<Rightarrow> money \<Rightarrow> money \<Rightarrow> string \<Rightarrow> string" where
  "item_reason b amountTolerance ratioTolerance reasonOverride =
     (let difference = wrap64 (b_providerAmount b - b_tokenHubAmount b);
          status = item_status b amountTolerance ratioTolerance in
      if reasonOverride \<noteq> [] then reasonOverride
      else if status = TokenHubOnly then ''provider_bill_delayed_or_unmapped''
      else if status = ProviderOnly then ''missing_tokenhub_usage_or_late_data''
      else if status = Matched then ''within_tolerance''
      else if difference > 0 then ''provider_amount_higher''
      else ''tokenhub_amount_higher'')"

definition itemFromBucket ::
  "(string \<Rightarrow> string) \<Rightarrow> instant \<Rightarrow> Run \<Rightarrow> bucket \<Rightarrow> money \<Rightarrow> money \<Rightarrow> string \<Rightarrow> Item" where
  "itemFromBucket sha now run b amountTolerance ratioTolerance reasonOverride =
     (let difference = wrap64 (b_providerAmount b - b_tokenHubAmount b);
          rt = ratio difference (b_providerAmount b);
          status = item_status b amountTolerance ratioTolerance;
          reason = item_reason b amountTolerance ratioTolerance reasonOverride;
          digest = sha (Run_ID run @ [CHR 0x00] @ b_key b @ [CHR 0x00] @ status);
          dim = lookup_str (b_dimensions b)
      in \<lparr>Item_ID = ''recitem_'' @ take 24 digest, Item_RunID = Run_ID run,
          Item_MatchKey = take 32 digest, Item_Status = status,
          Item_BucketStart = b_bucketStart b, Item_BucketEnd = b_bucketEnd b,
          Item_RequestID = dim ''request_id'', Item_Provider = dim ''provider'',
          Item_ResourceAccount = dim ''resource_account'',
          Item_ResourceAccountMasked = maskIdentifier (dim ''resource_account''),
          Item_Model = dim ''model'', Item_Project = dim ''project'', Item_Currency = dim ''currency'',
          Item_ProviderAmount = OutputString (b_providerAmount b),
          Item_TokenHubAmount = OutputString (b_tokenHubAmount b),
          Item_DifferenceAmount = OutputString difference, Item_DifferenceRatio = OutputString rt,
          Item_PossibleReason = reason,
          Item_ProviderRecordIDs = b_providerRecordIDs b, Item_TokenHubRecordIDs = b_tokenHubRecordIDs b,
          Item_CreatedAt = now\<rparr>)"

subsection \<open>Digest of the inputs\<close>

definition json_field :: "string \<Rightarrow> string \<Rightarrow> string" where
  "json_field name encoded = json_string name @ '':'' @ encoded"

definition json_object :: "string list \<Rightarrow> string" where
  "json_object members = ''{'' @ Join members (CHR '','') @ ''}''"

definition json_string_map :: "(string \<times> string) list \<Rightarrow> string" where
  "json_string_map m =
     json_object (map (\<lambda>k. json_field k (json_string (lookup_str m k))) (sort (remdups (map fst m))))"

definition json_digestRow :: "digestRow \<Rightarrow> string" where
  "json_digestRow r =
     json_object [json_field ''side'' (json_string (Row_Side r)), json_field ''id'' (json_string (Row_ID r)),
       json_field ''source_id'' (json_string (Row_SourceID r)),
       json_field ''dimensions'' (json_string_map (Row_Dimensions r)),
       json_field ''amount'' (json_string (Row_Amount r)),
       json_field ''occurred_at'' (json_string (Row_OccurredAt r))]"

definition inputHash :: "(string \<Rightarrow> string) \<Rightarrow> Run \<Rightarrow> digestRow list \<Rightarrow> string" where
  "inputHash sha run rows =
     (let ordered = sort_key (\<lambda>r. (Row_Side r, Row_ID r, Row_SourceID r)) rows;
          payload = json_object
            [json_field ''rule_hash'' (json_string (Run_RuleHash run)),
             json_field ''from'' (json_string (format_rfc3339nano (Run_PeriodStart run))),
             json_field ''to'' (json_string (format_rfc3339nano (Run_PeriodEnd run))),
             json_field ''rows'' (''['' @ Join (map json_digestRow ordered) (CHR '','') @ '']'')]
      in ''sha256:'' @ sha payload)"

subsection \<open>The end of a calculation\<close>

definition count_item :: "Item \<Rightarrow> Run \<Rightarrow> Run" where
  "count_item item run =
     (if Item_Status item = Matched then run\<lparr>Run_MatchedCount := Run_MatchedCount run + 1\<rparr>
      else if Item_Status item = ProviderOnly then run\<lparr>Run_ProviderOnlyCount := Run_ProviderOnlyCount run + 1\<rparr>
      else if Item_Status item = TokenHubOnly then run\<lparr>Run_TokenHubOnlyCount := Run_TokenHubOnlyCount run + 1\<rparr>
      else if Item_Status item = AmountMismatch then
        run\<lparr>Run_AmountMismatchCount := Run_AmountMismatchCount run + 1\<rparr>
      else run)"

definition finish ::
  "(string \<Rightarrow> string) \<Rightarrow> instant \<Rightarrow> Run \<Rightarrow> Item list \<Rightarrow> digestRow list \<Rightarrow> recon_error + (Run \<times> Item list)" where
  "finish sha now run0 items rows =
     (let run1 = run0\<lparr>Run_InputHash := inputHash sha run0 rows\<rparr>;
          run2 = fold count_item items run1
      in rbind (parseMoney (Run_ProviderAmount run2)) (\<lambda>providerAmount.
         rbind (parseMoney (Run_TokenHubAmount run2)) (\<lambda>tokenHubAmount.
         Inr (run2\<lparr>Run_ProviderAmount := OutputString providerAmount,
                   Run_TokenHubAmount := OutputString tokenHubAmount,
                   Run_DifferenceAmount := OutputString (wrap64 (providerAmount - tokenHubAmount)),
                   Run_Status := RunSucceeded, Run_FinishedAt := Some now\<rparr>, items))))"

subsection \<open>The aggregated granularities\<close>

text \<open>The state of the two loops of \<open>calculate\<close>.\<close>

record engine_state =
  es_run :: Run
  es_buckets :: "(string \<times> bucket) list"
  es_rows :: "digestRow list"

definition in_period :: "Run \<Rightarrow> instant \<Rightarrow> bool" where
  "in_period run t \<longleftrightarrow> \<not> t < Run_PeriodStart run \<and> t < Run_PeriodEnd run"

definition currency_selected :: "Run \<Rightarrow> BillingRecord \<Rightarrow> bool" where
  "currency_selected run b \<longleftrightarrow> \<not> (Run_Currency run \<noteq> [] \<and> \<not> EqualFold (Bill_Currency b) (Run_Currency run))"

definition bill_step :: "location \<Rightarrow> BillingRecord \<Rightarrow> engine_state \<Rightarrow> recon_error + engine_state" where
  "bill_step loc b st =
     (let run = es_run st in
      if \<not> in_period run (Bill_UsageStartAt b) then Inr st
      else if \<not> currency_selected run b then Inr st
      else case parseMoney (Bill_NetAmount b) of
        Inl e \<Rightarrow> Inl (Wrapped (''billing record '' @ Bill_ID b) e)
      | Inr amount \<Rightarrow>
          (let dims = providerDimensions run b in
           case bucketFor run dims (Bill_UsageStartAt b) loc (es_buckets st) of (key, bk) \<Rightarrow>
             rbind (addMoney (b_providerAmount bk) amount) (\<lambda>sum_amount.
               let bk1 = bk\<lparr>b_providerAmount := sum_amount,
                            b_providerRecordIDs := b_providerRecordIDs bk @ [Bill_ID b],
                            b_providerTimes := b_providerTimes bk @ [Bill_UsageStartAt b]\<rparr>;
                   row = \<lparr>Row_Side = ''provider'', Row_ID = Bill_ID b, Row_SourceID = Bill_ExternalID b,
                          Row_Dimensions = selectedDimensions (Run_MatchDimensions run) dims,
                          Row_Amount = money_String amount,
                          Row_OccurredAt = format_rfc3339nano (Bill_UsageStartAt b)\<rparr>
               in rbind (addMoneyString (Run_ProviderAmount run) amount) (\<lambda>tot.
                  Inr \<lparr>es_run = run\<lparr>Run_ProviderRecordCount := Run_ProviderRecordCount run + 1,
                                    Run_ProviderAmount := tot\<rparr>,
                       es_buckets = AList.update key bk1 (es_buckets st),
                       es_rows = es_rows st @ [row]\<rparr>))))"

text \<open>The local cost of a usage in the currency of the run.\<close>

definition f64_is_zero :: "f64 \<Rightarrow> bool" where
  "f64_is_zero v \<longleftrightarrow> v = Fin 0"

definition usage_amount :: "money \<Rightarrow> Usage \<Rightarrow> recon_error + money" where
  "usage_amount exchangeRate u =
     (if \<not> Usage_ProviderCostKnown u \<and> f64_is_zero (Usage_ProviderCostUSD u) then
        Inl (NewError ErrorInvalidInput ''reconciliation_provider_cost_unknown''
          (''Provider cost evidence is missing for usage record '' @ Usage_ID u @
           ''; reconciliation is incomplete''))
      else case moneyFromFloat (Usage_ProviderCostUSD u) of
        Inl e \<Rightarrow> Inl (Wrapped (''usage record '' @ Usage_ID u) e)
      | Inr amount \<Rightarrow>
          (case multiplyMoney amount exchangeRate of
             Inl e \<Rightarrow> Inl (Wrapped (''usage record '' @ Usage_ID u) e)
           | Inr converted \<Rightarrow> Inr converted))"

definition usage_step :: "money \<Rightarrow> location \<Rightarrow> Usage \<Rightarrow> engine_state \<Rightarrow> recon_error + engine_state" where
  "usage_step exchangeRate loc u st =
     (let run = es_run st in
      if \<not> in_period run (Usage_CreatedAt u) then Inr st
      else rbind (usage_amount exchangeRate u) (\<lambda>amount.
        let dims = tokenHubDimensions run u in
        case bucketFor run dims (Usage_CreatedAt u) loc (es_buckets st) of (key, bk) \<Rightarrow>
          rbind (addMoney (b_tokenHubAmount bk) amount) (\<lambda>sum_amount.
            let bk1 = bk\<lparr>b_tokenHubAmount := sum_amount,
                         b_tokenHubRecordIDs := b_tokenHubRecordIDs bk @ [Usage_ID u],
                         b_tokenHubTimes := b_tokenHubTimes bk @ [Usage_CreatedAt u]\<rparr>;
                row = \<lparr>Row_Side = ''tokenhub'', Row_ID = Usage_ID u, Row_SourceID = Usage_RequestID u,
                       Row_Dimensions = selectedDimensions (Run_MatchDimensions run) dims,
                       Row_Amount = money_String amount,
                       Row_OccurredAt = format_rfc3339nano (Usage_CreatedAt u)\<rparr>
            in rbind (addMoneyString (Run_TokenHubAmount run) amount) (\<lambda>tot.
               Inr \<lparr>es_run = run\<lparr>Run_TokenHubRecordCount := Run_TokenHubRecordCount run + 1,
                                 Run_TokenHubAmount := tot\<rparr>,
                    es_buckets = AList.update key bk1 (es_buckets st),
                    es_rows = es_rows st @ [row]\<rparr>))))"

definition sort_ids :: "bucket \<Rightarrow> bucket" where
  "sort_ids b = b\<lparr>b_providerRecordIDs := sort (b_providerRecordIDs b),
                  b_tokenHubRecordIDs := sort (b_tokenHubRecordIDs b)\<rparr>"

definition calculate_buckets ::
  "(string \<Rightarrow> string) \<Rightarrow> instant \<Rightarrow> location \<Rightarrow> money \<Rightarrow> money \<Rightarrow> money \<Rightarrow> Run \<Rightarrow> BillingRecord list \<Rightarrow>
   Usage list \<Rightarrow> recon_error + (Run \<times> Item list)" where
  "calculate_buckets sha now loc amountTolerance ratioTolerance exchangeRate run bills usages =
     rbind (foldr_res (bill_step loc) bills \<lparr>es_run = run, es_buckets = [], es_rows = []\<rparr>) (\<lambda>st1.
     rbind (foldr_res (usage_step exchangeRate loc) usages st1) (\<lambda>st2.
       let keys = sort (map fst (es_buckets st2));
           items = map (\<lambda>key. itemFromBucket sha now (es_run st2) (sort_ids (the (map_of (es_buckets st2) key)))
                                amountTolerance ratioTolerance []) keys
       in finish sha now (es_run st2) items (es_rows st2)))"

section \<open>Reference definition: grouping by key\<close>

record detailEntry =
  e_id :: string
  e_sourceID :: string
  e_dimensions :: "(string \<times> string) list"
  e_amount :: money
  e_occurredAt :: instant
  e_inPeriod :: bool

definition bill_selected :: "Run \<Rightarrow> BillingRecord \<Rightarrow> bool" where
  "bill_selected run b \<longleftrightarrow> in_period run (Bill_UsageStartAt b) \<and> currency_selected run b"

definition bill_entry :: "Run \<Rightarrow> BillingRecord \<Rightarrow> detailEntry" where
  "bill_entry run b =
     \<lparr>e_id = Bill_ID b, e_sourceID = Bill_ExternalID b, e_dimensions = providerDimensions run b,
      e_amount = (case parseMoney (Bill_NetAmount b) of Inl _ \<Rightarrow> 0 | Inr m \<Rightarrow> m),
      e_occurredAt = Bill_UsageStartAt b, e_inPeriod = True\<rparr>"

definition usage_entry :: "Run \<Rightarrow> money \<Rightarrow> Usage \<Rightarrow> detailEntry" where
  "usage_entry run exchangeRate u =
     \<lparr>e_id = Usage_ID u, e_sourceID = Usage_RequestID u, e_dimensions = tokenHubDimensions run u,
      e_amount = (case usage_amount exchangeRate u of Inl _ \<Rightarrow> 0 | Inr m \<Rightarrow> m),
      e_occurredAt = Usage_CreatedAt u, e_inPeriod = in_period run (Usage_CreatedAt u)\<rparr>"

definition bill_entries :: "Run \<Rightarrow> BillingRecord list \<Rightarrow> detailEntry list" where
  "bill_entries run bills = map (bill_entry run) (filter (bill_selected run) bills)"

definition usage_entries :: "Run \<Rightarrow> money \<Rightarrow> Usage list \<Rightarrow> detailEntry list" where
  "usage_entries run exchangeRate usages =
     map (usage_entry run exchangeRate) (filter (\<lambda>u. in_period run (Usage_CreatedAt u)) usages)"

definition key_of :: "Run \<Rightarrow> location \<Rightarrow> detailEntry \<Rightarrow> string" where
  "key_of run loc e = bucket_key run (e_dimensions e) (e_occurredAt e) loc"

definition bucket_spec :: "Run \<Rightarrow> location \<Rightarrow> detailEntry list \<Rightarrow> detailEntry list \<Rightarrow> string \<Rightarrow> bucket" where
  "bucket_spec run loc ps us k =
     (let P = filter (\<lambda>e. key_of run loc e = k) ps; U = filter (\<lambda>e. key_of run loc e = k) us;
          first = hd (P @ U)
      in (new_bucket run (e_dimensions first) (e_occurredAt first) loc)
           \<lparr>b_providerAmount := sum_list (map e_amount P), b_tokenHubAmount := sum_list (map e_amount U),
            b_providerRecordIDs := map e_id P, b_tokenHubRecordIDs := map e_id U,
            b_providerTimes := map e_occurredAt P, b_tokenHubTimes := map e_occurredAt U\<rparr>)"

section \<open>Facts\<close>

definition with_totals :: "Run \<Rightarrow> int64 \<Rightarrow> string \<Rightarrow> int64 \<Rightarrow> string \<Rightarrow> Run" where
  "with_totals run pc pa tc ta =
     run\<lparr>Run_ProviderRecordCount := pc, Run_ProviderAmount := pa,
         Run_TokenHubRecordCount := tc, Run_TokenHubAmount := ta\<rparr>"

lemma with_totals_sel [simp]:
  "Run_ID (with_totals run pc pa tc ta) = Run_ID run"
  "Run_ProviderAmount (with_totals run pc pa tc ta) = pa"
  "Run_TokenHubAmount (with_totals run pc pa tc ta) = ta"
  "Run_ProviderRecordCount (with_totals run pc pa tc ta) = pc"
  "Run_TokenHubRecordCount (with_totals run pc pa tc ta) = tc"
  "Run_MatchDimensions (with_totals run pc pa tc ta) = Run_MatchDimensions run"
  "Run_Granularity (with_totals run pc pa tc ta) = Run_Granularity run"
  "Run_MatchedCount (with_totals run pc pa tc ta) = Run_MatchedCount run"
  "Run_ProviderOnlyCount (with_totals run pc pa tc ta) = Run_ProviderOnlyCount run"
  "Run_TokenHubOnlyCount (with_totals run pc pa tc ta) = Run_TokenHubOnlyCount run"
  "Run_AmountMismatchCount (with_totals run pc pa tc ta) = Run_AmountMismatchCount run"
  by (simp_all add: with_totals_def)

lemma with_totals_config [simp]:
  "in_period (with_totals run pc pa tc ta) = in_period run"
  "currency_selected (with_totals run pc pa tc ta) = currency_selected run"
  "providerDimensions (with_totals run pc pa tc ta) = providerDimensions run"
  "tokenHubDimensions (with_totals run pc pa tc ta) = tokenHubDimensions run"
  "bucket_key (with_totals run pc pa tc ta) = bucket_key run"
  "new_bucket (with_totals run pc pa tc ta) = new_bucket run"
  by (simp_all add: with_totals_def fun_eq_iff in_period_def currency_selected_def
      providerDimensions_def tokenHubDimensions_def bucket_key_def new_bucket_def cong: prod.case_cong)

lemma with_totals_bucketFor [simp]:
  "bucketFor (with_totals run pc pa tc ta) = bucketFor run"
  by (intro ext) (simp only: bucketFor_def with_totals_config with_totals_sel)

lemma with_totals_update:
  "(with_totals run pc pa tc ta)\<lparr>Run_ProviderRecordCount := pc', Run_ProviderAmount := pa'\<rparr> =
     with_totals run pc' pa' tc ta"
  "(with_totals run pc pa tc ta)\<lparr>Run_TokenHubRecordCount := tc', Run_TokenHubAmount := ta'\<rparr> =
     with_totals run pc pa tc' ta'"
  by (simp_all add: with_totals_def)

lemma bucketFor_aggregated:
  assumes "Run_Granularity run \<noteq> GranularityDetail"
  shows "bucketFor run dims t loc bs =
    (bucket_key run dims t loc,
     case map_of bs (bucket_key run dims t loc) of None \<Rightarrow> new_bucket run dims t loc | Some b \<Rightarrow> b)"
  using assms by (simp add: bucketFor_def Let_def)

text \<open>The buckets hold exactly the groups of the entries seen so far.\<close>

definition buckets_inv ::
  "Run \<Rightarrow> location \<Rightarrow> detailEntry list \<Rightarrow> detailEntry list \<Rightarrow> (string \<times> bucket) list \<Rightarrow> bool" where
  "buckets_inv run loc ps us bs \<longleftrightarrow>
     distinct (map fst bs) \<and>
     (\<forall>k. map_of bs k = (if k \<in> key_of run loc ` (set ps \<union> set us)
                          then Some (bucket_spec run loc ps us k) else None))"

lemma filter_key_empty:
  "k \<notin> key_of run loc ` (set ps \<union> set us) \<longleftrightarrow>
     filter (\<lambda>e. key_of run loc e = k) ps = [] \<and> filter (\<lambda>e. key_of run loc e = k) us = []"
  by (auto simp: filter_empty_conv)

lemma buckets_inv_provider:
  assumes inv: "buckets_inv run loc ps us bs" and us: "us = []"
    and f: "found = (case map_of bs (key_of run loc e) of
               None \<Rightarrow> new_bucket run (e_dimensions e) (e_occurredAt e) loc | Some b \<Rightarrow> b)"
  shows "buckets_inv run loc (ps @ [e]) us
    (AList.update (key_of run loc e)
      (found\<lparr>b_providerAmount := b_providerAmount found + e_amount e,
             b_providerRecordIDs := b_providerRecordIDs found @ [e_id e],
             b_providerTimes := b_providerTimes found @ [e_occurredAt e]\<rparr>) bs)"
proof -
  let ?k = "key_of run loc e"
  have found: "found\<lparr>b_providerAmount := b_providerAmount found + e_amount e,
             b_providerRecordIDs := b_providerRecordIDs found @ [e_id e],
             b_providerTimes := b_providerTimes found @ [e_occurredAt e]\<rparr> =
      bucket_spec run loc (ps @ [e]) us ?k"
  proof (cases "filter (\<lambda>x. key_of run loc x = ?k) ps")
    case Nil
    then have "map_of bs ?k = None" using inv us by (auto simp: buckets_inv_def filter_key_empty filter_empty_conv)
    with f Nil us show ?thesis by (simp add: bucket_spec_def new_bucket_def split: prod.split)
  next
    case (Cons a as)
    then have "?k \<in> key_of run loc ` (set ps \<union> set us)" using filter_key_empty [of ?k run loc ps us] by auto
    then have "found = bucket_spec run loc ps us ?k" using f inv by (simp add: buckets_inv_def)
    with Cons us show ?thesis by (simp add: bucket_spec_def)
  qed
  have other: "bucket_spec run loc (ps @ [e]) us k = bucket_spec run loc ps us k" if "k \<noteq> ?k" for k
    using that by (simp add: bucket_spec_def)
  show ?thesis unfolding found
    using inv other by (auto simp: buckets_inv_def distinct_update update_conv')
qed

lemma buckets_inv_usage:
  assumes inv: "buckets_inv run loc ps us bs"
    and f: "found = (case map_of bs (key_of run loc e) of
               None \<Rightarrow> new_bucket run (e_dimensions e) (e_occurredAt e) loc | Some b \<Rightarrow> b)"
  shows "buckets_inv run loc ps (us @ [e])
    (AList.update (key_of run loc e)
      (found\<lparr>b_tokenHubAmount := b_tokenHubAmount found + e_amount e,
             b_tokenHubRecordIDs := b_tokenHubRecordIDs found @ [e_id e],
             b_tokenHubTimes := b_tokenHubTimes found @ [e_occurredAt e]\<rparr>) bs)"
proof -
  let ?k = "key_of run loc e"
  let ?F = "\<lambda>xs. filter (\<lambda>x. key_of run loc x = ?k) xs"
  have found: "found\<lparr>b_tokenHubAmount := b_tokenHubAmount found + e_amount e,
             b_tokenHubRecordIDs := b_tokenHubRecordIDs found @ [e_id e],
             b_tokenHubTimes := b_tokenHubTimes found @ [e_occurredAt e]\<rparr> =
      bucket_spec run loc ps (us @ [e]) ?k"
  proof (cases "?F ps @ ?F us")
    case Nil
    then have "map_of bs ?k = None" using inv by (auto simp: buckets_inv_def filter_key_empty filter_empty_conv)
    with f Nil show ?thesis by (simp add: bucket_spec_def new_bucket_def split: prod.split)
  next
    case (Cons a as)
    then have "?k \<in> key_of run loc ` (set ps \<union> set us)" using filter_key_empty [of ?k run loc ps us] by auto
    then have "found = bucket_spec run loc ps us ?k" using f inv by (simp add: buckets_inv_def)
    moreover have "hd (?F ps @ ?F us @ [e]) = hd (?F ps @ ?F us)" using Cons
      by (metis append_assoc hd_append2 list.distinct(1))
    ultimately show ?thesis by (simp add: bucket_spec_def Let_def)
  qed
  have other: "bucket_spec run loc ps (us @ [e]) k = bucket_spec run loc ps us k" if "k \<noteq> ?k" for k
    using that by (simp add: bucket_spec_def)
  show ?thesis unfolding found
    using inv other by (auto simp: buckets_inv_def distinct_update update_conv')
qed

subsection \<open>The loop invariant\<close>

definition key_sum :: "Run \<Rightarrow> location \<Rightarrow> detailEntry list \<Rightarrow> string \<Rightarrow> int" where
  "key_sum run loc es k = sum_list (map e_amount (filter (\<lambda>e. key_of run loc e = k) es))"

definition engine_inv ::
  "Run \<Rightarrow> location \<Rightarrow> money \<Rightarrow> money \<Rightarrow> detailEntry list \<Rightarrow> detailEntry list \<Rightarrow> engine_state \<Rightarrow> bool" where
  "engine_inv run loc p0 t0 ps us st \<longleftrightarrow>
     buckets_inv run loc ps us (es_buckets st) \<and>
     (\<exists>pa ta. es_run st = with_totals run (Run_ProviderRecordCount run + int (length ps)) pa
                (Run_TokenHubRecordCount run + int (length us)) ta \<and>
        parseMoney pa = Inr (p0 + sum_list (map e_amount ps)) \<and>
        parseMoney ta = Inr (t0 + sum_list (map e_amount us))) \<and>
     (\<forall>k. money_ok (key_sum run loc ps k) \<and> money_ok (key_sum run loc us k))"

lemma money_ok_0 [simp]: "money_ok 0"
  by (simp add: money_ok_def int64_bounds)

lemma key_sum_snoc:
  "key_sum run loc (es @ [e]) k =
     key_sum run loc es k + (if key_of run loc e = k then e_amount e else 0)"
  by (simp add: key_sum_def)

lemma key_sum_Nil [simp]: "key_sum run loc [] k = 0"
  by (simp add: key_sum_def)

lemma engine_inv_init:
  assumes "parseMoney (Run_ProviderAmount run) = Inr p0" and "parseMoney (Run_TokenHubAmount run) = Inr t0"
  shows "engine_inv run loc p0 t0 [] [] \<lparr>es_run = run, es_buckets = [], es_rows = []\<rparr>"
proof -
  have "with_totals run (Run_ProviderRecordCount run) (Run_ProviderAmount run)
      (Run_TokenHubRecordCount run) (Run_TokenHubAmount run) = run" by (simp add: with_totals_def)
  with assms show ?thesis by (simp add: engine_inv_def buckets_inv_def) metis
qed

lemma found_amounts:
  assumes "buckets_inv run loc ps us bs"
    and "found = (case map_of bs k of None \<Rightarrow> new_bucket run dims t loc | Some b \<Rightarrow> b)"
  shows "b_providerAmount found = key_sum run loc ps k" and "b_tokenHubAmount found = key_sum run loc us k"
  using assms
  by (auto simp: buckets_inv_def bucket_spec_def Let_def key_sum_def new_bucket_def filter_key_empty
      split: prod.splits if_splits)

lemma addMoneyString_eq:
  assumes "parseMoney s = Inr a" and "money_ok b"
  shows "addMoneyString s b = (if money_ok (a + b) then Inr (money_String (a + b)) else Inl AmountOverflow)"
  using assms parseMoney_ok [OF assms(1)] by (simp add: addMoneyString_def addMoney_eq)

lemma bill_step_selected:
  assumes inv: "engine_inv run loc p0 t0 ps [] st" and sel: "bill_selected run b"
    and gran: "Run_Granularity run \<noteq> GranularityDetail" and amount: "parseMoney (Bill_NetAmount b) = Inr m"
  defines "e \<equiv> bill_entry run b"
  shows "if money_ok (key_sum run loc ps (key_of run loc e) + m) \<and> money_ok (p0 + sum_list (map e_amount ps) + m)
     then \<exists>st'. bill_step loc b st = Inr st' \<and> engine_inv run loc p0 t0 (ps @ [e]) [] st'
     else bill_step loc b st = Inl AmountOverflow"
proof -
  let ?k = "key_of run loc e"
  from inv obtain pa ta where
      bs: "buckets_inv run loc ps [] (es_buckets st)"
    and run: "es_run st = with_totals run (Run_ProviderRecordCount run + int (length ps)) pa
                (Run_TokenHubRecordCount run) ta"
    and pa: "parseMoney pa = Inr (p0 + sum_list (map e_amount ps))" and ta: "parseMoney ta = Inr t0"
    and sums: "\<And>k. money_ok (key_sum run loc ps k)"
    by (auto simp: engine_inv_def)
  define found where "found = (case map_of (es_buckets st) ?k of
      None \<Rightarrow> new_bucket run (e_dimensions e) (e_occurredAt e) loc | Some b \<Rightarrow> b)"
  have e: "e_dimensions e = providerDimensions run b" "e_occurredAt e = Bill_UsageStartAt b"
      "e_amount e = m" "e_id e = Bill_ID b"
    using amount by (simp_all add: e_def bill_entry_def)
  have k: "?k = bucket_key run (providerDimensions run b) (Bill_UsageStartAt b) loc"
    by (simp add: key_of_def e)
  have m: "money_ok m" by (rule parseMoney_ok [OF amount])
  have add: "addMoney (b_providerAmount found) m =
      (if money_ok (key_sum run loc ps ?k + m) then Inr (key_sum run loc ps ?k + m) else Inl AmountOverflow)"
    using found_amounts(1) [OF bs found_def] addMoney_eq [OF sums m] by simp
  have bf: "bucketFor run (providerDimensions run b) (Bill_UsageStartAt b) loc (es_buckets st) = (?k, found)"
    unfolding found_def k e by (rule bucketFor_aggregated [OF gran])
  have sel': "in_period run (Bill_UsageStartAt b)" "currency_selected run b"
    using sel by (simp_all add: bill_selected_def)
  have step: "bill_step loc b st =
      rbind (addMoney (b_providerAmount found) m) (\<lambda>s. rbind (addMoneyString pa m) (\<lambda>tot.
        Inr \<lparr>es_run = with_totals run (Run_ProviderRecordCount run + int (length ps) + 1) tot
               (Run_TokenHubRecordCount run) ta,
             es_buckets = AList.update ?k (found\<lparr>b_providerAmount := s,
               b_providerRecordIDs := b_providerRecordIDs found @ [Bill_ID b],
               b_providerTimes := b_providerTimes found @ [Bill_UsageStartAt b]\<rparr>) (es_buckets st),
             es_rows = es_rows st @
               [\<lparr>Row_Side = ''provider'', Row_ID = Bill_ID b, Row_SourceID = Bill_ExternalID b,
                 Row_Dimensions = selectedDimensions (Run_MatchDimensions run) (providerDimensions run b),
                 Row_Amount = money_String m,
                 Row_OccurredAt = format_rfc3339nano (Bill_UsageStartAt b)\<rparr>]\<rparr>))"
    by (simp add: bill_step_def run sel' amount bf Let_def with_totals_update)
  have buckets: "buckets_inv run loc (ps @ [e]) []
      (AList.update ?k (found\<lparr>b_providerAmount := key_sum run loc ps ?k + m,
               b_providerRecordIDs := b_providerRecordIDs found @ [Bill_ID b],
               b_providerTimes := b_providerTimes found @ [Bill_UsageStartAt b]\<rparr>) (es_buckets st))"
    using buckets_inv_provider [OF bs refl found_def] found_amounts(1) [OF bs found_def] by (simp add: e)
  show ?thesis
  proof (cases "money_ok (key_sum run loc ps ?k + m) \<and> money_ok (p0 + sum_list (map e_amount ps) + m)")
    case True
    then have "parseMoney (money_String (p0 + sum_list (map e_amount ps) + m)) =
        Inr (p0 + sum_list (map e_amount ps) + m)"
      by (intro parseMoney_money_String) simp
    then show ?thesis using True buckets ta sums
      by (auto simp: step add addMoneyString_eq [OF pa m] engine_inv_def key_sum_snoc e algebra_simps)
  next
    case False
    then show ?thesis by (auto simp: step add addMoneyString_eq [OF pa m])
  qed
qed

lemma usage_step_selected:
  assumes inv: "engine_inv run loc p0 t0 ps us st" and sel: "in_period run (Usage_CreatedAt u)"
    and gran: "Run_Granularity run \<noteq> GranularityDetail" and amount: "usage_amount rate u = Inr m"
  defines "e \<equiv> usage_entry run rate u"
  shows "if money_ok (key_sum run loc us (key_of run loc e) + m) \<and> money_ok (t0 + sum_list (map e_amount us) + m)
     then \<exists>st'. usage_step rate loc u st = Inr st' \<and> engine_inv run loc p0 t0 ps (us @ [e]) st'
     else usage_step rate loc u st = Inl AmountOverflow"
proof -
  let ?k = "key_of run loc e"
  from inv obtain pa ta where
      bs: "buckets_inv run loc ps us (es_buckets st)"
    and run: "es_run st = with_totals run (Run_ProviderRecordCount run + int (length ps)) pa
                (Run_TokenHubRecordCount run + int (length us)) ta"
    and pa: "parseMoney pa = Inr (p0 + sum_list (map e_amount ps))"
    and ta: "parseMoney ta = Inr (t0 + sum_list (map e_amount us))"
    and psums: "\<And>k. money_ok (key_sum run loc ps k)" and sums: "\<And>k. money_ok (key_sum run loc us k)"
    by (auto simp: engine_inv_def)
  define found where "found = (case map_of (es_buckets st) ?k of
      None \<Rightarrow> new_bucket run (e_dimensions e) (e_occurredAt e) loc | Some b \<Rightarrow> b)"
  have e: "e_dimensions e = tokenHubDimensions run u" "e_occurredAt e = Usage_CreatedAt u"
      "e_amount e = m" "e_id e = Usage_ID u"
    using amount by (simp_all add: e_def usage_entry_def)
  have k: "?k = bucket_key run (tokenHubDimensions run u) (Usage_CreatedAt u) loc"
    by (simp add: key_of_def e)
  have m: "money_ok m"
    using amount by (auto simp: usage_amount_def split: if_splits sum.splits dest: multiplyMoney_ok)
  have add: "addMoney (b_tokenHubAmount found) m =
      (if money_ok (key_sum run loc us ?k + m) then Inr (key_sum run loc us ?k + m) else Inl AmountOverflow)"
    using found_amounts(2) [OF bs found_def] addMoney_eq [OF sums m] by simp
  have bf: "bucketFor run (tokenHubDimensions run u) (Usage_CreatedAt u) loc (es_buckets st) = (?k, found)"
    unfolding found_def k e by (rule bucketFor_aggregated [OF gran])
  have step: "usage_step rate loc u st =
      rbind (addMoney (b_tokenHubAmount found) m) (\<lambda>s. rbind (addMoneyString ta m) (\<lambda>tot.
        Inr \<lparr>es_run = with_totals run (Run_ProviderRecordCount run + int (length ps)) pa
               (Run_TokenHubRecordCount run + int (length us) + 1) tot,
             es_buckets = AList.update ?k (found\<lparr>b_tokenHubAmount := s,
               b_tokenHubRecordIDs := b_tokenHubRecordIDs found @ [Usage_ID u],
               b_tokenHubTimes := b_tokenHubTimes found @ [Usage_CreatedAt u]\<rparr>) (es_buckets st),
             es_rows = es_rows st @
               [\<lparr>Row_Side = ''tokenhub'', Row_ID = Usage_ID u, Row_SourceID = Usage_RequestID u,
                 Row_Dimensions = selectedDimensions (Run_MatchDimensions run) (tokenHubDimensions run u),
                 Row_Amount = money_String m,
                 Row_OccurredAt = format_rfc3339nano (Usage_CreatedAt u)\<rparr>]\<rparr>))"
    by (simp add: usage_step_def run sel amount bf Let_def with_totals_update)
  have buckets: "buckets_inv run loc ps (us @ [e])
      (AList.update ?k (found\<lparr>b_tokenHubAmount := key_sum run loc us ?k + m,
               b_tokenHubRecordIDs := b_tokenHubRecordIDs found @ [Usage_ID u],
               b_tokenHubTimes := b_tokenHubTimes found @ [Usage_CreatedAt u]\<rparr>) (es_buckets st))"
    using buckets_inv_usage [OF bs found_def] found_amounts(2) [OF bs found_def] by (simp add: e)
  show ?thesis
  proof (cases "money_ok (key_sum run loc us ?k + m) \<and> money_ok (t0 + sum_list (map e_amount us) + m)")
    case True
    then have "parseMoney (money_String (t0 + sum_list (map e_amount us) + m)) =
        Inr (t0 + sum_list (map e_amount us) + m)"
      by (intro parseMoney_money_String) simp
    then show ?thesis using True buckets pa sums psums
      by (auto simp: step add addMoneyString_eq [OF ta m] engine_inv_def key_sum_snoc e algebra_simps)
  next
    case False
    then show ?thesis by (auto simp: step add addMoneyString_eq [OF ta m])
  qed
qed

lemma bill_step_skip: "es_run st = with_totals run a b' c d \<Longrightarrow> \<not> bill_selected run b \<Longrightarrow> bill_step loc b st = Inr st"
  by (auto simp: bill_step_def bill_selected_def Let_def)

lemma usage_step_skip:
  "es_run st = with_totals run a b' c d \<Longrightarrow> \<not> in_period run (Usage_CreatedAt u) \<Longrightarrow>
     usage_step rate loc u st = Inr st"
  by (auto simp: usage_step_def Let_def)

lemma engine_inv_run: "engine_inv run loc p0 t0 ps us st \<Longrightarrow> \<exists>a b c d. es_run st = with_totals run a b c d"
  by (auto simp: engine_inv_def)

lemma bills_loop:
  assumes "foldr_res (bill_step loc) bills st = Inr st'" and "engine_inv run loc p0 t0 ps [] st"
    and gran: "Run_Granularity run \<noteq> GranularityDetail"
  shows "engine_inv run loc p0 t0 (ps @ bill_entries run bills) [] st'"
  using assms(1,2)
proof (induction bills arbitrary: ps st)
  case Nil
  then show ?case by (simp add: bill_entries_def)
next
  case (Cons b bills)
  from Cons.prems(1) obtain st1 where step: "bill_step loc b st = Inr st1"
    and rest: "foldr_res (bill_step loc) bills st1 = Inr st'" by (auto simp: rbind_eq_Inr_iff)
  show ?case
  proof (cases "bill_selected run b")
    case False
    then have "st1 = st" using step bill_step_skip engine_inv_run [OF Cons.prems(2)] by fastforce
    with False Cons.IH [OF rest] Cons.prems(2) show ?thesis by (simp add: bill_entries_def)
  next
    case True
    obtain m where m: "parseMoney (Bill_NetAmount b) = Inr m"
      using step True engine_inv_run [OF Cons.prems(2)]
      by (auto simp: bill_step_def bill_selected_def Let_def split: sum.splits)
    have "engine_inv run loc p0 t0 (ps @ [bill_entry run b]) [] st1"
      using bill_step_selected [OF Cons.prems(2) True gran m] step by (auto split: if_splits)
    from Cons.IH [OF rest this] True show ?thesis by (simp add: bill_entries_def)
  qed
qed

lemma usages_loop:
  assumes "foldr_res (usage_step rate loc) usages st = Inr st'" and "engine_inv run loc p0 t0 ps us st"
    and gran: "Run_Granularity run \<noteq> GranularityDetail"
  shows "engine_inv run loc p0 t0 ps (us @ usage_entries run rate usages) st'"
  using assms(1,2)
proof (induction usages arbitrary: us st)
  case Nil
  then show ?case by (simp add: usage_entries_def)
next
  case (Cons u usages)
  from Cons.prems(1) obtain st1 where step: "usage_step rate loc u st = Inr st1"
    and rest: "foldr_res (usage_step rate loc) usages st1 = Inr st'" by (auto simp: rbind_eq_Inr_iff)
  show ?case
  proof (cases "in_period run (Usage_CreatedAt u)")
    case False
    then have "st1 = st" using step usage_step_skip engine_inv_run [OF Cons.prems(2)] by fastforce
    with False Cons.IH [OF rest] Cons.prems(2) show ?thesis by (simp add: usage_entries_def)
  next
    case True
    obtain m where m: "usage_amount rate u = Inr m"
      using step True engine_inv_run [OF Cons.prems(2)]
      by (auto simp: usage_step_def Let_def rbind_eq_Inr_iff)
    have "engine_inv run loc p0 t0 ps (us @ [usage_entry run rate u]) st1"
      using usage_step_selected [OF Cons.prems(2) True gran m] step by (auto split: if_splits)
    from Cons.IH [OF rest this] True show ?thesis by (simp add: usage_entries_def)
  qed
qed

text \<open>Amounts whose absolute values sum to at most the largest \<open>int64\<close> never overflow.\<close>

lemma key_sum_bound: "\<bar>key_sum run loc es k\<bar> \<le> sum_list (map (\<lambda>e. \<bar>e_amount e\<bar>) es)"
  by (induction es) (auto simp: key_sum_def)

lemma sum_amount_bound: "\<bar>sum_list (map e_amount es)\<bar> \<le> sum_list (map (\<lambda>e. \<bar>e_amount e\<bar>) es)"
  by (induction es) auto

lemma sum_abs_nonneg: "0 \<le> sum_list (map (\<lambda>e. \<bar>e_amount e\<bar>) es)"
  by (induction es) auto

definition total_volume :: "money \<Rightarrow> detailEntry list \<Rightarrow> int" where
  "total_volume p0 es = \<bar>p0\<bar> + sum_list (map (\<lambda>e. \<bar>e_amount e\<bar>) es)"

lemma total_volume_snoc_ok:
  assumes "total_volume p0 (es @ e # rest) \<le> max_int64"
  shows "money_ok (key_sum run loc es k + e_amount e)" and "money_ok (p0 + sum_list (map e_amount es) + e_amount e)"
  using assms key_sum_bound [of run loc es k] sum_amount_bound [of es] sum_abs_nonneg [of rest]
  unfolding money_ok_bounds total_volume_def by (auto simp: abs_le_iff)

lemma bills_loop_total:
  assumes "engine_inv run loc p0 t0 ps [] st" and gran: "Run_Granularity run \<noteq> GranularityDetail"
    and "\<forall>b \<in> set bills. bill_selected run b \<longrightarrow> (\<exists>m. parseMoney (Bill_NetAmount b) = Inr m)"
    and "total_volume p0 (ps @ bill_entries run bills) \<le> max_int64"
  shows "\<exists>st'. foldr_res (bill_step loc) bills st = Inr st'"
  using assms(1,3,4)
proof (induction bills arbitrary: ps st)
  case Nil
  then show ?case by simp
next
  case (Cons b bills)
  show ?case
  proof (cases "bill_selected run b")
    case False
    then have "bill_step loc b st = Inr st" using bill_step_skip engine_inv_run [OF Cons.prems(1)] by fastforce
    with False Cons.IH [OF Cons.prems(1)] Cons.prems(2,3) show ?thesis by (simp add: bill_entries_def)
  next
    case True
    with Cons.prems(2) obtain m where m: "parseMoney (Bill_NetAmount b) = Inr m" by auto
    let ?e = "bill_entry run b"
    have em: "e_amount ?e = m" using m by (simp add: bill_entry_def)
    have "total_volume p0 (ps @ ?e # bill_entries run bills) \<le> max_int64"
      using Cons.prems(3) True by (simp add: bill_entries_def)
    note ok = total_volume_snoc_ok [OF this, unfolded em]
    obtain st1 where st1: "bill_step loc b st = Inr st1" "engine_inv run loc p0 t0 (ps @ [?e]) [] st1"
      using bill_step_selected [OF Cons.prems(1) True gran m] ok by auto
    from Cons.IH [OF st1(2)] Cons.prems(2,3) True st1(1) show ?thesis by (simp add: bill_entries_def)
  qed
qed

lemma usages_loop_total:
  assumes "engine_inv run loc p0 t0 ps us st" and gran: "Run_Granularity run \<noteq> GranularityDetail"
    and "\<forall>u \<in> set usages. in_period run (Usage_CreatedAt u) \<longrightarrow> (\<exists>m. usage_amount rate u = Inr m)"
    and "total_volume t0 (us @ usage_entries run rate usages) \<le> max_int64"
  shows "\<exists>st'. foldr_res (usage_step rate loc) usages st = Inr st'"
  using assms(1,3,4)
proof (induction usages arbitrary: us st)
  case Nil
  then show ?case by simp
next
  case (Cons u usages)
  show ?case
  proof (cases "in_period run (Usage_CreatedAt u)")
    case False
    then have "usage_step rate loc u st = Inr st" using usage_step_skip engine_inv_run [OF Cons.prems(1)] by fastforce
    with False Cons.IH [OF Cons.prems(1)] Cons.prems(2,3) show ?thesis by (simp add: usage_entries_def)
  next
    case True
    with Cons.prems(2) obtain m where m: "usage_amount rate u = Inr m" by auto
    let ?e = "usage_entry run rate u"
    have em: "e_amount ?e = m" using m by (simp add: usage_entry_def)
    have "total_volume t0 (us @ ?e # usage_entries run rate usages) \<le> max_int64"
      using Cons.prems(3) True by (simp add: usage_entries_def)
    note ok = total_volume_snoc_ok [OF this, unfolded em]
    obtain st1 where st1: "usage_step rate loc u st = Inr st1" "engine_inv run loc p0 t0 ps (us @ [?e]) st1"
      using usage_step_selected [OF Cons.prems(1) True gran m] ok by auto
    from Cons.IH [OF st1(2)] Cons.prems(2,3) True st1(1) show ?thesis by (simp add: usage_entries_def)
  qed
qed

subsection \<open>The end of a calculation\<close>

definition count_status :: "string \<Rightarrow> Item list \<Rightarrow> int" where
  "count_status status items = int (length (filter (\<lambda>i. Item_Status i = status) items))"

lemma count_status_simps [simp]:
  "count_status st [] = 0"
  "count_status st (i # is) = (if Item_Status i = st then 1 else 0) + count_status st is"
  by (simp_all add: count_status_def)

lemma fold_count_item:
  "fold count_item items run =
     run\<lparr>Run_MatchedCount := Run_MatchedCount run + count_status Matched items,
         Run_ProviderOnlyCount := Run_ProviderOnlyCount run + count_status ProviderOnly items,
         Run_TokenHubOnlyCount := Run_TokenHubOnlyCount run + count_status TokenHubOnly items,
         Run_AmountMismatchCount := Run_AmountMismatchCount run + count_status AmountMismatch items\<rparr>"
proof (induction items arbitrary: run)
  case Nil
  show ?case by simp
next
  case (Cons i items)
  then show ?case by (simp add: count_item_def item_status_defs)
qed

lemma finish_eq:
  assumes "parseMoney (Run_ProviderAmount run) = Inr p" and "parseMoney (Run_TokenHubAmount run) = Inr t"
  shows "finish sha now run items rows = Inr
    (run\<lparr>Run_InputHash := inputHash sha run rows,
         Run_MatchedCount := Run_MatchedCount run + count_status Matched items,
         Run_ProviderOnlyCount := Run_ProviderOnlyCount run + count_status ProviderOnly items,
         Run_TokenHubOnlyCount := Run_TokenHubOnlyCount run + count_status TokenHubOnly items,
         Run_AmountMismatchCount := Run_AmountMismatchCount run + count_status AmountMismatch items,
         Run_ProviderAmount := OutputString p, Run_TokenHubAmount := OutputString t,
         Run_DifferenceAmount := OutputString (wrap64 (p - t)), Run_Status := RunSucceeded,
         Run_FinishedAt := Some now\<rparr>, items)"
  using assms by (simp add: finish_def fold_count_item Let_def)

lemma itemFromBucket_run_ID:
  "Run_ID run = Run_ID run' \<Longrightarrow>
     itemFromBucket sha now run b aT rT reason = itemFromBucket sha now run' b aT rT reason"
  by (simp add: itemFromBucket_def)

lemma item_status_cases:
  "item_status b aT rT \<in> {Matched, ProviderOnly, TokenHubOnly, AmountMismatch}"
  by (simp add: item_status_def Let_def)

lemma itemFromBucket_sel [simp]:
  "Item_Status (itemFromBucket sha now run b aT rT reason) = item_status b aT rT"
  "Item_ProviderRecordIDs (itemFromBucket sha now run b aT rT reason) = b_providerRecordIDs b"
  "Item_TokenHubRecordIDs (itemFromBucket sha now run b aT rT reason) = b_tokenHubRecordIDs b"
  "Item_ProviderAmount (itemFromBucket sha now run b aT rT reason) = OutputString (b_providerAmount b)"
  "Item_TokenHubAmount (itemFromBucket sha now run b aT rT reason) = OutputString (b_tokenHubAmount b)"
  "Item_RunID (itemFromBucket sha now run b aT rT reason) = Run_ID run"
  by (simp_all add: itemFromBucket_def Let_def)

text \<open>Every item has one of the four statuses, so the four counters count all items.\<close>

lemma count_status_sum:
  assumes "\<forall>i \<in> set items. Item_Status i \<in> {Matched, ProviderOnly, TokenHubOnly, AmountMismatch}"
  shows "count_status Matched items + count_status ProviderOnly items + count_status TokenHubOnly items +
    count_status AmountMismatch items = int (length items)"
  using assms by (induction items) (auto simp: item_status_defs)

lemma calculate_buckets_result:
  assumes calc: "calculate_buckets sha now loc aT rT rate run bills usages = Inr (run', items)"
    and gran: "Run_Granularity run \<noteq> GranularityDetail"
    and p0: "parseMoney (Run_ProviderAmount run) = Inr p0" and t0: "parseMoney (Run_TokenHubAmount run) = Inr t0"
  defines "ps \<equiv> bill_entries run bills" and "us \<equiv> usage_entries run rate usages"
  shows "items = map (\<lambda>k. itemFromBucket sha now run (sort_ids (bucket_spec run loc ps us k)) aT rT [])
             (sorted_list_of_set (key_of run loc ` (set ps \<union> set us)))"
    and "Run_ProviderAmount run' = OutputString (p0 + sum_list (map e_amount ps))"
    and "Run_TokenHubAmount run' = OutputString (t0 + sum_list (map e_amount us))"
    and "Run_ProviderRecordCount run' = Run_ProviderRecordCount run + int (length ps)"
    and "Run_TokenHubRecordCount run' = Run_TokenHubRecordCount run + int (length us)"
    and "Run_MatchedCount run' = Run_MatchedCount run + count_status Matched items"
    and "Run_ProviderOnlyCount run' = Run_ProviderOnlyCount run + count_status ProviderOnly items"
    and "Run_TokenHubOnlyCount run' = Run_TokenHubOnlyCount run + count_status TokenHubOnly items"
    and "Run_AmountMismatchCount run' = Run_AmountMismatchCount run + count_status AmountMismatch items"
proof -
  from calc obtain st1 st2 where
      l1: "foldr_res (bill_step loc) bills \<lparr>es_run = run, es_buckets = [], es_rows = []\<rparr> = Inr st1"
    and l2: "foldr_res (usage_step rate loc) usages st1 = Inr st2"
    and fin: "finish sha now (es_run st2)
       (map (\<lambda>key. itemFromBucket sha now (es_run st2) (sort_ids (the (map_of (es_buckets st2) key))) aT rT [])
          (sort (map fst (es_buckets st2)))) (es_rows st2) = Inr (run', items)"
    by (auto simp: calculate_buckets_def Let_def rbind_eq_Inr_iff)
  have "engine_inv run loc p0 t0 ps us st2"
    using usages_loop [OF l2 bills_loop [OF l1 engine_inv_init [OF p0 t0] gran] gran]
    by (simp add: ps_def us_def)
  then obtain pa ta where bs: "buckets_inv run loc ps us (es_buckets st2)"
    and run: "es_run st2 = with_totals run (Run_ProviderRecordCount run + int (length ps)) pa
                (Run_TokenHubRecordCount run + int (length us)) ta"
    and pa: "parseMoney (Run_ProviderAmount (es_run st2)) = Inr (p0 + sum_list (map e_amount ps))"
    and ta: "parseMoney (Run_TokenHubAmount (es_run st2)) = Inr (t0 + sum_list (map e_amount us))"
    by (auto simp: engine_inv_def)
  let ?K = "key_of run loc ` (set ps \<union> set us)"
  have keys: "fst ` set (es_buckets st2) = ?K"
    using bs unfolding dom_map_of_conv_image_fst [symmetric] by (simp add: buckets_inv_def dom_def)
  have sorted_keys: "sort (map fst (es_buckets st2)) = sorted_list_of_set ?K"
    using bs keys by (metis buckets_inv_def image_set sorted_list_of_set_sort_remdups distinct_remdups_id)
  have spec: "the (map_of (es_buckets st2) k) = bucket_spec run loc ps us k" if "k \<in> ?K" for k
    using bs that by (simp add: buckets_inv_def)
  have id: "Run_ID (es_run st2) = Run_ID run" by (simp add: run)
  have its: "map (\<lambda>key. itemFromBucket sha now (es_run st2) (sort_ids (the (map_of (es_buckets st2) key))) aT rT [])
          (sort (map fst (es_buckets st2))) =
      map (\<lambda>k. itemFromBucket sha now run (sort_ids (bucket_spec run loc ps us k)) aT rT []) (sorted_list_of_set ?K)"
    unfolding sorted_keys using spec itemFromBucket_run_ID [OF id] by (intro map_cong) auto
  note r = fin [unfolded its finish_eq [OF pa ta], simplified]
  show "items = map (\<lambda>k. itemFromBucket sha now run (sort_ids (bucket_spec run loc ps us k)) aT rT [])
             (sorted_list_of_set ?K)"
    using r by simp
  show "Run_ProviderAmount run' = OutputString (p0 + sum_list (map e_amount ps))"
    and "Run_TokenHubAmount run' = OutputString (t0 + sum_list (map e_amount us))"
    and "Run_ProviderRecordCount run' = Run_ProviderRecordCount run + int (length ps)"
    and "Run_TokenHubRecordCount run' = Run_TokenHubRecordCount run + int (length us)"
    and "Run_MatchedCount run' = Run_MatchedCount run + count_status Matched items"
    and "Run_ProviderOnlyCount run' = Run_ProviderOnlyCount run + count_status ProviderOnly items"
    and "Run_TokenHubOnlyCount run' = Run_TokenHubOnlyCount run + count_status TokenHubOnly items"
    and "Run_AmountMismatchCount run' = Run_AmountMismatchCount run + count_status AmountMismatch items"
    using r by (auto simp: run)
qed

text \<open>Grouping a list by a key and concatenating the groups permutes the list.\<close>

lemma mset_group_by:
  assumes "distinct ks" and "f ` set xs \<subseteq> set ks"
  shows "mset (concat (map (\<lambda>k. filter (\<lambda>x. f x = k) xs) ks)) = mset xs"
  using assms
proof (induction ks arbitrary: xs)
  case Nil
  then show ?case by simp
next
  case (Cons k ks)
  let ?ys = "filter (\<lambda>x. f x \<noteq> k) xs"
  have "filter (\<lambda>x. f x = k') xs = filter (\<lambda>x. f x = k') ?ys" if "k' \<in> set ks" for k'
    using that Cons.prems(1) by (auto simp: filter_filter intro: filter_cong)
  then have "map (\<lambda>k'. filter (\<lambda>x. f x = k') xs) ks = map (\<lambda>k'. filter (\<lambda>x. f x = k') ?ys) ks"
    by simp
  moreover have "mset (concat (map (\<lambda>k'. filter (\<lambda>x. f x = k') ?ys) ks)) = mset ?ys"
    using Cons.prems by (intro Cons.IH) auto
  ultimately show ?case using multiset_partition [of "mset xs" "\<lambda>x. f x = k"]
    by (simp only: list.map concat.simps mset_append mset_filter)
qed

lemma mset_concat_groups:
  assumes "distinct ks" and "f ` set xs \<subseteq> set ks"
  shows "mset (concat (map (\<lambda>k. sort (map g (filter (\<lambda>x. f x = k) xs))) ks)) = mset (map g xs)"
proof -
  have "mset (concat (map (\<lambda>k. sort (map g (filter (\<lambda>x. f x = k) xs))) ks)) =
      mset (map g (concat (map (\<lambda>k. filter (\<lambda>x. f x = k) xs) ks)))"
    by (induction ks) simp_all
  also have "\<dots> = image_mset g (mset xs)" using mset_group_by [OF assms] by simp
  finally show ?thesis by simp
qed

lemma calculate_buckets_Inr:
  assumes "Run_Granularity run \<noteq> GranularityDetail"
    and "parseMoney (Run_ProviderAmount run) = Inr p0" and "parseMoney (Run_TokenHubAmount run) = Inr t0"
    and "\<forall>b \<in> set bills. bill_selected run b \<longrightarrow> (\<exists>m. parseMoney (Bill_NetAmount b) = Inr m)"
    and "\<forall>u \<in> set usages. in_period run (Usage_CreatedAt u) \<longrightarrow> (\<exists>m. usage_amount rate u = Inr m)"
    and "total_volume p0 (bill_entries run bills) \<le> max_int64"
    and "total_volume t0 (usage_entries run rate usages) \<le> max_int64"
  shows "\<exists>run' items. calculate_buckets sha now loc aT rT rate run bills usages = Inr (run', items)"
proof -
  let ?st0 = "\<lparr>es_run = run, es_buckets = [], es_rows = []\<rparr>"
  have init: "engine_inv run loc p0 t0 [] [] ?st0" by (rule engine_inv_init [OF assms(2,3)])
  obtain st1 where l1: "foldr_res (bill_step loc) bills ?st0 = Inr st1"
    using bills_loop_total [OF init assms(1,4)] assms(6) by auto
  have inv1: "engine_inv run loc p0 t0 (bill_entries run bills) [] st1"
    using bills_loop [OF l1 init assms(1)] by simp
  obtain st2 where l2: "foldr_res (usage_step rate loc) usages st1 = Inr st2"
    using usages_loop_total [OF inv1 assms(1,5)] assms(7) by auto
  have "engine_inv run loc p0 t0 (bill_entries run bills) (usage_entries run rate usages) st2"
    using usages_loop [OF l2 inv1 assms(1)] by simp
  then obtain p t where "parseMoney (Run_ProviderAmount (es_run st2)) = Inr p"
    and "parseMoney (Run_TokenHubAmount (es_run st2)) = Inr t" by (auto simp: engine_inv_def)
  from finish_eq [OF this] show ?thesis by (simp add: calculate_buckets_def l1 l2 Let_def)
qed

section \<open>A sample calculation\<close>

definition sample_run :: Run where
  "sample_run = zero_Run\<lparr>Run_ID := ''recon_1'', Run_Granularity := GranularityDay,
     Run_MatchDimensions := [''model'', ''currency''], Run_Currency := ''USD'',
     Run_PeriodStart := 0, Run_PeriodEnd := 86400000000000,
     Run_AmountTolerance := money_String 0, Run_RatioTolerance := money_String 0,
     Run_USDExchangeRate := money_String moneyScale, Run_TimeWindowMinutes := 5, Run_Timezone := ''UTC'',
     Run_ProviderAmount := money_String 0, Run_TokenHubAmount := money_String 0\<rparr>"

definition sample_bill :: BillingRecord where
  "sample_bill = \<lparr>Bill_ID = ''bill_1'', Bill_ExternalID = ''x1'', Bill_SourceType = ''openai'',
     Bill_AccountID = [], Bill_ProviderID = ''p1'', Bill_ProviderResourceID = [], Bill_ResourceID = [],
     Bill_ProjectID = [], Bill_Model = ''gpt'', Bill_Currency = ''USD'',
     Bill_NetAmount = money_String 1500000000, Bill_UsageStartAt = 3600000000000,
     Bill_ExternalRequestID = ''req_1''\<rparr>"

definition sample_usage :: Usage where
  "sample_usage = \<lparr>Usage_ID = ''usage_1'', Usage_RequestID = ''req_1'', Usage_ProjectID = [],
     Usage_ModelName = ''gpt'', Usage_ProviderID = ''p1'', Usage_ProviderResourceID = [],
     Usage_CostUSD = Fin (3 / 2), Usage_ProviderCostUSD = Fin (of_int 1500000000 / 10 ^ 9),
     Usage_ProviderCostKnown = True, Usage_CreatedAt = 3601000000000\<rparr>"

lemma money_ok_sample [simp]: "money_ok 1500000000" "money_ok moneyScale"
  by (simp_all add: money_ok_def int64_bounds moneyScale_def)

lemma sample_usage_amount: "usage_amount moneyScale sample_usage = Inr 1500000000"
proof -
  have "multiplyMoney 1500000000 moneyScale = Inr 1500000000"
    using round_money.rnd_of_int [of 1500000000] by (simp add: multiplyMoney_eq moneyScale_def Let_def)
  moreover have "moneyFromFloat (Usage_ProviderCostUSD sample_usage) = Inr 1500000000"
    unfolding sample_usage_def Usage.simps by (rule moneyFromFloat_exact) simp
  moreover have "Usage_ProviderCostKnown sample_usage" by (simp add: sample_usage_def)
  ultimately show ?thesis by (simp add: usage_amount_def)
qed

lemma sample_calculation_runs:
  "\<exists>run' items. calculate_buckets (\<lambda>s. s) now UTC 0 0 moneyScale sample_run [sample_bill] [sample_usage]
     = Inr (run', items)"
proof (rule calculate_buckets_Inr)
  show "Run_Granularity sample_run \<noteq> GranularityDetail" by (simp add: sample_run_def granularity_defs)
  show "parseMoney (Run_ProviderAmount sample_run) = Inr 0" "parseMoney (Run_TokenHubAmount sample_run) = Inr 0"
    by (simp_all add: sample_run_def parseMoney_money_String)
  show "\<forall>b\<in>set [sample_bill]. bill_selected sample_run b \<longrightarrow> (\<exists>m. parseMoney (Bill_NetAmount b) = Inr m)"
    by (simp add: sample_bill_def parseMoney_money_String)
  show "\<forall>u\<in>set [sample_usage]. in_period sample_run (Usage_CreatedAt u) \<longrightarrow> (\<exists>m. usage_amount moneyScale u = Inr m)"
    by (simp add: sample_usage_amount)
  show "total_volume 0 (bill_entries sample_run [sample_bill]) \<le> max_int64"
    by (simp add: total_volume_def bill_entries_def bill_entry_def sample_bill_def parseMoney_money_String int64_bounds)
  show "total_volume 0 (usage_entries sample_run moneyScale [sample_usage]) \<le> max_int64"
    by (simp add: total_volume_def usage_entries_def usage_entry_def sample_usage_amount int64_bounds)
qed

lemma sample_run_facts:
  "Run_Granularity sample_run \<noteq> GranularityDetail"
  "parseMoney (Run_ProviderAmount sample_run) = Inr 0" "parseMoney (Run_TokenHubAmount sample_run) = Inr 0"
  "bill_selected sample_run sample_bill" "in_period sample_run (Usage_CreatedAt sample_usage)"
  by (simp_all add: sample_run_def granularity_defs parseMoney_money_String bill_selected_def in_period_def
      currency_selected_def sample_bill_def sample_usage_def EqualFold_def)

section \<open>Properties\<close>

text \<open>(C4) The aggregated calculation implements grouping by key: it returns one item per key
  that occurs among the selected bills and usages, in key order, and each item is built from
  exactly the records with that key, with the exact sum of their amounts; the totals and record
  counts of the run are those of the selected records.\<close>

theorem calculate_buckets_refines:
  assumes "calculate_buckets sha now loc aT rT rate run bills usages = Inr (run', items)"
    and "Run_Granularity run \<noteq> GranularityDetail"
    and "parseMoney (Run_ProviderAmount run) = Inr p0" and "parseMoney (Run_TokenHubAmount run) = Inr t0"
  shows "let ps = bill_entries run bills; us = usage_entries run rate usages in
     items = map (\<lambda>k. itemFromBucket sha now run (sort_ids (bucket_spec run loc ps us k)) aT rT [])
       (sorted_list_of_set (key_of run loc ` (set ps \<union> set us))) \<and>
     Run_ProviderAmount run' = OutputString (p0 + sum_list (map e_amount ps)) \<and>
     Run_TokenHubAmount run' = OutputString (t0 + sum_list (map e_amount us)) \<and>
     Run_ProviderRecordCount run' = Run_ProviderRecordCount run + int (length ps) \<and>
     Run_TokenHubRecordCount run' = Run_TokenHubRecordCount run + int (length us)"
  unfolding Let_def using calculate_buckets_result [OF assms] by blast

theorem calculate_buckets_refines_witness:
  "\<exists>run' items. calculate_buckets (\<lambda>s. s) 0 UTC 0 0 moneyScale sample_run [sample_bill] [sample_usage]
      = Inr (run', items) \<and> Run_ProviderAmount run' = OutputString 1500000000"
proof -
  obtain run' items where c: "calculate_buckets (\<lambda>s. s) 0 UTC 0 0 moneyScale sample_run [sample_bill]
      [sample_usage] = Inr (run', items)" using sample_calculation_runs by blast
  from calculate_buckets_refines [OF c sample_run_facts(1-3)]
  have "Run_ProviderAmount run' = OutputString (0 + sum_list (map e_amount (bill_entries sample_run [sample_bill])))"
    unfolding Let_def by (elim conjE)
  then have "Run_ProviderAmount run' = OutputString 1500000000"
    using sample_run_facts(4)
    by (simp add: bill_entries_def bill_entry_def sample_bill_def parseMoney_money_String)
  with c show ?thesis by blast
qed

text \<open>(C31) No record is lost or counted twice: the identifiers listed by the items are, with
  multiplicity, those of the selected bills and usages, and the four counters of the run add up
  to the number of items.\<close>

theorem calculate_buckets_conserves:
  assumes "calculate_buckets sha now loc aT rT rate run bills usages = Inr (run', items)"
    and "Run_Granularity run \<noteq> GranularityDetail"
    and "parseMoney (Run_ProviderAmount run) = Inr p0" and "parseMoney (Run_TokenHubAmount run) = Inr t0"
  shows "mset (concat (map Item_ProviderRecordIDs items)) =
      mset (map Bill_ID (filter (bill_selected run) bills)) \<and>
    mset (concat (map Item_TokenHubRecordIDs items)) =
      mset (map Usage_ID (filter (\<lambda>u. in_period run (Usage_CreatedAt u)) usages)) \<and>
    (Run_MatchedCount run' - Run_MatchedCount run) + (Run_ProviderOnlyCount run' - Run_ProviderOnlyCount run) +
      (Run_TokenHubOnlyCount run' - Run_TokenHubOnlyCount run) +
      (Run_AmountMismatchCount run' - Run_AmountMismatchCount run) = int (length items)"
proof -
  let ?ps = "bill_entries run bills" and ?us = "usage_entries run rate usages"
  let ?ks = "sorted_list_of_set (key_of run loc ` (set ?ps \<union> set ?us))"
  note r = calculate_buckets_result [OF assms]
  have p: "concat (map Item_ProviderRecordIDs items) =
      concat (map (\<lambda>k. sort (map e_id (filter (\<lambda>x. key_of run loc x = k) ?ps))) ?ks)"
    and u: "concat (map Item_TokenHubRecordIDs items) =
      concat (map (\<lambda>k. sort (map e_id (filter (\<lambda>x. key_of run loc x = k) ?us))) ?ks)"
    unfolding r(1) by (simp_all add: o_def sort_ids_def bucket_spec_def Let_def)
  have "\<forall>i \<in> set items. Item_Status i \<in> {Matched, ProviderOnly, TokenHubOnly, AmountMismatch}"
    unfolding r(1) using item_status_cases by auto
  from count_status_sum [OF this] have "(Run_MatchedCount run' - Run_MatchedCount run) +
      (Run_ProviderOnlyCount run' - Run_ProviderOnlyCount run) +
      (Run_TokenHubOnlyCount run' - Run_TokenHubOnlyCount run) +
      (Run_AmountMismatchCount run' - Run_AmountMismatchCount run) = int (length items)"
    by (simp add: r(6-9))
  moreover have "mset (concat (map Item_ProviderRecordIDs items)) = mset (map e_id ?ps)"
    unfolding p by (rule mset_concat_groups) auto
  moreover have "mset (concat (map Item_TokenHubRecordIDs items)) = mset (map e_id ?us)"
    unfolding u by (rule mset_concat_groups) auto
  moreover have "map e_id ?ps = map Bill_ID (filter (bill_selected run) bills)"
    by (simp add: bill_entries_def bill_entry_def)
  moreover have "map e_id ?us = map Usage_ID (filter (\<lambda>u. in_period run (Usage_CreatedAt u)) usages)"
    by (simp add: usage_entries_def usage_entry_def)
  ultimately show ?thesis by simp
qed

theorem calculate_buckets_conserves_witness:
  "\<exists>run' items. calculate_buckets (\<lambda>s. s) 0 UTC 0 0 moneyScale sample_run [sample_bill] [sample_usage]
      = Inr (run', items) \<and> mset (concat (map Item_ProviderRecordIDs items)) = {#''bill_1''#}"
proof -
  obtain run' items where c: "calculate_buckets (\<lambda>s. s) 0 UTC 0 0 moneyScale sample_run [sample_bill]
      [sample_usage] = Inr (run', items)" using sample_calculation_runs by blast
  have "mset (concat (map Item_ProviderRecordIDs items)) = {#''bill_1''#}"
    using calculate_buckets_conserves [OF c sample_run_facts(1-3)] sample_run_facts(4)
    by (simp add: sample_bill_def)
  with c show ?thesis by blast
qed

text \<open>The aggregated calculation succeeds whenever the amounts of the selected records can
  be read and the sums of their absolute values are representable.\<close>

theorem calculate_buckets_succeeds:
  assumes "Run_Granularity run \<noteq> GranularityDetail"
    and "parseMoney (Run_ProviderAmount run) = Inr p0" and "parseMoney (Run_TokenHubAmount run) = Inr t0"
    and "\<forall>b \<in> set bills. bill_selected run b \<longrightarrow> (\<exists>m. parseMoney (Bill_NetAmount b) = Inr m)"
    and "\<forall>u \<in> set usages. in_period run (Usage_CreatedAt u) \<longrightarrow> (\<exists>m. usage_amount rate u = Inr m)"
    and "total_volume p0 (bill_entries run bills) \<le> max_int64"
    and "total_volume t0 (usage_entries run rate usages) \<le> max_int64"
  shows "\<exists>run' items. calculate_buckets sha now loc aT rT rate run bills usages = Inr (run', items)"
  by (rule calculate_buckets_Inr [OF assms])

theorem calculate_buckets_succeeds_witness:
  "\<exists>run' items. calculate_buckets (\<lambda>s. s) 0 UTC 0 0 moneyScale sample_run [sample_bill] [sample_usage]
      = Inr (run', items)"
proof (rule calculate_buckets_succeeds)
  show "\<forall>b\<in>set [sample_bill]. bill_selected sample_run b \<longrightarrow> (\<exists>m. parseMoney (Bill_NetAmount b) = Inr m)"
    by (simp add: sample_bill_def parseMoney_money_String)
  show "\<forall>u\<in>set [sample_usage]. in_period sample_run (Usage_CreatedAt u) \<longrightarrow> (\<exists>m. usage_amount moneyScale u = Inr m)"
    by (simp add: sample_usage_amount)
  show "total_volume 0 (bill_entries sample_run [sample_bill]) \<le> max_int64"
    by (simp add: total_volume_def bill_entries_def bill_entry_def sample_bill_def parseMoney_money_String int64_bounds)
  show "total_volume 0 (usage_entries sample_run moneyScale [sample_usage]) \<le> max_int64"
    by (simp add: total_volume_def usage_entries_def usage_entry_def sample_usage_amount int64_bounds)
qed (rule sample_run_facts(1-3))+

text \<open>The distance of two totals as \<open>int64\<close> subtraction sees it, and the tolerances of a rule.\<close>

definition wrap_distance :: "int \<Rightarrow> int \<Rightarrow> int" where
  "wrap_distance p t = min \<bar>p - t\<bar> (2 ^ 64 - \<bar>p - t\<bar>)"

lemma absolute_difference:
  assumes "in_int64 p" and "in_int64 t"
  shows "absoluteMoney (wrap64 (p - t)) = (if wrap_distance p t = 2 ^ 63 then min_int64 else wrap_distance p t)"
    and "wrap64 (p - t) = 0 \<longleftrightarrow> wrap_distance p t = 0" and "0 \<le> wrap_distance p t"
proof -
  have b: "- 18446744073709551615 \<le> p - t" "p - t \<le> 18446744073709551615" using assms by (auto simp: int64_bounds)
  consider "p - t < - 9223372036854775808" | "- 9223372036854775808 \<le> p - t \<and> p - t < 9223372036854775808" | "9223372036854775808 \<le> p - t"
    by linarith
  then have w: "wrap64 (p - t) = (if p - t < - 9223372036854775808 then p - t + 18446744073709551616
      else if p - t < 9223372036854775808 then p - t else p - t - 18446744073709551616)"
    using b wrap64_id [of "p - t"] wrap64_id [of "p - t + 18446744073709551616"] wrap64_id [of "p - t - 18446744073709551616"]
    by cases (auto simp: wrap64_periodic int64_bounds)
  show "absoluteMoney (wrap64 (p - t)) = (if wrap_distance p t = 2 ^ 63 then min_int64 else wrap_distance p t)"
    unfolding absoluteMoney_eq [OF wrap64_in_range] unfolding w using b by (auto simp: wrap_distance_def min_int64_def abs_if min_def)
  show "wrap64 (p - t) = 0 \<longleftrightarrow> wrap_distance p t = 0" using b by (auto simp: w wrap_distance_def min_def abs_if)
  show "0 \<le> wrap_distance p t" using b by (simp add: wrap_distance_def)
qed

definition within_tolerance :: "int \<Rightarrow> money \<Rightarrow> money \<Rightarrow> money \<Rightarrow> bool" where
  "within_tolerance w p aT rT \<longleftrightarrow> w \<le> aT \<or>
     (if p = 0 then w = 0 \<or> moneyScale \<le> rT else 2 * w * moneyScale < (2 * rT + 1) * \<bar>p\<bar>)"

text \<open>(C40) An item with records on both sides is matched exactly when the distance of its totals, counted
  modulo \<open>2^64\<close>, is within the amount tolerance or, relative to the provider's total and rounded to the
  nearest unit, within the ratio tolerance. For totals less than \<open>2^63\<close> units apart this distance is the
  true one. Totals further apart wrap: at \<open>2^63\<close> units the item is matched under every tolerance, and
  beyond it the distance shrinks again.\<close>

theorem item_status_decides:
  assumes "b_providerRecordIDs b \<noteq> []" and "b_tokenHubRecordIDs b \<noteq> []"
    and "in_int64 (b_providerAmount b)" and "b_providerAmount b \<noteq> min_int64" and "in_int64 (b_tokenHubAmount b)"
    and "0 \<le> aT" and "0 \<le> rT" and "rT < max_int64"
  shows "item_status b aT rT = Matched \<longleftrightarrow>
    (let w = wrap_distance (b_providerAmount b) (b_tokenHubAmount b)
     in w = 2 ^ 63 \<or> within_tolerance w (b_providerAmount b) aT rT)"
proof -
  let ?p = "b_providerAmount b" and ?t = "b_tokenHubAmount b"
  note w = absolute_difference [OF assms(3,5)]
  have s: "item_status b aT rT = Matched \<longleftrightarrow> absoluteMoney (wrap64 (?p - ?t)) \<le> aT \<or> ratio (wrap64 (?p - ?t)) ?p \<le> rT"
    using assms(1,2) by (simp add: item_status_def Let_def item_status_defs)
  show ?thesis
  proof (cases "wrap_distance ?p ?t = 2 ^ 63")
    case True
    then show ?thesis using w(1) assms(6) by (simp add: s min_int64_def)
  next
    case False
    with w(1) have a: "absoluteMoney (wrap64 (?p - ?t)) = wrap_distance ?p ?t" by simp
    show ?thesis using ratio_le_iff [OF a w(3,2) assms(3,4,7,8)] False by (simp add: s a within_tolerance_def Let_def)
  qed
qed

definition wrapped_bucket :: bucket where
  "wrapped_bucket = \<lparr>b_key = [], b_dimensions = [], b_bucketStart = 0, b_bucketEnd = 0,
      b_providerAmount = max_int64, b_tokenHubAmount = - max_int64,
      b_providerRecordIDs = [''bill''], b_tokenHubRecordIDs = [''usage''],
      b_providerTimes = [0], b_tokenHubTimes = [0]\<rparr>"

text \<open>Totals almost \<open>2^64\<close> units apart match under a tolerance of two units; totals three units apart do not.\<close>

theorem item_status_decides_witness:
  "item_status wrapped_bucket 2 0 = Matched \<and>
   item_status (wrapped_bucket\<lparr>b_providerAmount := 10 ^ 9, b_tokenHubAmount := 10 ^ 9 - 3\<rparr>) 2 0 \<noteq> Matched"
  using item_status_decides [of wrapped_bucket 2 0]
    item_status_decides [of "wrapped_bucket\<lparr>b_providerAmount := 10 ^ 9, b_tokenHubAmount := 10 ^ 9 - 3\<rparr>" 2 0]
  by (simp add: wrapped_bucket_def wrap_distance_def within_tolerance_def int64_bounds moneyScale_def)

end
