(* ===== verification/ReconMatching.thy ===== *)
theory ReconMatching
  imports ReconEngine
begin

text \<open>
  The dynamic program of \<open>matchDetailEntries\<close>
  (\<open>backend/internal/reconciliation/detail.go\<close>), which pairs provider bills with local usages
  that are at most a window apart.

  Shown: the tables, filled row by row, equal the recurrence \<open>best\<close>; the walk back through them
  never leaves them; the pairing it returns is one-to-one and within the window, and no other
  such pairing, crossing or not, has more pairs, or as many with a smaller total distance. The
  bound on the number of bills keeps the sum of distances within \<open>int64\<close>.
\<close>

section \<open>Pairing\<close>

definition absoluteDuration :: "duration \<Rightarrow> duration" where
  "absoluteDuration v = (if v < 0 then wrap64 (- v) else v)"

record matchScore =
  ms_count :: int
  ms_distance :: int64

definition matchScoreBetter :: "matchScore \<Rightarrow> matchScore \<Rightarrow> bool" where
  "matchScoreBetter left right \<longleftrightarrow>
     ms_count left > ms_count right \<or> ms_count left = ms_count right \<and> ms_distance left < ms_distance right"

type_synonym cell = "matchScore \<times> char"

definition zero_score :: matchScore where
  "zero_score = \<lparr>ms_count = 0, ms_distance = 0\<rparr>"

text \<open>One cell of the tables \<open>scores\<close> and \<open>actions\<close>, from its neighbours.\<close>

definition match_cell :: "duration \<Rightarrow> detailEntry \<Rightarrow> detailEntry \<Rightarrow> cell \<Rightarrow> cell \<Rightarrow> cell \<Rightarrow> cell" where
  "match_cell window p u diag up left =
     (let (best, action) =
            (if matchScoreBetter (fst left) (fst up) then (fst left, CHR ''u'') else (fst up, CHR ''p''));
          dist = absoluteDuration (time_Sub (e_occurredAt p) (e_occurredAt u));
          candidate = \<lparr>ms_count = ms_count (fst diag) + 1, ms_distance = wrap64 (ms_distance (fst diag) + dist)\<rparr>
      in if dist \<le> window \<and> (matchScoreBetter candidate best \<or> candidate = best)
         then (candidate, CHR ''m'') else (best, action))"

text \<open>The row of a provider, left to right; \<open>prev\<close> is the rest of the previous row from the
  column left of the current one.\<close>

fun fill_row :: "duration \<Rightarrow> detailEntry \<Rightarrow> detailEntry list \<Rightarrow> cell list \<Rightarrow> cell \<Rightarrow> cell list" where
  "fill_row window p (u # us) (diag # up # prev) left =
     (let c = match_cell window p u diag up left in c # fill_row window p us (up # prev) c)"
| "fill_row window p us prev left = []"

fun fill_rows :: "duration \<Rightarrow> detailEntry list \<Rightarrow> detailEntry list \<Rightarrow> cell list \<Rightarrow> cell list list" where
  "fill_rows window [] us prev = [prev]"
| "fill_rows window (p # ps) us prev =
     prev # fill_rows window ps us
       ((zero_score, CHR ''p'') # fill_row window p us prev (zero_score, CHR ''p''))"

definition match_table :: "duration \<Rightarrow> detailEntry list \<Rightarrow> detailEntry list \<Rightarrow> cell list list" where
  "match_table window ps us =
     fill_rows window ps us ((zero_score, CHR 0x00) # replicate (length us) (zero_score, CHR ''u''))"

text \<open>The walk back from the last cell. \<open>None\<close> stands for an index below zero, at which Go would
  panic.\<close>

function trace_back :: "cell list list \<Rightarrow> nat \<Rightarrow> nat \<Rightarrow> (nat \<times> nat) list option" where
  "trace_back table i j =
     (if i = 0 \<and> j = 0 then Some []
      else
        let action = snd (table ! i ! j) in
        if action = CHR ''m'' then
          (if i = 0 \<or> j = 0 then None
           else map_option (Cons (i - 1, j - 1)) (trace_back table (i - 1) (j - 1)))
        else if action = CHR ''p'' then (if i = 0 then None else trace_back table (i - 1) j)
        else (if j = 0 then None else trace_back table i (j - 1)))"
  by pat_completeness auto
termination
  by (relation "measure (\<lambda>(_, i, j). i + j)") auto

declare trace_back.simps [simp del]

definition matchDetailEntries :: "detailEntry list \<Rightarrow> detailEntry list \<Rightarrow> duration \<Rightarrow> (nat \<times> nat) list" where
  "matchDetailEntries providers usages window =
     (case trace_back (match_table window providers usages) (length providers) (length usages) of
        None \<Rightarrow> [] | Some matches \<Rightarrow> matches)"

section \<open>The recurrence\<close>

fun best :: "duration \<Rightarrow> detailEntry list \<Rightarrow> detailEntry list \<Rightarrow> nat \<Rightarrow> nat \<Rightarrow> cell" where
  "best w ps us 0 0 = (zero_score, CHR 0x00)"
| "best w ps us (Suc i) 0 = (zero_score, CHR ''p'')"
| "best w ps us 0 (Suc j) = (zero_score, CHR ''u'')"
| "best w ps us (Suc i) (Suc j) =
     match_cell w (ps ! i) (us ! j) (best w ps us i j) (best w ps us i (Suc j)) (best w ps us (Suc i) j)"

lemma Cons_eq_dropD:
  "x # xs = drop a ys \<Longrightarrow> a < length ys \<and> ys ! a = x \<and> xs = drop (Suc a) ys"
  by (metis Cons_nth_drop_Suc drop_eq_Nil2 leI list.distinct(1) list.inject)

lemma fill_row_best:
  assumes "i < length ps" and "a + length us' = length us" and "us' = drop a us"
    and "prev = map (best w ps us i) [a..<Suc (length us)]" and "left = best w ps us (Suc i) a"
  shows "fill_row w (ps ! i) us' prev left = map (best w ps us (Suc i)) [Suc a..<Suc (length us)]"
  using assms(2-5)
proof (induction us' arbitrary: a prev left)
  case Nil
  then show ?case by simp
next
  case (Cons u us')
  have a: "a < length us" "us ! a = u" "us' = drop (Suc a) us"
    using Cons_eq_dropD [OF Cons.prems(2)] by simp_all
  have prev: "prev = best w ps us i a # best w ps us i (Suc a) # map (best w ps us i) [Suc (Suc a)..<Suc (length us)]"
    unfolding Cons.prems(3) using a(1) by (simp add: upt_conv_Cons del: upt_Suc)
  let ?c = "best w ps us (Suc i) (Suc a)"
  have c: "match_cell w (ps ! i) u (best w ps us i a) (best w ps us i (Suc a)) left = ?c"
    using a(2) Cons.prems(4) by simp
  have "fill_row w (ps ! i) us' (best w ps us i (Suc a) # map (best w ps us i) [Suc (Suc a)..<Suc (length us)]) ?c =
      map (best w ps us (Suc i)) [Suc (Suc a)..<Suc (length us)]"
    using Cons.prems(1) a by (intro Cons.IH) (simp_all add: upt_conv_Cons del: upt_Suc)
  then show ?case unfolding prev fill_row.simps Let_def c using a(1) by (simp add: upt_conv_Cons del: upt_Suc best.simps)
qed

lemma fill_rows_best:
  assumes "a + length ps' = length ps" and "ps' = drop a ps"
    and "prev = map (best w ps us a) [0..<Suc (length us)]"
  shows "fill_rows w ps' us prev = map (\<lambda>i. map (best w ps us i) [0..<Suc (length us)]) [a..<Suc (length ps)]"
  using assms
proof (induction ps' arbitrary: a prev)
  case Nil
  then show ?case by simp
next
  case (Cons p ps')
  have a: "a < length ps" "ps ! a = p" "ps' = drop (Suc a) ps"
    using Cons_eq_dropD [OF Cons.prems(2)] by simp_all
  have row: "(zero_score, CHR ''p'') # fill_row w p us prev (zero_score, CHR ''p'') =
      map (best w ps us (Suc a)) [0..<Suc (length us)]"
    using fill_row_best [OF a(1), of 0 us us prev w "(zero_score, CHR ''p'')"] Cons.prems(3) a(2)
    by (simp add: upt_conv_Cons del: upt_Suc)
  have "fill_rows w ps' us (map (best w ps us (Suc a)) [0..<Suc (length us)]) =
      map (\<lambda>i. map (best w ps us i) [0..<Suc (length us)]) [Suc a..<Suc (length ps)]"
    using Cons.prems(1) a by (intro Cons.IH) simp_all
  moreover have "[a..<Suc (length ps)] = a # [Suc a..<Suc (length ps)]" using a(1) by (simp add: upt_conv_Cons)
  ultimately show ?case by (simp only: fill_rows.simps(2) row list.map) (simp only: Cons.prems(3))
qed

lemma match_table_best:
  assumes "i \<le> length ps" and "j \<le> length us"
  shows "match_table w ps us ! i ! j = best w ps us i j"
proof -
  have "map (best w ps us 0) [0..<Suc (length us)] =
      (zero_score, CHR 0x00) # replicate (length us) (zero_score, CHR ''u'')"
  proof (rule nth_equalityI)
    fix k assume "k < length (map (best w ps us 0) [0..<Suc (length us)])"
    then show "map (best w ps us 0) [0..<Suc (length us)] ! k =
        ((zero_score, CHR 0x00) # replicate (length us) (zero_score, CHR ''u'')) ! k"
      by (cases k) (simp_all del: upt_Suc)
  qed simp
  then have "match_table w ps us = map (\<lambda>i. map (best w ps us i) [0..<Suc (length us)]) [0..<Suc (length ps)]"
    unfolding match_table_def by (intro fill_rows_best) simp_all
  then show ?thesis using assms by (simp add: nth_append del: upt_Suc)
qed

section \<open>Optimality\<close>

definition entry_distance :: "detailEntry \<Rightarrow> detailEntry \<Rightarrow> int" where
  "entry_distance p u = \<bar>e_occurredAt p - e_occurredAt u\<bar>"

text \<open>A one-to-one pairing of entries at most \<open>w\<close> apart, by index.\<close>

definition matching :: "int \<Rightarrow> detailEntry list \<Rightarrow> detailEntry list \<Rightarrow> (nat \<times> nat) set \<Rightarrow> bool" where
  "matching w ps us M \<longleftrightarrow>
     M \<subseteq> {..<length ps} \<times> {..<length us} \<and> inj_on fst M \<and> inj_on snd M \<and>
     (\<forall>(i, j) \<in> M. entry_distance (ps ! i) (us ! j) \<le> w)"

definition matching_distance :: "detailEntry list \<Rightarrow> detailEntry list \<Rightarrow> (nat \<times> nat) set \<Rightarrow> int" where
  "matching_distance ps us M = (\<Sum>(i, j) \<in> M. entry_distance (ps ! i) (us ! j))"

definition score_of :: "detailEntry list \<Rightarrow> detailEntry list \<Rightarrow> (nat \<times> nat) set \<Rightarrow> matchScore" where
  "score_of ps us M = \<lparr>ms_count = int (card M), ms_distance = matching_distance ps us M\<rparr>"

text \<open>Distances between entries are representable, and so are the sums a pairing can reach.\<close>

definition distances_ok :: "int \<Rightarrow> detailEntry list \<Rightarrow> detailEntry list \<Rightarrow> bool" where
  "distances_ok w ps us \<longleftrightarrow>
     0 \<le> w \<and> int (length ps) * w \<le> max_int64 \<and>
     (\<forall>p \<in> set ps. \<forall>u \<in> set us. entry_distance p u \<le> max_int64)"

lemma matching_finite: "matching w ps us M \<Longrightarrow> finite M"
  by (auto simp: matching_def dest: finite_subset)

lemma absoluteDuration_Sub:
  assumes "entry_distance p u \<le> max_int64"
  shows "absoluteDuration (time_Sub (e_occurredAt p) (e_occurredAt u)) = entry_distance p u"
proof -
  have "in_int64 (e_occurredAt p - e_occurredAt u)" "in_int64 (- (e_occurredAt p - e_occurredAt u))"
    using assms by (auto simp: entry_distance_def int64_bounds)
  then show ?thesis by (simp add: absoluteDuration_def time_Sub_exact wrap64_id entry_distance_def)
qed

lemma distances_okD:
  assumes "distances_ok w ps us" and "i < length ps" and "j < length us"
  shows "absoluteDuration (time_Sub (e_occurredAt (ps ! i)) (e_occurredAt (us ! j))) = entry_distance (ps ! i) (us ! j)"
  using assms by (intro absoluteDuration_Sub) (simp add: distances_ok_def)

text \<open>The scores count at most one pair per bill, each at most \<open>w\<close> apart.\<close>

lemma matchScoreBetter_le:
  "\<not> matchScoreBetter a b \<longleftrightarrow> ms_count a < ms_count b \<or> ms_count a = ms_count b \<and> ms_distance b \<le> ms_distance a"
  by (auto simp: matchScoreBetter_def)

lemma not_better_trans:
  "\<not> matchScoreBetter a b \<Longrightarrow> \<not> matchScoreBetter b c \<Longrightarrow> \<not> matchScoreBetter a c"
  by (auto simp: matchScoreBetter_le)

lemma better_asym: "matchScoreBetter a b \<Longrightarrow> \<not> matchScoreBetter b a"
  by (auto simp: matchScoreBetter_def)

lemma better_irrefl [simp]: "\<not> matchScoreBetter a a"
  by (simp add: matchScoreBetter_def)

lemma better_of_two:
  "\<not> matchScoreBetter up (if matchScoreBetter left up then left else up)"
  "\<not> matchScoreBetter left (if matchScoreBetter left up then left else up)"
  by (simp_all add: better_asym)

lemma match_cell_cases:
  fixes cand :: matchScore
  assumes d: "absoluteDuration (time_Sub (e_occurredAt p) (e_occurredAt u)) = d"
    and cand: "\<lparr>ms_count = ms_count (fst diag) + 1, ms_distance = wrap64 (ms_distance (fst diag) + d)\<rparr> = cand"
    and cell: "match_cell w p u diag up left = c"
  shows "c = (fst up, CHR ''p'') \<or> c = (fst left, CHR ''u'') \<or> (c = (cand, CHR ''m'') \<and> d \<le> w)"
    and "\<not> matchScoreBetter (fst up) (fst c)" and "\<not> matchScoreBetter (fst left) (fst c)"
    and "d \<le> w \<Longrightarrow> \<not> matchScoreBetter cand (fst c)"
proof -
  define b where "b = (if matchScoreBetter (fst left) (fst up) then fst left else fst up)"
  define act where "act = (if matchScoreBetter (fst left) (fst up) then CHR ''u'' else CHR ''p'')"
  have pair: "(if matchScoreBetter (fst left) (fst up) then (fst left, CHR ''u'') else (fst up, CHR ''p'')) = (b, act)"
    by (simp add: b_def act_def)
  have c: "c = (if d \<le> w \<and> (matchScoreBetter cand b \<or> cand = b) then (cand, CHR ''m'') else (b, act))"
    using cell by (simp only: match_cell_def Let_def d cand pair prod.case)
  have ba: "(b, act) = (fst up, CHR ''p'') \<or> (b, act) = (fst left, CHR ''u'')" by (simp add: b_def act_def)
  note two = better_of_two [where up = "fst up" and left = "fst left", folded b_def]
  have b: "\<not> matchScoreBetter b (fst c)" by (auto simp: c better_asym)
  show "c = (fst up, CHR ''p'') \<or> c = (fst left, CHR ''u'') \<or> (c = (cand, CHR ''m'') \<and> d \<le> w)"
    using ba by (simp only: c split: if_splits) blast
  show "\<not> matchScoreBetter (fst up) (fst c)" by (rule not_better_trans [OF two(1) b])
  show "\<not> matchScoreBetter (fst left) (fst c)" by (rule not_better_trans [OF two(2) b])
  show "\<not> matchScoreBetter cand (fst c)" if "d \<le> w" using that by (auto simp: c)
qed

lemma best_bounds:
  assumes "distances_ok w ps us" and "i \<le> length ps" and "j \<le> length us"
  shows "0 \<le> ms_count (fst (best w ps us i j)) \<and> ms_count (fst (best w ps us i j)) \<le> int i \<and>
    0 \<le> ms_distance (fst (best w ps us i j)) \<and>
    ms_distance (fst (best w ps us i j)) \<le> ms_count (fst (best w ps us i j)) * w"
  using assms
proof (induction w ps us i j rule: best.induct)
  case (4 w ps us i j)
  let ?d = "entry_distance (ps ! i) (us ! j)" and ?c = "best w ps us i j"
  have d: "absoluteDuration (time_Sub (e_occurredAt (ps ! i)) (e_occurredAt (us ! j))) = ?d"
    using 4 by (intro distances_okD) auto
  have w: "0 \<le> w" and max: "int (length ps) * w \<le> max_int64" using 4(4) by (simp_all add: distances_ok_def)
  have d0: "0 \<le> ?d" by (simp add: entry_distance_def)
  have diag: "0 \<le> ms_count (fst ?c)" "ms_count (fst ?c) \<le> int i" "0 \<le> ms_distance (fst ?c)"
      "ms_distance (fst ?c) \<le> ms_count (fst ?c) * w"
    using "4.IH"(1) 4 by auto
  have wrap: "wrap64 (ms_distance (fst ?c) + ?d) = ms_distance (fst ?c) + ?d" if "?d \<le> w"
  proof (rule wrap64_id)
    have "ms_distance (fst ?c) + ?d \<le> (ms_count (fst ?c) + 1) * w" using diag(4) that by (simp add: algebra_simps)
    also have "\<dots> \<le> int (length ps) * w" using diag(2) 4(5) w by (intro mult_right_mono) auto
    finally show "in_int64 (ms_distance (fst ?c) + ?d)" using max diag(3) d0 by (simp add: int64_bounds)
  qed
  consider "best w ps us (Suc i) (Suc j) = (fst (best w ps us i (Suc j)), CHR ''p'')"
    | "best w ps us (Suc i) (Suc j) = (fst (best w ps us (Suc i) j), CHR ''u'')"
    | "best w ps us (Suc i) (Suc j) = (\<lparr>ms_count = ms_count (fst ?c) + 1,
          ms_distance = wrap64 (ms_distance (fst ?c) + ?d)\<rparr>, CHR ''m'')" and "?d \<le> w"
    using match_cell_cases(1) [OF d refl best.simps(4) [of w ps us i j, symmetric]] by blast
  then show ?case
  proof cases
    case 1
    then show ?thesis using "4.IH"(2) 4 by auto
  next
    case 2
    then show ?thesis using "4.IH"(3) 4 by auto
  next
    case 3
    then show ?thesis using diag d0 wrap by (simp add: algebra_simps)
  qed
qed (simp_all add: zero_score_def distances_ok_def)

text \<open>With the wrap-around discharged, a cell is as good as each of its three candidates.\<close>

lemma best_step:
  assumes ok: "distances_ok w ps us" and i: "Suc i \<le> length ps" and j: "Suc j \<le> length us"
  defines "d \<equiv> entry_distance (ps ! i) (us ! j)"
    and "B \<equiv> best w ps us (Suc i) (Suc j)"
    and "cand \<equiv> \<lparr>ms_count = ms_count (fst (best w ps us i j)) + 1,
                  ms_distance = ms_distance (fst (best w ps us i j)) + entry_distance (ps ! i) (us ! j)\<rparr>"
  shows "\<not> matchScoreBetter (fst (best w ps us i (Suc j))) (fst B)"
    and "\<not> matchScoreBetter (fst (best w ps us (Suc i) j)) (fst B)"
    and "d \<le> w \<Longrightarrow> \<not> matchScoreBetter cand (fst B)"
    and "B = (fst (best w ps us i (Suc j)), CHR ''p'') \<or> B = (fst (best w ps us (Suc i) j), CHR ''u'') \<or>
         (B = (cand, CHR ''m'') \<and> d \<le> w)"
proof -
  let ?c = "best w ps us i j"
  have dd: "absoluteDuration (time_Sub (e_occurredAt (ps ! i)) (e_occurredAt (us ! j))) = d"
    unfolding d_def using ok i j by (intro distances_okD) auto
  have w: "0 \<le> w" and max: "int (length ps) * w \<le> max_int64" using ok by (simp_all add: distances_ok_def)
  have diag: "0 \<le> ms_count (fst ?c)" "ms_count (fst ?c) \<le> int i" "0 \<le> ms_distance (fst ?c)"
      "ms_distance (fst ?c) \<le> ms_count (fst ?c) * w"
    using best_bounds [OF ok, of i j] i j by auto
  have d0: "0 \<le> d" by (simp add: d_def entry_distance_def)
  have wrap: "wrap64 (ms_distance (fst ?c) + d) = ms_distance (fst ?c) + d" if "d \<le> w"
  proof (rule wrap64_id)
    have "ms_distance (fst ?c) + d \<le> (ms_count (fst ?c) + 1) * w" using diag(4) that by (simp add: algebra_simps)
    also have "\<dots> \<le> int (length ps) * w" using diag(2) i w by (intro mult_right_mono) auto
    finally show "in_int64 (ms_distance (fst ?c) + d)" using max diag(3) d0 by (simp add: int64_bounds)
  qed
  note cell = match_cell_cases [OF dd refl best.simps(4) [of w ps us i j, symmetric], folded B_def]
  show "\<not> matchScoreBetter (fst (best w ps us i (Suc j))) (fst B)"
    and "\<not> matchScoreBetter (fst (best w ps us (Suc i) j)) (fst B)" using cell(2,3) by simp_all
  show "d \<le> w \<Longrightarrow> \<not> matchScoreBetter cand (fst B)"
    using cell(4) wrap by (simp add: cand_def d_def)
  show "B = (fst (best w ps us i (Suc j)), CHR ''p'') \<or> B = (fst (best w ps us (Suc i) j), CHR ''u'') \<or>
         (B = (cand, CHR ''m'') \<and> d \<le> w)"
    using cell(1) wrap by (auto simp: cand_def d_def)
qed

subsection \<open>No pairing is better\<close>

definition time_sorted :: "detailEntry list \<Rightarrow> bool" where
  "time_sorted es \<longleftrightarrow> sorted (map e_occurredAt es)"

lemma time_sortedD: "time_sorted es \<Longrightarrow> i \<le> j \<Longrightarrow> j < length es \<Longrightarrow> e_occurredAt (es ! i) \<le> e_occurredAt (es ! j)"
  using sorted_nth_mono [of "map e_occurredAt es" i j] by (simp add: time_sorted_def)

lemma score_of_insert:
  assumes "finite M" and "(i, j) \<notin> M"
  shows "score_of ps us (insert (i, j) M) =
    \<lparr>ms_count = ms_count (score_of ps us M) + 1,
     ms_distance = ms_distance (score_of ps us M) + entry_distance (ps ! i) (us ! j)\<rparr>"
  using assms by (simp add: score_of_def matching_distance_def)

text \<open>Two crossing pairs can be exchanged for two parallel ones, no further apart.\<close>

lemma uncross_distance:
  fixes pa pi ub uj :: int
  assumes "pa \<le> pi" and "ub \<le> uj"
  shows "\<bar>pi - uj\<bar> + \<bar>pa - ub\<bar> \<le> \<bar>pi - ub\<bar> + \<bar>pa - uj\<bar>"
    and "\<bar>pi - uj\<bar> \<le> max \<bar>pi - ub\<bar> \<bar>pa - uj\<bar>" and "\<bar>pa - ub\<bar> \<le> max \<bar>pi - ub\<bar> \<bar>pa - uj\<bar>"
  using assms by linarith+

lemma matching_functional:
  assumes "matching w ps us M"
  shows "(i, y) \<in> M \<Longrightarrow> (i, y') \<in> M \<Longrightarrow> y = y'" and "(x, j) \<in> M \<Longrightarrow> (x', j) \<in> M \<Longrightarrow> x = x'"
  using assms inj_onD [of fst M "(i, y)" "(i, y')"] inj_onD [of snd M "(x, j)" "(x', j)"]
  by (simp_all add: matching_def)

lemma matching_subset: "matching w ps us M \<Longrightarrow> N \<subseteq> M \<Longrightarrow> matching w ps us N"
  by (auto simp: matching_def intro: inj_on_subset)

lemma matching_uncross:
  assumes M: "matching w ps us M" and ib: "(i, b) \<in> M" and aj: "(a, j) \<in> M" and "a < i" and "b < j"
    and sp: "time_sorted ps" and su: "time_sorted us"
  defines "N \<equiv> insert (i, j) (insert (a, b) (M - {(i, b), (a, j)}))"
  shows "matching w ps us N" and "\<not> matchScoreBetter (score_of ps us M) (score_of ps us N)"
proof -
  let ?R = "M - {(i, b), (a, j)}"
  have bounds: "i < length ps" "b < length us" "a < length ps" "j < length us"
    using M ib aj by (auto simp: matching_def)
  have dw: "entry_distance (ps ! i) (us ! b) \<le> w" "entry_distance (ps ! a) (us ! j) \<le> w"
    using M ib aj by (auto simp: matching_def)
  have pt: "e_occurredAt (ps ! a) \<le> e_occurredAt (ps ! i)" using assms bounds by (intro time_sortedD) auto
  have ut: "e_occurredAt (us ! b) \<le> e_occurredAt (us ! j)" using assms bounds by (intro time_sortedD) auto
  note un = uncross_distance [OF pt ut]
  have R: "matching w ps us ?R" by (rule matching_subset [OF M]) auto
  have fi: "(i, y) \<notin> ?R" for y using matching_functional(1) [OF M, of i y b] ib by auto
  have fa: "(a, y) \<notin> ?R" for y using matching_functional(1) [OF M, of a y j] aj by auto
  have fb: "(x, b) \<notin> ?R" for x using matching_functional(2) [OF M, of x b i] ib by auto
  have fj: "(x, j) \<notin> ?R" for x using matching_functional(2) [OF M, of x j a] aj by auto
  note fresh = fi fa fb fj
  have inj: "inj_on fst N" "inj_on snd N"
  proof -
    have "inj_on fst ?R" "inj_on snd ?R" using R by (simp_all add: matching_def)
    moreover have "i \<notin> fst ` ?R" "a \<notin> fst ` ?R" using fi fa by force+
    moreover have "j \<notin> snd ` ?R" "b \<notin> snd ` ?R" using fj fb by force+
    ultimately show "inj_on fst N" "inj_on snd N" using \<open>a < i\<close> \<open>b < j\<close>
      unfolding N_def by (auto simp: inj_on_insert)
  qed
  show "matching w ps us N"
  proof -
    have near: "entry_distance (ps ! i) (us ! j) \<le> w" "entry_distance (ps ! a) (us ! b) \<le> w"
      using un(2,3) dw unfolding entry_distance_def by linarith+
    have "N \<subseteq> {..<length ps} \<times> {..<length us}" using R bounds by (auto simp: N_def matching_def)
    moreover have "\<forall>(x, y) \<in> N. entry_distance (ps ! x) (us ! y) \<le> w"
      using R near by (auto simp: N_def matching_def)
    ultimately show ?thesis using inj by (simp add: matching_def)
  qed
  have fin: "finite ?R" using matching_finite [OF R] .
  have "M = insert (i, b) (insert (a, j) ?R)" using ib aj by auto
  moreover have "score_of ps us (insert (i, b) (insert (a, j) ?R)) =
      \<lparr>ms_count = ms_count (score_of ps us ?R) + 2, ms_distance = ms_distance (score_of ps us ?R) +
        entry_distance (ps ! a) (us ! j) + entry_distance (ps ! i) (us ! b)\<rparr>"
    using fin fresh \<open>a < i\<close> by (simp add: score_of_insert)
  moreover have "score_of ps us N =
      \<lparr>ms_count = ms_count (score_of ps us ?R) + 2, ms_distance = ms_distance (score_of ps us ?R) +
        entry_distance (ps ! a) (us ! b) + entry_distance (ps ! i) (us ! j)\<rparr>"
    unfolding N_def using fin fresh \<open>a < i\<close> by (simp add: score_of_insert)
  ultimately show "\<not> matchScoreBetter (score_of ps us M) (score_of ps us N)"
    using un(1) by (simp add: matchScoreBetter_def entry_distance_def)
qed

lemma best_upper:
  assumes "distances_ok w ps us" and "time_sorted ps" and "time_sorted us"
    and "i \<le> length ps" and "j \<le> length us" and "matching w ps us M" and "M \<subseteq> {..<i} \<times> {..<j}"
  shows "\<not> matchScoreBetter (score_of ps us M) (fst (best w ps us i j))"
  using assms
proof (induction w ps us i j arbitrary: M rule: best.induct)
  case (4 w ps us i j)
  note ok = "4.prems"(1) and sub = "4.prems"(7) and M = "4.prems"(6)
  note step = best_step [OF ok "4.prems"(4,5)]
  let ?B = "fst (best w ps us (Suc i) (Suc j))"
  have last: "\<not> matchScoreBetter (score_of ps us N) ?B"
    if N: "matching w ps us N" "N \<subseteq> {..<Suc i} \<times> {..<Suc j}" "(i, j) \<in> N" for N
  proof -
    let ?R = "N - {(i, j)}"
    have "?R \<subseteq> {..<i} \<times> {..<j}"
    proof
      fix x assume x: "x \<in> ?R"
      then have "fst x \<noteq> i" "snd x \<noteq> j" using matching_functional [OF N(1)] N(3) by (cases x, auto)+
      with x N(2) show "x \<in> {..<i} \<times> {..<j}" by (cases x) (auto simp: less_Suc_eq)
    qed
    then have "\<not> matchScoreBetter (score_of ps us ?R) (fst (best w ps us i j))"
      using "4.IH"(1) [of ?R] "4.prems" matching_subset [OF N(1), of ?R] by auto
    moreover have "N = insert (i, j) ?R" using N(3) by auto
    then have "score_of ps us N = \<lparr>ms_count = ms_count (score_of ps us ?R) + 1,
        ms_distance = ms_distance (score_of ps us ?R) + entry_distance (ps ! i) (us ! j)\<rparr>"
      using score_of_insert [of ?R i j ps us] matching_finite [OF N(1)] by simp
    ultimately have "\<not> matchScoreBetter (score_of ps us N)
        \<lparr>ms_count = ms_count (fst (best w ps us i j)) + 1,
         ms_distance = ms_distance (fst (best w ps us i j)) + entry_distance (ps ! i) (us ! j)\<rparr>"
      by (auto simp: matchScoreBetter_le)
    moreover have "entry_distance (ps ! i) (us ! j) \<le> w" using N(1,3) by (auto simp: matching_def)
    ultimately show ?thesis using step(3) not_better_trans by blast
  qed
  consider (row) "i \<notin> fst ` M" | (col) "j \<notin> snd ` M" | (corner) "(i, j) \<in> M"
    | (cross) a b where "(i, b) \<in> M" "(a, j) \<in> M" "a < i" "b < j"
  proof -
    have "(i, j) \<in> M \<or> (\<exists>a b. (i, b) \<in> M \<and> (a, j) \<in> M \<and> a < i \<and> b < j)"
      if ij: "i \<in> fst ` M" "j \<in> snd ` M"
    proof -
      from ij obtain a b where ab: "(i, b) \<in> M" "(a, j) \<in> M" by auto
      then have "a < i \<or> a = i" "b < j \<or> b = j" using sub by (auto simp: less_Suc_eq)
      with ab show ?thesis by blast
    qed
    then show thesis using that by blast
  qed
  then show ?case
  proof cases
    case row
    then have "M \<subseteq> {..<i} \<times> {..<Suc j}" using sub by (force simp: less_Suc_eq)
    then have "\<not> matchScoreBetter (score_of ps us M) (fst (best w ps us i (Suc j)))"
      using "4.IH"(2) [of M] "4.prems" by auto
    then show ?thesis using step(1) not_better_trans by blast
  next
    case col
    then have "M \<subseteq> {..<Suc i} \<times> {..<j}" using sub by (force simp: less_Suc_eq)
    then have "\<not> matchScoreBetter (score_of ps us M) (fst (best w ps us (Suc i) j))"
      using "4.IH"(3) [of M] "4.prems" by auto
    then show ?thesis using step(2) not_better_trans by blast
  next
    case corner
    with last M sub show ?thesis by blast
  next
    case cross
    let ?N = "insert (i, j) (insert (a, b) (M - {(i, b), (a, j)}))"
    note un = matching_uncross [OF M cross "4.prems"(2,3)]
    have "?N \<subseteq> {..<Suc i} \<times> {..<Suc j}" using sub cross by auto
    then have "\<not> matchScoreBetter (score_of ps us ?N) ?B" using last [OF un(1)] by simp
    with un(2) show ?thesis by (rule not_better_trans)
  qed
qed (auto simp: score_of_def zero_score_def matchScoreBetter_def matching_distance_def)

subsection \<open>The walk back attains the optimum\<close>

lemma trace_back_best:
  assumes ok: "distances_ok w ps us" and "i \<le> length ps" and "j \<le> length us"
  shows "\<exists>L. trace_back (match_table w ps us) i j = Some L \<and> set L \<subseteq> {..<i} \<times> {..<j} \<and>
    distinct L \<and> matching w ps us (set L) \<and> score_of ps us (set L) = fst (best w ps us i j)"
  using assms(2,3)
proof (induction "i + j" arbitrary: i j rule: less_induct)
  case less
  let ?T = "match_table w ps us"
  have act: "?T ! i ! j = best w ps us i j" using less.prems by (rule match_table_best)
  have empty: "score_of ps us {} = zero_score" "matching w ps us {}"
    by (simp_all add: score_of_def zero_score_def matching_distance_def matching_def)
  show ?case
  proof (cases i; cases j)
    assume "i = 0" "j = 0"
    then show ?thesis using empty by (subst trace_back.simps) simp
  next
    fix j' assume ij: "i = 0" "j = Suc j'"
    obtain L where "trace_back ?T 0 j' = Some L" "set L \<subseteq> {..<0} \<times> {..<j'}" "distinct L"
      using less.hyps [of 0 j'] less.prems ij by auto
    then show ?thesis using ij act empty by (subst trace_back.simps) simp
  next
    fix i' assume ij: "i = Suc i'" "j = 0"
    obtain L where "trace_back ?T i' 0 = Some L" "set L \<subseteq> {..<i'} \<times> {..<0}" "distinct L"
      using less.hyps [of i' 0] less.prems ij by auto
    then show ?thesis using ij act empty by (subst trace_back.simps) simp
  next
    fix i' j' assume ij: "i = Suc i'" "j = Suc j'"
    have le: "Suc i' \<le> length ps" "Suc j' \<le> length us" using less.prems ij by auto
    consider (p) "best w ps us i j = (fst (best w ps us i' j), CHR ''p'')"
      | (u) "best w ps us i j = (fst (best w ps us i j'), CHR ''u'')"
      | (m) "best w ps us i j = (\<lparr>ms_count = ms_count (fst (best w ps us i' j')) + 1,
            ms_distance = ms_distance (fst (best w ps us i' j')) + entry_distance (ps ! i') (us ! j')\<rparr>, CHR ''m'')"
          and "entry_distance (ps ! i') (us ! j') \<le> w"
      using best_step(4) [OF ok le] ij by auto
    then show ?thesis
    proof cases
      case p
      obtain L where L: "trace_back ?T i' j = Some L" "set L \<subseteq> {..<i'} \<times> {..<j}" "distinct L"
          "matching w ps us (set L)" "score_of ps us (set L) = fst (best w ps us i' j)"
        using less.hyps [of i' j] less.prems ij by auto
      have "trace_back ?T i j = Some L" using p L(1) ij act by (subst trace_back.simps) (simp del: best.simps)
      moreover have "set L \<subseteq> {..<i} \<times> {..<j}" using L(2) ij by auto
      ultimately show ?thesis using L p by auto
    next
      case u
      obtain L where L: "trace_back ?T i j' = Some L" "set L \<subseteq> {..<i} \<times> {..<j'}" "distinct L"
          "matching w ps us (set L)" "score_of ps us (set L) = fst (best w ps us i j')"
        using less.hyps [of i j'] less.prems ij by auto
      have "trace_back ?T i j = Some L" using u L(1) ij act by (subst trace_back.simps) (simp del: best.simps)
      moreover have "set L \<subseteq> {..<i} \<times> {..<j}" using L(2) ij by auto
      ultimately show ?thesis using L u by auto
    next
      case m
      obtain L where L: "trace_back ?T i' j' = Some L" "set L \<subseteq> {..<i'} \<times> {..<j'}" "distinct L"
          "matching w ps us (set L)" "score_of ps us (set L) = fst (best w ps us i' j')"
        using less.hyps [of i' j'] less.prems ij by auto
      have tr: "trace_back ?T i j = Some ((i', j') # L)"
        using m L(1) ij act by (subst trace_back.simps) (simp del: best.simps)
      have fresh: "(i', j') \<notin> set L" "i' \<notin> fst ` set L" "j' \<notin> snd ` set L" using L(2) by auto
      have "matching w ps us (set ((i', j') # L))"
        using L(4) m(2) fresh le by (auto simp: matching_def inj_on_insert)
      moreover have "score_of ps us (set ((i', j') # L)) = fst (best w ps us i j)"
        using score_of_insert [of "set L" i' j' ps us] fresh L(5) m(1) by simp
      moreover have "set ((i', j') # L) \<subseteq> {..<i} \<times> {..<j}" using L(2) ij by auto
      ultimately show ?thesis using tr L(3) fresh by auto
    qed
  qed
qed

lemma matchDetailEntries_best:
  assumes "distances_ok w ps us"
  shows "trace_back (match_table w ps us) (length ps) (length us) = Some (matchDetailEntries ps us w)"
    and "matching w ps us (set (matchDetailEntries ps us w))"
    and "distinct (matchDetailEntries ps us w)"
    and "score_of ps us (set (matchDetailEntries ps us w)) = fst (best w ps us (length ps) (length us))"
  using trace_back_best [OF assms order_refl order_refl] by (auto simp: matchDetailEntries_def)

section \<open>Properties\<close>

text \<open>(C3) On entries sorted by time, the pairing computed by the dynamic program is one-to-one
  and within the window, and it is optimal among all such pairings: none has more pairs, and none
  with as many pairs has a smaller total distance.\<close>

theorem matchDetailEntries_optimal:
  assumes "distances_ok w ps us" and "time_sorted ps" and "time_sorted us"
  shows "let M = set (matchDetailEntries ps us w) in
    matching w ps us M \<and>
    (\<forall>N. matching w ps us N \<longrightarrow> card N \<le> card M \<and>
       (card N = card M \<longrightarrow> matching_distance ps us M \<le> matching_distance ps us N))"
proof -
  let ?M = "set (matchDetailEntries ps us w)"
  note r = matchDetailEntries_best [OF assms(1)]
  have "card N \<le> card ?M \<and> (card N = card ?M \<longrightarrow> matching_distance ps us ?M \<le> matching_distance ps us N)"
    if N: "matching w ps us N" for N
  proof -
    have "\<not> matchScoreBetter (score_of ps us N) (score_of ps us ?M)"
      unfolding r(4) using N by (intro best_upper [OF assms]) (auto simp: matching_def)
    then show ?thesis by (auto simp: matchScoreBetter_le score_of_def)
  qed
  with r(2) show ?thesis by (simp add: Let_def)
qed

definition sample_entry :: "string \<Rightarrow> instant \<Rightarrow> detailEntry" where
  "sample_entry ident t = \<lparr>e_id = ident, e_sourceID = [], e_dimensions = [], e_amount = 0,
     e_occurredAt = t, e_inPeriod = True\<rparr>"

lemmas eval_match_simps = matchDetailEntries_def match_table_def match_cell_def trace_back.simps
  zero_score_def matchScoreBetter_def absoluteDuration_def time_Sub_def wrap64_def int64_bounds
  sample_entry_def Let_def

text \<open>A sample in which the nearest usage of the first bill must be left to the second one.\<close>

theorem matchDetailEntries_optimal_witness:
  "let ps = [sample_entry ''p1'' 0, sample_entry ''p2'' 10]; us = [sample_entry ''u1'' (- 5), sample_entry ''u2'' 3];
       M = set (matchDetailEntries ps us 8) in
    M = {(0, 0), (1, 1)} \<and> matching 8 ps us M \<and>
    (\<forall>N. matching 8 ps us N \<longrightarrow> card N \<le> card M \<and>
       (card N = card M \<longrightarrow> matching_distance ps us M \<le> matching_distance ps us N))"
proof -
  let ?ps = "[sample_entry ''p1'' 0, sample_entry ''p2'' 10]" and ?us = "[sample_entry ''u1'' (- 5), sample_entry ''u2'' 3]"
  have "set (matchDetailEntries ?ps ?us 8) = {(0, 0), (1, 1)}"
    by (auto simp: eval_match_simps)
  moreover have "distances_ok 8 ?ps ?us" "time_sorted ?ps" "time_sorted ?us"
    by (simp_all add: distances_ok_def time_sorted_def sample_entry_def entry_distance_def max_int64_def)
  ultimately show ?thesis using matchDetailEntries_optimal [of 8 ?ps ?us] by (simp add: Let_def)
qed

text \<open>The walk back through the tables stays inside them, so the index arithmetic of the
  code never panics, and the pairs it lists are distinct.\<close>

theorem trace_back_in_range:
  assumes "distances_ok w ps us"
  shows "trace_back (match_table w ps us) (length ps) (length us) = Some (matchDetailEntries ps us w) \<and>
    distinct (matchDetailEntries ps us w)"
  using matchDetailEntries_best [OF assms] by blast

theorem trace_back_in_range_witness:
  "trace_back (match_table 8 [sample_entry ''p1'' 0] [sample_entry ''u1'' 3]) 1 1 =
     Some (matchDetailEntries [sample_entry ''p1'' 0] [sample_entry ''u1'' 3] 8)"
  using trace_back_in_range [of 8 "[sample_entry ''p1'' 0]" "[sample_entry ''u1'' 3]"]
  by (simp add: distances_ok_def sample_entry_def entry_distance_def max_int64_def)

end
