(* ===== verification/ReconDetail.thy ===== *)
theory ReconDetail
  imports ReconMatching
begin

text \<open>
  Request-level reconciliation (\<open>backend/internal/reconciliation/detail.go\<close>) and the entry point
  \<open>calculate\<close> of \<open>engine.go\<close>. Bills and usages with the same dimensions form a group; within a
  group the dynamic program of \<open>ReconMatching\<close> pairs bills with usages.

  Shown: each selected bill is in exactly one item and each usage in at most one, no usage of
  the period is left out, and every item pairs records of one group within the window.
\<close>

section \<open>Detail calculation\<close>

definition sortDetailEntries :: "detailEntry list \<Rightarrow> detailEntry list" where
  "sortDetailEntries entries = sort_key (\<lambda>e. (e_occurredAt e, e_id e)) entries"

definition entryOutsideWindow :: "detailEntry \<Rightarrow> detailEntry list \<Rightarrow> duration \<Rightarrow> bool" where
  "entryOutsideWindow entry candidates window \<longleftrightarrow>
     candidates \<noteq> [] \<and>
     list_all (\<lambda>c. \<not> absoluteDuration (time_Sub (e_occurredAt entry) (e_occurredAt c)) \<le> window) candidates"

text \<open>The code dereferences \<open>provider\<close> or, when it is nil, \<open>usage\<close>; it is never called with two
  nil pointers.\<close>

definition detailBucket :: "string \<Rightarrow> detailEntry option \<Rightarrow> detailEntry option \<Rightarrow> bucket" where
  "detailBucket key provider usage =
     (let entry = (case provider of Some p \<Rightarrow> p | None \<Rightarrow> the usage);
          b0 = \<lparr>b_key = key, b_dimensions = e_dimensions entry, b_bucketStart = e_occurredAt entry,
                b_bucketEnd = e_occurredAt entry, b_providerAmount = 0, b_tokenHubAmount = 0,
                b_providerRecordIDs = [], b_tokenHubRecordIDs = [], b_providerTimes = [], b_tokenHubTimes = []\<rparr>;
          b1 = (case provider of
                  None \<Rightarrow> b0
                | Some p \<Rightarrow> b0\<lparr>b_key := b_key b0 @ [CHR 0x00] @ ''provider='' @ e_id p,
                              b_providerAmount := e_amount p, b_providerRecordIDs := [e_id p],
                              b_providerTimes := [e_occurredAt p]\<rparr>)
      in case usage of
           None \<Rightarrow> b1
         | Some u \<Rightarrow>
             b1\<lparr>b_key := b_key b1 @ [CHR 0x00] @ ''tokenhub='' @ e_id u,
                b_tokenHubAmount := e_amount u, b_tokenHubRecordIDs := [e_id u],
                b_tokenHubTimes := [e_occurredAt u],
                b_bucketStart := (if e_occurredAt u < b_bucketStart b1 then e_occurredAt u else b_bucketStart b1),
                b_bucketEnd := (if b_bucketEnd b1 < e_occurredAt u then e_occurredAt u else b_bucketEnd b1)\<rparr>)"

definition entry_row :: "Run \<Rightarrow> string \<Rightarrow> detailEntry \<Rightarrow> digestRow" where
  "entry_row run side entry =
     \<lparr>Row_Side = side, Row_ID = e_id entry, Row_SourceID = e_sourceID entry,
      Row_Dimensions = selectedDimensions (Run_MatchDimensions run) (e_dimensions entry),
      Row_Amount = money_String (e_amount entry), Row_OccurredAt = format_rfc3339nano (e_occurredAt entry)\<rparr>"

definition addDetailEntryToRun ::
  "Run \<Rightarrow> string \<Rightarrow> detailEntry \<Rightarrow> digestRow list \<Rightarrow> recon_error + (Run \<times> digestRow list)" where
  "addDetailEntryToRun run side entry rows =
     (let rows1 = rows @ [entry_row run side entry] in
      if side = ''provider'' then
        rbind (addMoneyString (Run_ProviderAmount run) (e_amount entry)) (\<lambda>tot.
          Inr (run\<lparr>Run_ProviderRecordCount := Run_ProviderRecordCount run + 1, Run_ProviderAmount := tot\<rparr>, rows1))
      else
        rbind (addMoneyString (Run_TokenHubAmount run) (e_amount entry)) (\<lambda>tot.
          Inr (run\<lparr>Run_TokenHubRecordCount := Run_TokenHubRecordCount run + 1, Run_TokenHubAmount := tot\<rparr>, rows1)))"

record detailGroup =
  g_providers :: "detailEntry list"
  g_usages :: "detailEntry list"

definition detail_key :: "Run \<Rightarrow> (string \<times> string) list \<Rightarrow> string" where
  "detail_key run dims =
     (let selected = selectedDimensions (Run_MatchDimensions run) dims
      in json_strings (map (\<lambda>d. d @ ''='' @ lookup_str selected d) (Run_MatchDimensions run)))"

text \<open>\<open>detailGroupFor\<close>: the key and the group under it, an empty one when there is none.\<close>

definition detailGroupFor ::
  "Run \<Rightarrow> (string \<times> string) list \<Rightarrow> (string \<times> detailGroup) list \<Rightarrow> string \<times> detailGroup" where
  "detailGroupFor run dims groups =
     (let key = detail_key run dims
      in (key, case map_of groups key of None \<Rightarrow> \<lparr>g_providers = [], g_usages = []\<rparr> | Some g \<Rightarrow> g))"

record detail_state =
  ds_run :: Run
  ds_groups :: "(string \<times> detailGroup) list"
  ds_rows :: "digestRow list"

definition detail_bill_step :: "BillingRecord \<Rightarrow> detail_state \<Rightarrow> recon_error + detail_state" where
  "detail_bill_step b st =
     (let run = ds_run st in
      if \<not> in_period run (Bill_UsageStartAt b) \<or> \<not> currency_selected run b then Inr st
      else case parseMoney (Bill_NetAmount b) of
        Inl e \<Rightarrow> Inl (Wrapped (''billing record '' @ Bill_ID b) e)
      | Inr amount \<Rightarrow>
          (let entry = \<lparr>e_id = Bill_ID b, e_sourceID = Bill_ExternalID b,
                        e_dimensions = providerDimensions run b, e_amount = amount,
                        e_occurredAt = Bill_UsageStartAt b, e_inPeriod = True\<rparr>;
               (key, group) = detailGroupFor run (e_dimensions entry) (ds_groups st);
               groups = AList.update key (group\<lparr>g_providers := g_providers group @ [entry]\<rparr>) (ds_groups st)
           in rbind (addDetailEntryToRun run ''provider'' entry (ds_rows st)) (\<lambda>(run1, rows1).
              Inr \<lparr>ds_run = run1, ds_groups = groups, ds_rows = rows1\<rparr>)))"

definition usage_in_window :: "Run \<Rightarrow> duration \<Rightarrow> Usage \<Rightarrow> bool" where
  "usage_in_window run window u \<longleftrightarrow>
     \<not> Usage_CreatedAt u < Run_PeriodStart run + wrap64 (- window) \<and> Usage_CreatedAt u < Run_PeriodEnd run + window"

definition detail_usage_step :: "money \<Rightarrow> duration \<Rightarrow> Usage \<Rightarrow> detail_state \<Rightarrow> recon_error + detail_state" where
  "detail_usage_step exchangeRate window u st =
     (let run = ds_run st in
      if \<not> usage_in_window run window u then Inr st
      else rbind (usage_amount exchangeRate u) (\<lambda>amount.
        let entry = \<lparr>e_id = Usage_ID u, e_sourceID = Usage_RequestID u,
                     e_dimensions = tokenHubDimensions run u, e_amount = amount,
                     e_occurredAt = Usage_CreatedAt u, e_inPeriod = in_period run (Usage_CreatedAt u)\<rparr>;
            (key, group) = detailGroupFor run (e_dimensions entry) (ds_groups st)
        in Inr (st\<lparr>ds_groups := AList.update key (group\<lparr>g_usages := g_usages group @ [entry]\<rparr>) (ds_groups st)\<rparr>)))"

text \<open>The state of the loops that emit the items of a group.\<close>

record emit_state =
  em_run :: Run
  em_items :: "Item list"
  em_rows :: "digestRow list"
  em_used :: "bool list"

record emit_config =
  ec_sha :: "string \<Rightarrow> string"
  ec_now :: instant
  ec_amountTolerance :: money
  ec_ratioTolerance :: money
  ec_window :: duration

definition emit_item :: "emit_config \<Rightarrow> Run \<Rightarrow> bucket \<Rightarrow> string \<Rightarrow> Item" where
  "emit_item c run b reason =
     itemFromBucket (ec_sha c) (ec_now c) run b (ec_amountTolerance c) (ec_ratioTolerance c) reason"

definition emit_provider ::
  "emit_config \<Rightarrow> string \<Rightarrow> detailEntry list \<Rightarrow> detailEntry list \<Rightarrow> (nat \<times> nat) list \<Rightarrow> nat \<Rightarrow>
   emit_state \<Rightarrow> recon_error + emit_state" where
  "emit_provider c key providers usages matches i st =
     (let provider = providers ! i in
      case map_of matches i of
        Some j \<Rightarrow>
          let usage = usages ! j;
              item = emit_item c (em_run st) (detailBucket key (Some provider) (Some usage)) []
          in rbind (addDetailEntryToRun (em_run st) ''tokenhub'' usage (em_rows st)) (\<lambda>(run1, rows1).
             Inr \<lparr>em_run = run1, em_items = em_items st @ [item], em_rows = rows1,
                  em_used = (em_used st)[j := True]\<rparr>)
      | None \<Rightarrow>
          let reason = (if entryOutsideWindow provider usages (ec_window c) then ''outside_time_window'' else []);
              item = emit_item c (em_run st) (detailBucket key (Some provider) None) reason
          in Inr (st\<lparr>em_items := em_items st @ [item]\<rparr>))"

definition emit_usage ::
  "emit_config \<Rightarrow> string \<Rightarrow> detailEntry list \<Rightarrow> detailEntry list \<Rightarrow> nat \<Rightarrow> emit_state \<Rightarrow> recon_error + emit_state" where
  "emit_usage c key providers usages j st =
     (let usage = usages ! j in
      if em_used st ! j \<or> \<not> e_inPeriod usage then Inr st
      else
        let reason = (if entryOutsideWindow usage providers (ec_window c) then ''outside_time_window'' else []);
            item = emit_item c (em_run st) (detailBucket key None (Some usage)) reason
        in rbind (addDetailEntryToRun (em_run st) ''tokenhub'' usage (em_rows st)) (\<lambda>(run1, rows1).
           Inr (st\<lparr>em_run := run1, em_items := em_items st @ [item], em_rows := rows1\<rparr>)))"

definition emit_group ::
  "emit_config \<Rightarrow> (string \<times> detailGroup) list \<Rightarrow> string \<Rightarrow> emit_state \<Rightarrow> recon_error + emit_state" where
  "emit_group c groups key st =
     (let group = the (map_of groups key);
          providers = sortDetailEntries (g_providers group);
          usages = sortDetailEntries (g_usages group);
          matches = matchDetailEntries providers usages (ec_window c)
      in rbind (foldr_res (emit_provider c key providers usages matches) [0..<length providers]
                  (st\<lparr>em_used := replicate (length usages) False\<rparr>)) (\<lambda>st1.
         foldr_res (emit_usage c key providers usages) [0..<length usages] st1))"

definition calculateDetail ::
  "(string \<Rightarrow> string) \<Rightarrow> instant \<Rightarrow> Run \<Rightarrow> BillingRecord list \<Rightarrow> Usage list \<Rightarrow> money \<Rightarrow> money \<Rightarrow> money \<Rightarrow>
   recon_error + (Run \<times> Item list)" where
  "calculateDetail sha now run bills usages amountTolerance ratioTolerance exchangeRate =
     (let window = minutes_duration (Run_TimeWindowMinutes run);
          c = \<lparr>ec_sha = sha, ec_now = now, ec_amountTolerance = amountTolerance,
               ec_ratioTolerance = ratioTolerance, ec_window = window\<rparr>
      in rbind (foldr_res detail_bill_step bills \<lparr>ds_run = run, ds_groups = [], ds_rows = []\<rparr>) (\<lambda>st1.
         rbind (foldr_res (detail_usage_step exchangeRate window) usages st1) (\<lambda>st2.
         rbind (foldr_res (emit_group c (ds_groups st2)) (sort (map fst (ds_groups st2)))
                  \<lparr>em_run = ds_run st2, em_items = [], em_rows = ds_rows st2, em_used = []\<rparr>) (\<lambda>st3.
         finish sha now (em_run st3) (em_items st3) (em_rows st3)))))"

section \<open>Entry point\<close>

definition calculate ::
  "(string \<Rightarrow> string) \<Rightarrow> instant \<Rightarrow> zone_db \<Rightarrow> Run \<Rightarrow> BillingRecord list \<Rightarrow> Usage list \<Rightarrow>
   recon_error + (Run \<times> Item list)" where
  "calculate sha now zones run bills usages =
     rbind (parseMoney (Run_AmountTolerance run)) (\<lambda>amountTolerance.
     rbind (parseMoney (Run_RatioTolerance run)) (\<lambda>ratioTolerance.
     case zones (Run_Timezone run) of
       None \<Rightarrow> Inl (Wrapped ''invalid reconciliation timezone''
                      (OtherError (''unknown time zone '' @ Run_Timezone run)))
     | Some location \<Rightarrow>
         (case parseMoney (Run_USDExchangeRate run) of
            Inl e \<Rightarrow> Inl (Wrapped ''invalid reconciliation exchange rate'' e)
          | Inr exchangeRate \<Rightarrow>
              if Run_Granularity run = GranularityDetail
              then calculateDetail sha now run bills usages amountTolerance ratioTolerance exchangeRate
              else calculate_buckets sha now location amountTolerance ratioTolerance exchangeRate run bills usages)))"

section \<open>Facts\<close>

subsection \<open>Groups\<close>

definition window_entries :: "Run \<Rightarrow> money \<Rightarrow> duration \<Rightarrow> Usage list \<Rightarrow> detailEntry list" where
  "window_entries run exchangeRate window usages =
     map (usage_entry run exchangeRate) (filter (usage_in_window run window) usages)"

definition group_key :: "Run \<Rightarrow> detailEntry \<Rightarrow> string" where
  "group_key run e = detail_key run (e_dimensions e)"

definition group_spec :: "Run \<Rightarrow> detailEntry list \<Rightarrow> detailEntry list \<Rightarrow> string \<Rightarrow> detailGroup" where
  "group_spec run ps us k =
     \<lparr>g_providers = filter (\<lambda>e. group_key run e = k) ps, g_usages = filter (\<lambda>e. group_key run e = k) us\<rparr>"

definition groups_inv ::
  "Run \<Rightarrow> detailEntry list \<Rightarrow> detailEntry list \<Rightarrow> (string \<times> detailGroup) list \<Rightarrow> bool" where
  "groups_inv run ps us gs \<longleftrightarrow>
     distinct (map fst gs) \<and>
     (\<forall>k. map_of gs k = (if k \<in> group_key run ` (set ps \<union> set us) then Some (group_spec run ps us k) else None))"

lemma groups_inv_found:
  assumes "groups_inv run ps us gs"
  shows "(case map_of gs k of None \<Rightarrow> \<lparr>g_providers = [], g_usages = []\<rparr> | Some g \<Rightarrow> g) = group_spec run ps us k"
proof (cases "k \<in> group_key run ` (set ps \<union> set us)")
  case True
  with assms show ?thesis by (simp add: groups_inv_def)
next
  case False
  then have "filter (\<lambda>e. group_key run e = k) ps = []" "filter (\<lambda>e. group_key run e = k) us = []"
    by (auto simp: filter_empty_conv)
  with False assms show ?thesis by (simp add: groups_inv_def group_spec_def)
qed

lemma groups_inv_provider:
  assumes "groups_inv run ps us gs" and "g = group_spec run ps us (group_key run e)"
  shows "groups_inv run (ps @ [e]) us
    (AList.update (group_key run e) (g\<lparr>g_providers := g_providers g @ [e]\<rparr>) gs)"
  using assms by (auto simp: groups_inv_def group_spec_def distinct_update update_conv')

lemma groups_inv_usage:
  assumes "groups_inv run ps us gs" and "g = group_spec run ps us (group_key run e)"
  shows "groups_inv run ps (us @ [e])
    (AList.update (group_key run e) (g\<lparr>g_usages := g_usages g @ [e]\<rparr>) gs)"
  using assms by (auto simp: groups_inv_def group_spec_def distinct_update update_conv')

lemma with_totals_detail [simp]:
  "detail_key (with_totals run pc pa tc ta) = detail_key run"
  "usage_in_window (with_totals run pc pa tc ta) = usage_in_window run"
  "detailGroupFor (with_totals run pc pa tc ta) = detailGroupFor run"
  by (auto simp: fun_eq_iff detail_key_def usage_in_window_def detailGroupFor_def with_totals_def)

lemma detailGroupFor_eq:
  "groups_inv run ps us gs \<Longrightarrow>
     detailGroupFor run (e_dimensions e) gs = (group_key run e, group_spec run ps us (group_key run e))"
  by (simp add: detailGroupFor_def Let_def groups_inv_found group_key_def)

definition detail_inv :: "Run \<Rightarrow> detailEntry list \<Rightarrow> detailEntry list \<Rightarrow> detail_state \<Rightarrow> bool" where
  "detail_inv run ps us st \<longleftrightarrow>
     groups_inv run ps us (ds_groups st) \<and> (\<exists>a b c d. ds_run st = with_totals run a b c d)"

lemma addDetailEntryToRun_totals:
  assumes "addDetailEntryToRun (with_totals run a b c d) side e rows = Inr (run1, rows1)"
  shows "\<exists>a b c d. run1 = with_totals run a b c d"
  using assms by (auto simp: addDetailEntryToRun_def Let_def rbind_eq_Inr_iff with_totals_update split: if_splits)

lemma detail_bills_loop:
  assumes "foldr_res detail_bill_step bills st = Inr st'" and "detail_inv run ps [] st"
  shows "detail_inv run (ps @ bill_entries run bills) [] st'"
  using assms
proof (induction bills arbitrary: ps st)
  case Nil
  then show ?case by (simp add: bill_entries_def)
next
  case (Cons b bills)
  from Cons.prems(1) obtain st1 where step: "detail_bill_step b st = Inr st1"
    and rest: "foldr_res detail_bill_step bills st1 = Inr st'" by (auto simp: rbind_eq_Inr_iff)
  from Cons.prems(2) obtain a b' c d where run: "ds_run st = with_totals run a b' c d"
    and inv: "groups_inv run ps [] (ds_groups st)" by (auto simp: detail_inv_def)
  show ?case
  proof (cases "bill_selected run b")
    case False
    then have "st1 = st" using step by (auto simp: detail_bill_step_def run bill_selected_def Let_def)
    with False Cons.IH [OF rest] Cons.prems(2) show ?thesis by (simp add: bill_entries_def)
  next
    case True
    let ?e = "bill_entry run b"
    obtain m where m: "parseMoney (Bill_NetAmount b) = Inr m"
      using step True by (auto simp: detail_bill_step_def run bill_selected_def Let_def split: sum.splits)
    then have e: "\<lparr>e_id = Bill_ID b, e_sourceID = Bill_ExternalID b, e_dimensions = providerDimensions run b,
        e_amount = m, e_occurredAt = Bill_UsageStartAt b, e_inPeriod = True\<rparr> = ?e" by (simp add: bill_entry_def)
    let ?g = "group_spec run ps [] (group_key run ?e)"
    obtain run1 rows1 where add: "addDetailEntryToRun (with_totals run a b' c d) ''provider'' ?e (ds_rows st) = Inr (run1, rows1)"
      and st1: "st1 = \<lparr>ds_run = run1, ds_groups = AList.update (group_key run ?e)
            (?g\<lparr>g_providers := g_providers ?g @ [?e]\<rparr>) (ds_groups st), ds_rows = rows1\<rparr>"
      using step True by (auto simp: detail_bill_step_def run bill_selected_def Let_def m e
          detailGroupFor_eq [OF inv] rbind_eq_Inr_iff)
    have "detail_inv run (ps @ [?e]) [] st1"
      using groups_inv_provider [OF inv refl, of ?e] addDetailEntryToRun_totals [OF add] by (simp add: detail_inv_def st1)
    from Cons.IH [OF rest this] True show ?thesis by (simp add: bill_entries_def)
  qed
qed

lemma detail_usages_loop:
  assumes "foldr_res (detail_usage_step rate w) usages st = Inr st'" and "detail_inv run ps us st"
  shows "detail_inv run ps (us @ window_entries run rate w usages) st'"
  using assms
proof (induction usages arbitrary: us st)
  case Nil
  then show ?case by (simp add: window_entries_def)
next
  case (Cons u usages)
  from Cons.prems(1) obtain st1 where step: "detail_usage_step rate w u st = Inr st1"
    and rest: "foldr_res (detail_usage_step rate w) usages st1 = Inr st'" by (auto simp: rbind_eq_Inr_iff)
  from Cons.prems(2) obtain a b' c d where run: "ds_run st = with_totals run a b' c d"
    and inv: "groups_inv run ps us (ds_groups st)" by (auto simp: detail_inv_def)
  show ?case
  proof (cases "usage_in_window run w u")
    case False
    then have "st1 = st" using step by (auto simp: detail_usage_step_def run Let_def)
    with False Cons.IH [OF rest] Cons.prems(2) show ?thesis by (simp add: window_entries_def)
  next
    case True
    let ?e = "usage_entry run rate u"
    obtain m where m: "usage_amount rate u = Inr m"
      using step True by (auto simp: detail_usage_step_def run Let_def rbind_eq_Inr_iff)
    then have e: "\<lparr>e_id = Usage_ID u, e_sourceID = Usage_RequestID u, e_dimensions = tokenHubDimensions run u,
        e_amount = m, e_occurredAt = Usage_CreatedAt u, e_inPeriod = in_period run (Usage_CreatedAt u)\<rparr> = ?e"
      by (simp add: usage_entry_def)
    let ?g = "group_spec run ps us (group_key run ?e)"
    have st1: "st1 = st\<lparr>ds_groups := AList.update (group_key run ?e)
            (?g\<lparr>g_usages := g_usages ?g @ [?e]\<rparr>) (ds_groups st)\<rparr>"
      using step True by (simp add: detail_usage_step_def run Let_def m e detailGroupFor_eq [OF inv])
    have "detail_inv run ps (us @ [?e]) st1"
      using groups_inv_usage [OF inv refl, of ?e] run by (auto simp: detail_inv_def st1)
    from Cons.IH [OF rest this] True show ?thesis by (simp add: window_entries_def)
  qed
qed

subsection \<open>Items of a group\<close>

lemma emit_item_run_ID: "Run_ID run = Run_ID run' \<Longrightarrow> emit_item c run b reason = emit_item c run' b reason"
  using itemFromBucket_run_ID [of run run'] by (simp add: emit_item_def)

definition provider_item ::
  "emit_config \<Rightarrow> Run \<Rightarrow> string \<Rightarrow> detailEntry list \<Rightarrow> detailEntry list \<Rightarrow> (nat \<times> nat) list \<Rightarrow> nat \<Rightarrow> Item" where
  "provider_item c run key ps us M i =
     (case map_of M i of
        Some j \<Rightarrow> emit_item c run (detailBucket key (Some (ps ! i)) (Some (us ! j))) []
      | None \<Rightarrow> emit_item c run (detailBucket key (Some (ps ! i)) None)
          (if entryOutsideWindow (ps ! i) us (ec_window c) then ''outside_time_window'' else []))"

definition usage_item ::
  "emit_config \<Rightarrow> Run \<Rightarrow> string \<Rightarrow> detailEntry list \<Rightarrow> detailEntry list \<Rightarrow> nat \<Rightarrow> Item" where
  "usage_item c run key ps us j =
     emit_item c run (detailBucket key None (Some (us ! j)))
       (if entryOutsideWindow (us ! j) ps (ec_window c) then ''outside_time_window'' else [])"

lemma addDetailEntryToRun_ID:
  "addDetailEntryToRun run side e rows = Inr (run1, rows1) \<Longrightarrow> Run_ID run1 = Run_ID run"
  by (auto simp: addDetailEntryToRun_def Let_def rbind_eq_Inr_iff split: if_splits)

lemma emit_provider_Inr:
  assumes "emit_provider c key ps us M i st = Inr st1" and "Run_ID (em_run st) = Run_ID run"
  shows "em_items st1 = em_items st @ [provider_item c run key ps us M i]" and "Run_ID (em_run st1) = Run_ID run"
    and "em_used st1 = (case map_of M i of None \<Rightarrow> em_used st | Some j \<Rightarrow> (em_used st)[j := True])"
  using assms emit_item_run_ID [OF assms(2)]
  by (auto simp: emit_provider_def provider_item_def Let_def rbind_eq_Inr_iff dest: addDetailEntryToRun_ID
      split: option.splits)

lemma emit_providers_loop:
  assumes "foldr_res (emit_provider c key ps us M) is st = Inr st'" and "Run_ID (em_run st) = Run_ID run"
  shows "em_items st' = em_items st @ map (provider_item c run key ps us M) is \<and> Run_ID (em_run st') = Run_ID run \<and>
    length (em_used st') = length (em_used st) \<and>
    (\<forall>j < length (em_used st). em_used st' ! j \<longleftrightarrow> em_used st ! j \<or> (\<exists>i \<in> set is. map_of M i = Some j))"
  using assms
proof (induction "is" arbitrary: st)
  case Nil
  then show ?case by simp
next
  case (Cons i "is")
  from Cons.prems(1) obtain st1 where step: "emit_provider c key ps us M i st = Inr st1"
    and rest: "foldr_res (emit_provider c key ps us M) is st1 = Inr st'" by (auto simp: rbind_eq_Inr_iff)
  note s = emit_provider_Inr [OF step Cons.prems(2)]
  have len: "length (em_used st1) = length (em_used st)" by (simp add: s(3) split: option.splits)
  have "em_used st1 ! j \<longleftrightarrow> em_used st ! j \<or> map_of M i = Some j" if "j < length (em_used st)" for j
  proof (cases "map_of M i")
    case (Some j')
    then show ?thesis using that by (cases "j' = j") (simp_all add: s(3))
  qed (simp add: s(3))
  then show ?case using Cons.IH [OF rest s(2)] s(1) len by auto
qed

lemma emit_usage_Inr:
  assumes "emit_usage c key ps us j st = Inr st1" and "Run_ID (em_run st) = Run_ID run"
  shows "em_items st1 = em_items st @
      (if em_used st ! j \<or> \<not> e_inPeriod (us ! j) then [] else [usage_item c run key ps us j])"
    and "Run_ID (em_run st1) = Run_ID run" and "em_used st1 = em_used st"
  using assms emit_item_run_ID [OF assms(2)]
  by (auto simp: emit_usage_def usage_item_def Let_def rbind_eq_Inr_iff dest: addDetailEntryToRun_ID split: if_splits)

lemma emit_usages_loop:
  assumes "foldr_res (emit_usage c key ps us) js st = Inr st'" and "Run_ID (em_run st) = Run_ID run"
  shows "em_items st' = em_items st @
      map (usage_item c run key ps us) (filter (\<lambda>j. \<not> em_used st ! j \<and> e_inPeriod (us ! j)) js) \<and>
    Run_ID (em_run st') = Run_ID run"
  using assms
proof (induction js arbitrary: st)
  case Nil
  then show ?case by simp
next
  case (Cons j js)
  from Cons.prems(1) obtain st1 where step: "emit_usage c key ps us j st = Inr st1"
    and rest: "foldr_res (emit_usage c key ps us) js st1 = Inr st'" by (auto simp: rbind_eq_Inr_iff)
  note s = emit_usage_Inr [OF step Cons.prems(2)]
  show ?case using Cons.IH [OF rest s(2)] s(1,3) by auto
qed

definition group_items ::
  "emit_config \<Rightarrow> Run \<Rightarrow> string \<Rightarrow> detailEntry list \<Rightarrow> detailEntry list \<Rightarrow> Item list" where
  "group_items c run key ps us =
     (let M = matchDetailEntries ps us (ec_window c)
      in map (provider_item c run key ps us M) [0..<length ps] @
         map (usage_item c run key ps us)
           (filter (\<lambda>j. j \<notin> {j. \<exists>i < length ps. map_of M i = Some j} \<and> e_inPeriod (us ! j)) [0..<length us]))"

lemma emit_group_Inr:
  assumes "emit_group c gs key st = Inr st'" and "Run_ID (em_run st) = Run_ID run"
  shows "em_items st' = em_items st @ group_items c run key (sortDetailEntries (g_providers (the (map_of gs key))))
      (sortDetailEntries (g_usages (the (map_of gs key))))" and "Run_ID (em_run st') = Run_ID run"
proof -
  let ?ps = "sortDetailEntries (g_providers (the (map_of gs key)))"
  let ?us = "sortDetailEntries (g_usages (the (map_of gs key)))"
  let ?M = "matchDetailEntries ?ps ?us (ec_window c)"
  let ?st = "st\<lparr>em_used := replicate (length ?us) False\<rparr>"
  from assms(1) obtain st1 where
      l1: "foldr_res (emit_provider c key ?ps ?us ?M) [0..<length ?ps] ?st = Inr st1"
    and l2: "foldr_res (emit_usage c key ?ps ?us) [0..<length ?us] st1 = Inr st'"
    by (auto simp: emit_group_def Let_def rbind_eq_Inr_iff)
  have id: "Run_ID (em_run ?st) = Run_ID run" using assms(2) by simp
  note p = emit_providers_loop [OF l1 id, simplified]
  note u = emit_usages_loop [OF l2, of run]
  have used: "filter (\<lambda>j. \<not> em_used st1 ! j \<and> e_inPeriod (?us ! j)) [0..<length ?us] =
      filter (\<lambda>j. j \<notin> {j. \<exists>i < length ?ps. map_of ?M i = Some j} \<and> e_inPeriod (?us ! j)) [0..<length ?us]"
    using p by (intro filter_cong) auto
  show "em_items st' = em_items st @ group_items c run key ?ps ?us" "Run_ID (em_run st') = Run_ID run"
    using p u used by (simp_all add: group_items_def Let_def)
qed

lemma emit_groups_loop:
  assumes "foldr_res (emit_group c gs) ks st = Inr st'" and "Run_ID (em_run st) = Run_ID run"
  shows "em_items st' = em_items st @ concat (map (\<lambda>k. group_items c run k
      (sortDetailEntries (g_providers (the (map_of gs k)))) (sortDetailEntries (g_usages (the (map_of gs k))))) ks)"
  using assms
proof (induction ks arbitrary: st)
  case Nil
  then show ?case by simp
next
  case (Cons k ks)
  from Cons.prems(1) obtain st1 where step: "emit_group c gs k st = Inr st1"
    and rest: "foldr_res (emit_group c gs) ks st1 = Inr st'" by (auto simp: rbind_eq_Inr_iff)
  note s = emit_group_Inr [OF step Cons.prems(2)]
  show ?case using Cons.IH [OF rest s(2)] s(1) by simp
qed

lemma finish_items: "finish sha now run items rows = Inr (run', items') \<Longrightarrow> items' = items"
  by (auto simp: finish_def Let_def rbind_eq_Inr_iff)

definition detail_config :: "(string \<Rightarrow> string) \<Rightarrow> instant \<Rightarrow> Run \<Rightarrow> money \<Rightarrow> money \<Rightarrow> emit_config" where
  "detail_config sha now run aT rT =
     \<lparr>ec_sha = sha, ec_now = now, ec_amountTolerance = aT, ec_ratioTolerance = rT,
      ec_window = minutes_duration (Run_TimeWindowMinutes run)\<rparr>"

lemma calculateDetail_items:
  assumes "calculateDetail sha now run bills usages aT rT rate = Inr (run', items)"
  defines "w \<equiv> minutes_duration (Run_TimeWindowMinutes run)"
    and "ps \<equiv> bill_entries run bills"
    and "us \<equiv> window_entries run rate (minutes_duration (Run_TimeWindowMinutes run)) usages"
  shows "items = concat (map (\<lambda>k. group_items (detail_config sha now run aT rT) run k
      (sortDetailEntries (filter (\<lambda>e. group_key run e = k) ps))
      (sortDetailEntries (filter (\<lambda>e. group_key run e = k) us)))
      (sorted_list_of_set (group_key run ` (set ps \<union> set us))))"
proof -
  let ?c = "detail_config sha now run aT rT"
  from assms(1) obtain st1 st2 st3 where
      l1: "foldr_res detail_bill_step bills \<lparr>ds_run = run, ds_groups = [], ds_rows = []\<rparr> = Inr st1"
    and l2: "foldr_res (detail_usage_step rate w) usages st1 = Inr st2"
    and l3: "foldr_res (emit_group ?c (ds_groups st2)) (sort (map fst (ds_groups st2)))
               \<lparr>em_run = ds_run st2, em_items = [], em_rows = ds_rows st2, em_used = []\<rparr> = Inr st3"
    and fin: "finish sha now (em_run st3) (em_items st3) (em_rows st3) = Inr (run', items)"
    by (auto simp: calculateDetail_def Let_def rbind_eq_Inr_iff detail_config_def w_def)
  have "run = with_totals run (Run_ProviderRecordCount run) (Run_ProviderAmount run)
      (Run_TokenHubRecordCount run) (Run_TokenHubAmount run)" by (simp add: with_totals_def)
  then have "detail_inv run [] [] \<lparr>ds_run = run, ds_groups = [], ds_rows = []\<rparr>"
    by (auto simp: detail_inv_def groups_inv_def)
  from detail_usages_loop [OF l2 detail_bills_loop [OF l1 this]]
  have inv: "groups_inv run ps us (ds_groups st2)" and id: "Run_ID (ds_run st2) = Run_ID run"
    by (auto simp: detail_inv_def ps_def us_def w_def)
  let ?K = "group_key run ` (set ps \<union> set us)"
  have keys: "fst ` set (ds_groups st2) = ?K"
    using inv unfolding dom_map_of_conv_image_fst [symmetric] by (simp add: groups_inv_def dom_def)
  have sorted_keys: "sort (map fst (ds_groups st2)) = sorted_list_of_set ?K"
    using inv keys by (metis groups_inv_def image_set sorted_list_of_set_sort_remdups distinct_remdups_id)
  have spec: "the (map_of (ds_groups st2) k) = group_spec run ps us k" if "k \<in> ?K" for k
    using inv that by (simp add: groups_inv_def)
  have "items = em_items st3" using finish_items [OF fin] by simp
  also have "\<dots> = concat (map (\<lambda>k. group_items ?c run k
      (sortDetailEntries (g_providers (the (map_of (ds_groups st2) k))))
      (sortDetailEntries (g_usages (the (map_of (ds_groups st2) k))))) (sorted_list_of_set ?K))"
    using emit_groups_loop [OF l3, of run] id by (simp add: sorted_keys)
  also have "\<dots> = concat (map (\<lambda>k. group_items ?c run k
      (sortDetailEntries (filter (\<lambda>e. group_key run e = k) ps))
      (sortDetailEntries (filter (\<lambda>e. group_key run e = k) us))) (sorted_list_of_set ?K))"
    using spec by (intro arg_cong [where f = concat] map_cong) (auto simp: group_spec_def)
  finally show ?thesis .
qed

subsection \<open>Identifiers\<close>

lemma mset_concat_bounds:
  assumes "distinct ks" and "f ` set xs \<subseteq> set ks"
  shows "(\<And>k. mset (map g (filter (\<lambda>x. f x = k) xs)) \<subseteq># mset (h k)) \<Longrightarrow> mset (map g xs) \<subseteq># mset (concat (map h ks))"
    and "(\<And>k. mset (h k) \<subseteq># mset (map g (filter (\<lambda>x. f x = k) xs))) \<Longrightarrow> mset (concat (map h ks)) \<subseteq># mset (map g xs)"
proof -
  have all: "mset (concat (map (\<lambda>k. map g (filter (\<lambda>x. f x = k) xs)) ks)) = mset (map g xs)"
  proof -
    have "mset (concat (map (\<lambda>k. map g (filter (\<lambda>x. f x = k) xs)) ks)) =
        image_mset g (mset (concat (map (\<lambda>k. filter (\<lambda>x. f x = k) xs) ks)))"
      by (induction ks) simp_all
    then show ?thesis using mset_group_by [OF assms] by simp
  qed
  have mono: "(\<And>k. mset (a k) \<subseteq># mset (b k)) \<Longrightarrow> mset (concat (map a ks)) \<subseteq># mset (concat (map b ks))"
    for a b by (induction ks) (simp_all add: subset_mset.add_mono)
  show "(\<And>k. mset (map g (filter (\<lambda>x. f x = k) xs)) \<subseteq># mset (h k)) \<Longrightarrow> mset (map g xs) \<subseteq># mset (concat (map h ks))"
    unfolding all [symmetric] by (rule mono)
  show "(\<And>k. mset (h k) \<subseteq># mset (map g (filter (\<lambda>x. f x = k) xs))) \<Longrightarrow> mset (concat (map h ks)) \<subseteq># mset (map g xs)"
    unfolding all [symmetric] by (rule mono)
qed

lemma detailBucket_ids [simp]:
  "b_providerRecordIDs (detailBucket k (Some p) u') = [e_id p]"
  "b_tokenHubRecordIDs (detailBucket k p' (Some u)) = [e_id u]"
  "b_providerRecordIDs (detailBucket k None (Some u)) = []"
  "b_tokenHubRecordIDs (detailBucket k (Some p) None) = []"
  by (cases u'; cases p'; simp add: detailBucket_def Let_def)+

lemma emit_item_ids [simp]:
  "Item_ProviderRecordIDs (emit_item c run b reason) = b_providerRecordIDs b"
  "Item_TokenHubRecordIDs (emit_item c run b reason) = b_tokenHubRecordIDs b"
  by (simp_all add: emit_item_def)

lemma provider_item_ids:
  "Item_ProviderRecordIDs (provider_item c run k ps us M i) = [e_id (ps ! i)]"
  "Item_TokenHubRecordIDs (provider_item c run k ps us M i) =
     (case map_of M i of None \<Rightarrow> [] | Some j \<Rightarrow> [e_id (us ! j)])"
  by (simp_all add: provider_item_def split: option.splits)

lemma usage_item_ids:
  "Item_ProviderRecordIDs (usage_item c run k ps us j) = []"
  "Item_TokenHubRecordIDs (usage_item c run k ps us j) = [e_id (us ! j)]"
  by (simp_all add: usage_item_def)

lemma map_via_nth: "map f xs = map (\<lambda>i. f (xs ! i)) [0..<length xs]"
  by (rule nth_equalityI) simp_all

lemma group_items_providers:
  "concat (map Item_ProviderRecordIDs (group_items c run k ps us)) = map e_id ps"
proof -
  have "concat (map (\<lambda>i. [e_id (ps ! i)]) [0..<length ps]) = map (\<lambda>i. e_id (ps ! i)) [0..<length ps]"
    by (rule concat_map_singleton)
  moreover have "concat (map (\<lambda>j. [] :: string list) js) = []" for js :: "nat list" by (induction js) simp_all
  ultimately show ?thesis
    by (simp add: group_items_def Let_def o_def provider_item_ids usage_item_ids flip: map_via_nth)
qed

lemma concat_map_concat: "concat (map h (concat (map f ks))) = concat (map (\<lambda>k. concat (map h (f k))) ks)"
  by (induction ks) simp_all

lemma concat_options:
  "concat (map (\<lambda>i. case m i of None \<Rightarrow> [] | Some j \<Rightarrow> [g j]) is) =
     map (\<lambda>i. g (the (m i))) (filter (\<lambda>i. m i \<noteq> None) is)"
  by (induction "is") (auto split: option.splits)

lemma distinct_submset: "distinct xs \<Longrightarrow> distinct ys \<Longrightarrow> set xs \<subseteq> set ys \<Longrightarrow> mset xs \<subseteq># mset ys"
  by (metis List.finite_set mset_set_set subset_imp_msubset_mset_set)

text \<open>The usages listed by a group: every index at most once, and every one in the period.\<close>

lemma group_items_usages:
  assumes M: "matching (ec_window c) ps us (set (matchDetailEntries ps us (ec_window c)))"
  shows "\<exists>J. distinct J \<and> set J \<subseteq> {..<length us} \<and> {j. j < length us \<and> e_inPeriod (us ! j)} \<subseteq> set J \<and>
    concat (map Item_TokenHubRecordIDs (group_items c run k ps us)) = map (\<lambda>j. e_id (us ! j)) J"
proof -
  let ?L = "matchDetailEntries ps us (ec_window c)"
  let ?m = "map_of ?L"
  let ?is = "filter (\<lambda>i. ?m i \<noteq> None) [0..<length ps]"
  let ?A = "map (\<lambda>i. the (?m i)) ?is"
  let ?B = "filter (\<lambda>j. j \<notin> {j. \<exists>i < length ps. ?m i = Some j} \<and> e_inPeriod (us ! j)) [0..<length us]"
  have ids: "concat (map Item_TokenHubRecordIDs (group_items c run k ps us)) = map (\<lambda>j. e_id (us ! j)) (?A @ ?B)"
  proof -
    have "concat (map (\<lambda>j. [e_id (us ! j)]) js) = map (\<lambda>j. e_id (us ! j)) js" for js by (induction js) simp_all
    then show ?thesis
      by (simp add: group_items_def Let_def o_def provider_item_ids usage_item_ids concat_options)
  qed
  have in_M: "(i, j) \<in> set ?L" if "?m i = Some j" for i j using that by (rule map_of_SomeD)
  have setA: "set ?A = {j. \<exists>i < length ps. ?m i = Some j}" by force
  have dA: "distinct ?A"
  proof -
    have "inj_on (\<lambda>i. the (?m i)) (set ?is)"
    proof (rule inj_onI)
      fix x y assume x: "x \<in> set ?is" and y: "y \<in> set ?is" and eq: "the (?m x) = the (?m y)"
      then obtain j j' where "?m x = Some j" "?m y = Some j'" by auto
      with eq show "x = y" using matching_functional(2) [OF M, of x j y] in_M by simp
    qed
    then show ?thesis by (simp add: distinct_map)
  qed
  have sA: "set ?A \<subseteq> {..<length us}" unfolding setA using M in_M by (force simp: matching_def)
  have dis: "set ?A \<inter> set ?B = {}" unfolding setA by auto
  have cover: "{j. j < length us \<and> e_inPeriod (us ! j)} \<subseteq> set ?A \<union> set ?B" unfolding setA by auto
  have dB: "distinct ?B" by simp
  have sB: "set ?B \<subseteq> {..<length us}" by auto
  have "distinct (?A @ ?B) \<and> set (?A @ ?B) \<subseteq> {..<length us} \<and>
      {j. j < length us \<and> e_inPeriod (us ! j)} \<subseteq> set (?A @ ?B)"
    unfolding distinct_append set_append
    by (intro conjI Un_least dA dB dis sA sB cover)
  with ids show ?thesis by blast
qed

lemma group_items_usage_bounds:
  assumes M: "matching (ec_window c) ps us (set (matchDetailEntries ps us (ec_window c)))"
  shows "mset (map e_id (filter e_inPeriod us)) \<subseteq># mset (concat (map Item_TokenHubRecordIDs (group_items c run k ps us)))"
    and "mset (concat (map Item_TokenHubRecordIDs (group_items c run k ps us))) \<subseteq># mset (map e_id us)"
proof -
  obtain J where J: "distinct J" "set J \<subseteq> {..<length us}" "{j. j < length us \<and> e_inPeriod (us ! j)} \<subseteq> set J"
    and ids: "concat (map Item_TokenHubRecordIDs (group_items c run k ps us)) = map (\<lambda>j. e_id (us ! j)) J"
    using group_items_usages [OF M] by blast
  let ?g = "\<lambda>j. e_id (us ! j)"
  have all: "map e_id us = map ?g [0..<length us]" by (rule map_via_nth)
  have flt: "map e_id (filter e_inPeriod us) = map ?g (filter (\<lambda>j. e_inPeriod (us ! j)) [0..<length us])"
  proof -
    have "filter e_inPeriod us = filter e_inPeriod (map (nth us) [0..<length us])" by (simp add: map_nth)
    then show ?thesis by (simp add: filter_map o_def)
  qed
  have "mset J \<subseteq># mset [0..<length us]" using J by (intro distinct_submset) (auto simp: atLeast0LessThan)
  then show "mset (concat (map Item_TokenHubRecordIDs (group_items c run k ps us))) \<subseteq># mset (map e_id us)"
    unfolding ids all mset_map by (rule image_mset_subseteq_mono)
  have "mset (filter (\<lambda>j. e_inPeriod (us ! j)) [0..<length us]) \<subseteq># mset J"
    using J by (intro distinct_submset) auto
  then show "mset (map e_id (filter e_inPeriod us)) \<subseteq># mset (concat (map Item_TokenHubRecordIDs (group_items c run k ps us)))"
    unfolding ids flt mset_map by (rule image_mset_subseteq_mono)
qed

subsection \<open>Bounds that make the pairing exact\<close>

text \<open>What the service and the rule validation establish before a calculation: a window of at
  most a day and a period of at most 366 days. The number of bills bounds the sums of distances.\<close>

definition detail_bounds :: "Run \<Rightarrow> BillingRecord list \<Rightarrow> bool" where
  "detail_bounds run bills \<longleftrightarrow>
     0 \<le> Run_TimeWindowMinutes run \<and> Run_TimeWindowMinutes run \<le> 1440 \<and>
     Run_PeriodEnd run - Run_PeriodStart run \<le> 366 * 24 * Hour \<and>
     int (length bills) * minutes_duration (Run_TimeWindowMinutes run) \<le> max_int64"

lemma window_bounds:
  assumes "detail_bounds run bills"
  shows "0 \<le> minutes_duration (Run_TimeWindowMinutes run)"
    and "minutes_duration (Run_TimeWindowMinutes run) \<le> 1440 * Minute"
    and "wrap64 (- minutes_duration (Run_TimeWindowMinutes run)) = - minutes_duration (Run_TimeWindowMinutes run)"
proof -
  have "in_int64 (Run_TimeWindowMinutes run * Minute)"
    using assms by (simp add: detail_bounds_def Minute_def int64_bounds)
  then have w: "minutes_duration (Run_TimeWindowMinutes run) = Run_TimeWindowMinutes run * Minute"
    by (simp add: minutes_duration_def wrap64_id)
  then show 1: "0 \<le> minutes_duration (Run_TimeWindowMinutes run)"
    and 2: "minutes_duration (Run_TimeWindowMinutes run) \<le> 1440 * Minute"
    using assms by (simp_all add: detail_bounds_def Minute_def)
  show "wrap64 (- minutes_duration (Run_TimeWindowMinutes run)) = - minutes_duration (Run_TimeWindowMinutes run)"
    using 1 2 by (intro wrap64_id) (simp add: int64_bounds Minute_def)
qed

lemma group_distances_ok:
  assumes b: "detail_bounds run bills"
  defines "w \<equiv> minutes_duration (Run_TimeWindowMinutes run)"
  shows "distances_ok w (sortDetailEntries (filter P (bill_entries run bills)))
    (sortDetailEntries (filter Q (window_entries run rate w usages)))"
proof -
  note wb = window_bounds [OF b, folded w_def]
  have period: "Run_PeriodEnd run - Run_PeriodStart run \<le> 366 * 24 * Hour" using b by (simp add: detail_bounds_def)
  have "length (filter P (bill_entries run bills)) \<le> length (bill_entries run bills)" by (rule length_filter_le)
  also have "\<dots> \<le> length bills" by (simp add: bill_entries_def)
  finally have "int (length (filter P (bill_entries run bills))) * w \<le> int (length bills) * w"
    using wb(1) by (intro mult_right_mono) auto
  then have len: "int (length (filter P (bill_entries run bills))) * w \<le> max_int64"
    using b by (simp add: detail_bounds_def w_def)
  have near: "entry_distance p u \<le> max_int64"
    if "p \<in> set (bill_entries run bills)" and "u \<in> set (window_entries run rate w usages)" for p u
  proof -
    have "Run_PeriodStart run \<le> e_occurredAt p" "e_occurredAt p < Run_PeriodEnd run"
      using that(1) by (auto simp: bill_entries_def bill_entry_def bill_selected_def in_period_def)
    moreover have "Run_PeriodStart run - w \<le> e_occurredAt u" "e_occurredAt u < Run_PeriodEnd run + w"
      using that(2) wb(3) by (auto simp: window_entries_def usage_entry_def usage_in_window_def)
    ultimately show ?thesis
      using period wb(2) unfolding entry_distance_def int64_bounds Hour_def Minute_def by linarith
  qed
  show ?thesis unfolding distances_ok_def using wb(1) len near by (auto simp: sortDetailEntries_def)
qed

lemma time_sorted_sortDetailEntries: "time_sorted (sortDetailEntries es)"
proof -
  have "sorted (map (\<lambda>e. (e_occurredAt e, e_id e)) (sortDetailEntries es))"
    by (simp add: sortDetailEntries_def)
  then have "sorted (map fst (map (\<lambda>e. (e_occurredAt e, e_id e)) (sortDetailEntries es)))"
    by (auto simp: sorted_wrt_map less_eq_prod_def elim!: sorted_wrt_mono_rel [rotated])
  then show ?thesis by (simp add: time_sorted_def o_def)
qed

section \<open>A sample calculation\<close>

definition sample_detail_run :: Run where
  "sample_detail_run = sample_run\<lparr>Run_Granularity := GranularityDetail,
     Run_MatchDimensions := [''request_id'', ''currency'']\<rparr>"

lemma sample_detail_facts:
  "detail_bounds sample_detail_run [sample_bill]" "bill_selected sample_detail_run sample_bill"
  "parseMoney (Run_ProviderAmount sample_detail_run) = Inr 0" "parseMoney (Run_TokenHubAmount sample_detail_run) = Inr 0"
  "parseMoney (Bill_NetAmount sample_bill) = Inr 1500000000"
  by (simp_all add: sample_detail_run_def sample_run_def detail_bounds_def Hour_def minutes_duration_def
      Minute_def wrap64_def int64_bounds bill_selected_def in_period_def currency_selected_def sample_bill_def
      EqualFold_def parseMoney_money_String)

text \<open>Bill and usage of the sample fall into one group.\<close>

lemma sample_group_key:
  "detail_key sample_detail_run (tokenHubDimensions sample_detail_run sample_usage) =
     detail_key sample_detail_run (providerDimensions sample_detail_run sample_bill)"
proof -
  have trim: "TrimSpace ''USD'' = ''USD''" "TrimSpace ''req_1'' = ''req_1''"
    by (rule TrimSpace_graph_all; simp add: is_graph_def code_of_def)+
  have "ToUpper ''USD'' = ''USD''" by (simp add: ToUpper_def upper_char_def code_of_def)
  then show ?thesis
    by (simp add: detail_key_def selectedDimensions_def tokenHubDimensions_def providerDimensions_def
        apply_mappings_def sample_detail_run_def sample_run_def zero_Run_def sample_bill_def sample_usage_def
        trim lookup_str_def Let_def)
qed

lemma sample_match:
  "matchDetailEntries [bill_entry sample_detail_run sample_bill]
     [usage_entry sample_detail_run moneyScale sample_usage] (minutes_duration 5) = [(0, 0)]"
  by (simp add: matchDetailEntries_def match_table_def match_cell_def trace_back.simps zero_score_def
      matchScoreBetter_def absoluteDuration_def time_Sub_def wrap64_def int64_bounds bill_entry_def
      usage_entry_def sample_bill_def sample_usage_def minutes_duration_def Minute_def Let_def)

lemma sample_detail_runs:
  "\<exists>run' item. calculateDetail sha now sample_detail_run [sample_bill] [sample_usage] aT rT moneyScale = Inr (run', [item]) \<and>
     Item_ProviderRecordIDs item = [''bill_1''] \<and> Item_TokenHubRecordIDs item = [''usage_1'']"
proof -
  let ?r = "sample_detail_run" and ?e = "bill_entry sample_detail_run sample_bill"
  let ?u = "usage_entry sample_detail_run moneyScale sample_usage"
  let ?k = "detail_key sample_detail_run (e_dimensions (bill_entry sample_detail_run sample_bill))"
  let ?r1 = "?r\<lparr>Run_ProviderRecordCount := Run_ProviderRecordCount ?r + 1, Run_ProviderAmount := money_String 1500000000\<rparr>"
  let ?r2 = "?r1\<lparr>Run_TokenHubRecordCount := Run_TokenHubRecordCount ?r1 + 1, Run_TokenHubAmount := money_String 1500000000\<rparr>"
  let ?rows = "[entry_row sample_detail_run ''provider'' ?e]"
  note f = sample_detail_facts
  have e: "\<lparr>e_id = Bill_ID sample_bill, e_sourceID = Bill_ExternalID sample_bill,
      e_dimensions = providerDimensions ?r sample_bill, e_amount = 1500000000,
      e_occurredAt = Bill_UsageStartAt sample_bill, e_inPeriod = True\<rparr> = ?e"
    using f(5) by (simp add: bill_entry_def)
  have u: "\<lparr>e_id = Usage_ID sample_usage, e_sourceID = Usage_RequestID sample_usage,
      e_dimensions = tokenHubDimensions ?r sample_usage, e_amount = 1500000000,
      e_occurredAt = Usage_CreatedAt sample_usage, e_inPeriod = in_period ?r (Usage_CreatedAt sample_usage)\<rparr> = ?u"
    by (simp add: usage_entry_def sample_usage_amount)
  have amt: "e_amount ?e = 1500000000" "e_amount ?u = 1500000000"
    using f(5) by (simp_all add: bill_entry_def usage_entry_def sample_usage_amount)
  have add1: "addDetailEntryToRun ?r ''provider'' ?e [] = Inr (?r1, ?rows)"
    using addMoneyString_eq [OF f(3) money_ok_sample(1)] by (simp add: addDetailEntryToRun_def Let_def amt)
  have step1: "detail_bill_step sample_bill \<lparr>ds_run = ?r, ds_groups = [], ds_rows = []\<rparr> =
      Inr \<lparr>ds_run = ?r1, ds_groups = [(?k, \<lparr>g_providers = [?e], g_usages = []\<rparr>)], ds_rows = ?rows\<rparr>"
    using f(2,5) add1 by (simp add: detail_bill_step_def bill_selected_def Let_def e detailGroupFor_def)
  have cfg: "usage_in_window ?r1 w = usage_in_window ?r w" "tokenHubDimensions ?r1 = tokenHubDimensions ?r"
      "in_period ?r1 = in_period ?r" "detail_key ?r1 = detail_key ?r" for w
    by (auto simp: fun_eq_iff usage_in_window_def tokenHubDimensions_def in_period_def detail_key_def)
  have win: "Run_TimeWindowMinutes ?r = 5" by (simp add: sample_detail_run_def sample_run_def)
  have "usage_in_window ?r (minutes_duration 5) sample_usage"
    by (simp add: usage_in_window_def sample_detail_run_def sample_run_def sample_usage_def minutes_duration_def
        Minute_def wrap64_def)
  then have step2: "detail_usage_step moneyScale (minutes_duration 5) sample_usage
        \<lparr>ds_run = ?r1, ds_groups = [(?k, \<lparr>g_providers = [?e], g_usages = []\<rparr>)], ds_rows = ?rows\<rparr> =
      Inr \<lparr>ds_run = ?r1, ds_groups = [(?k, \<lparr>g_providers = [?e], g_usages = [?u]\<rparr>)], ds_rows = ?rows\<rparr>"
    using sample_group_key
    by (simp add: detail_usage_step_def cfg sample_usage_amount Let_def u detailGroupFor_def)
       (simp add: usage_entry_def bill_entry_def)
  have add2: "addDetailEntryToRun ?r1 ''tokenhub'' ?u ?rows = Inr (?r2, ?rows @ [entry_row ?r1 ''tokenhub'' ?u])"
    using addMoneyString_eq [OF f(4) money_ok_sample(1)] by (simp add: addDetailEntryToRun_def Let_def amt)
  have fin: "\<exists>run'. finish sha now ?r2 items rows = Inr (run', items)" for items rows
    using finish_eq [of ?r2 1500000000 1500000000 sha now items rows] by (simp add: parseMoney_money_String)
  let ?c = "\<lparr>ec_sha = sha, ec_now = now, ec_amountTolerance = aT, ec_ratioTolerance = rT, ec_window = minutes_duration 5\<rparr>"
  let ?item = "emit_item ?c ?r1 (detailBucket ?k (Some ?e) (Some ?u)) []"
  have group: "emit_group ?c [(?k, \<lparr>g_providers = [?e], g_usages = [?u]\<rparr>)] ?k
        \<lparr>em_run = ?r1, em_items = [], em_rows = ?rows, em_used = []\<rparr> =
      Inr \<lparr>em_run = ?r2, em_items = [?item], em_rows = ?rows @ [entry_row ?r1 ''tokenhub'' ?u], em_used = [True]\<rparr>"
    using add2 by (simp add: emit_group_def sortDetailEntries_def Let_def sample_match emit_provider_def emit_usage_def)
  obtain run' where r: "finish sha now ?r2 [?item] (?rows @ [entry_row ?r1 ''tokenhub'' ?u]) = Inr (run', [?item])"
    using fin by blast
  have "calculateDetail sha now ?r [sample_bill] [sample_usage] aT rT moneyScale = Inr (run', [?item])"
    using r by (simp add: calculateDetail_def Let_def step1 step2 win group)
  moreover have "Item_ProviderRecordIDs ?item = [''bill_1'']" "Item_TokenHubRecordIDs ?item = [''usage_1'']"
    by (simp_all add: bill_entry_def usage_entry_def sample_bill_def sample_usage_def)
  ultimately show ?thesis by blast
qed

section \<open>Properties\<close>

text \<open>(C23) Request-level reconciliation loses no record and uses none twice: the bills listed by
  the items are exactly the selected ones, with multiplicity; every usage of the period is listed,
  and every listed usage is one of the extended window, at most as often as it occurs.\<close>

theorem calculateDetail_conserves:
  assumes "calculateDetail sha now run bills usages aT rT rate = Inr (run', items)"
    and b: "detail_bounds run bills"
  shows "mset (concat (map Item_ProviderRecordIDs items)) =
      mset (map Bill_ID (filter (bill_selected run) bills)) \<and>
    mset (map Usage_ID (filter (\<lambda>u. in_period run (Usage_CreatedAt u)) usages)) \<subseteq>#
      mset (concat (map Item_TokenHubRecordIDs items)) \<and>
    mset (concat (map Item_TokenHubRecordIDs items)) \<subseteq>#
      mset (map Usage_ID (filter (usage_in_window run (minutes_duration (Run_TimeWindowMinutes run))) usages))"
proof -
  let ?w = "minutes_duration (Run_TimeWindowMinutes run)" and ?c = "detail_config sha now run aT rT"
  let ?ps = "bill_entries run bills" and ?us = "window_entries run rate ?w usages"
  let ?P = "\<lambda>k. sortDetailEntries (filter (\<lambda>e. group_key run e = k) ?ps)"
  let ?U = "\<lambda>k. sortDetailEntries (filter (\<lambda>e. group_key run e = k) ?us)"
  let ?ks = "sorted_list_of_set (group_key run ` (set ?ps \<union> set ?us))"
  have items: "items = concat (map (\<lambda>k. group_items ?c run k (?P k) (?U k)) ?ks)"
    by (rule calculateDetail_items [OF assms(1)])
  have w: "ec_window ?c = ?w" by (simp add: detail_config_def)
  have M: "matching (ec_window ?c) (?P k) (?U k) (set (matchDetailEntries (?P k) (?U k) (ec_window ?c)))" for k
    unfolding w by (rule matchDetailEntries_best(2) [OF group_distances_ok [OF b]])
  have cm: "concat (map h items) = concat (map (\<lambda>k. concat (map h (group_items ?c run k (?P k) (?U k)))) ?ks)"
    for h :: "Item \<Rightarrow> string list"
    unfolding items by (rule concat_map_concat)
  have ms: "mset (map e_id (?P k)) = mset (map e_id (filter (\<lambda>e. group_key run e = k) ?ps))"
      "mset (map e_id (?U k)) = mset (map e_id (filter (\<lambda>e. group_key run e = k) ?us))" for k
    by (simp_all add: sortDetailEntries_def)
  have "mset (concat (map Item_ProviderRecordIDs items)) = mset (map e_id ?ps)"
    unfolding cm group_items_providers
    by (intro subset_mset.antisym mset_concat_bounds [where f = "group_key run"])
      (auto simp: sortDetailEntries_def)
  moreover have "mset (concat (map Item_TokenHubRecordIDs items)) \<subseteq># mset (map e_id ?us)"
    unfolding cm
  proof (rule mset_concat_bounds(2) [where f = "group_key run"])
    show "mset (concat (map Item_TokenHubRecordIDs (group_items ?c run k (?P k) (?U k)))) \<subseteq>#
        mset (map e_id (filter (\<lambda>x. group_key run x = k) ?us))" for k
      unfolding ms(2) [symmetric] by (rule group_items_usage_bounds(2) [OF M])
  qed auto
  moreover have "mset (map e_id (filter e_inPeriod ?us)) \<subseteq># mset (concat (map Item_TokenHubRecordIDs items))"
  proof -
    have "mset (map e_id (filter (\<lambda>x. group_key run x = k) (filter e_inPeriod ?us))) = mset (map e_id (filter e_inPeriod (?U k)))" for k
      by (simp add: sortDetailEntries_def filter_filter_mset conj_commute)
    note flt = this
    show ?thesis unfolding cm
    proof (rule mset_concat_bounds(1) [where f = "group_key run"])
      show "mset (map e_id (filter (\<lambda>x. group_key run x = k) (filter e_inPeriod ?us))) \<subseteq>#
          mset (concat (map Item_TokenHubRecordIDs (group_items ?c run k (?P k) (?U k))))" for k
        unfolding flt by (rule group_items_usage_bounds(1) [OF M])
    qed auto
  qed
  moreover have "map e_id ?ps = map Bill_ID (filter (bill_selected run) bills)"
    by (simp add: bill_entries_def bill_entry_def)
  moreover have "map e_id ?us = map Usage_ID (filter (usage_in_window run ?w) usages)"
    by (simp add: window_entries_def usage_entry_def)
  moreover have "map e_id (filter e_inPeriod ?us) = map Usage_ID (filter (\<lambda>u. in_period run (Usage_CreatedAt u)) usages)"
  proof -
    have "usage_in_window run ?w u" if "in_period run (Usage_CreatedAt u)" for u
      using that window_bounds(1,3) [OF b] by (auto simp: usage_in_window_def in_period_def)
    then have "filter (\<lambda>u. usage_in_window run ?w u \<and> in_period run (Usage_CreatedAt u)) usages =
        filter (\<lambda>u. in_period run (Usage_CreatedAt u)) usages" by (intro filter_cong) auto
    then show ?thesis by (simp add: window_entries_def usage_entry_def filter_map o_def conj_commute)
  qed
  ultimately show ?thesis by simp
qed

theorem calculateDetail_conserves_witness:
  "\<exists>run' items. calculateDetail (\<lambda>s. s) 0 sample_detail_run [sample_bill] [sample_usage] 0 0 moneyScale = Inr (run', items) \<and>
     mset (concat (map Item_ProviderRecordIDs items)) = {#''bill_1''#}"
proof -
  obtain run' item where c: "calculateDetail (\<lambda>s. s) 0 sample_detail_run [sample_bill] [sample_usage] 0 0 moneyScale = Inr (run', [item])"
    using sample_detail_runs by blast
  have "mset (concat (map Item_ProviderRecordIDs [item])) = {#''bill_1''#}"
    using calculateDetail_conserves [OF c sample_detail_facts(1)] sample_detail_facts(2) by (simp add: sample_bill_def)
  with c show ?thesis by blast
qed

text \<open>An item that lists a bill and a usage pairs one selected bill with one usage of the
  same group, at most the window apart in time.\<close>

theorem calculateDetail_pairs:
  assumes calc: "calculateDetail sha now run bills usages aT rT rate = Inr (run', items)"
    and b: "detail_bounds run bills" and item: "item \<in> set items"
    and both: "Item_ProviderRecordIDs item \<noteq> []" "Item_TokenHubRecordIDs item \<noteq> []"
  shows "\<exists>bill \<in> set bills. \<exists>usage \<in> set usages. bill_selected run bill \<and>
    Item_ProviderRecordIDs item = [Bill_ID bill] \<and> Item_TokenHubRecordIDs item = [Usage_ID usage] \<and>
    detail_key run (providerDimensions run bill) = detail_key run (tokenHubDimensions run usage) \<and>
    \<bar>Bill_UsageStartAt bill - Usage_CreatedAt usage\<bar> \<le> minutes_duration (Run_TimeWindowMinutes run)"
proof -
  let ?w = "minutes_duration (Run_TimeWindowMinutes run)" and ?c = "detail_config sha now run aT rT"
  let ?ps = "bill_entries run bills" and ?us = "window_entries run rate ?w usages"
  let ?P = "\<lambda>k. sortDetailEntries (filter (\<lambda>e. group_key run e = k) ?ps)"
  let ?U = "\<lambda>k. sortDetailEntries (filter (\<lambda>e. group_key run e = k) ?us)"
  from item obtain k where "item \<in> set (group_items ?c run k (?P k) (?U k))"
    unfolding calculateDetail_items [OF calc] by auto
  then obtain i j where "item = provider_item ?c run k (?P k) (?U k) (matchDetailEntries (?P k) (?U k) ?w) i"
    and j: "map_of (matchDetailEntries (?P k) (?U k) ?w) i = Some j"
    using both by (auto simp: group_items_def Let_def usage_item_ids provider_item_ids detail_config_def split: option.splits)
  then have ids: "Item_ProviderRecordIDs item = [e_id (?P k ! i)]" "Item_TokenHubRecordIDs item = [e_id (?U k ! j)]"
    by (simp_all add: provider_item_ids)
  have M: "matching ?w (?P k) (?U k) (set (matchDetailEntries (?P k) (?U k) ?w))"
    by (rule matchDetailEntries_best(2) [OF group_distances_ok [OF b]])
  with map_of_SomeD [OF j] have bounds: "i < length (?P k)" "j < length (?U k)"
    and near: "entry_distance (?P k ! i) (?U k ! j) \<le> ?w" by (auto simp: matching_def)
  have "?P k ! i \<in> set (?P k)" "?U k ! j \<in> set (?U k)" using bounds by simp_all
  then have p: "?P k ! i \<in> set ?ps" "group_key run (?P k ! i) = k" and u: "?U k ! j \<in> set ?us" "group_key run (?U k ! j) = k"
    by (simp_all add: sortDetailEntries_def)
  from p(1) obtain bill where bill: "bill \<in> set bills" "bill_selected run bill" "?P k ! i = bill_entry run bill"
    by (auto simp: bill_entries_def)
  from u(1) obtain usage where usage: "usage \<in> set usages" "?U k ! j = usage_entry run rate usage"
    by (auto simp: window_entries_def)
  have "Item_ProviderRecordIDs item = [Bill_ID bill] \<and> Item_TokenHubRecordIDs item = [Usage_ID usage] \<and>
    detail_key run (providerDimensions run bill) = detail_key run (tokenHubDimensions run usage) \<and>
    \<bar>Bill_UsageStartAt bill - Usage_CreatedAt usage\<bar> \<le> ?w"
    using ids p(2) u(2) near unfolding bill(3) usage(2)
    by (simp add: bill_entry_def usage_entry_def group_key_def entry_distance_def)
  with bill(1,2) usage(1) show ?thesis by blast
qed

theorem calculateDetail_pairs_witness:
  "\<exists>run' item. calculateDetail (\<lambda>s. s) 0 sample_detail_run [sample_bill] [sample_usage] 0 0 moneyScale = Inr (run', [item]) \<and>
     (\<exists>bill \<in> set [sample_bill]. \<exists>usage \<in> set [sample_usage]. Item_TokenHubRecordIDs item = [Usage_ID usage] \<and>
        \<bar>Bill_UsageStartAt bill - Usage_CreatedAt usage\<bar> \<le> minutes_duration 5)"
proof -
  obtain run' item where c: "calculateDetail (\<lambda>s. s) 0 sample_detail_run [sample_bill] [sample_usage] 0 0 moneyScale = Inr (run', [item])"
    and ids: "Item_ProviderRecordIDs item = [''bill_1'']" "Item_TokenHubRecordIDs item = [''usage_1'']"
    using sample_detail_runs by blast
  have "Run_TimeWindowMinutes sample_detail_run = 5" by (simp add: sample_detail_run_def sample_run_def)
  with calculateDetail_pairs [OF c sample_detail_facts(1), of item] ids c show ?thesis by auto
qed

end
