(* ===== verification/ReconRules.thy ===== *)
theory ReconRules
  imports ReconEngine
begin

text \<open>
  Rules of the reconciliation package (\<open>backend/internal/reconciliation/service.go\<close>): building a
  rule from an input or a patch, normalisation and validation, the rule hash, the run of a rule
  and the period of a scheduled run.

  Shown: a rule that passes validation satisfies the well-formedness predicate \<open>rule_wf\<close> and is
  a fixed point of normalisation, so saving an unchanged rule changes nothing; the hash of a run
  is that of the rule it was made from.
\<close>

section \<open>Inputs and patches\<close>

definition ruleFromInput :: "RuleInput \<Rightarrow> Rule" where
  "ruleFromInput request = zero_Rule\<lparr>
     Rule_Name := In_Name request, Rule_ConnectorID := In_ConnectorID request,
     Rule_Status := In_Status request, Rule_Granularity := In_Granularity request,
     Rule_MatchDimensions := In_MatchDimensions request,
     Rule_DimensionMappings := In_DimensionMappings request,
     Rule_AmountTolerance := In_AmountTolerance request, Rule_RatioTolerance := In_RatioTolerance request,
     Rule_USDExchangeRate := In_USDExchangeRate request,
     Rule_TimeWindowMinutes := In_TimeWindowMinutes request,
     Rule_BillingDelayMinutes := In_BillingDelayMinutes request,
     Rule_ScheduleIntervalMinutes := In_ScheduleIntervalMinutes request,
     Rule_Timezone := In_Timezone request, Rule_Currency := In_Currency request\<rparr>"

definition patched :: "'a option \<Rightarrow> 'a \<Rightarrow> 'a" where
  "patched p old = (case p of None \<Rightarrow> old | Some v \<Rightarrow> v)"

definition applyRulePatch :: "Rule \<Rightarrow> RulePatch \<Rightarrow> Rule" where
  "applyRulePatch rule request = rule\<lparr>
     Rule_Name := patched (Patch_Name request) (Rule_Name rule),
     Rule_Status := patched (Patch_Status request) (Rule_Status rule),
     Rule_Granularity := patched (Patch_Granularity request) (Rule_Granularity rule),
     Rule_MatchDimensions := patched (Patch_MatchDimensions request) (Rule_MatchDimensions rule),
     Rule_DimensionMappings := patched (Patch_DimensionMappings request) (Rule_DimensionMappings rule),
     Rule_AmountTolerance := patched (Patch_AmountTolerance request) (Rule_AmountTolerance rule),
     Rule_RatioTolerance := patched (Patch_RatioTolerance request) (Rule_RatioTolerance rule),
     Rule_USDExchangeRate := patched (Patch_USDExchangeRate request) (Rule_USDExchangeRate rule),
     Rule_TimeWindowMinutes := patched (Patch_TimeWindowMinutes request) (Rule_TimeWindowMinutes rule),
     Rule_BillingDelayMinutes := patched (Patch_BillingDelayMinutes request) (Rule_BillingDelayMinutes rule),
     Rule_ScheduleIntervalMinutes := patched (Patch_ScheduleIntervalMinutes request) (Rule_ScheduleIntervalMinutes rule),
     Rule_Timezone := patched (Patch_Timezone request) (Rule_Timezone rule),
     Rule_Currency := patched (Patch_Currency request) (Rule_Currency rule)\<rparr>"

section \<open>Normalisation and validation\<close>

definition isCurrency :: "string \<Rightarrow> bool" where
  "isCurrency value \<longleftrightarrow> length value = 3 \<and> list_all (\<lambda>c. 65 \<le> code_of c \<and> code_of c \<le> 90) value"

definition normalizeDimensions :: "string list \<Rightarrow> string list" where
  "normalizeDimensions values =
     (let seen = set (filter (\<lambda>v. v \<in> set recon_dimensions) (map (\<lambda>v. ToLower (TrimSpace v)) values))
      in filter (\<lambda>v. v \<in> seen) recon_dimensions)"

definition mapping_error :: "string \<Rightarrow> recon_error" where
  "mapping_error message = NewError ErrorInvalidInput ''invalid_reconciliation_mapping'' message"

definition clean_entry ::
  "string \<times> string \<Rightarrow> (string \<times> string) list \<Rightarrow> recon_error + (string \<times> string) list" where
  "clean_entry entry cleaned =
     (let source = TrimSpace (fst entry); canonical = TrimSpace (snd entry) in
      if source = [] \<or> canonical = [] then
        Inl (mapping_error ''dimension mapping keys and values cannot be empty'')
      else Inr (AList.update source canonical cleaned))"

definition mappable_dimensions :: "string list" where
  "mappable_dimensions = [''provider'', ''resource_account'', ''model'', ''project'']"

definition normalize_mapping :: "string \<times> (string \<times> string) list \<Rightarrow> mappings \<Rightarrow> recon_error + mappings" where
  "normalize_mapping raw result =
     (let dimension = ToLower (TrimSpace (fst raw)); entries = snd raw in
      if dimension \<notin> set mappable_dimensions then
        Inl (mapping_error ''dimension_mappings contains an unsupported dimension'')
      else if length entries > 1000 then Inl (mapping_error ''dimension_mappings contains too many entries'')
      else rbind (foldr_res clean_entry entries []) (\<lambda>cleaned.
        Inr (if cleaned \<noteq> [] then AList.update dimension cleaned result else result)))"

definition normalizeMappings :: "mappings \<Rightarrow> recon_error + mappings" where
  "normalizeMappings values = foldr_res normalize_mapping values []"

definition default_to :: "string \<Rightarrow> string \<Rightarrow> string" where
  "default_to fallback s = (if s = [] then fallback else s)"

definition normalize_rule :: "Rule \<Rightarrow> Rule" where
  "normalize_rule rule =
     (let granularity = default_to GranularityDetail (ToLower (TrimSpace (Rule_Granularity rule)));
          dims = (if Rule_MatchDimensions rule = [] then
                    (if granularity = GranularityDetail then [''request_id'', ''model'', ''currency'']
                     else [''model'', ''currency''])
                  else Rule_MatchDimensions rule)
      in rule\<lparr>Rule_Name := TrimSpace (Rule_Name rule), Rule_ConnectorID := TrimSpace (Rule_ConnectorID rule),
              Rule_Status := default_to StatusActive (ToLower (TrimSpace (Rule_Status rule))),
              Rule_Granularity := granularity,
              Rule_AmountTolerance := default_to ''0'' (TrimSpace (Rule_AmountTolerance rule)),
              Rule_RatioTolerance := default_to ''0'' (TrimSpace (Rule_RatioTolerance rule)),
              Rule_USDExchangeRate := default_to ''1'' (TrimSpace (Rule_USDExchangeRate rule)),
              Rule_Timezone := default_to ''UTC'' (TrimSpace (Rule_Timezone rule)),
              Rule_Currency := default_to ''USD'' (ToUpper (TrimSpace (Rule_Currency rule))),
              Rule_MatchDimensions := normalizeDimensions dims\<rparr>)"

definition invalid :: "string \<Rightarrow> string \<Rightarrow> recon_error" where
  "invalid code message = NewError ErrorInvalidInput code message"

definition check :: "bool \<Rightarrow> recon_error \<Rightarrow> recon_error + 'a \<Rightarrow> recon_error + 'a" where
  "check bad err rest = (if bad then Inl err else rest)"

text \<open>\<open>parsed_unless bad s\<close> is the amount of \<open>s\<close> when it can be read and is not bad.\<close>

definition parsed_unless :: "(money \<Rightarrow> bool) \<Rightarrow> string \<Rightarrow> money option" where
  "parsed_unless bad s = (case parseMoney s of Inl _ \<Rightarrow> None | Inr m \<Rightarrow> if bad m then None else Some m)"

definition validate_windows :: "zone_db \<Rightarrow> Rule \<Rightarrow> recon_error + Rule" where
  "validate_windows zones rule =
     check (Rule_TimeWindowMinutes rule < 0 \<or> Rule_TimeWindowMinutes rule > 24 * 60 \<or>
            Rule_BillingDelayMinutes rule < 0 \<or> Rule_BillingDelayMinutes rule > 30 * 24 * 60 \<or>
            Rule_ScheduleIntervalMinutes rule < 0 \<or> Rule_ScheduleIntervalMinutes rule > 30 * 24 * 60)
       (invalid ''invalid_reconciliation_window'' ''time, delay, and schedule windows are outside the supported range'') (
     check (zones (Rule_Timezone rule) = None)
       (invalid ''invalid_reconciliation_timezone'' ''timezone must be a valid IANA timezone'') (
     check (\<not> isCurrency (Rule_Currency rule))
       (invalid ''invalid_reconciliation_currency'' ''currency must be a three-letter ISO code'')
     (Inr rule)))"

definition validate_amounts :: "zone_db \<Rightarrow> Rule \<Rightarrow> recon_error + Rule" where
  "validate_amounts zones rule =
     (case parsed_unless (\<lambda>m. m < 0) (Rule_AmountTolerance rule) of
        None \<Rightarrow> Inl (invalid ''invalid_reconciliation_tolerance'' ''amount_tolerance must be a non-negative decimal'')
      | Some amount \<Rightarrow>
     (case parsed_unless (\<lambda>m. m < 0 \<or> m > moneyScale) (Rule_RatioTolerance rule) of
        None \<Rightarrow> Inl (invalid ''invalid_reconciliation_tolerance'' ''ratio_tolerance must be between 0 and 1'')
      | Some rt \<Rightarrow>
     (case parsed_unless (\<lambda>m. m \<le> 0) (Rule_USDExchangeRate rule) of
        None \<Rightarrow> Inl (invalid ''invalid_reconciliation_exchange_rate'' ''usd_exchange_rate must be a positive decimal'')
      | Some exchangeRate \<Rightarrow>
          check (Rule_Currency rule = ''USD'' \<and> exchangeRate \<noteq> moneyScale)
            (invalid ''invalid_reconciliation_exchange_rate'' ''USD reconciliation must use an exchange rate of 1'')
          (validate_windows zones (rule\<lparr>Rule_AmountTolerance := money_String amount,
             Rule_RatioTolerance := money_String rt, Rule_USDExchangeRate := money_String exchangeRate\<rparr>)))))"

definition normalizeAndValidateRule :: "zone_db \<Rightarrow> Rule \<Rightarrow> recon_error + Rule" where
  "normalizeAndValidateRule zones rule0 =
     (let rule1 = normalize_rule rule0 in
      rbind (normalizeMappings (Rule_DimensionMappings rule1)) (\<lambda>maps.
      let rule = rule1\<lparr>Rule_DimensionMappings := maps\<rparr>; dims = Rule_MatchDimensions rule in
      check (Rule_Name rule = [] \<or> Rule_ConnectorID rule = [])
        (invalid ''invalid_reconciliation_rule'' ''name and connector_id are required'') (
      check (Rule_Status rule \<noteq> StatusActive \<and> Rule_Status rule \<noteq> StatusDisabled)
        (invalid ''invalid_reconciliation_status'' ''status must be active or disabled'') (
      check (Rule_Granularity rule \<notin> {GranularityDetail, GranularityHour, GranularityDay, GranularityMonth})
        (invalid ''invalid_reconciliation_granularity'' ''granularity must be detail, hour, day, or month'') (
      check (dims = [])
        (invalid ''invalid_reconciliation_dimensions'' ''At least one matching dimension is required'') (
      check (''currency'' \<notin> set dims)
        (invalid ''reconciliation_currency_required'' ''currency must be a matching dimension'') (
      check (Rule_Granularity rule = GranularityDetail \<and> ''request_id'' \<notin> set dims)
        (invalid ''reconciliation_request_id_required'' ''detail reconciliation requires the request_id dimension'') (
      check (Rule_Granularity rule \<noteq> GranularityDetail \<and> ''request_id'' \<in> set dims)
        (invalid ''invalid_reconciliation_dimensions'' ''request_id can only be used with detail reconciliation'')
      (validate_amounts zones rule)))))))))"

section \<open>Hashes, runs and scheduled periods\<close>

definition json_mappings :: "mappings \<Rightarrow> string" where
  "json_mappings m =
     json_object (map (\<lambda>k. json_field k (json_string_map (case map_of m k of None \<Rightarrow> [] | Some e \<Rightarrow> e)))
       (sort (remdups (map fst m))))"

definition ruleHash :: "(string \<Rightarrow> string) \<Rightarrow> Rule \<Rightarrow> string" where
  "ruleHash sha rule =
     ''sha256:'' @ sha (json_object
       [json_field ''connector_id'' (json_string (Rule_ConnectorID rule)),
        json_field ''connector_type'' (json_string (Rule_ConnectorType rule)),
        json_field ''provider_id'' (json_string (Rule_ProviderID rule)),
        json_field ''provider_resource_id'' (json_string (Rule_ProviderResourceID rule)),
        json_field ''granularity'' (json_string (Rule_Granularity rule)),
        json_field ''match_dimensions'' (json_strings (Rule_MatchDimensions rule)),
        json_field ''dimension_mappings'' (json_mappings (Rule_DimensionMappings rule)),
        json_field ''amount_tolerance'' (json_string (Rule_AmountTolerance rule)),
        json_field ''ratio_tolerance'' (json_string (Rule_RatioTolerance rule)),
        json_field ''usd_exchange_rate'' (json_string (Rule_USDExchangeRate rule)),
        json_field ''time_window_minutes'' (show_int (Rule_TimeWindowMinutes rule)),
        json_field ''billing_delay_minutes'' (show_int (Rule_BillingDelayMinutes rule)),
        json_field ''timezone'' (json_string (Rule_Timezone rule)),
        json_field ''currency'' (json_string (Rule_Currency rule))])"

definition runRuleHash :: "(string \<Rightarrow> string) \<Rightarrow> Run \<Rightarrow> string" where
  "runRuleHash sha run =
     ruleHash sha (zero_Rule\<lparr>
       Rule_ConnectorID := Run_ConnectorID run, Rule_ConnectorType := Run_ConnectorType run,
       Rule_ProviderID := Run_ProviderID run, Rule_ProviderResourceID := Run_ProviderResourceID run,
       Rule_Granularity := Run_Granularity run, Rule_MatchDimensions := Run_MatchDimensions run,
       Rule_DimensionMappings := Run_DimensionMappings run, Rule_AmountTolerance := Run_AmountTolerance run,
       Rule_RatioTolerance := Run_RatioTolerance run, Rule_USDExchangeRate := Run_USDExchangeRate run,
       Rule_TimeWindowMinutes := Run_TimeWindowMinutes run, Rule_BillingDelayMinutes := Run_BillingDelayMinutes run,
       Rule_Timezone := Run_Timezone run, Rule_Currency := Run_Currency run\<rparr>)"

text \<open>\<open>ident\<close> is the result of \<open>newID("recon")\<close>.\<close>

definition runFromRule :: "instant \<Rightarrow> string \<Rightarrow> Rule \<Rightarrow> RunInput \<Rightarrow> string \<Rightarrow> string \<Rightarrow> Run" where
  "runFromRule now ident rule request trigger actor = zero_Run\<lparr>
     Run_ID := ident, Run_RuleID := Rule_ID rule, Run_ConnectorID := Rule_ConnectorID rule,
     Run_ConnectorType := Rule_ConnectorType rule, Run_ProviderID := Rule_ProviderID rule,
     Run_ProviderResourceID := Rule_ProviderResourceID rule,
     Run_Trigger := firstNonEmpty [trigger, ''manual''], Run_Status := RunRunning,
     Run_PeriodStart := RunInput_PeriodStart request, Run_PeriodEnd := RunInput_PeriodEnd request,
     Run_Granularity := Rule_Granularity rule, Run_MatchDimensions := Rule_MatchDimensions rule,
     Run_DimensionMappings := Rule_DimensionMappings rule, Run_AmountTolerance := Rule_AmountTolerance rule,
     Run_RatioTolerance := Rule_RatioTolerance rule, Run_USDExchangeRate := Rule_USDExchangeRate rule,
     Run_TimeWindowMinutes := Rule_TimeWindowMinutes rule, Run_BillingDelayMinutes := Rule_BillingDelayMinutes rule,
     Run_Timezone := Rule_Timezone rule, Run_Currency := Rule_Currency rule, Run_RuleVersion := Rule_Version rule,
     Run_RuleHash := Rule_RuleHash rule, Run_ProviderAmount := ''0'', Run_TokenHubAmount := ''0'',
     Run_DifferenceAmount := ''0'', Run_CreatedBy := TrimSpace actor, Run_StartedAt := now\<rparr>"

definition scheduledPeriod :: "zone_db \<Rightarrow> Rule \<Rightarrow> instant \<Rightarrow> recon_error + (instant \<times> instant)" where
  "scheduledPeriod zones rule now =
     (case zones (Rule_Timezone rule) of
        None \<Rightarrow> Inl (OtherError (''unknown time zone '' @ Rule_Timezone rule))
      | Some loc \<Rightarrow>
          let cutoff = now + wrap64 (wrap64 (- Rule_BillingDelayMinutes rule) * Minute) in
          (case local_date loc cutoff of (y, m, d) \<Rightarrow>
             if Rule_Granularity rule = GranularityMonth then
               let to = DateIn loc y m 1 0 0 0 0 in Inr (AddDate loc to 0 (- 1) 0, to)
             else if Rule_Granularity rule = GranularityDay then
               let to = DateIn loc y m d 0 0 0 0 in Inr (AddDate loc to 0 0 (- 1), to)
             else if Rule_Granularity rule = GranularityHour then
               let to = DateIn loc y m d (local_hour loc cutoff) 0 0 0 in Inr (to - Hour, to)
             else
               let interval0 = minutes_duration (Rule_ScheduleIntervalMinutes rule);
                   interval = (if interval0 \<le> 0 then Hour else interval0)
               in Inr (cutoff + wrap64 (- interval), cutoff)))"

section \<open>Well-formed rules\<close>

definition mappings_wf :: "mappings \<Rightarrow> bool" where
  "mappings_wf maps \<longleftrightarrow>
     distinct (map fst maps) \<and>
     (\<forall>(d, es) \<in> set maps. d \<in> set mappable_dimensions \<and> es \<noteq> [] \<and> length es \<le> 1000 \<and> distinct (map fst es) \<and>
        (\<forall>(src, canonical) \<in> set es. src \<noteq> [] \<and> TrimSpace src = src \<and> canonical \<noteq> [] \<and> TrimSpace canonical = canonical))"

definition rule_wf :: "zone_db \<Rightarrow> Rule \<Rightarrow> bool" where
  "rule_wf zones r \<longleftrightarrow>
     Rule_Name r \<noteq> [] \<and> TrimSpace (Rule_Name r) = Rule_Name r \<and>
     Rule_ConnectorID r \<noteq> [] \<and> TrimSpace (Rule_ConnectorID r) = Rule_ConnectorID r \<and>
     Rule_Status r \<in> {StatusActive, StatusDisabled} \<and>
     Rule_Granularity r \<in> {GranularityDetail, GranularityHour, GranularityDay, GranularityMonth} \<and>
     (\<exists>S. Rule_MatchDimensions r = filter (\<lambda>d. d \<in> S) recon_dimensions) \<and>
     ''currency'' \<in> set (Rule_MatchDimensions r) \<and>
     (''request_id'' \<in> set (Rule_MatchDimensions r) \<longleftrightarrow> Rule_Granularity r = GranularityDetail) \<and>
     mappings_wf (Rule_DimensionMappings r) \<and>
     (\<exists>a. Rule_AmountTolerance r = money_String a \<and> money_ok a \<and> 0 \<le> a) \<and>
     (\<exists>q. Rule_RatioTolerance r = money_String q \<and> money_ok q \<and> 0 \<le> q \<and> q \<le> moneyScale) \<and>
     (\<exists>x. Rule_USDExchangeRate r = money_String x \<and> money_ok x \<and> 0 < x \<and> (Rule_Currency r = ''USD'' \<longrightarrow> x = moneyScale)) \<and>
     0 \<le> Rule_TimeWindowMinutes r \<and> Rule_TimeWindowMinutes r \<le> 24 * 60 \<and>
     0 \<le> Rule_BillingDelayMinutes r \<and> Rule_BillingDelayMinutes r \<le> 30 * 24 * 60 \<and>
     0 \<le> Rule_ScheduleIntervalMinutes r \<and> Rule_ScheduleIntervalMinutes r \<le> 30 * 24 * 60 \<and>
     zones (Rule_Timezone r) \<noteq> None \<and> Rule_Timezone r \<noteq> [] \<and> TrimSpace (Rule_Timezone r) = Rule_Timezone r \<and>
     isCurrency (Rule_Currency r)"

subsection \<open>Mappings\<close>

lemma update_fresh: "k \<notin> fst ` set al \<Longrightarrow> AList.update k v al = al @ [(k, v)]"
  by (induction al) auto

lemma length_update_le: "length (AList.update k v al) \<le> Suc (length al)"
  by (induction al) auto

lemma update_nonempty [simp]: "AList.update k v al \<noteq> []"
  by (cases al) auto

lemma set_update_subset: "set (AList.update k v al) \<subseteq> insert (k, v) (set al)"
  by (induction al) auto

definition entries_wf :: "(string \<times> string) list \<Rightarrow> bool" where
  "entries_wf es \<longleftrightarrow> distinct (map fst es) \<and>
     (\<forall>(src, canonical) \<in> set es. src \<noteq> [] \<and> TrimSpace src = src \<and> canonical \<noteq> [] \<and> TrimSpace canonical = canonical)"

lemma clean_entry_wf: "clean_entry e acc = Inr acc' \<Longrightarrow> entries_wf acc \<Longrightarrow> entries_wf acc'"
  using set_update_subset [of "TrimSpace (fst e)" "TrimSpace (snd e)" acc]
  by (auto simp: clean_entry_def entries_wf_def Let_def distinct_update split: if_splits)

lemma clean_entries_wf: "foldr_res clean_entry es acc = Inr acc' \<Longrightarrow> entries_wf acc \<Longrightarrow> entries_wf acc'"
  by (erule foldr_res_invariant) (auto intro: clean_entry_wf)

lemma clean_entries_length: "foldr_res clean_entry es acc = Inr acc' \<Longrightarrow> length acc' \<le> length es + length acc"
proof (induction es arbitrary: acc)
  case Nil
  then show ?case by simp
next
  case (Cons e es)
  then obtain a1 where a1: "clean_entry e acc = Inr a1" "foldr_res clean_entry es a1 = Inr acc'"
    by (auto simp: rbind_eq_Inr_iff)
  then have "length a1 \<le> Suc (length acc)"
    using length_update_le by (auto simp: clean_entry_def Let_def split: if_splits)
  with Cons.IH [OF a1(2)] show ?case by simp
qed

lemma clean_entries_id:
  "entries_wf (acc @ es) \<Longrightarrow> foldr_res clean_entry es acc = Inr (acc @ es)"
proof (induction es arbitrary: acc)
  case Nil
  then show ?case by simp
next
  case (Cons e es)
  obtain src canonical where e: "e = (src, canonical)" by fastforce
  have "clean_entry e acc = Inr (acc @ [e])"
    using Cons.prems by (auto simp: clean_entry_def e entries_wf_def Let_def update_fresh)
  with Cons.IH [of "acc @ [e]"] Cons.prems show ?case by simp
qed

lemma mappings_wf_iff:
  "mappings_wf maps \<longleftrightarrow> distinct (map fst maps) \<and>
     (\<forall>(d, es) \<in> set maps. d \<in> set mappable_dimensions \<and> es \<noteq> [] \<and> length es \<le> 1000 \<and> entries_wf es)"
  by (auto simp: mappings_wf_def entries_wf_def)

lemma normalize_mapping_wf:
  assumes "normalize_mapping raw acc = Inr acc'" and "mappings_wf acc"
  shows "mappings_wf acc'"
proof -
  from assms(1) obtain cleaned where dim: "ToLower (TrimSpace (fst raw)) \<in> set mappable_dimensions"
    and len: "length (snd raw) \<le> 1000" and c: "foldr_res clean_entry (snd raw) [] = Inr cleaned"
    and acc': "acc' = (if cleaned \<noteq> [] then AList.update (ToLower (TrimSpace (fst raw))) cleaned acc else acc)"
    by (auto simp: normalize_mapping_def Let_def rbind_eq_Inr_iff split: if_splits)
  have "entries_wf cleaned" by (rule clean_entries_wf [OF c]) (simp add: entries_wf_def)
  moreover have "length cleaned \<le> 1000" using clean_entries_length [OF c] len by simp
  ultimately show ?thesis
    using assms(2) dim acc' set_update_subset [of "ToLower (TrimSpace (fst raw))" cleaned acc]
    by (auto simp: mappings_wf_iff distinct_update split: if_splits)
qed

lemma mappings_wf_Nil [simp]: "mappings_wf []"
  by (simp add: mappings_wf_def)

lemma normalizeMappings_wf: "normalizeMappings m = Inr m' \<Longrightarrow> mappings_wf m'"
  unfolding normalizeMappings_def
  by (erule foldr_res_invariant) (auto intro: normalize_mapping_wf)

lemma mappable_normal: "d \<in> set mappable_dimensions \<Longrightarrow> ToLower (TrimSpace d) = d"
proof -
  assume d: "d \<in> set mappable_dimensions"
  then have "list_all is_graph d" "ToLower d = d"
    by (auto simp: mappable_dimensions_def is_graph_def code_of_def ToLower_def lower_char_def)
  then show ?thesis by (simp add: TrimSpace_graph_all)
qed

lemma normalizeMappings_id: "mappings_wf maps \<Longrightarrow> normalizeMappings maps = Inr maps"
proof -
  have "foldr_res normalize_mapping ms acc = Inr (acc @ ms)" if "mappings_wf (acc @ ms)" for acc ms
    using that
  proof (induction ms arbitrary: acc)
    case Nil
    then show ?case by simp
  next
    case (Cons m ms)
    obtain d es where m: "m = (d, es)" by fastforce
    have wf: "d \<in> set mappable_dimensions" "es \<noteq> []" "length es \<le> 1000" "entries_wf es" "d \<notin> fst ` set acc"
      using Cons.prems by (auto simp: mappings_wf_iff m)
    have "normalize_mapping m acc = Inr (acc @ [m])"
      using wf clean_entries_id [of "[]" es] by (simp add: normalize_mapping_def m mappable_normal Let_def update_fresh)
    with Cons.IH [of "acc @ [m]"] Cons.prems show ?case by simp
  qed
  from this [of "[]" maps] show "mappings_wf maps \<Longrightarrow> normalizeMappings maps = Inr maps"
    by (simp add: normalizeMappings_def)
qed

subsection \<open>Amounts, dimensions and constants\<close>

lemma money_String_graph:
  assumes "money_ok m"
  shows "TrimSpace (money_String m) = money_String m" and "money_String m \<noteq> []"
proof -
  have "\<bar>m\<bar> \<le> max_int64" using assms by (auto simp: money_ok_bounds)
  then obtain ip fp where f: "formatScaledMoney m moneyScale 9 = dec_string (m < 0) ip fp"
    and ds: "list_all is_digit_char ip" "ip \<noteq> []" "list_all is_digit_char fp"
    by (rule formatScaledMoney_dec [of m moneyScale 9]) (simp_all add: moneyScale_def)
  show "TrimSpace (money_String m) = money_String m"
    unfolding money_String_def f by (rule TrimSpace_graph_all [OF dec_string_graph [OF ds(1,3)]])
  show "money_String m \<noteq> []" using ds(2) by (simp add: money_String_def f dec_string_def)
qed

lemma parsed_unless_Some:
  "parsed_unless bad s = Some m \<longleftrightarrow> parseMoney s = Inr m \<and> \<not> bad m"
  by (auto simp: parsed_unless_def split: sum.splits)

lemma dimension_normal: "d \<in> set recon_dimensions \<Longrightarrow> ToLower (TrimSpace d) = d"
proof -
  assume "d \<in> set recon_dimensions"
  then have "list_all is_graph d" "ToLower d = d"
    by (auto simp: recon_dimensions_def is_graph_def code_of_def ToLower_def lower_char_def)
  then show ?thesis by (simp add: TrimSpace_graph_all)
qed

lemma normalizeDimensions_form: "\<exists>S. normalizeDimensions ds = filter (\<lambda>d. d \<in> S) recon_dimensions"
  unfolding normalizeDimensions_def Let_def by blast

lemma normalizeDimensions_id:
  assumes "ds = filter (\<lambda>d. d \<in> S) recon_dimensions"
  shows "normalizeDimensions ds = ds"
proof -
  have "set ds \<subseteq> set recon_dimensions" using assms by auto
  then have "map (\<lambda>v. ToLower (TrimSpace v)) ds = ds" by (intro map_idI) (auto intro: dimension_normal)
  then have "normalizeDimensions ds = filter (\<lambda>v. v \<in> set ds) recon_dimensions"
    by (auto simp: normalizeDimensions_def Let_def intro: filter_cong)
  also have "\<dots> = ds" unfolding assms by (rule filter_cong) auto
  finally show ?thesis .
qed

lemma currency_normal:
  assumes "isCurrency c"
  shows "TrimSpace c = c" and "ToUpper c = c" and "c \<noteq> []"
proof -
  have up: "list_all (\<lambda>x. 65 \<le> code_of x \<and> code_of x \<le> 90) c" and len: "length c = 3"
    using assms by (auto simp: isCurrency_def)
  have "list_all is_graph c" using up by (auto simp: list_all_iff is_graph_def)
  then show "TrimSpace c = c" by (rule TrimSpace_graph_all)
  show "ToUpper c = c" unfolding ToUpper_def
    using up by (intro map_idI) (auto simp: list_all_iff upper_char_def)
  show "c \<noteq> []" using len by auto
qed

lemma constants_normal:
  "ToLower (TrimSpace StatusActive) = StatusActive" "ToLower (TrimSpace StatusDisabled) = StatusDisabled"
  "ToLower (TrimSpace GranularityDetail) = GranularityDetail" "ToLower (TrimSpace GranularityHour) = GranularityHour"
  "ToLower (TrimSpace GranularityDay) = GranularityDay" "ToLower (TrimSpace GranularityMonth) = GranularityMonth"
proof -
  have graph: "list_all is_graph s" "ToLower s = s"
    if "s \<in> {StatusActive, StatusDisabled, GranularityDetail, GranularityHour, GranularityDay, GranularityMonth}" for s
    using that by (auto simp: StatusActive_def StatusDisabled_def granularity_defs is_graph_def code_of_def
        ToLower_def lower_char_def)
  show "ToLower (TrimSpace StatusActive) = StatusActive" "ToLower (TrimSpace StatusDisabled) = StatusDisabled"
    "ToLower (TrimSpace GranularityDetail) = GranularityDetail" "ToLower (TrimSpace GranularityHour) = GranularityHour"
    "ToLower (TrimSpace GranularityDay) = GranularityDay" "ToLower (TrimSpace GranularityMonth) = GranularityMonth"
    using graph by (simp_all add: TrimSpace_graph_all)
qed

lemma constants_nonempty [simp]:
  "StatusActive \<noteq> []" "StatusDisabled \<noteq> []" "GranularityDetail \<noteq> []" "GranularityHour \<noteq> []"
  "GranularityDay \<noteq> []" "GranularityMonth \<noteq> []"
  by (simp_all add: StatusActive_def StatusDisabled_def granularity_defs)

lemma trim_UTC: "TrimSpace ''UTC'' = ''UTC''"
  by (rule TrimSpace_graph_all) (simp add: is_graph_def code_of_def)

subsection \<open>Validation\<close>

lemma check_Inr [simp]: "check bad err rest = Inr x \<longleftrightarrow> \<not> bad \<and> rest = Inr x"
  by (simp add: check_def)

lemma validate_windows_Inr:
  "validate_windows zones r = Inr r' \<longleftrightarrow> r' = r \<and>
     0 \<le> Rule_TimeWindowMinutes r \<and> Rule_TimeWindowMinutes r \<le> 24 * 60 \<and>
     0 \<le> Rule_BillingDelayMinutes r \<and> Rule_BillingDelayMinutes r \<le> 30 * 24 * 60 \<and>
     0 \<le> Rule_ScheduleIntervalMinutes r \<and> Rule_ScheduleIntervalMinutes r \<le> 30 * 24 * 60 \<and>
     zones (Rule_Timezone r) \<noteq> None \<and> isCurrency (Rule_Currency r)"
  by (auto simp: validate_windows_def)

lemma validate_amounts_Inr:
  "validate_amounts zones r = Inr r' \<longleftrightarrow>
     (\<exists>a q x. parseMoney (Rule_AmountTolerance r) = Inr a \<and> 0 \<le> a \<and>
        parseMoney (Rule_RatioTolerance r) = Inr q \<and> 0 \<le> q \<and> q \<le> moneyScale \<and>
        parseMoney (Rule_USDExchangeRate r) = Inr x \<and> 0 < x \<and> (Rule_Currency r = ''USD'' \<longrightarrow> x = moneyScale) \<and>
        validate_windows zones (r\<lparr>Rule_AmountTolerance := money_String a, Rule_RatioTolerance := money_String q,
          Rule_USDExchangeRate := money_String x\<rparr>) = Inr r')"
  by (auto simp: validate_amounts_def parsed_unless_Some not_less not_le split: option.splits)
     (auto simp: parsed_unless_def not_less not_le split: sum.splits if_splits)

lemma normalizeAndValidateRule_wf:
  assumes "normalizeAndValidateRule zones rule0 = Inr r"
  shows "rule_wf zones r"
proof -
  let ?n = "normalize_rule rule0"
  from assms obtain maps where maps: "normalizeMappings (Rule_DimensionMappings ?n) = Inr maps"
    and req: "Rule_Name ?n \<noteq> []" "Rule_ConnectorID ?n \<noteq> []"
    and st: "Rule_Status ?n \<in> {StatusActive, StatusDisabled}"
    and gr: "Rule_Granularity ?n \<in> {GranularityDetail, GranularityHour, GranularityDay, GranularityMonth}"
    and dims: "''currency'' \<in> set (Rule_MatchDimensions ?n)"
      "''request_id'' \<in> set (Rule_MatchDimensions ?n) \<longleftrightarrow> Rule_Granularity ?n = GranularityDetail"
    and amounts: "validate_amounts zones (?n\<lparr>Rule_DimensionMappings := maps\<rparr>) = Inr r"
    by (auto simp: normalizeAndValidateRule_def Let_def rbind_eq_Inr_iff)
  from amounts obtain a q x where am: "parseMoney (Rule_AmountTolerance ?n) = Inr a" "0 \<le> a"
      "parseMoney (Rule_RatioTolerance ?n) = Inr q" "0 \<le> q" "q \<le> moneyScale"
      "parseMoney (Rule_USDExchangeRate ?n) = Inr x" "0 < x" "Rule_Currency ?n = ''USD'' \<longrightarrow> x = moneyScale"
    and win: "validate_windows zones (?n\<lparr>Rule_DimensionMappings := maps, Rule_AmountTolerance := money_String a,
        Rule_RatioTolerance := money_String q, Rule_USDExchangeRate := money_String x\<rparr>) = Inr r"
    by (auto simp: validate_amounts_Inr)
  note w = win [unfolded validate_windows_Inr, simplified]
  have r: "r = ?n\<lparr>Rule_DimensionMappings := maps, Rule_AmountTolerance := money_String a,
        Rule_RatioTolerance := money_String q, Rule_USDExchangeRate := money_String x\<rparr>" using w by simp
  have trim: "TrimSpace (Rule_Name ?n) = Rule_Name ?n" "TrimSpace (Rule_ConnectorID ?n) = Rule_ConnectorID ?n"
      "TrimSpace (Rule_Timezone ?n) = Rule_Timezone ?n" "Rule_Timezone ?n \<noteq> []"
    by (auto simp: normalize_rule_def Let_def default_to_def trim_UTC)
  have form: "\<exists>S. Rule_MatchDimensions ?n = filter (\<lambda>d. d \<in> S) recon_dimensions"
    using normalizeDimensions_form by (simp add: normalize_rule_def Let_def)
  have ok: "money_ok a" "money_ok q" "money_ok x" using am parseMoney_ok by blast+
  have ex: "\<exists>b. money_String a = money_String b \<and> money_ok b \<and> 0 \<le> b"
      "\<exists>b. money_String q = money_String b \<and> money_ok b \<and> 0 \<le> b \<and> b \<le> moneyScale"
      "\<exists>b. money_String x = money_String b \<and> money_ok b \<and> 0 < b \<and> (Rule_Currency ?n = ''USD'' \<longrightarrow> b = moneyScale)"
    using am ok by blast+
  show ?thesis unfolding rule_wf_def r Rule.simps
    by (intro conjI) (use req trim st gr form dims normalizeMappings_wf [OF maps] ex w in \<open>assumption | simp\<close>)+
qed

lemma rule_wf_fixed:
  assumes wf: "rule_wf zones r"
  shows "normalizeAndValidateRule zones r = Inr r"
proof -
  from wf obtain S a q x where S: "Rule_MatchDimensions r = filter (\<lambda>d. d \<in> S) recon_dimensions"
    and a: "Rule_AmountTolerance r = money_String a" "money_ok a" "0 \<le> a"
    and q: "Rule_RatioTolerance r = money_String q" "money_ok q" "0 \<le> q" "q \<le> moneyScale"
    and x: "Rule_USDExchangeRate r = money_String x" "money_ok x" "0 < x" "Rule_Currency r = ''USD'' \<longrightarrow> x = moneyScale"
    by (auto simp: rule_wf_def)
  have cur: "isCurrency (Rule_Currency r)" and dims: "Rule_MatchDimensions r \<noteq> []" using wf by (auto simp: rule_wf_def)
  have mem: "Rule_Status r \<in> {StatusActive, StatusDisabled}"
      "Rule_Granularity r \<in> {GranularityDetail, GranularityHour, GranularityDay, GranularityMonth}"
    using wf by (simp_all add: rule_wf_def)
  have st: "default_to StatusActive (ToLower (TrimSpace (Rule_Status r))) = Rule_Status r"
    using mem(1) by (elim insertE emptyE) (simp_all add: default_to_def constants_normal)
  have gr: "default_to GranularityDetail (ToLower (TrimSpace (Rule_Granularity r))) = Rule_Granularity r"
    using mem(2) by (elim insertE emptyE) (simp_all add: default_to_def constants_normal)
  have id: "normalize_rule r = r"
    using wf dims normalizeDimensions_id [OF S] currency_normal [OF cur] money_String_graph [OF a(2)]
      money_String_graph [OF q(2)] money_String_graph [OF x(2)]
    unfolding normalize_rule_def Let_def st gr by (simp add: a(1) q(1) x(1) default_to_def rule_wf_def)
  have "validate_amounts zones r = Inr r"
    unfolding validate_amounts_Inr using wf a q x
    by (intro exI [of _ a] exI [of _ q] exI [of _ x])
      (simp add: parseMoney_money_String validate_windows_Inr rule_wf_def)
  moreover have "normalizeMappings (Rule_DimensionMappings r) = Inr (Rule_DimensionMappings r)"
    by (rule normalizeMappings_id) (use wf in \<open>simp add: rule_wf_def\<close>)
  ultimately show ?thesis
    unfolding normalizeAndValidateRule_def Let_def id using wf dims by (auto simp: check_def rule_wf_def)
qed

section \<open>Properties\<close>

definition sample_rule :: Rule where
  "sample_rule = zero_Rule\<lparr>Rule_ID := ''recrule_1'', Rule_Name := ''finance'', Rule_ConnectorID := ''conn_1'',
     Rule_ConnectorType := ''openai'', Rule_ProviderID := ''p1'',
     Rule_Status := StatusActive, Rule_Granularity := GranularityDay,
     Rule_MatchDimensions := [''model'', ''currency''], Rule_AmountTolerance := money_String 0,
     Rule_RatioTolerance := money_String 0, Rule_USDExchangeRate := money_String moneyScale,
     Rule_Timezone := ''UTC'', Rule_Currency := ''USD''\<rparr>"

lemma sample_rule_wf: "rule_wf (\<lambda>_. Some UTC) sample_rule"
proof -
  have trim: "TrimSpace ''finance'' = ''finance''" "TrimSpace ''conn_1'' = ''conn_1''"
    by (rule TrimSpace_graph_all; simp add: is_graph_def code_of_def)+
  have dims: "[''model'', ''currency''] = filter (\<lambda>d. d \<in> {''model'', ''currency''}) recon_dimensions"
    by (simp add: recon_dimensions_def)
  have cur: "isCurrency ''USD''" by (simp add: isCurrency_def code_of_def)
  have ok: "money_ok 0" "money_ok moneyScale" "0 < moneyScale" by (simp_all add: moneyScale_def money_ok_def int64_bounds)
  have ex: "\<exists>a. money_String 0 = money_String a \<and> money_ok a \<and> 0 \<le> a"
      "\<exists>q. money_String 0 = money_String q \<and> money_ok q \<and> 0 \<le> q \<and> q \<le> moneyScale"
      "\<exists>x. money_String moneyScale = money_String x \<and> money_ok x \<and> 0 < x \<and> x = moneyScale"
      "\<exists>S. [''model'', ''currency''] = filter (\<lambda>d. d \<in> S) recon_dimensions"
    using ok dims by (blast, force, blast, blast)
  show ?thesis unfolding rule_wf_def sample_rule_def zero_Rule_def
    using ex by (simp add: trim trim_UTC cur granularity_defs mappings_wf_def)
qed

text \<open>(C37) Validation establishes the well-formedness of a rule (status, granularity, matching
  dimensions, mappings, tolerances, exchange rate, windows, time zone and currency), and the
  well-formed rules are exactly its fixed points: validating a stored rule again changes nothing.\<close>

theorem normalizeAndValidateRule_normal_form:
  "(normalizeAndValidateRule zones rule0 = Inr r \<longrightarrow> rule_wf zones r) \<and>
   (normalizeAndValidateRule zones r = Inr r \<longleftrightarrow> rule_wf zones r)"
  using normalizeAndValidateRule_wf rule_wf_fixed by blast

theorem normalizeAndValidateRule_normal_form_witness:
  "normalizeAndValidateRule (\<lambda>_. Some UTC) sample_rule = Inr sample_rule"
  using normalizeAndValidateRule_normal_form [of "\<lambda>_. Some UTC" sample_rule sample_rule] sample_rule_wf by blast

text \<open>A run carries every field that the rule hash covers: the hash recomputed from a run is
  the hash of the rule it was created from.\<close>

theorem runRuleHash_runFromRule:
  "runRuleHash sha (runFromRule now ident rule request trigger actor) = ruleHash sha rule"
  by (simp add: runRuleHash_def runFromRule_def ruleHash_def)

text \<open>Two spellings of one dimension are both accepted, and which of their mappings survives
  depends on the order in which the map is traversed, which Go leaves unspecified.\<close>

theorem normalizeMappings_order_dependent:
  "normalizeMappings [(''model'', [(''a'', ''x'')]), (''Model'', [(''a'', ''y'')])] = Inr [(''model'', [(''a'', ''y'')])] \<and>
   normalizeMappings [(''Model'', [(''a'', ''y'')]), (''model'', [(''a'', ''x'')])] = Inr [(''model'', [(''a'', ''x'')])]"
proof -
  have trim: "TrimSpace ''model'' = ''model''" "TrimSpace ''Model'' = ''Model''" "TrimSpace ''a'' = ''a''"
      "TrimSpace ''x'' = ''x''" "TrimSpace ''y'' = ''y''"
    by (rule TrimSpace_graph_all; simp add: is_graph_def code_of_def)+
  have "ToLower ''Model'' = ''model''" "ToLower ''model'' = ''model''"
    by code_simp+
  with trim show ?thesis
    by (simp add: normalizeMappings_def normalize_mapping_def clean_entry_def Let_def mappable_dimensions_def)
qed

end
