(* ===== verification/ReconStore.thy ===== *)
theory ReconStore
  imports ReconEngine
begin

text \<open>
  The persistence adapter of the reconciliation package
  (\<open>backend/internal/reconciliation/persistence/store.go\<close>) over tables of rows. Rows have the
  fields of the domain records (\<open>types.go\<close> converts between identical structs). The database
  library is outside the repository; what the adapter relies on is written out: a query reads
  the table, \<open>Create\<close> refuses an existing primary key, \<open>Save\<close> inserts or overwrites a row by
  primary key, a failed transaction leaves the tables unchanged. \<open>fault op\<close> is the error, if
  any, that the database returns for the named operation. The lists drop the error of their query and
  answer as if the table were empty.

  The locale \<open>run_store\<close> states what the service relies on; its client lemma is that no operation
  changes a locked run or its items. It is interpreted on the adapter.
\<close>

section \<open>Tables\<close>

type_synonym RuleRow = Rule
type_synonym RunRow = Run
type_synonym ItemRow = Item

record recon_db =
  db_rules :: "RuleRow list"
  db_runs :: "RunRow list"
  db_items :: "ItemRow list"
  db_usages :: "Usage list"

type_synonym faults = "string \<Rightarrow> recon_error option"

definition ErrRecordNotFound :: recon_error where "ErrRecordNotFound = OtherError ''record not found''"
definition ErrDuplicatedKey :: recon_error where "ErrDuplicatedKey = OtherError ''duplicated key not allowed''"

definition notFoundError :: "string \<Rightarrow> string \<Rightarrow> recon_error \<Rightarrow> recon_error" where
  "notFoundError code message cause =
     (if cause \<noteq> ErrRecordNotFound then cause else NewError ErrorNotFound code message)"

definition conflictError :: "string \<Rightarrow> string \<Rightarrow> recon_error \<Rightarrow> recon_error" where
  "conflictError code message cause =
     (if cause \<noteq> ErrDuplicatedKey then cause else NewError ErrorConflict code message)"

text \<open>\<open>First\<close>, \<open>Create\<close> and \<open>Save\<close> on a table with primary key \<open>key\<close>.\<close>

definition db_first :: "recon_error option \<Rightarrow> ('a \<Rightarrow> string) \<Rightarrow> 'a list \<Rightarrow> string \<Rightarrow> recon_error + 'a" where
  "db_first flt key rows ident =
     (case flt of
        Some e \<Rightarrow> Inl e
      | None \<Rightarrow> (case find (\<lambda>r. key r = ident) rows of None \<Rightarrow> Inl ErrRecordNotFound | Some r \<Rightarrow> Inr r))"

definition db_create :: "recon_error option \<Rightarrow> ('a \<Rightarrow> string) \<Rightarrow> 'a list \<Rightarrow> 'a list \<Rightarrow> recon_error + 'a list" where
  "db_create flt key rows fresh =
     (case flt of
        Some e \<Rightarrow> Inl e
      | None \<Rightarrow>
          if distinct (map key fresh) \<and> list_all (\<lambda>r. key r \<notin> key ` set rows) fresh
          then Inr (rows @ fresh) else Inl ErrDuplicatedKey)"

definition db_upsert :: "('a \<Rightarrow> string) \<Rightarrow> 'a list \<Rightarrow> 'a \<Rightarrow> 'a list" where
  "db_upsert key rows r =
     (if key r \<in> key ` set rows then map (\<lambda>x. if key x = key r then r else x) rows else rows @ [r])"

definition db_save :: "recon_error option \<Rightarrow> ('a \<Rightarrow> string) \<Rightarrow> 'a list \<Rightarrow> 'a \<Rightarrow> recon_error + 'a list" where
  "db_save flt key rows r = (case flt of Some e \<Rightarrow> Inl e | None \<Rightarrow> Inr (db_upsert key rows r))"

text \<open>\<open>Find\<close> with its error dropped.\<close>

definition db_find :: "recon_error option \<Rightarrow> 'a list \<Rightarrow> 'a list" where
  "db_find flt rows = (case flt of Some _ \<Rightarrow> [] | None \<Rightarrow> rows)"

section \<open>Rules\<close>

text \<open>\<open>rand\<close> is the random identifier drawn by \<open>randomID\<close>.\<close>

definition store_CreateRule ::
  "faults \<Rightarrow> instant \<Rightarrow> string \<Rightarrow> Rule \<Rightarrow> recon_db \<Rightarrow> recon_error + (Rule \<times> recon_db)" where
  "store_CreateRule fault now rand v0 db =
     (let v1 = (if Rule_ID v0 = [] then v0\<lparr>Rule_ID := ''recrule_'' @ rand\<rparr> else v0);
          v2 = (if Rule_Version v1 \<le> 0 then v1\<lparr>Rule_Version := 1\<rparr> else v1);
          v3 = (if Rule_CreatedAt v2 = zero_time then v2\<lparr>Rule_CreatedAt := now\<rparr> else v2);
          row = ApplyRuleSchedule (v3\<lparr>Rule_UpdatedAt := now\<rparr>) None now
      in case db_create (fault ''CreateRule'') Rule_ID (db_rules db) [row] of
           Inl e \<Rightarrow> Inl (conflictError ''reconciliation_rule_conflict'' ''Reconciliation rule already exists'' e)
         | Inr rows \<Rightarrow> Inr (row, db\<lparr>db_rules := rows\<rparr>))"

definition store_ListRules :: "faults \<Rightarrow> recon_db \<Rightarrow> Rule list" where
  "store_ListRules fault db = db_find (fault ''ListRules'') (sort_key Rule_CreatedAt (db_rules db))"

definition store_GetRule :: "faults \<Rightarrow> recon_db \<Rightarrow> string \<Rightarrow> recon_error + Rule" where
  "store_GetRule fault db ident =
     (case db_first (fault ''GetRule'') Rule_ID (db_rules db) (TrimSpace ident) of
        Inl e \<Rightarrow> Inl (notFoundError ''reconciliation_rule_not_found'' ''Reconciliation rule not found'' e)
      | Inr r \<Rightarrow> Inr r)"

definition store_UpdateRule ::
  "faults \<Rightarrow> instant \<Rightarrow> Rule \<Rightarrow> recon_db \<Rightarrow> recon_error + (Rule \<times> recon_db)" where
  "store_UpdateRule fault now v0 db =
     (case db_first (fault ''UpdateRule.First'') Rule_ID (db_rules db) (TrimSpace (Rule_ID v0)) of
        Inl e \<Rightarrow> Inl (notFoundError ''reconciliation_rule_not_found'' ''Reconciliation rule not found'' e)
      | Inr existing \<Rightarrow>
          let v1 = v0\<lparr>Rule_CreatedAt := Rule_CreatedAt existing, Rule_LastRunAt := Rule_LastRunAt existing,
                      Rule_UpdatedAt := now\<rparr>;
              v2 = ApplyRuleSchedule v1 (Some existing) now
          in rbind (db_save (fault ''UpdateRule.Save'') Rule_ID (db_rules db) v2) (\<lambda>rows.
             Inr (v2, db\<lparr>db_rules := rows\<rparr>)))"

text \<open>SQL's \<open>TRIM\<close> removes spaces only.\<close>

definition sql_blank :: "string \<Rightarrow> bool" where
  "sql_blank s \<longleftrightarrow> list_all (\<lambda>c. c = CHR '' '') s"

text \<open>The update and the read are separate statements: what was written stays when the read fails.\<close>

definition store_BackfillRuleConnectorSnapshot ::
  "faults \<Rightarrow> instant \<Rightarrow> Rule \<Rightarrow> recon_db \<Rightarrow> (recon_error + Rule) \<times> recon_db" where
  "store_BackfillRuleConnectorSnapshot fault now v db =
     (case fault ''BackfillRuleConnectorSnapshot'' of
        Some e \<Rightarrow> (Inl e, db)
      | None \<Rightarrow>
          let rows = map (\<lambda>r. if Rule_ID r = TrimSpace (Rule_ID v) \<and>
                               (sql_blank (Rule_ConnectorType r) \<or> sql_blank (Rule_ProviderID r))
                             then r\<lparr>Rule_ConnectorType := Rule_ConnectorType v, Rule_ProviderID := Rule_ProviderID v,
                                    Rule_ProviderResourceID := Rule_ProviderResourceID v, Rule_Version := Rule_Version v,
                                    Rule_RuleHash := Rule_RuleHash v, Rule_UpdatedAt := now\<rparr>
                             else r) (db_rules db);
              db1 = db\<lparr>db_rules := rows\<rparr>
          in (store_GetRule fault db1 (Rule_ID v), db1))"

definition store_ListDueRules :: "faults \<Rightarrow> recon_db \<Rightarrow> instant \<Rightarrow> int64 \<Rightarrow> Rule list" where
  "store_ListDueRules fault db now limit0 =
     (let limit = (if limit0 \<le> 0 \<or> limit0 > 100 then 25 else limit0)
      in db_find (fault ''ListDueRules'') (take (nat limit) (sort_key (\<lambda>r. the (Rule_NextRunAt r))
           (filter (\<lambda>r. Rule_Status r = StatusActive \<and> Rule_ScheduleIntervalMinutes r > 0 \<and>
                        (case Rule_NextRunAt r of None \<Rightarrow> False | Some t \<Rightarrow> t \<le> now)) (db_rules db)))))"

section \<open>Usages\<close>

text \<open>The rows carry the cost evidence that \<open>applyZeroCostEvidence\<close> adds.\<close>

definition store_ListUsages :: "faults \<Rightarrow> recon_db \<Rightarrow> instant \<Rightarrow> instant \<Rightarrow> duration \<Rightarrow> recon_error + Usage list" where
  "store_ListUsages fault db from0 to0 window =
     (let from1 = (if window > 0 then from0 + wrap64 (- window) else from0);
          to1 = (if window > 0 then to0 + window else to0)
      in case fault ''ListUsages'' of
           Some e \<Rightarrow> Inl e
         | None \<Rightarrow> Inr (sort_key (\<lambda>u. (Usage_CreatedAt u, Usage_ID u))
             (filter (\<lambda>u. from1 \<le> Usage_CreatedAt u \<and> Usage_CreatedAt u < to1) (db_usages db))))"

section \<open>Runs and items\<close>

definition updateRuleAfterRun :: "faults \<Rightarrow> Run \<Rightarrow> Rule list \<Rightarrow> recon_error + Rule list" where
  "updateRuleAfterRun fault run rules =
     (case db_first (fault ''SaveRun.Rule'') Rule_ID rules (Run_RuleID run) of
        Inl e \<Rightarrow> if e = ErrRecordNotFound then Inr rules else Inl e
      | Inr row \<Rightarrow>
          let rule = ApplyRunCompletion row run
          in (case fault ''SaveRun.RuleUpdate'' of
                Some e \<Rightarrow> Inl e
              | None \<Rightarrow> Inr (map (\<lambda>r. if Rule_ID r = Rule_ID rule
                          then r\<lparr>Rule_LastRunAt := Rule_LastRunAt rule, Rule_NextRunAt := Rule_NextRunAt rule\<rparr>
                          else r) rules)))"

definition store_SaveRun :: "faults \<Rightarrow> Run \<Rightarrow> Item list \<Rightarrow> recon_db \<Rightarrow> recon_error + recon_db" where
  "store_SaveRun fault v items db =
     rbind (db_create (fault ''SaveRun.Run'') Run_ID (db_runs db) [v]) (\<lambda>runs.
     rbind (if items = [] then Inr (db_items db)
            else db_create (fault ''SaveRun.Items'') Item_ID (db_items db) items) (\<lambda>its.
     rbind (updateRuleAfterRun fault v (db_rules db)) (\<lambda>rules.
     Inr (db\<lparr>db_runs := runs, db_items := its, db_rules := rules\<rparr>))))"

definition store_ReplaceRun :: "faults \<Rightarrow> Run \<Rightarrow> Item list \<Rightarrow> recon_db \<Rightarrow> recon_error + (Run \<times> recon_db)" where
  "store_ReplaceRun fault v items db =
     (case db_first (fault ''ReplaceRun.First'') Run_ID (db_runs db) (Run_ID v) of
        Inl e \<Rightarrow> Inl (notFoundError ''reconciliation_run_not_found'' ''Reconciliation run not found'' e)
      | Inr existing \<Rightarrow>
          rbind (ValidateRunReplacement existing) (\<lambda>_.
            let v1 = v\<lparr>Run_LockedAt := None, Run_LockedBy := []\<rparr> in
            rbind (db_save (fault ''ReplaceRun.Save'') Run_ID (db_runs db) v1) (\<lambda>runs.
            case fault ''ReplaceRun.Delete'' of
              Some e \<Rightarrow> Inl e
            | None \<Rightarrow>
                let kept = filter (\<lambda>i. Item_RunID i \<noteq> Run_ID v) (db_items db) in
                rbind (if items = [] then Inr kept
                       else db_create (fault ''ReplaceRun.Items'') Item_ID kept items) (\<lambda>its.
                Inr (v1, db\<lparr>db_runs := runs, db_items := its\<rparr>)))))"

definition store_ListRuns :: "faults \<Rightarrow> recon_db \<Rightarrow> string \<Rightarrow> int64 \<Rightarrow> Run list" where
  "store_ListRuns fault db ruleID0 limit0 =
     (let limit = (if limit0 \<le> 0 \<or> limit0 > 500 then 100 else limit0);
          ruleID = TrimSpace ruleID0
      in db_find (fault ''ListRuns'') (take (nat limit) (sort_key (\<lambda>r. - Run_StartedAt r)
           (filter (\<lambda>r. ruleID \<noteq> [] \<longrightarrow> Run_RuleID r = ruleID) (db_runs db)))))"

definition store_GetRun :: "faults \<Rightarrow> recon_db \<Rightarrow> string \<Rightarrow> recon_error + Run" where
  "store_GetRun fault db ident =
     (case db_first (fault ''GetRun'') Run_ID (db_runs db) (TrimSpace ident) of
        Inl e \<Rightarrow> Inl (notFoundError ''reconciliation_run_not_found'' ''Reconciliation run not found'' e)
      | Inr r \<Rightarrow> Inr r)"

definition maskItem :: "Item \<Rightarrow> Item" where
  "maskItem i = i\<lparr>Item_ResourceAccountMasked := maskIdentifier (Item_ResourceAccount i)\<rparr>"

definition store_ListItems ::
  "faults \<Rightarrow> recon_db \<Rightarrow> string \<Rightarrow> string \<Rightarrow> int64 \<Rightarrow> int64 \<Rightarrow> Item list \<times> int64" where
  "store_ListItems fault db runID status0 limit0 offset0 =
     (let limit = (if limit0 \<le> 0 \<or> limit0 > 500 then 100 else limit0);
          offset = (if offset0 < 0 then 0 else offset0);
          status = TrimSpace status0;
          selected = filter (\<lambda>i. Item_RunID i = TrimSpace runID \<and> (status \<noteq> [] \<longrightarrow> Item_Status i = status)) (db_items db)
      in (map maskItem (db_find (fault ''ListItems'') (take (nat limit) (drop (nat offset)
            (sort_key (\<lambda>i. (Item_Status i, Item_BucketStart i, Item_ID i)) selected)))),
          int (length (db_find (fault ''ListItems.Count'') selected))))"

definition batch_selected :: "string \<Rightarrow> string \<Rightarrow> bool \<Rightarrow> Item \<Rightarrow> bool" where
  "batch_selected runID status excludeMatched i \<longleftrightarrow>
     Item_RunID i = TrimSpace runID \<and>
     (if TrimSpace status \<noteq> [] then Item_Status i = TrimSpace status
      else excludeMatched \<longrightarrow> Item_Status i \<noteq> Matched)"

text \<open>\<open>flt\<close> is the error of this query, if any: an export makes many of them.\<close>

definition store_ListItemBatch ::
  "recon_error option \<Rightarrow> recon_db \<Rightarrow> string \<Rightarrow> string \<Rightarrow> string \<Rightarrow> bool \<Rightarrow> int64 \<Rightarrow> Item list" where
  "store_ListItemBatch flt db runID status afterID0 excludeMatched limit0 =
     (let limit = (if limit0 \<le> 0 \<or> limit0 > 1000 then 500 else limit0);
          afterID = TrimSpace afterID0
      in map maskItem (db_find flt (take (nat limit) (sort_key Item_ID
           (filter (\<lambda>i. batch_selected runID status excludeMatched i \<and> (afterID \<noteq> [] \<longrightarrow> afterID < Item_ID i))
              (db_items db))))))"

definition store_SaveRunLock :: "faults \<Rightarrow> Run \<Rightarrow> recon_db \<Rightarrow> recon_error + recon_db" where
  "store_SaveRunLock fault v db =
     rbind (db_save (fault ''SaveRunLock'') Run_ID (db_runs db) v) (\<lambda>runs. Inr (db\<lparr>db_runs := runs\<rparr>))"

section \<open>Interface for the service\<close>

text \<open>What the service relies on: saving creates a run, replacing refuses a locked one, and no
  operation touches another run or its items.\<close>

locale run_store =
  fixes get_run :: "'db \<Rightarrow> string \<Rightarrow> Run option"
    and items_of :: "'db \<Rightarrow> string \<Rightarrow> Item list"
    and save_run :: "Run \<Rightarrow> Item list \<Rightarrow> 'db \<Rightarrow> recon_error + 'db"
    and replace_run :: "Run \<Rightarrow> Item list \<Rightarrow> 'db \<Rightarrow> recon_error + (Run \<times> 'db)"
    and save_lock :: "Run \<Rightarrow> 'db \<Rightarrow> recon_error + 'db"
  assumes save_fresh: "save_run v its db = Inr db' \<Longrightarrow> get_run db (Run_ID v) = None"
    and save_frame: "save_run v its db = Inr db' \<Longrightarrow> \<forall>i \<in> set its. Item_RunID i = Run_ID v \<Longrightarrow> ident \<noteq> Run_ID v \<Longrightarrow>
      get_run db' ident = get_run db ident \<and> items_of db' ident = items_of db ident"
    and replace_guard: "replace_run v its db = Inr (v', db') \<Longrightarrow>
      \<exists>old. get_run db (Run_ID v) = Some old \<and> Run_LockedAt old = None"
    and replace_frame: "replace_run v its db = Inr (v', db') \<Longrightarrow> \<forall>i \<in> set its. Item_RunID i = Run_ID v \<Longrightarrow>
      ident \<noteq> Run_ID v \<Longrightarrow> get_run db' ident = get_run db ident \<and> items_of db' ident = items_of db ident"
    and lock_frame: "save_lock v db = Inr db' \<Longrightarrow> items_of db' ident = items_of db ident \<and>
      (ident \<noteq> Run_ID v \<longrightarrow> get_run db' ident = get_run db ident)"
begin

definition keeps_locked :: "'db \<Rightarrow> 'db \<Rightarrow> bool" where
  "keeps_locked db db' \<longleftrightarrow>
     (\<forall>ident run. get_run db ident = Some run \<longrightarrow> Run_LockedAt run \<noteq> None \<longrightarrow>
        get_run db' ident = Some run \<and> items_of db' ident = items_of db ident)"

lemma keeps_locked_refl: "keeps_locked db db"
  by (simp add: keeps_locked_def)

lemma keeps_locked_trans: "keeps_locked a b \<Longrightarrow> keeps_locked b c \<Longrightarrow> keeps_locked a c"
  by (simp add: keeps_locked_def)

lemma keeps_locked_save:
  "save_run v its db = Inr db' \<Longrightarrow> \<forall>i \<in> set its. Item_RunID i = Run_ID v \<Longrightarrow> keeps_locked db db'"
  unfolding keeps_locked_def
  by (intro allI impI) (metis save_fresh save_frame option.distinct(1))

lemma keeps_locked_replace:
  "replace_run v its db = Inr (v', db') \<Longrightarrow> \<forall>i \<in> set its. Item_RunID i = Run_ID v \<Longrightarrow> keeps_locked db db'"
  using replace_guard replace_frame unfolding keeps_locked_def by (metis option.inject)

lemma keeps_locked_lock:
  "save_lock v db = Inr db' \<Longrightarrow> get_run db (Run_ID v) = Some old \<Longrightarrow> Run_LockedAt old = None \<Longrightarrow> keeps_locked db db'"
  using lock_frame unfolding keeps_locked_def by (metis option.inject)

end

definition find_run :: "recon_db \<Rightarrow> string \<Rightarrow> Run option" where
  "find_run db ident = find (\<lambda>r. Run_ID r = ident) (db_runs db)"

definition run_items :: "recon_db \<Rightarrow> string \<Rightarrow> Item list" where
  "run_items db ident = filter (\<lambda>i. Item_RunID i = ident) (db_items db)"

lemma find_append_eq: "find P (xs @ ys) = (case find P xs of None \<Rightarrow> find P ys | Some x \<Rightarrow> Some x)"
  by (induction xs) auto

lemma find_map_other:
  "(\<And>x. x \<in> set xs \<Longrightarrow> key x = k \<Longrightarrow> f x = x) \<Longrightarrow> (\<And>x. key (f x) = key x) \<Longrightarrow>
     find (\<lambda>r. key r = k) (map f xs) = find (\<lambda>r. key r = k) xs"
  by (induction xs) auto

lemma find_upsert:
  "find (\<lambda>r. key r = k) (db_upsert key rows v) = (if key v = k then Some v else find (\<lambda>r. key r = k) rows)"
proof (cases "key v \<in> key ` set rows")
  case True
  have "find (\<lambda>r. key r = k) (map (\<lambda>x. if key x = key v then v else x) xs) =
      (if key v = k then (if key v \<in> key ` set xs then Some v else None) else find (\<lambda>r. key r = k) xs)" for xs
    by (induction xs) auto
  with True show ?thesis by (auto simp: db_upsert_def)
next
  case False
  then have "find (\<lambda>r. key r = key v) rows = None" unfolding find_None_iff by (metis imageI)
  then show ?thesis using False by (auto simp: db_upsert_def find_append_eq split: option.splits)
qed

lemma filter_run_other:
  "ident \<noteq> k \<Longrightarrow> filter (\<lambda>i. Item_RunID i = ident) (filter (\<lambda>i. Item_RunID i \<noteq> k) xs) =
     filter (\<lambda>i. Item_RunID i = ident) xs"
  by (induction xs) auto

lemma db_create_InrD:
  assumes "db_create flt key rows fresh = Inr rows'"
  shows "rows' = rows @ fresh" and "\<forall>r \<in> set fresh. key r \<notin> key ` set rows" and "distinct (map key fresh)"
  using assms by (auto simp: db_create_def list_all_iff split: option.splits if_splits)

lemma db_first_Inr: "db_first flt key rows k = Inr r \<Longrightarrow> find (\<lambda>x. key x = k) rows = Some r"
  by (auto simp: db_first_def split: option.splits)

interpretation rs: run_store find_run run_items "store_SaveRun fault" "store_ReplaceRun fault"
  "store_SaveRunLock fault" for fault
proof
  show "find_run db (Run_ID v) = None" if "store_SaveRun fault v its db = Inr db'" for v its db db'
  proof -
    from that have "Run_ID v \<notin> Run_ID ` set (db_runs db)"
      by (auto simp: store_SaveRun_def rbind_eq_Inr_iff dest!: db_create_InrD(2))
    then show ?thesis unfolding find_run_def find_None_iff by (metis imageI)
  qed
  show "find_run db' ident = find_run db ident \<and> run_items db' ident = run_items db ident"
    if "store_SaveRun fault v its db = Inr db'" "\<forall>i \<in> set its. Item_RunID i = Run_ID v" "ident \<noteq> Run_ID v" for v its db db' ident
    using that
    by (auto simp: store_SaveRun_def rbind_eq_Inr_iff find_run_def run_items_def find_append_eq filter_empty_conv
        dest!: db_create_InrD(1) split: if_splits option.splits)
  show "\<exists>old. find_run db (Run_ID v) = Some old \<and> Run_LockedAt old = None"
    if "store_ReplaceRun fault v its db = Inr (v', db')" for v its db v' db'
    using that by (auto simp: store_ReplaceRun_def rbind_eq_Inr_iff find_run_def split: sum.splits dest!: db_first_Inr)
  show "find_run db' ident = find_run db ident \<and> run_items db' ident = run_items db ident"
    if "store_ReplaceRun fault v its db = Inr (v', db')" "\<forall>i \<in> set its. Item_RunID i = Run_ID v" "ident \<noteq> Run_ID v"
    for v its db v' db' ident
    using that
    by (auto simp: store_ReplaceRun_def rbind_eq_Inr_iff find_run_def run_items_def db_save_def find_upsert Let_def
        filter_empty_conv filter_run_other simp del: filter_filter dest!: db_create_InrD(1)
        split: sum.splits option.splits if_splits)
  show "run_items db' ident = run_items db ident \<and> (ident \<noteq> Run_ID v \<longrightarrow> find_run db' ident = find_run db ident)"
    if "store_SaveRunLock fault v db = Inr db'" for v db db' ident
    using that by (auto simp: store_SaveRunLock_def rbind_eq_Inr_iff db_save_def find_run_def run_items_def find_upsert
        split: option.splits)
qed

end
