(* ===== verification/ReconService.thy ===== *)
theory ReconService
  imports ReconDetail ReconRules ReconStore
begin

text \<open>
  The reconciliation service (\<open>backend/internal/reconciliation/service.go\<close>) over the store of
  \<open>ReconStore\<close>: rule administration, runs, recalculation, locking, scheduled runs and export. An
  operation is a function of the service state and of an environment (clock, zone database,
  billing reader, hash, random identifiers, database faults, state of the context); the results
  hold for every environment. The operations are the critical sections of the code: \<open>Run\<close> and
  \<open>Recalculate\<close> between \<open>begin\<close> and \<open>end\<close>, \<open>Lock\<close> and \<open>Recalculate\<close> under \<open>runLockMu\<close>.

  Shown over every sequence of operations: a locked run and its items never change, only
  succeeded runs are locked, stored rules stay well formed, and no key stays active; a failed
  recalculation leaves the tables as they were; an export lists every selected item once, in
  the order of identifiers, and ends.
\<close>

section \<open>State and environment\<close>

record service_env =
  env_now :: instant
  env_zones :: zone_db
  env_sha :: "string \<Rightarrow> string"
  env_quote :: "string \<Rightarrow> string"
  env_connector :: "string \<Rightarrow> recon_error + ConnectorSnapshot"
  env_bills :: "string \<Rightarrow> instant \<Rightarrow> instant \<Rightarrow> recon_error + BillingRecord list"
  env_fault :: faults
  env_ctx_err :: "recon_error option"
  env_rand :: string

record Service =
  svc_active :: "string set"
  svc_db :: recon_db
  svc_audits :: "Run list"

definition svc_begin :: "string \<Rightarrow> Service \<Rightarrow> bool \<times> Service" where
  "svc_begin key s =
     (if key \<in> svc_active s then (False, s) else (True, s\<lparr>svc_active := insert key (svc_active s)\<rparr>))"

definition svc_end :: "string \<Rightarrow> Service \<Rightarrow> Service" where
  "svc_end key s = s\<lparr>svc_active := svc_active s - {key}\<rparr>"

definition newID :: "service_env \<Rightarrow> string \<Rightarrow> string" where
  "newID env pre = pre @ ''_'' @ env_rand env"

text \<open>The result of an operation whose only effect is on the tables: an error changes nothing.\<close>

definition commit :: "Service \<Rightarrow> recon_error + ('a \<times> recon_db) \<Rightarrow> (recon_error + 'a) \<times> Service" where
  "commit s r = (case r of Inl e \<Rightarrow> (Inl e, s) | Inr (a, db) \<Rightarrow> (Inr a, s\<lparr>svc_db := db\<rparr>))"

section \<open>Rules\<close>

definition CreateRule :: "service_env \<Rightarrow> RuleInput \<Rightarrow> string \<Rightarrow> Service \<Rightarrow> (recon_error + Rule) \<times> Service" where
  "CreateRule env request actor s =
     (let rule0 = (ruleFromInput request)\<lparr>Rule_CreatedBy := TrimSpace actor, Rule_UpdatedBy := TrimSpace actor\<rparr> in
      commit s (rbind (normalizeAndValidateRule (env_zones env) rule0) (\<lambda>rule.
        rbind (env_connector env (Rule_ConnectorID rule)) (\<lambda>connector.
        rbind (snapshotConnector rule connector) (\<lambda>rule1.
          let rule2 = rule1\<lparr>Rule_Version := 1\<rparr>;
              rule3 = rule2\<lparr>Rule_RuleHash := ruleHash (env_sha env) rule2\<rparr>
          in store_CreateRule (env_fault env) (env_now env) (env_rand env) rule3 (svc_db s))))))"

text \<open>\<open>UpdateRule\<close> returns the rule before and after.\<close>

definition UpdateRule ::
  "service_env \<Rightarrow> string \<Rightarrow> RulePatch \<Rightarrow> string \<Rightarrow> Service \<Rightarrow> (recon_error + (Rule \<times> Rule)) \<times> Service" where
  "UpdateRule env ident request actor s =
     commit s (rbind (store_GetRule (env_fault env) (svc_db s) ident) (\<lambda>before.
       let rule0 = (applyRulePatch before request)\<lparr>Rule_UpdatedBy := TrimSpace actor\<rparr> in
       rbind (normalizeAndValidateRule (env_zones env) rule0) (\<lambda>rule.
       rbind (env_connector env (Rule_ConnectorID rule)) (\<lambda>connector.
       rbind (snapshotConnector rule connector) (\<lambda>rule1.
         let rule2 = rule1\<lparr>Rule_Version := wrap64 (Rule_Version before + 1)\<rparr>;
             rule3 = rule2\<lparr>Rule_RuleHash := ruleHash (env_sha env) rule2\<rparr>
         in rbind (store_UpdateRule (env_fault env) (env_now env) rule3 (svc_db s)) (\<lambda>(updated, db).
            Inr ((before, updated), db)))))))"

text \<open>A legacy rule without a connector snapshot is completed and stored; the stored rule stays
  even when reading it back or its validation then fails.\<close>

definition ensureRuleConnectorSnapshot :: "service_env \<Rightarrow> Rule \<Rightarrow> recon_db \<Rightarrow> (recon_error + Rule) \<times> recon_db" where
  "ensureRuleConnectorSnapshot env rule db =
     (if TrimSpace (Rule_ConnectorType rule) \<noteq> [] \<and> normalizeScope (Rule_ProviderID rule) \<noteq> [] then
        (rbind (validateConnectorSnapshot (Rule_Granularity rule) (Rule_ConnectorType rule) (Rule_ProviderID rule))
           (\<lambda>_. Inr rule), db)
      else case rbind (env_connector env (Rule_ConnectorID rule)) (\<lambda>connector.
                snapshotConnector rule connector) of
             Inl e \<Rightarrow> (Inl e, db)
           | Inr rule1 \<Rightarrow>
               let rule2 = rule1\<lparr>Rule_Version := (if Rule_Version rule1 \<le> 0 then 1 else wrap64 (Rule_Version rule1 + 1))\<rparr>;
                   rule3 = rule2\<lparr>Rule_RuleHash := ruleHash (env_sha env) rule2\<rparr>
               in (case store_BackfillRuleConnectorSnapshot (env_fault env) (env_now env) rule3 db of
                     (read, db1) \<Rightarrow>
                       (rbind read (\<lambda>stored. rbind (validateConnectorSnapshot (Rule_Granularity stored) (Rule_ConnectorType stored)
                          (Rule_ProviderID stored)) (\<lambda>_. Inr stored)), db1)))"

section \<open>Runs\<close>

definition failedRun :: "service_env \<Rightarrow> Run \<Rightarrow> recon_error \<Rightarrow> Run" where
  "failedRun env run err =
     (case errorDetails (env_quote env) (Some err) of (code, message) \<Rightarrow>
        run\<lparr>Run_Status := RunFailed, Run_ErrorCode := code, Run_ErrorMessage := message,
            Run_FinishedAt := Some (env_now env)\<rparr>)"

text \<open>The calculation of a run up to its result; the usages are the scoped ones.\<close>

definition run_result :: "service_env \<Rightarrow> Run \<Rightarrow> recon_db \<Rightarrow> recon_error + (Run \<times> Item list)" where
  "run_result env run db =
     rbind (validateConnectorSnapshot (Run_Granularity run) (Run_ConnectorType run) (Run_ProviderID run)) (\<lambda>_.
     rbind (env_bills env (Run_ConnectorID run) (Run_PeriodStart run) (Run_PeriodEnd run)) (\<lambda>bills.
     rbind (store_ListUsages (env_fault env) db (Run_PeriodStart run) (Run_PeriodEnd run)
              (minutes_duration (Run_TimeWindowMinutes run))) (\<lambda>usages.
     calculate (env_sha env) (env_now env) (env_zones env) run bills (scopeUsages run usages))))"

text \<open>The run returned to the caller, the error and the tables. On failure the run is the one
  given, marked as failed: the calculation works on a copy.\<close>

definition calculateAndSave ::
  "service_env \<Rightarrow> Run \<Rightarrow> bool \<Rightarrow> recon_db \<Rightarrow> Run \<times> recon_error option \<times> recon_db" where
  "calculateAndSave env run replace db =
     (case env_ctx_err env of
        Some e \<Rightarrow> (run, Some e, db)
      | None \<Rightarrow>
          (case rbind (run_result env run db) (\<lambda>(result, items).
                if replace then store_ReplaceRun (env_fault env) result items db
                else rbind (store_SaveRun (env_fault env) result items db) (\<lambda>db1. Inr (result, db1))) of
             Inr (saved, db1) \<Rightarrow> (saved, None, db1)
           | Inl e \<Rightarrow>
               let failed = failedRun env run e in
               if replace then (failed, Some e, db)
               else (failed, Some e,
                 case store_SaveRun (env_fault env) failed [] db of Inl _ \<Rightarrow> db | Inr db1 \<Rightarrow> db1)))"

definition in_progress :: "string \<Rightarrow> recon_error" where
  "in_progress message = NewError ErrorConflict ''reconciliation_in_progress'' message"

text \<open>The body of \<open>Run\<close> between \<open>begin\<close> and \<open>end\<close>.\<close>

definition run_body ::
  "service_env \<Rightarrow> string \<Rightarrow> RunInput \<Rightarrow> string \<Rightarrow> string \<Rightarrow> recon_db \<Rightarrow> Run \<times> recon_error option \<times> recon_db" where
  "run_body env ruleID request trigger actor db =
     (case store_GetRule (env_fault env) db ruleID of
        Inl e \<Rightarrow> (zero_Run, Some e, db)
      | Inr rule0 \<Rightarrow>
          if Rule_Status rule0 \<noteq> StatusActive then
            (zero_Run, Some (NewError ErrorConflict ''reconciliation_rule_disabled''
               ''Disabled reconciliation rules cannot be run''), db)
          else case ensureRuleConnectorSnapshot env rule0 db of
            (Inl e, db1) \<Rightarrow> (zero_Run, Some e, db1)
          | (Inr rule, db1) \<Rightarrow>
              if RunInput_PeriodStart request = zero_time \<or> RunInput_PeriodEnd request = zero_time \<or>
                 \<not> RunInput_PeriodStart request < RunInput_PeriodEnd request then
                (zero_Run, Some (NewError ErrorInvalidInput ''invalid_reconciliation_period''
                   ''period_start and period_end must define a non-empty range''), db1)
              else if time_Sub (RunInput_PeriodEnd request) (RunInput_PeriodStart request) > 366 * 24 * Hour then
                (zero_Run, Some (NewError ErrorInvalidInput ''reconciliation_period_too_large''
                   ''Reconciliation periods cannot exceed 366 days''), db1)
              else calculateAndSave env (runFromRule (env_now env) (newID env ''recon'') rule request trigger actor) False db1)"

definition service_Run ::
  "service_env \<Rightarrow> string \<Rightarrow> RunInput \<Rightarrow> string \<Rightarrow> string \<Rightarrow> Service \<Rightarrow> Run \<times> recon_error option \<times> Service" where
  "service_Run env ruleID request trigger actor s =
     (case svc_begin (''rule:'' @ ruleID) s of
        (False, s1) \<Rightarrow> (zero_Run, Some (in_progress ''A reconciliation is already running for this rule''), s1)
      | (True, s1) \<Rightarrow>
          (case run_body env ruleID request trigger actor (svc_db s1) of (run, err, db) \<Rightarrow>
             (run, err, svc_end (''rule:'' @ ruleID) (s1\<lparr>svc_db := db\<rparr>))))"

definition ensureRunConnectorSnapshot :: "service_env \<Rightarrow> Run \<Rightarrow> recon_error + Run" where
  "ensureRunConnectorSnapshot env run =
     (if TrimSpace (Run_ConnectorType run) \<noteq> [] \<and> normalizeScope (Run_ProviderID run) \<noteq> [] then
        rbind (validateConnectorSnapshot (Run_Granularity run) (Run_ConnectorType run) (Run_ProviderID run)) (\<lambda>_. Inr run)
      else rbind (env_connector env (Run_ConnectorID run)) (\<lambda>connector.
           rbind (snapshotRunConnector run connector) (\<lambda>run1.
           Inr (run1\<lparr>Run_RuleHash := runRuleHash (env_sha env) run1\<rparr>))))"

definition reset_run :: "instant \<Rightarrow> Run \<Rightarrow> Run" where
  "reset_run now run = run\<lparr>Run_Trigger := ''recalculation'', Run_Status := RunRunning, Run_InputHash := [],
     Run_ProviderRecordCount := 0, Run_TokenHubRecordCount := 0, Run_MatchedCount := 0, Run_ProviderOnlyCount := 0,
     Run_TokenHubOnlyCount := 0, Run_AmountMismatchCount := 0, Run_ProviderAmount := ''0'',
     Run_TokenHubAmount := ''0'', Run_DifferenceAmount := ''0'', Run_ErrorCode := [], Run_ErrorMessage := [],
     Run_StartedAt := now, Run_FinishedAt := None\<rparr>"

definition recalculate_body :: "service_env \<Rightarrow> string \<Rightarrow> recon_db \<Rightarrow> Run \<times> recon_error option \<times> recon_db" where
  "recalculate_body env runID db =
     (case rbind (store_GetRun (env_fault env) db runID) (\<lambda>run.
           rbind (ValidateRunReplacement run) (\<lambda>_. ensureRunConnectorSnapshot env run)) of
        Inl e \<Rightarrow> (zero_Run, Some e, db)
      | Inr run \<Rightarrow> calculateAndSave env (reset_run (env_now env) run) True db)"

definition Recalculate :: "service_env \<Rightarrow> string \<Rightarrow> Service \<Rightarrow> Run \<times> recon_error option \<times> Service" where
  "Recalculate env runID s =
     (case svc_begin (''run:'' @ runID) s of
        (False, s1) \<Rightarrow> (zero_Run, Some (in_progress ''This reconciliation is already being recalculated''), s1)
      | (True, s1) \<Rightarrow>
          (case recalculate_body env runID (svc_db s1) of (run, err, db) \<Rightarrow>
             (run, err, svc_end (''run:'' @ runID) (s1\<lparr>svc_db := db\<rparr>))))"

definition RecalculateForAdmin :: "service_env \<Rightarrow> string \<Rightarrow> Service \<Rightarrow> Run \<times> Run \<times> recon_error option \<times> Service" where
  "RecalculateForAdmin env runID s =
     (case store_GetRun (env_fault env) (svc_db s) runID of
        Inl e \<Rightarrow> (zero_Run, zero_Run, Some e, s)
      | Inr before \<Rightarrow> (before, Recalculate env runID s))"

text \<open>\<open>Lock\<close> returns the run before and after.\<close>

definition Lock :: "service_env \<Rightarrow> string \<Rightarrow> string \<Rightarrow> Service \<Rightarrow> (recon_error + (Run \<times> Run)) \<times> Service" where
  "Lock env runID actor s =
     (case store_GetRun (env_fault env) (svc_db s) runID of
        Inl e \<Rightarrow> (Inl e, s)
      | Inr before \<Rightarrow>
          (case PrepareRunLock before actor (env_now env) of
             Inl e \<Rightarrow> (Inl e, s)
           | Inr (after, changed) \<Rightarrow>
               if \<not> changed then (Inr (before, after), s)
               else case store_SaveRunLock (env_fault env) after (svc_db s) of
                 Inl e \<Rightarrow> (Inl e, s)
               | Inr db \<Rightarrow> (Inr (before, after), s\<lparr>svc_db := db\<rparr>)))"

section \<open>Scheduled runs\<close>

definition run_due_rule :: "service_env \<Rightarrow> instant \<Rightarrow> Rule \<Rightarrow> Service \<Rightarrow> Run \<times> Service" where
  "run_due_rule env now rule s =
     (case scheduledPeriod (env_zones env) rule now of
        Inl e \<Rightarrow>
          (case errorDetails (env_quote env) (Some e) of (code, message) \<Rightarrow>
             (zero_Run\<lparr>Run_RuleID := Rule_ID rule, Run_ConnectorID := Rule_ConnectorID rule,
                Run_Trigger := ''scheduled'', Run_Status := RunFailed, Run_ErrorCode := code,
                Run_ErrorMessage := message\<rparr>, s))
      | Inr (from, to) \<Rightarrow>
          (case service_Run env (Rule_ID rule) \<lparr>RunInput_PeriodStart = from, RunInput_PeriodEnd = to\<rparr>
                  ''scheduled'' ''system'' s of (run, err, s1) \<Rightarrow>
             (case err of
                Some e \<Rightarrow>
                  if Run_ID run = [] then
                    (case errorDetails (env_quote env) (Some e) of (code, message) \<Rightarrow>
                       (zero_Run\<lparr>Run_RuleID := Rule_ID rule, Run_ConnectorID := Rule_ConnectorID rule,
                          Run_Trigger := ''scheduled'', Run_Status := RunFailed, Run_ErrorCode := code,
                          Run_ErrorMessage := message\<rparr>, s1))
                  else (run, s1)
              | None \<Rightarrow> (run, s1))))"

fun run_due_rules :: "(Rule \<Rightarrow> service_env) \<Rightarrow> instant \<Rightarrow> Rule list \<Rightarrow> Service \<Rightarrow> Run list \<times> Service" where
  "run_due_rules envs now [] s = ([], s)"
| "run_due_rules envs now (rule # rules) s =
     (case run_due_rule (envs rule) now rule s of (run, s1) \<Rightarrow>
        let s2 = s1\<lparr>svc_audits := svc_audits s1 @ [run]\<rparr> in
        if env_ctx_err (envs rule) \<noteq> None then ([run], s2)
        else case run_due_rules envs now rules s2 of (runs, s3) \<Rightarrow> (run # runs, s3))"

text \<open>Every rule is run in an environment of its own (clock, random identifier, faults).\<close>

definition RunDue :: "faults \<Rightarrow> (Rule \<Rightarrow> service_env) \<Rightarrow> instant \<Rightarrow> Service \<Rightarrow> Run list \<times> Service" where
  "RunDue fault envs now s = run_due_rules envs now (store_ListDueRules fault (svc_db s) now 25) s"

section \<open>Reading\<close>

definition GetRunDetail ::
  "service_env \<Rightarrow> Service \<Rightarrow> string \<Rightarrow> string \<Rightarrow> int64 \<Rightarrow> int64 \<Rightarrow> recon_error + (Run \<times> Item list \<times> int64)" where
  "GetRunDetail env s ident status limit offset =
     rbind (store_GetRun (env_fault env) (svc_db s) ident) (\<lambda>run.
     Inr (run, store_ListItems (env_fault env) (svc_db s) ident status limit offset))"

text \<open>The loop of \<open>Export\<close>: the batches handed to the callback, with fuel. The callback may refuse
  a batch, which ends the export with its error. \<open>reads i\<close> is the error, if any, of the query for batch \<open>i\<close>.\<close>

fun export_loop ::
  "nat \<Rightarrow> (nat \<Rightarrow> recon_error option) \<Rightarrow> recon_db \<Rightarrow> string \<Rightarrow> string \<Rightarrow> int64 \<Rightarrow> (Item list \<Rightarrow> recon_error option) \<Rightarrow> string \<Rightarrow>
   (Item list list \<times> recon_error option) option" where
  "export_loop 0 reads db runID status limit each after = None"
| "export_loop (Suc n) reads db runID status limit each after =
     (let items = store_ListItemBatch (reads 0) db runID status after (status = []) limit in
      if items = [] then Some ([], None)
      else case each items of
        Some e \<Rightarrow> Some ([items], Some e)
      | None \<Rightarrow> map_option (\<lambda>(batches, err). (items # batches, err))
          (export_loop n (\<lambda>i. reads (Suc i)) db runID status limit each (Item_ID (last items))))"

definition Export ::
  "nat \<Rightarrow> service_env \<Rightarrow> (nat \<Rightarrow> recon_error option) \<Rightarrow> Service \<Rightarrow> string \<Rightarrow> string \<Rightarrow> int64 \<Rightarrow> (Run \<Rightarrow> recon_error option) \<Rightarrow>
   (Item list \<Rightarrow> recon_error option) \<Rightarrow> (Item list list \<times> recon_error option) option" where
  "Export fuel env reads s runID status limit start each =
     (case store_GetRun (env_fault env) (svc_db s) runID of
        Inl e \<Rightarrow> Some ([], Some e)
      | Inr run \<Rightarrow>
          (case start run of
             Some e \<Rightarrow> Some ([], Some e)
           | None \<Rightarrow> export_loop fuel reads (svc_db s) runID status limit each []))"

section \<open>What a calculation keeps of its run\<close>

definition same_run :: "Run \<Rightarrow> Run \<Rightarrow> bool" where
  "same_run run run' \<longleftrightarrow> Run_ID run' = Run_ID run \<and> Run_LockedAt run' = Run_LockedAt run \<and> Run_RuleID run' = Run_RuleID run"

lemma same_run_refl [simp]: "same_run run run"
  by (simp add: same_run_def)

lemma same_run_trans: "same_run a b \<Longrightarrow> same_run b c \<Longrightarrow> same_run a c"
  by (simp add: same_run_def)

lemma finish_same_run: "finish sha now run items rows = Inr (run', items') \<Longrightarrow> same_run run run' \<and> items' = items"
  by (auto simp: finish_def Let_def rbind_eq_Inr_iff fold_count_item same_run_def)

lemma bill_step_same_run: "bill_step loc b st = Inr st' \<Longrightarrow> same_run (es_run st) (es_run st')"
  by (cases "bucketFor (es_run st) (providerDimensions (es_run st) b) (Bill_UsageStartAt b) loc (es_buckets st)")
    (auto simp: bill_step_def Let_def rbind_eq_Inr_iff same_run_def split: if_splits sum.splits)

lemma usage_step_same_run: "usage_step rate loc u st = Inr st' \<Longrightarrow> same_run (es_run st) (es_run st')"
  by (cases "bucketFor (es_run st) (tokenHubDimensions (es_run st) u) (Usage_CreatedAt u) loc (es_buckets st)")
    (auto simp: usage_step_def Let_def rbind_eq_Inr_iff same_run_def split: if_splits)

lemma addDetailEntryToRun_same_run: "addDetailEntryToRun run side e rows = Inr (run1, rows1) \<Longrightarrow> same_run run run1"
  by (auto simp: addDetailEntryToRun_def Let_def rbind_eq_Inr_iff same_run_def split: if_splits)

lemma detail_bill_step_same_run: "detail_bill_step b st = Inr st' \<Longrightarrow> same_run (ds_run st) (ds_run st')"
  by (auto simp: detail_bill_step_def Let_def rbind_eq_Inr_iff split: if_splits sum.splits prod.splits
      dest!: addDetailEntryToRun_same_run)

lemma detail_usage_step_same_run: "detail_usage_step rate w u st = Inr st' \<Longrightarrow> same_run (ds_run st) (ds_run st')"
  by (cases "detailGroupFor (ds_run st) (tokenHubDimensions (ds_run st) u) (ds_groups st)")
    (auto simp: detail_usage_step_def Let_def rbind_eq_Inr_iff split: if_splits)

lemma foldr_res_rel:
  assumes "foldr_res f xs s = Inr t" and "\<And>x s t. f x s = Inr t \<Longrightarrow> R s t"
    and "\<And>s. R s s" and "\<And>a b c. R a b \<Longrightarrow> R b c \<Longrightarrow> R a c"
  shows "R s t"
  using assms(1)
proof (induction xs arbitrary: s)
  case Nil
  then show ?case using assms(3) by simp
next
  case (Cons x xs)
  then show ?case using assms(2,4) by (fastforce simp: rbind_eq_Inr_iff)
qed

text \<open>An emitting step keeps the run and appends items of that run.\<close>

definition emits :: "emit_state \<Rightarrow> emit_state \<Rightarrow> bool" where
  "emits st st' \<longleftrightarrow> same_run (em_run st) (em_run st') \<and>
     (\<forall>i \<in> set (em_items st'). i \<in> set (em_items st) \<or> Item_RunID i = Run_ID (em_run st))"

lemma emits_refl: "emits st st" by (simp add: emits_def)

lemma emits_trans: "emits a b \<Longrightarrow> emits b c \<Longrightarrow> emits a c"
  by (auto simp: emits_def same_run_def)

lemma emit_item_RunID [simp]: "Item_RunID (emit_item c run b reason) = Run_ID run"
  by (simp add: emit_item_def)

lemma emit_provider_emits: "emit_provider c key ps us M i st = Inr st' \<Longrightarrow> emits st st'"
  by (auto simp: emit_provider_def emits_def Let_def rbind_eq_Inr_iff split: option.splits
      dest!: addDetailEntryToRun_same_run)

lemma emit_usage_emits: "emit_usage c key ps us j st = Inr st' \<Longrightarrow> emits st st'"
  by (auto simp: emit_usage_def emits_def Let_def rbind_eq_Inr_iff split: if_splits
      dest!: addDetailEntryToRun_same_run)

lemma emit_group_emits: "emit_group c gs key st = Inr st' \<Longrightarrow> emits st st'"
proof -
  assume "emit_group c gs key st = Inr st'"
  then obtain ps us M st1 where p: "foldr_res (emit_provider c key ps us M) [0..<length ps]
        (st\<lparr>em_used := replicate (length us) False\<rparr>) = Inr st1"
    and u: "foldr_res (emit_usage c key ps us) [0..<length us] st1 = Inr st'"
    by (auto simp: emit_group_def Let_def rbind_eq_Inr_iff)
  have "emits (st\<lparr>em_used := replicate (length us) False\<rparr>) st1"
    by (rule foldr_res_rel [OF p emit_provider_emits emits_refl emits_trans])
  moreover have "emits st1 st'" by (rule foldr_res_rel [OF u emit_usage_emits emits_refl emits_trans])
  ultimately show ?thesis by (auto simp: emits_def same_run_def)
qed

lemma calculateDetail_same_run:
  assumes "calculateDetail sha now run bills usages aT rT rate = Inr (run', items)"
  shows "same_run run run' \<and> (\<forall>i \<in> set items. Item_RunID i = Run_ID run)"
proof -
  let ?w = "minutes_duration (Run_TimeWindowMinutes run)"
  from assms obtain c st1 st2 st3 where
      1: "foldr_res detail_bill_step bills \<lparr>ds_run = run, ds_groups = [], ds_rows = []\<rparr> = Inr st1"
    and 2: "foldr_res (detail_usage_step rate ?w) usages st1 = Inr st2"
    and 3: "foldr_res (emit_group c (ds_groups st2)) (sort (map fst (ds_groups st2)))
               \<lparr>em_run = ds_run st2, em_items = [], em_rows = ds_rows st2, em_used = []\<rparr> = Inr st3"
    and 4: "finish sha now (em_run st3) (em_items st3) (em_rows st3) = Inr (run', items)"
    by (auto simp: calculateDetail_def Let_def rbind_eq_Inr_iff)
  have a: "same_run run (ds_run st1)"
    using foldr_res_rel [OF 1, of "\<lambda>s t. same_run (ds_run s) (ds_run t)"] detail_bill_step_same_run same_run_trans by fastforce
  have b: "same_run (ds_run st1) (ds_run st2)"
    using foldr_res_rel [OF 2, of "\<lambda>s t. same_run (ds_run s) (ds_run t)"] detail_usage_step_same_run same_run_trans by fastforce
  have "emits \<lparr>em_run = ds_run st2, em_items = [], em_rows = ds_rows st2, em_used = []\<rparr> st3"
    by (rule foldr_res_rel [OF 3]) (auto intro: emit_group_emits emits_refl emits_trans)
  then have c: "same_run (ds_run st2) (em_run st3)" "\<forall>i \<in> set (em_items st3). Item_RunID i = Run_ID (ds_run st2)"
    by (auto simp: emits_def)
  from finish_same_run [OF 4] a b c show ?thesis by (auto simp: same_run_def)
qed

lemma calculate_buckets_same_run:
  assumes "calculate_buckets sha now loc aT rT rate run bills usages = Inr (run', items)"
  shows "same_run run run' \<and> (\<forall>i \<in> set items. Item_RunID i = Run_ID run)"
proof -
  from assms obtain st1 st2 where
      1: "foldr_res (bill_step loc) bills \<lparr>es_run = run, es_buckets = [], es_rows = []\<rparr> = Inr st1"
    and 2: "foldr_res (usage_step rate loc) usages st1 = Inr st2"
    and 3: "finish sha now (es_run st2)
       (map (\<lambda>key. itemFromBucket sha now (es_run st2) (sort_ids (the (map_of (es_buckets st2) key))) aT rT [])
          (sort (map fst (es_buckets st2)))) (es_rows st2) = Inr (run', items)"
    by (auto simp: calculate_buckets_def Let_def rbind_eq_Inr_iff)
  have a: "same_run run (es_run st1)"
    using foldr_res_rel [OF 1, of "\<lambda>s t. same_run (es_run s) (es_run t)"] bill_step_same_run same_run_trans by fastforce
  have b: "same_run (es_run st1) (es_run st2)"
    using foldr_res_rel [OF 2, of "\<lambda>s t. same_run (es_run s) (es_run t)"] usage_step_same_run same_run_trans by fastforce
  from finish_same_run [OF 3] a b show ?thesis by (auto simp: same_run_def)
qed

lemma calculate_cases:
  assumes "calculate sha now zones run bills usages = Inr (run', items)"
  obtains (detail) aT rT rate where "calculateDetail sha now run bills usages aT rT rate = Inr (run', items)"
    | (buckets) loc aT rT rate where "calculate_buckets sha now loc aT rT rate run bills usages = Inr (run', items)"
  using assms
  by (cases "zones (Run_Timezone run)"; cases "parseMoney (Run_USDExchangeRate run)")
    (auto simp: calculate_def rbind_eq_Inr_iff split: if_splits)

lemma calculate_same_run:
  assumes "calculate sha now zones run bills usages = Inr (run', items)"
  shows "same_run run run' \<and> (\<forall>i \<in> set items. Item_RunID i = Run_ID run)"
  using assms
proof (cases rule: calculate_cases)
  case detail
  then show ?thesis by (rule calculateDetail_same_run)
next
  case buckets
  then show ?thesis by (rule calculate_buckets_same_run)
qed

lemma run_result_same_run:
  "run_result env run db = Inr (run', items) \<Longrightarrow>
     same_run run run' \<and> (\<forall>i \<in> set items. Item_RunID i = Run_ID run)"
  by (auto simp: run_result_def rbind_eq_Inr_iff dest!: calculate_same_run)

section \<open>One lemma per operation\<close>

abbreviation keeps_locked :: "recon_db \<Rightarrow> recon_db \<Rightarrow> bool" where
  "keeps_locked db db' \<equiv> run_store.keeps_locked find_run run_items db db'"

text \<open>What every operation keeps of the tables: locked runs with their items; that only succeeded
  runs are locked; that the rules are well formed.\<close>

definition runs_ok :: "recon_db \<Rightarrow> bool" where
  "runs_ok db \<longleftrightarrow> (\<forall>run \<in> set (db_runs db). Run_LockedAt run \<noteq> None \<longrightarrow> Run_Status run = RunSucceeded)"

definition rules_ok :: "zone_db \<Rightarrow> recon_db \<Rightarrow> bool" where
  "rules_ok zones db \<longleftrightarrow> (\<forall>rule \<in> set (db_rules db). rule_wf zones rule)"

definition db_step :: "zone_db \<Rightarrow> recon_db \<Rightarrow> recon_db \<Rightarrow> bool" where
  "db_step zones db db' \<longleftrightarrow> keeps_locked db db' \<and> (runs_ok db \<longrightarrow> runs_ok db') \<and> (rules_ok zones db \<longrightarrow> rules_ok zones db')"

lemma db_step_refl [simp]: "db_step zones db db"
  by (simp add: db_step_def rs.keeps_locked_refl)

lemma db_step_trans: "db_step zones a b \<Longrightarrow> db_step zones b c \<Longrightarrow> db_step zones a c"
  using rs.keeps_locked_trans by (auto simp: db_step_def)

lemma db_step_rules:
  assumes "db_runs db' = db_runs db" and "db_items db' = db_items db"
    and "rules_ok zones db \<Longrightarrow> rules_ok zones db'"
  shows "db_step zones db db'"
  using assms by (auto simp: db_step_def rs.keeps_locked_def find_run_def run_items_def runs_ok_def)

subsection \<open>Rules\<close>

lemma rule_wf_updates [simp]:
  "rule_wf zones (r\<lparr>Rule_Version := v\<rparr>) = rule_wf zones r" "rule_wf zones (r\<lparr>Rule_RuleHash := h\<rparr>) = rule_wf zones r"
  "rule_wf zones (r\<lparr>Rule_NextRunAt := n\<rparr>) = rule_wf zones r" "rule_wf zones (r\<lparr>Rule_LastRunAt := l\<rparr>) = rule_wf zones r"
  "rule_wf zones (r\<lparr>Rule_ID := i\<rparr>) = rule_wf zones r" "rule_wf zones (r\<lparr>Rule_CreatedAt := c\<rparr>) = rule_wf zones r"
  "rule_wf zones (r\<lparr>Rule_UpdatedAt := u\<rparr>) = rule_wf zones r" "rule_wf zones (r\<lparr>Rule_ConnectorType := t\<rparr>) = rule_wf zones r"
  "rule_wf zones (r\<lparr>Rule_ProviderID := p\<rparr>) = rule_wf zones r"
  "rule_wf zones (r\<lparr>Rule_ProviderResourceID := q\<rparr>) = rule_wf zones r"
  by (simp_all add: rule_wf_def)

lemma rule_wf_schedule [simp]: "rule_wf zones (ApplyRuleSchedule r p now) = rule_wf zones r"
  by (simp add: ApplyRuleSchedule_def Let_def split: option.splits)

lemma rule_wf_snapshot: "snapshotConnector r c = Inr r' \<Longrightarrow> rule_wf zones r' = rule_wf zones r"
  by (auto simp: snapshotConnector_def Let_def rbind_eq_Inr_iff)

lemma set_upsert: "set (db_upsert key rows v) \<subseteq> insert v (set rows)"
  by (auto simp: db_upsert_def)

lemma commit_step:
  assumes "\<And>a db. r = Inr (a, db) \<Longrightarrow> db_step zones (svc_db s) db"
  shows "db_step zones (svc_db s) (svc_db (snd (commit s r)))"
  using assms by (auto simp: commit_def split: sum.split)

lemma store_CreateRule_step:
  assumes "store_CreateRule fault now rand v db = Inr (r, db')" and "rule_wf zones v"
  shows "db_step zones db db'"
proof (rule db_step_rules)
  from assms obtain row rows where "db' = db\<lparr>db_rules := rows\<rparr>" "rows = db_rules db @ [row]" "rule_wf zones row"
    by (auto simp: store_CreateRule_def Let_def split: sum.splits if_splits dest!: db_create_InrD(1))
  then show "db_runs db' = db_runs db" "db_items db' = db_items db" "rules_ok zones db \<Longrightarrow> rules_ok zones db'"
    by (auto simp: rules_ok_def)
qed

lemma store_UpdateRule_step:
  assumes "store_UpdateRule fault now v db = Inr (r, db')" and "rule_wf zones v"
  shows "db_step zones db db'"
proof (rule db_step_rules)
  from assms obtain row where "db' = db\<lparr>db_rules := db_upsert Rule_ID (db_rules db) row\<rparr>" "rule_wf zones row"
    by (auto simp: store_UpdateRule_def Let_def db_save_def rbind_eq_Inr_iff split: sum.splits option.splits)
  then show "db_runs db' = db_runs db" "db_items db' = db_items db" "rules_ok zones db \<Longrightarrow> rules_ok zones db'"
    using set_upsert [of Rule_ID "db_rules db" row] by (auto simp: rules_ok_def)
qed

lemma snapshot_valid_wf:
  "normalizeAndValidateRule zones r0 = Inr r \<Longrightarrow> snapshotConnector r c = Inr r1 \<Longrightarrow> rule_wf zones r1"
  using normalizeAndValidateRule_wf rule_wf_snapshot by blast

lemma CreateRule_step: "db_step (env_zones env) (svc_db s) (svc_db (snd (CreateRule env req actor s)))"
  unfolding CreateRule_def Let_def
  apply (rule commit_step)
  apply (simp only: rbind_eq_Inr_iff)
  apply (elim exE conjE)
  apply (erule store_CreateRule_step)
  apply (simp only: rule_wf_updates)
  apply (erule (1) snapshot_valid_wf)
  done

lemma UpdateRule_step: "db_step (env_zones env) (svc_db s) (svc_db (snd (UpdateRule env ident req actor s)))"
  unfolding UpdateRule_def Let_def
  apply (rule commit_step)
  apply (simp only: rbind_eq_Inr_iff split_paired_Ex prod.case sum.inject prod.inject)
  apply (elim exE conjE)
  apply (simp only:)
  apply (erule store_UpdateRule_step)
  apply (simp only: rule_wf_updates)
  apply (erule (1) snapshot_valid_wf)
  done

lemma store_BackfillRuleConnectorSnapshot_step:
  assumes "store_BackfillRuleConnectorSnapshot fault now v db = (r, db')"
  shows "db_step zones db db'"
proof (rule db_step_rules)
  define f where "f r = (if Rule_ID r = TrimSpace (Rule_ID v) \<and> (sql_blank (Rule_ConnectorType r) \<or> sql_blank (Rule_ProviderID r))
    then r\<lparr>Rule_ConnectorType := Rule_ConnectorType v, Rule_ProviderID := Rule_ProviderID v,
      Rule_ProviderResourceID := Rule_ProviderResourceID v, Rule_Version := Rule_Version v,
      Rule_RuleHash := Rule_RuleHash v, Rule_UpdatedAt := now\<rparr> else r)" for r :: Rule
  have "rule_wf zones (f x) = rule_wf zones x" for x by (simp add: f_def)
  moreover from assms have "db' = db \<or> db' = db\<lparr>db_rules := map f (db_rules db)\<rparr>"
    by (auto simp: store_BackfillRuleConnectorSnapshot_def Let_def f_def [abs_def] split: option.splits)
  ultimately show "db_runs db' = db_runs db" "db_items db' = db_items db" "rules_ok zones db \<Longrightarrow> rules_ok zones db'"
    by (auto simp: rules_ok_def)
qed

lemma ensureRuleConnectorSnapshot_step: "db_step zones db (snd (ensureRuleConnectorSnapshot env rule db))"
proof (cases "TrimSpace (Rule_ConnectorType rule) \<noteq> [] \<and> normalizeScope (Rule_ProviderID rule) \<noteq> []")
  case True
  then show ?thesis by (simp add: ensureRuleConnectorSnapshot_def)
next
  case False
  show ?thesis unfolding ensureRuleConnectorSnapshot_def Let_def if_not_P [OF False]
    by (auto split: sum.split prod.split intro: store_BackfillRuleConnectorSnapshot_step)
qed

subsection \<open>Runs\<close>

lemma db_step_save:
  assumes "store_SaveRun fault v items db = Inr db'" and "\<forall>i \<in> set items. Item_RunID i = Run_ID v"
    and "Run_LockedAt v = None"
  shows "db_step zones db db'"
proof -
  have "keeps_locked db db'" using assms(1,2) by (rule rs.keeps_locked_save)
  moreover obtain rules where runs: "db_runs db' = db_runs db @ [v]" and rules: "db_rules db' = rules"
    and upd: "updateRuleAfterRun fault v (db_rules db) = Inr rules"
    using assms(1) by (auto simp: store_SaveRun_def rbind_eq_Inr_iff dest!: db_create_InrD(1))
  moreover have "runs_ok db'" if "runs_ok db" using that runs assms(3) by (simp add: runs_ok_def)
  moreover have "rules_ok zones db'" if ok: "rules_ok zones db"
  proof -
    have "\<forall>r \<in> set rules. rule_wf zones r"
      using upd ok by (auto simp: updateRuleAfterRun_def rules_ok_def Let_def split: sum.splits if_splits option.splits)
    then show ?thesis by (simp add: rules_ok_def rules)
  qed
  ultimately show ?thesis by (simp add: db_step_def)
qed

lemma db_step_replace:
  assumes "store_ReplaceRun fault v items db = Inr (v', db')" and "\<forall>i \<in> set items. Item_RunID i = Run_ID v"
  shows "db_step zones db db'"
proof -
  have "keeps_locked db db'" using assms by (rule rs.keeps_locked_replace)
  moreover have "db_runs db' = db_upsert Run_ID (db_runs db) (v\<lparr>Run_LockedAt := None, Run_LockedBy := []\<rparr>)"
      "db_rules db' = db_rules db"
    using assms(1) by (auto simp: store_ReplaceRun_def rbind_eq_Inr_iff Let_def db_save_def split: sum.splits option.splits)
  moreover from this(1) have "runs_ok db'" if "runs_ok db"
    using that set_upsert [of Run_ID "db_runs db" "v\<lparr>Run_LockedAt := None, Run_LockedBy := []\<rparr>"]
    by (auto simp: runs_ok_def)
  ultimately show ?thesis by (simp add: db_step_def rules_ok_def)
qed

lemma calculateAndSave_step:
  assumes "replace \<or> Run_LockedAt run = None"
  shows "db_step zones db (snd (snd (calculateAndSave env run replace db)))"
proof (cases "env_ctx_err env")
  case (Some e)
  then show ?thesis by (simp add: calculateAndSave_def)
next
  case None
  let ?r = "rbind (run_result env run db) (\<lambda>(result, items).
      if replace then store_ReplaceRun (env_fault env) result items db
      else rbind (store_SaveRun (env_fault env) result items db) (\<lambda>db1. Inr (result, db1)))"
  show ?thesis
  proof (cases ?r)
    case (Inr p)
    obtain saved db1 where p: "p = (saved, db1)" by fastforce
    from Inr obtain result items where res: "run_result env run db = Inr (result, items)"
      and w: "if replace then store_ReplaceRun (env_fault env) result items db = Inr (saved, db1)
              else store_SaveRun (env_fault env) result items db = Inr db1"
      unfolding p by (auto simp: rbind_eq_Inr_iff split: if_splits)
    note same = run_result_same_run [OF res]
    have "db_step zones db db1"
    proof (cases replace)
      case True
      then show ?thesis using w same by (auto simp: same_run_def intro: db_step_replace)
    next
      case False
      then show ?thesis using w same assms by (auto simp: same_run_def intro: db_step_save)
    qed
    then show ?thesis by (simp add: calculateAndSave_def None Inr p)
  next
    case (Inl e)
    have "db_step zones db (case store_SaveRun (env_fault env) (failedRun env run e) [] db of Inl _ \<Rightarrow> db | Inr db1 \<Rightarrow> db1)"
      if "\<not> replace"
      using that assms by (auto simp: failedRun_def split: sum.split prod.split intro!: db_step_save)
    then show ?thesis by (simp add: calculateAndSave_def None Inl Let_def)
  qed
qed

lemma run_body_step: "db_step zones db (snd (snd (run_body env ruleID request trigger actor db)))"
proof (cases "store_GetRule (env_fault env) db ruleID")
  case (Inl e)
  then show ?thesis by (simp add: run_body_def)
next
  case (Inr rule0)
  obtain r db1 where e: "ensureRuleConnectorSnapshot env rule0 db = (r, db1)" by fastforce
  have s: "db_step zones db db1" using ensureRuleConnectorSnapshot_step [of zones db env rule0] by (simp add: e)
  have "db_step zones db1 (snd (snd (calculateAndSave env (runFromRule now ident rule request trigger actor) False db1)))"
    for now ident rule
    by (rule calculateAndSave_step) (simp add: runFromRule_def zero_Run_def)
  with s show ?thesis
    by (cases r) (auto simp: run_body_def Inr e intro: db_step_trans)
qed

lemma recalculate_body_step: "db_step zones db (snd (snd (recalculate_body env runID db)))"
  unfolding recalculate_body_def using calculateAndSave_step [of True] by (simp split: sum.split)

lemma service_Run_step: "db_step zones (svc_db s) (svc_db (snd (snd (service_Run env ruleID request trigger actor s))))"
  using run_body_step [of zones "svc_db s" env ruleID request trigger actor]
  by (cases "run_body env ruleID request trigger actor (svc_db s)")
    (simp add: service_Run_def svc_begin_def svc_end_def)

lemma Recalculate_step: "db_step zones (svc_db s) (svc_db (snd (snd (Recalculate env runID s))))"
  using recalculate_body_step [of zones "svc_db s" env runID]
  by (cases "recalculate_body env runID (svc_db s)") (simp add: Recalculate_def svc_begin_def svc_end_def)

lemma store_GetRun_Inr: "store_GetRun fault db ident = Inr r \<Longrightarrow> find_run db (Run_ID r) = Some r \<and> r \<in> set (db_runs db)"
proof -
  assume "store_GetRun fault db ident = Inr r"
  then have f: "find (\<lambda>x. Run_ID x = TrimSpace ident) (db_runs db) = Some r"
    by (auto simp: store_GetRun_def split: sum.splits dest: db_first_Inr)
  from find_SomeD [OF f] have "r \<in> set (db_runs db)" "Run_ID r = TrimSpace ident" by auto
  with f show ?thesis by (simp add: find_run_def)
qed

lemma Lock_step: "db_step zones (svc_db s) (svc_db (snd (Lock env runID actor s)))"
proof (cases "svc_db (snd (Lock env runID actor s)) = svc_db s")
  case False
  then obtain before after db where get: "store_GetRun (env_fault env) (svc_db s) runID = Inr before"
    and prep: "PrepareRunLock before actor (env_now env) = Inr (after, True)"
    and save: "store_SaveRunLock (env_fault env) after (svc_db s) = Inr db"
    and res: "svc_db (snd (Lock env runID actor s)) = db"
    by (auto simp: Lock_def split: sum.splits prod.splits if_splits)
  note p = PrepareRunLock_Inr [OF prep]
  have same: "Run_ID after = Run_ID before" "Run_Status after = Run_Status before" by (subst p(5), simp)+
  have "keeps_locked (svc_db s) db"
    using rs.keeps_locked_lock [OF save, of before] store_GetRun_Inr [OF get] p(3) same by simp
  moreover have "db_runs db = db_upsert Run_ID (db_runs (svc_db s)) after" "db_rules db = db_rules (svc_db s)"
    using save by (auto simp: store_SaveRunLock_def rbind_eq_Inr_iff db_save_def split: option.splits)
  moreover from this(1) have "runs_ok db" if "runs_ok (svc_db s)"
    using that set_upsert [of Run_ID "db_runs (svc_db s)" after] p(1) same by (auto simp: runs_ok_def)
  ultimately show ?thesis by (simp add: res db_step_def rules_ok_def)
qed simp

lemma run_due_rule_step: "db_step zones (svc_db s) (svc_db (snd (run_due_rule env now rule s)))"
  using service_Run_step [of zones s env "Rule_ID rule"]
  by (simp add: run_due_rule_def split: sum.split prod.split option.split) (metis snd_conv)

lemma run_due_rules_step: "db_step zones (svc_db s) (svc_db (snd (run_due_rules envs now rules s)))"
proof (induction rules arbitrary: s)
  case Nil
  show ?case by simp
next
  case (Cons rule rules)
  obtain run s1 where 1: "run_due_rule (envs rule) now rule s = (run, s1)" by fastforce
  have "db_step zones (svc_db s) (svc_db s1)" using run_due_rule_step [of zones s "envs rule" now rule] by (simp add: 1)
  then show ?case using Cons.IH [of "s1\<lparr>svc_audits := svc_audits s1 @ [run]\<rparr>"]
    by (simp add: 1 Let_def split: prod.split) (metis db_step_trans snd_conv)
qed

section \<open>The service as a transition system\<close>

inductive service_step :: "zone_db \<Rightarrow> Service \<Rightarrow> Service \<Rightarrow> bool" for zones where
  create: "env_zones env = zones \<Longrightarrow> service_step zones s (snd (CreateRule env req actor s))"
| update: "env_zones env = zones \<Longrightarrow> service_step zones s (snd (UpdateRule env ident patch actor s))"
| run: "service_step zones s (snd (snd (service_Run env ruleID request trigger actor s)))"
| recalculate: "service_step zones s (snd (snd (Recalculate env runID s)))"
| lock: "service_step zones s (snd (Lock env runID actor s))"
| due: "service_step zones s (snd (RunDue fault envs now s))"

lemma service_step_db: "service_step zones s s' \<Longrightarrow> db_step zones (svc_db s) (svc_db s')"
proof (induction rule: service_step.induct)
  case (create env s req actor)
  then show ?case using CreateRule_step [of env] by simp
next
  case (update env s ident patch actor)
  then show ?case using UpdateRule_step [of env] by simp
next
  case (due s fault envs now)
  show ?case unfolding RunDue_def by (rule run_due_rules_step)
qed (rule service_Run_step Recalculate_step Lock_step)+

lemma service_steps_db: "(service_step zones)\<^sup>*\<^sup>* s s' \<Longrightarrow> db_step zones (svc_db s) (svc_db s')"
  by (induction rule: rtranclp_induct) (auto intro: db_step_trans service_step_db)

lemma commit_active [simp]: "svc_active (snd (commit s r)) = svc_active s"
  by (auto simp: commit_def split: sum.split)

lemma service_Run_active [simp]: "svc_active (snd (snd (service_Run env ruleID request trigger actor s))) = svc_active s"
  by (cases "run_body env ruleID request trigger actor (svc_db s)")
    (auto simp: service_Run_def svc_begin_def svc_end_def)

lemma Recalculate_active [simp]: "svc_active (snd (snd (Recalculate env runID s))) = svc_active s"
  by (cases "recalculate_body env runID (svc_db s)") (auto simp: Recalculate_def svc_begin_def svc_end_def)

lemma run_due_rule_active [simp]: "svc_active (snd (run_due_rule env now rule s)) = svc_active s"
proof (cases "scheduledPeriod (env_zones env) rule now")
  case (Inl e)
  then show ?thesis by (simp add: run_due_rule_def split: prod.split)
next
  case (Inr p)
  obtain t u where p: "p = (t, u)" by fastforce
  obtain run err s1 where r: "service_Run env (Rule_ID rule) \<lparr>RunInput_PeriodStart = t, RunInput_PeriodEnd = u\<rparr>
      ''scheduled'' ''system'' s = (run, err, s1)" by (metis prod_cases3)
  have "svc_active s1 = svc_active s"
    using service_Run_active [of env "Rule_ID rule" "\<lparr>RunInput_PeriodStart = t, RunInput_PeriodEnd = u\<rparr>"
        "''scheduled''" "''system''" s] unfolding r by simp
  then show ?thesis by (cases err) (simp_all add: run_due_rule_def Inr p r split: prod.split)
qed

lemma run_due_rules_active: "svc_active (snd (run_due_rules envs now rules s)) = svc_active s"
proof (induction rules arbitrary: s)
  case Nil
  show ?case by simp
next
  case (Cons rule rules)
  obtain run s1 where 1: "run_due_rule (envs rule) now rule s = (run, s1)" by fastforce
  have "svc_active s1 = svc_active s" using run_due_rule_active [of "envs rule" now rule s] by (simp add: 1)
  then show ?case using Cons.IH [of "s1\<lparr>svc_audits := svc_audits s1 @ [run]\<rparr>"]
    by (simp add: 1 Let_def split: prod.split) (metis snd_conv)
qed

lemma service_step_active: "service_step zones s s' \<Longrightarrow> svc_active s' = svc_active s"
  by (induction rule: service_step.induct)
    (auto simp: CreateRule_def UpdateRule_def Let_def RunDue_def run_due_rules_active Lock_def
      split: sum.split prod.split)

lemma service_steps_active: "(service_step zones)\<^sup>*\<^sup>* s s' \<Longrightarrow> svc_active s' = svc_active s"
  by (induction rule: rtranclp_induct) (auto dest: service_step_active)

section \<open>Concurrent runs\<close>

text \<open>Calls in flight, by key: a call enters through \<open>begin\<close>, works on the tables and leaves through
  \<open>end\<close>, interleaved with others in any order.\<close>

inductive flight_step :: "Service \<times> string list \<Rightarrow> Service \<times> string list \<Rightarrow> bool" where
  enter: "svc_begin key s = (True, s') \<Longrightarrow> flight_step (s, fl) (s', key # fl)"
| refused: "svc_begin key s = (False, s') \<Longrightarrow> flight_step (s, fl) (s', fl)"
| work: "flight_step (s, fl) (s\<lparr>svc_db := db, svc_audits := audits\<rparr>, fl)"
| leave: "key \<in> set fl \<Longrightarrow> flight_step (s, fl) (svc_end key s, remove1 key fl)"

definition flight_inv :: "Service \<times> string list \<Rightarrow> bool" where
  "flight_inv = (\<lambda>(s, fl). distinct fl \<and> set fl = svc_active s)"

lemma svc_begin_True:
  "svc_begin key s = (True, s') \<longleftrightarrow> key \<notin> svc_active s \<and> s' = s\<lparr>svc_active := insert key (svc_active s)\<rparr>"
  unfolding svc_begin_def by (cases "key \<in> svc_active s") (simp_all only: if_True if_False prod.inject simp_thms, metis)

lemma flight_step_inv: "flight_step x y \<Longrightarrow> flight_inv x \<Longrightarrow> flight_inv y"
proof (induction rule: flight_step.induct)
  case (enter key s s' fl)
  then have "key \<notin> svc_active s" "svc_active s' = insert key (svc_active s)"
    by (simp_all add: svc_begin_True)
  with enter.prems show ?case by (simp add: flight_inv_def)
next
  case (refused key s s' fl)
  then show ?case by (cases "key \<in> svc_active s") (simp_all add: svc_begin_def)
next
  case (leave key fl s)
  then show ?case by (simp add: flight_inv_def svc_end_def set_remove1_eq)
qed (simp add: flight_inv_def)

lemma flight_steps_inv: "flight_step\<^sup>*\<^sup>* x y \<Longrightarrow> flight_inv x \<Longrightarrow> flight_inv y"
  by (induction rule: rtranclp_induct) (auto intro: flight_step_inv)

section \<open>Export\<close>

definition export_items :: "recon_db \<Rightarrow> string \<Rightarrow> string \<Rightarrow> Item list" where
  "export_items db runID status = map maskItem (sort_key Item_ID (filter (batch_selected runID status (status = [])) (db_items db)))"

lemma maskItem_ID [simp]: "Item_ID (maskItem i) = Item_ID i"
  by (simp add: maskItem_def)

text \<open>The batch after an identifier is a prefix of the items behind it.\<close>

lemma sort_key_filter_greater:
  "filter (\<lambda>x. a < f x) (sort_key f xs) = sort_key f (filter (\<lambda>x. a < f x) xs)"
  by (rule filter_sort)

lemma sorted_le_last: "sorted xs \<Longrightarrow> x \<in> set xs \<Longrightarrow> x \<le> last xs" for x :: "'a::linorder"
  by (induction xs) auto

lemma export_loop_prefix:
  fixes limit :: int64
  assumes "\<forall>i \<in> set (db_items db). Item_ID i \<noteq> [] \<and> TrimSpace (Item_ID i) = Item_ID i"
    and d: "distinct (map Item_ID (db_items db))" and each: "\<forall>b. each b = None"
    and rest: "rest = sort_key Item_ID (filter (\<lambda>i. batch_selected runID status (status = []) i \<and>
                (after \<noteq> [] \<longrightarrow> after < Item_ID i)) (db_items db))"
    and trim: "TrimSpace after = after" and n: "length rest < n"
  shows "\<exists>batches missing. export_loop n reads db runID status limit each after = Some (batches, None) \<and>
    concat batches @ missing = map maskItem rest \<and> (missing \<noteq> [] \<longrightarrow> reads (length batches) \<noteq> None)"
  using rest trim n
proof (induction n arbitrary: after rest reads)
  case 0
  then show ?case by simp
next
  case (Suc n)
  define k where "k = nat (if limit \<le> 0 \<or> limit > 1000 then 500 else limit)"
  have k: "0 < k" by (simp add: k_def)
  have batch: "store_ListItemBatch (reads 0) db runID status after (status = []) limit = map maskItem (db_find (reads 0) (take k rest))"
    unfolding store_ListItemBatch_def Let_def Suc.prems(2) k_def Suc.prems(1) by simp
  show ?case
  proof (cases "rest = [] \<or> reads 0 \<noteq> None")
    case True
    then have "db_find (reads 0) (take k rest) = []" by (auto simp: db_find_def split: option.split)
    then have "export_loop (Suc n) reads db runID status limit each after = Some ([], None)" by (simp add: batch)
    moreover have "map maskItem rest \<noteq> [] \<longrightarrow> reads (length []) \<noteq> None" using True by auto
    ultimately show ?thesis by fastforce
  next
    case False
    define last_id where "last_id = Item_ID (last (take k rest))"
    have ne: "take k rest \<noteq> []" using False k by simp
    have sorted: "sorted (map Item_ID rest)" unfolding Suc.prems(1) by simp
    have sub: "set rest \<subseteq> set (db_items db)" unfolding Suc.prems(1) by auto
    have dr: "distinct (map Item_ID rest)"
    proof -
      have "distinct rest" unfolding Suc.prems(1) using d by (simp add: distinct_map)
      moreover have "inj_on Item_ID (set rest)" using d sub by (auto simp: distinct_map intro: inj_on_subset)
      ultimately show ?thesis by (simp add: distinct_map)
    qed
    have mem: "last (take k rest) \<in> set rest" using ne by (meson in_set_takeD last_in_set)
    then have lid: "last_id \<noteq> []" "TrimSpace last_id = last_id"
      using assms(1) sub by (auto simp: last_id_def)
    have beyond: "after \<noteq> [] \<longrightarrow> after < last_id"
      using mem unfolding last_id_def Suc.prems(1) by auto
    have tail: "drop k rest = sort_key Item_ID (filter (\<lambda>i. batch_selected runID status (status = []) i \<and>
                (last_id \<noteq> [] \<longrightarrow> last_id < Item_ID i)) (db_items db))"
    proof -
      have strict: "\<forall>x \<in> set (take k rest). \<not> last_id < Item_ID x" "\<forall>x \<in> set (drop k rest). last_id < Item_ID x"
      proof -
        have sp: "sorted (map Item_ID (take k rest @ drop k rest))" "distinct (map Item_ID (take k rest @ drop k rest))"
          using sorted dr by simp_all
        have "last_id \<in> set (map Item_ID (take k rest))" using ne by (simp add: last_id_def)
        then have "last_id \<le> Item_ID x \<and> last_id \<noteq> Item_ID x" if "x \<in> set (drop k rest)" for x
          using that sp unfolding map_append sorted_append distinct_append by auto
        then show "\<forall>x \<in> set (drop k rest). last_id < Item_ID x" by (auto intro: le_neq_trans)
        have "\<forall>x \<in> set (map Item_ID (take k rest)). x \<le> last (map Item_ID (take k rest))"
          using sp(1) unfolding map_append sorted_append by (auto intro: sorted_le_last)
        then show "\<forall>x \<in> set (take k rest). \<not> last_id < Item_ID x"
          using ne by (auto simp: last_id_def last_map not_less)
      qed
      have "drop k rest = filter (\<lambda>x. last_id < Item_ID x) (take k rest @ drop k rest)"
        unfolding filter_append using strict by (simp add: filter_empty_conv filter_id_conv)
      also have "\<dots> = filter (\<lambda>x. last_id < Item_ID x) rest" by simp
      also have "\<dots> = sort_key Item_ID (filter (\<lambda>x. last_id < Item_ID x) (filter (\<lambda>i. batch_selected runID status (status = []) i \<and>
                (after \<noteq> [] \<longrightarrow> after < Item_ID i)) (db_items db)))"
        unfolding Suc.prems(1) by (rule sort_key_filter_greater)
      also have "filter (\<lambda>x. last_id < Item_ID x) (filter (\<lambda>i. batch_selected runID status (status = []) i \<and>
                (after \<noteq> [] \<longrightarrow> after < Item_ID i)) (db_items db)) =
          filter (\<lambda>i. batch_selected runID status (status = []) i \<and> (last_id \<noteq> [] \<longrightarrow> last_id < Item_ID i)) (db_items db)"
        unfolding filter_filter using beyond lid(1) by (intro filter_cong) auto
      finally show ?thesis .
    qed
    have "length (drop k rest) < n" using Suc.prems(3) False k by (cases rest) auto
    from Suc.IH [OF tail lid(2) this, of "\<lambda>i. reads (Suc i)"] obtain batches missing where
        b: "export_loop n (\<lambda>i. reads (Suc i)) db runID status limit each last_id = Some (batches, None)"
          "concat batches @ missing = map maskItem (drop k rest)" "missing \<noteq> [] \<longrightarrow> reads (Suc (length batches)) \<noteq> None"
      by blast
    have "Item_ID (last (map maskItem (take k rest))) = last_id" using ne by (simp add: last_map last_id_def)
    then have "export_loop (Suc n) reads db runID status limit each after = Some (map maskItem (take k rest) # batches, None)"
      using ne each b(1) False batch by (simp add: db_find_def)
    moreover have "concat (map maskItem (take k rest) # batches) @ missing = map maskItem rest"
      using b(2) by (simp flip: map_append)
    ultimately show ?thesis using b(3) by fastforce
  qed
qed

section \<open>Properties\<close>

definition sample_item :: Item where
  "sample_item = \<lparr>Item_ID = ''recitem_1'', Item_RunID = ''recon_1'', Item_MatchKey = [], Item_Status = ProviderOnly,
     Item_BucketStart = 0, Item_BucketEnd = 0, Item_RequestID = [], Item_Provider = [], Item_ResourceAccount = [],
     Item_ResourceAccountMasked = [], Item_Model = [], Item_Project = [], Item_Currency = [], Item_ProviderAmount = [],
     Item_TokenHubAmount = [], Item_DifferenceAmount = [], Item_DifferenceRatio = [], Item_PossibleReason = [],
     Item_ProviderRecordIDs = [''bill_1''], Item_TokenHubRecordIDs = [], Item_CreatedAt = 0\<rparr>"

definition sample_service :: Service where
  "sample_service = \<lparr>svc_active = {},
     svc_db = \<lparr>db_rules = [], db_runs = [sample_run\<lparr>Run_Status := RunSucceeded, Run_LockedAt := Some 7\<rparr>],
       db_items = [sample_item], db_usages = []\<rparr>, svc_audits = []\<rparr>"

definition sample_env :: service_env where
  "sample_env = \<lparr>env_now = 0, env_zones = \<lambda>_. Some UTC, env_sha = (\<lambda>s. s), env_quote = (\<lambda>s. s),
     env_connector = (\<lambda>_. Inl (OtherError ''offline'')), env_bills = (\<lambda>_ _ _. Inr []), env_fault = (\<lambda>_. None),
     env_ctx_err = None, env_rand = ''1''\<rparr>"

lemma sample_find_run:
  "find_run (svc_db sample_service) ''recon_1'' = Some (sample_run\<lparr>Run_Status := RunSucceeded, Run_LockedAt := Some 7\<rparr>)"
  by (simp add: find_run_def sample_service_def sample_run_def)

text \<open>(C33) A locked run is immutable: whatever sequence of operations the service performs (rule
  changes, runs, recalculations, further locks, scheduled runs), the stored run and its items
  stay exactly as they were when it was locked.\<close>

theorem locked_run_frozen:
  assumes "(service_step zones)\<^sup>*\<^sup>* s s'"
    and "find_run (svc_db s) ident = Some run" and "Run_LockedAt run \<noteq> None"
  shows "find_run (svc_db s') ident = Some run \<and> run_items (svc_db s') ident = run_items (svc_db s) ident"
  using service_steps_db [OF assms(1)] assms(2,3) by (simp add: db_step_def rs.keeps_locked_def)

theorem locked_run_frozen_witness:
  "find_run (svc_db (snd (snd (Recalculate sample_env ''recon_1'' sample_service)))) ''recon_1'' =
     Some (sample_run\<lparr>Run_Status := RunSucceeded, Run_LockedAt := Some 7\<rparr>)"
proof -
  have "(service_step zones)\<^sup>*\<^sup>* sample_service (snd (snd (Recalculate sample_env ''recon_1'' sample_service)))" for zones
    by (intro r_into_rtranclp service_step.recalculate)
  from locked_run_frozen [OF this sample_find_run] show ?thesis by simp
qed

text \<open>(C34) From a state without rules or runs, every reachable state has well-formed rules, locks
  only on succeeded runs, and no key left in the set of active calculations.\<close>

theorem service_invariant:
  assumes "(service_step zones)\<^sup>*\<^sup>* s s'" and "db_rules (svc_db s) = []" and "db_runs (svc_db s) = []"
    and "svc_active s = {}"
  shows "(\<forall>rule \<in> set (db_rules (svc_db s')). rule_wf zones rule) \<and>
    (\<forall>run \<in> set (db_runs (svc_db s')). Run_LockedAt run \<noteq> None \<longrightarrow> Run_Status run = RunSucceeded) \<and>
    svc_active s' = {}"
  using service_steps_db [OF assms(1)] service_steps_active [OF assms(1)] assms(2-4)
  by (simp add: db_step_def runs_ok_def rules_ok_def)

definition empty_service :: Service where
  "empty_service = \<lparr>svc_active = {}, svc_db = \<lparr>db_rules = [], db_runs = [], db_items = [], db_usages = []\<rparr>, svc_audits = []\<rparr>"

theorem service_invariant_witness:
  "svc_active (snd (snd (service_Run sample_env ''recrule_1'' \<lparr>RunInput_PeriodStart = 0, RunInput_PeriodEnd = 1\<rparr> [] [] empty_service))) = {}"
proof -
  let ?s' = "snd (snd (service_Run sample_env ''recrule_1'' \<lparr>RunInput_PeriodStart = 0, RunInput_PeriodEnd = 1\<rparr> [] [] empty_service))"
  have "(service_step (\<lambda>_. None))\<^sup>*\<^sup>* empty_service ?s'" by (intro r_into_rtranclp service_step.run)
  from service_invariant [OF this] show ?thesis by (simp add: empty_service_def)
qed

text \<open>(C35) A recalculation that fails, for whatever reason, leaves the stored run, its items and all
  other tables as they were: the previous result is not lost.\<close>

theorem failed_recalculation_keeps_tables:
  assumes "Recalculate env runID s = (run, Some e, s')"
  shows "svc_db s' = svc_db s"
proof -
  have calc: "db' = db" if "calculateAndSave env r True db = (run, Some e, db')" for r db db'
    using that by (auto simp: calculateAndSave_def Let_def split: option.splits sum.splits prod.splits)
  have body: "db' = db" if "recalculate_body env runID db = (run, Some e, db')" for db db'
    using that calc by (auto simp: recalculate_body_def split: sum.splits)
  show ?thesis
  proof (cases "''run:'' @ runID \<in> svc_active s")
    case True
    then show ?thesis using assms by (simp add: Recalculate_def svc_begin_def)
  next
    case False
    obtain r err db where b: "recalculate_body env runID (svc_db s) = (r, err, db)" by (metis prod_cases3)
    from assms False b have "r = run" "err = Some e" "s' = svc_end (''run:'' @ runID)
        (s\<lparr>svc_active := insert (''run:'' @ runID) (svc_active s), svc_db := db\<rparr>)"
      by (simp_all add: Recalculate_def svc_begin_def)
    with body b show ?thesis by (simp add: svc_end_def)
  qed
qed

lemma sample_recalculate_refused:
  "Recalculate sample_env ''recon_1'' sample_service =
     (zero_Run, Some (NewError ErrorConflict ''reconciliation_run_locked'' ''Locked reconciliation runs cannot be recalculated''),
      sample_service)"
proof -
  have trim: "TrimSpace ''recon_1'' = ''recon_1''" by (rule TrimSpace_graph_all) (simp add: is_graph_def code_of_def)
  show ?thesis
    by (simp add: Recalculate_def recalculate_body_def store_GetRun_def db_first_def trim sample_service_def sample_run_def
        sample_env_def svc_begin_def svc_end_def ValidateRunReplacement_def)
qed

theorem failed_recalculation_keeps_tables_witness:
  "svc_db (snd (snd (Recalculate sample_env ''recon_1'' sample_service))) = svc_db sample_service"
  using failed_recalculation_keeps_tables [OF sample_recalculate_refused] sample_recalculate_refused by simp

text \<open>Calculations in flight exclude each other: however calls interleave, no key is in flight
  twice, and the set of active keys is exactly the set of calls in flight.\<close>

theorem flights_exclusive:
  assumes "flight_step\<^sup>*\<^sup>* (s, []) (s', fl)" and "svc_active s = {}"
  shows "distinct fl \<and> set fl = svc_active s'"
  using flight_steps_inv [OF assms(1)] assms(2) by (simp add: flight_inv_def)

theorem flights_exclusive_witness:
  "distinct [''rule:a''] \<and> set [''rule:a''] = svc_active (sample_service\<lparr>svc_active := {''rule:a''}\<rparr>)"
proof (rule flights_exclusive)
  show "flight_step\<^sup>*\<^sup>* (sample_service, []) (sample_service\<lparr>svc_active := {''rule:a''}\<rparr>, [''rule:a''])"
    by (intro r_into_rtranclp flight_step.enter) (simp add: svc_begin_def sample_service_def)
  show "svc_active sample_service = {}" by (simp add: sample_service_def)
qed

text \<open>(C36) An export always ends and hands over selected items of the run exactly once, in the order of
  identifiers, whatever the batch size; one round per item and one more are enough. Without a failing
  query it hands over all of them. Items are missing only when the query after the last batch failed; the
  export then ends without an error all the same, since the store drops the error of that query.\<close>

theorem Export_complete:
  assumes "store_GetRun (env_fault env) (svc_db s) runID = Inr run"
    and "start run = None" and "\<forall>b. each b = None"
    and "\<forall>i \<in> set (db_items (svc_db s)). Item_ID i \<noteq> [] \<and> TrimSpace (Item_ID i) = Item_ID i"
    and "distinct (map Item_ID (db_items (svc_db s)))" and "length (db_items (svc_db s)) < fuel"
  shows "\<exists>batches missing. Export fuel env reads s runID status limit start each = Some (batches, None) \<and>
    concat batches @ missing = export_items (svc_db s) runID status \<and>
    (missing \<noteq> [] \<longrightarrow> reads (length batches) \<noteq> None)"
proof -
  let ?db = "svc_db s" and ?P = "batch_selected runID status (status = [])"
  let ?rest = "sort_key Item_ID (filter ?P (db_items (svc_db s)))"
  have "length ?rest \<le> length (db_items ?db)" by simp
  then have n: "length ?rest < fuel" using assms(6) by (rule le_less_trans)
  have rest: "?rest = sort_key Item_ID (filter (\<lambda>i. ?P i \<and> ([] \<noteq> [] \<longrightarrow> [] < Item_ID i)) (db_items ?db))" by simp
  from export_loop_prefix [OF assms(4,5,3) rest TrimSpace_Nil n, of reads limit]
  show ?thesis using assms(1,2) by (simp add: Export_def export_items_def)
qed

text \<open>With a working database everything is handed over; when the first query fails, nothing is, and the
  export still succeeds.\<close>

theorem Export_complete_witness:
  "(\<exists>batches. Export 2 sample_env (\<lambda>_. None) sample_service ''recon_1'' [] 1 (\<lambda>_. None) (\<lambda>_. None) = Some (batches, None) \<and>
     concat batches = export_items (svc_db sample_service) ''recon_1'' []) \<and>
   Export 2 sample_env (\<lambda>_. Some (OtherError ''timeout'')) sample_service ''recon_1'' [] 1 (\<lambda>_. None) (\<lambda>_. None) = Some ([], None)"
proof (intro conjI)
  have trim: "TrimSpace ''recon_1'' = ''recon_1''" "TrimSpace ''recitem_1'' = ''recitem_1''"
    by (rule TrimSpace_graph_all; simp add: is_graph_def code_of_def)+
  have run: "store_GetRun (env_fault sample_env) (svc_db sample_service) ''recon_1'' =
      Inr (sample_run\<lparr>Run_Status := RunSucceeded, Run_LockedAt := Some 7\<rparr>)"
    by (simp add: store_GetRun_def db_first_def trim sample_service_def sample_run_def sample_env_def)
  have ids: "\<forall>i\<in>set (db_items (svc_db sample_service)). Item_ID i \<noteq> [] \<and> TrimSpace (Item_ID i) = Item_ID i"
    by (simp add: sample_service_def sample_item_def trim)
  have d: "distinct (map Item_ID (db_items (svc_db sample_service)))" "length (db_items (svc_db sample_service)) < 2"
    by (simp_all add: sample_service_def)
  show "\<exists>batches. Export 2 sample_env (\<lambda>_. None) sample_service ''recon_1'' [] 1 (\<lambda>_. None) (\<lambda>_. None) = Some (batches, None) \<and>
     concat batches = export_items (svc_db sample_service) ''recon_1'' []"
    using Export_complete [OF run _ _ ids d, of "\<lambda>_. None" "\<lambda>_. None" "\<lambda>_. None" "[]" 1] by fastforce
  show "Export 2 sample_env (\<lambda>_. Some (OtherError ''timeout'')) sample_service ''recon_1'' [] 1 (\<lambda>_. None) (\<lambda>_. None) = Some ([], None)"
    by (simp add: Export_def run numeral_2_eq_2 store_ListItemBatch_def db_find_def)
qed

end
