(* ===== verification/GoParse.thy ===== *)
theory GoParse
  imports GoTime
begin

text \<open>
  Readers of Go's standard library that the server calls on configured text: \<open>strconv.Atoi\<close>
  and \<open>time.Parse(time.RFC3339, s)\<close>, as options, and \<open>time.LoadLocation\<close> over a zone
  database. \<open>time.Parse\<close> is the library's general parser run on the RFC 3339 layout: the hour
  may have one digit, the fraction may follow a comma or a period and is cut after nine digits,
  and an offset may name hour 24 or minute 60.
\<close>

section \<open>Integers\<close>

definition Atoi :: "string \<Rightarrow> int64 option" where
  "Atoi s =
     (let neg = (s \<noteq> [] \<and> hd s = CHR ''-'');
          body = (if s \<noteq> [] \<and> (hd s = CHR ''-'' \<or> hd s = CHR ''+'') then tl s else s)
      in if body = [] \<or> \<not> list_all is_digit_char body then None
         else let n = (if neg then - int (digits_val body) else int (digits_val body))
              in if in_int64 n then Some n else None)"

section \<open>Instants\<close>

definition read_digits :: "nat \<Rightarrow> string \<Rightarrow> (int \<times> string) option" where
  "read_digits k s =
     (if length (take k s) = k \<and> list_all is_digit_char (take k s)
      then Some (int (digits_val (take k s)), drop k s) else None)"

text \<open>\<open>getnum(s, false)\<close>: one digit, or two when the second byte is a digit too.\<close>

definition getnum :: "string \<Rightarrow> (int \<times> string) option" where
  "getnum s = (case read_digits 2 s of Some r \<Rightarrow> Some r | None \<Rightarrow> read_digits 1 s)"

definition skip_byte :: "char \<Rightarrow> string \<Rightarrow> string option" where
  "skip_byte c s = (case s of [] \<Rightarrow> None | x # xs \<Rightarrow> if x = c then Some xs else None)"

definition parse_fraction :: "string \<Rightarrow> int \<times> string" where
  "parse_fraction s =
     (case s of
        c # d # rest \<Rightarrow>
          if (c = CHR ''.'' \<or> c = CHR '','') \<and> is_digit_char d then
            let ds = takeWhile is_digit_char (d # rest); used = take 9 ds
            in (int (digits_val used) * 10 ^ (9 - length used), dropWhile is_digit_char (d # rest))
          else (0, s)
      | _ \<Rightarrow> (0, s))"

definition parse_zone :: "string \<Rightarrow> (int \<times> string) option" where
  "parse_zone s =
     (case s of
        [] \<Rightarrow> None
      | c # rest \<Rightarrow>
          if c = CHR ''Z'' then Some (0, rest)
          else if c = CHR ''+'' \<or> c = CHR ''-'' then
            Option.bind (read_digits 2 rest) (\<lambda>(hr, s1).
            Option.bind (skip_byte (CHR '':'') s1) (\<lambda>s2.
            Option.bind (read_digits 2 s2) (\<lambda>(mm, s3).
              if hr > 24 \<or> mm > 60 then None
              else Some ((if c = CHR ''-'' then - 1 else 1) * ((hr * 60 + mm) * 60), s3))))
          else None)"

definition is_leap :: "int \<Rightarrow> bool" where
  "is_leap y \<longleftrightarrow> y mod 4 = 0 \<and> (y mod 100 \<noteq> 0 \<or> y mod 400 = 0)"

definition days_in :: "int \<Rightarrow> int \<Rightarrow> int" where
  "days_in y m = (if m = 2 then (if is_leap y then 29 else 28)
                  else if m \<in> {4, 6, 9, 11} then 30 else 31)"

definition parse_date :: "string \<Rightarrow> ((int \<times> int \<times> int) \<times> string) option" where
  "parse_date s =
     Option.bind (read_digits 4 s) (\<lambda>(y, s1).
     Option.bind (skip_byte (CHR ''-'') s1) (\<lambda>s2.
     Option.bind (read_digits 2 s2) (\<lambda>(m, s3).
     Option.bind (skip_byte (CHR ''-'') s3) (\<lambda>s4.
     Option.bind (read_digits 2 s4) (\<lambda>(d, s5).
       if m < 1 \<or> 12 < m \<or> d < 1 \<or> days_in y m < d then None else Some ((y, m, d), s5))))))"

definition parse_clock :: "string \<Rightarrow> ((int \<times> int \<times> int) \<times> string) option" where
  "parse_clock s =
     Option.bind (getnum s) (\<lambda>(h, s1).
     Option.bind (skip_byte (CHR '':'') s1) (\<lambda>s2.
     Option.bind (read_digits 2 s2) (\<lambda>(m, s3).
     Option.bind (skip_byte (CHR '':'') s3) (\<lambda>s4.
     Option.bind (read_digits 2 s4) (\<lambda>(sec, s5).
       if h > 23 \<or> m > 59 \<or> sec > 59 then None else Some ((h, m, sec), s5))))))"

definition parse_rfc3339 :: "string \<Rightarrow> instant option" where
  "parse_rfc3339 s =
     Option.bind (parse_date s) (\<lambda>((y, mo, d), s1).
     Option.bind (skip_byte (CHR ''T'') s1) (\<lambda>s2.
     Option.bind (parse_clock s2) (\<lambda>((h, mi, sec), s3).
     case parse_fraction s3 of (ns, s4) \<Rightarrow>
     Option.bind (parse_zone s4) (\<lambda>(offset, s5).
       if s5 \<noteq> [] then None
       else Some ((days_from_civil y mo d * 86400 + h * 3600 + mi * 60 + sec - offset) * 1000000000 + ns)))))"

text \<open>\<open>t, _ := time.Parse(time.RFC3339, s)\<close>: the zero time when the text is not an instant.\<close>

definition parse_or_zero :: "string \<Rightarrow> instant" where
  "parse_or_zero s = (case parse_rfc3339 s of None \<Rightarrow> zero_time | Some t \<Rightarrow> t)"

section \<open>Locations\<close>

definition LoadLocation :: "zone_db \<Rightarrow> string \<Rightarrow> location option" where
  "LoadLocation zones name = (if name = [] \<or> name = ''UTC'' then Some UTC else zones name)"

lemma LoadLocation_UTC [simp]: "LoadLocation zones [] = Some UTC" "LoadLocation zones ''UTC'' = Some UTC"
  by (simp_all add: LoadLocation_def)

lemma Atoi_range: "Atoi s = Some n \<Longrightarrow> in_int64 n"
  by (auto simp: Atoi_def Let_def split: if_splits)

lemma parse_rfc3339_Nil [simp]: "parse_rfc3339 [] = None"
  by (simp add: parse_rfc3339_def parse_date_def read_digits_def)

end
