(* ===== verification/ServerTypes.thy ===== *)
theory ServerTypes
  imports GoFloat GoParse
begin

text \<open>
  Values the gateway's server package shares between its components
  (\<open>src/backend/internal/server\<close>): the HTTP error that a refused operation returns, the token
  counters of a usage report with the saturating addition used on them, and the total that is
  metered against token quotas.
\<close>

record HTTPError =
  err_Status :: int
  err_Code :: string
  err_Message :: string
  err_Details :: "(string \<times> string) list"
  err_Headers :: "(string \<times> string) list"

definition NewHTTPError :: "int \<Rightarrow> string \<Rightarrow> string \<Rightarrow> HTTPError" where
  "NewHTTPError status code message =
     \<lparr>err_Status = status, err_Code = code, err_Message = message, err_Details = [], err_Headers = []\<rparr>"

section \<open>Token counters\<close>

record Usage =
  PromptTokens :: int64
  CachedInputTokens :: int64
  CacheWriteInputTokens :: int64
  CacheWrite5mInputTokens :: int64
  CacheWrite1hInputTokens :: int64
  InputAudioTokens :: int64
  CompletionTokens :: int64
  ReasoningOutputTokens :: int64
  OutputAudioTokens :: int64
  AcceptedPredictionTokens :: int64
  RejectedPredictionTokens :: int64
  TotalTokens :: int64

definition zero_Usage :: Usage where
  "zero_Usage =
     \<lparr>PromptTokens = 0, CachedInputTokens = 0, CacheWriteInputTokens = 0, CacheWrite5mInputTokens = 0,
      CacheWrite1hInputTokens = 0, InputAudioTokens = 0, CompletionTokens = 0, ReasoningOutputTokens = 0,
      OutputAudioTokens = 0, AcceptedPredictionTokens = 0, RejectedPredictionTokens = 0, TotalTokens = 0\<rparr>"

definition usage_counters :: "Usage \<Rightarrow> int64 list" where
  "usage_counters u =
     [PromptTokens u, CachedInputTokens u, CacheWriteInputTokens u, CacheWrite5mInputTokens u,
      CacheWrite1hInputTokens u, InputAudioTokens u, CompletionTokens u, ReasoningOutputTokens u,
      OutputAudioTokens u, AcceptedPredictionTokens u, RejectedPredictionTokens u, TotalTokens u]"

definition usage_in_range :: "Usage \<Rightarrow> bool" where
  "usage_in_range u \<longleftrightarrow> list_all in_int64 (usage_counters u)"

definition minInt64 :: "int64 \<Rightarrow> int64 \<Rightarrow> int64" where
  "minInt64 left right = (if left < right then left else right)"

definition maxInt64 :: "int64 \<Rightarrow> int64 \<Rightarrow> int64" where
  "maxInt64 left right = (if left > right then left else right)"

definition saturatingAddNonNegative :: "int64 \<Rightarrow> int64 \<Rightarrow> int64" where
  "saturatingAddNonNegative a0 b0 =
     (let a = maxInt64 a0 0; b = maxInt64 b0 0
      in if a > max_int64 - b then max_int64 else wrap64 (a + b))"

definition meteredTokens :: "Usage \<Rightarrow> int64" where
  "meteredTokens usage =
     (if TotalTokens usage > 0 then TotalTokens usage
      else if PromptTokens usage > 0 \<or> CompletionTokens usage > 0
      then saturatingAddNonNegative (PromptTokens usage) (CompletionTokens usage)
      else
        let cacheWrites =
              (if CacheWriteInputTokens usage = 0
               then saturatingAddNonNegative (CacheWrite5mInputTokens usage) (CacheWrite1hInputTokens usage)
               else CacheWriteInputTokens usage);
            t1 = saturatingAddNonNegative (CachedInputTokens usage) cacheWrites;
            t2 = saturatingAddNonNegative t1 (InputAudioTokens usage);
            t3 = saturatingAddNonNegative t2 (ReasoningOutputTokens usage);
            t4 = saturatingAddNonNegative t3 (OutputAudioTokens usage);
            t5 = saturatingAddNonNegative t4 (AcceptedPredictionTokens usage)
        in saturatingAddNonNegative t5 (RejectedPredictionTokens usage))"

section \<open>Facts\<close>

lemma minmax_Int64 [simp]: "minInt64 = min" "maxInt64 = max"
  by (auto simp: fun_eq_iff minInt64_def maxInt64_def)

text \<open>The guarded addition never wraps: it is the sum of the non-negative parts, capped.\<close>

lemma saturating_eq: "in_int64 a \<Longrightarrow> in_int64 b \<Longrightarrow>
    saturatingAddNonNegative a b = min max_int64 (max a 0 + max b 0)"
  by (auto simp: saturatingAddNonNegative_def Let_def wrap64_id int64_bounds)

lemma saturating_nonneg [simp]:
  assumes "in_int64 a" and "in_int64 b"
  shows "0 \<le> saturatingAddNonNegative a b" and "saturatingAddNonNegative a b \<le> max_int64"
    and "in_int64 (saturatingAddNonNegative a b)"
  using assms by (auto simp: saturating_eq int64_bounds)

lemma saturating_mono:
  "in_int64 a \<Longrightarrow> in_int64 b \<Longrightarrow> max a 0 \<le> saturatingAddNonNegative a b \<and> max b 0 \<le> saturatingAddNonNegative a b"
  by (auto simp: saturating_eq int64_bounds)

lemma usage_in_rangeD:
  assumes "usage_in_range u"
  shows "in_int64 (PromptTokens u)" "in_int64 (CachedInputTokens u)" "in_int64 (CacheWriteInputTokens u)"
    "in_int64 (CacheWrite5mInputTokens u)" "in_int64 (CacheWrite1hInputTokens u)" "in_int64 (InputAudioTokens u)"
    "in_int64 (CompletionTokens u)" "in_int64 (ReasoningOutputTokens u)" "in_int64 (OutputAudioTokens u)"
    "in_int64 (AcceptedPredictionTokens u)" "in_int64 (RejectedPredictionTokens u)" "in_int64 (TotalTokens u)"
  using assms by (simp_all add: usage_in_range_def usage_counters_def)

text \<open>What is metered is a representable non-negative number of tokens.\<close>

lemma meteredTokens_range:
  assumes "usage_in_range u"
  shows "0 \<le> meteredTokens u \<and> in_int64 (meteredTokens u)"
  using usage_in_rangeD [OF assms] by (simp add: meteredTokens_def Let_def)

lemma foldr_res_unit:
  "foldr_res (\<lambda>x _. f x) xs () = Inr () \<longleftrightarrow> (\<forall>x \<in> set xs. f x = Inr ())"
  by (induction xs) (auto simp: rbind_eq_Inr_iff)

end
