(* ===== verification/Pricing.thy ===== *)
theory Pricing
  imports ServerTypes
begin

text \<open>
  Time-dependent model prices (\<open>pricing_periods.go\<close>, \<open>pricing_period_validation.go\<close>,
  \<open>pricing_time_helpers.go\<close>, \<open>model_price_patch.go\<close> of the server package). A period has a
  weekly window in a time zone and an effective range of instants; \<open>modelPriceAt\<close> takes the
  first period that matches. The theory proves that an accepted schedule has at most one
  matching period at any instant, so that the order of the list does not matter, and that the
  counters the prices are applied to are clamped consistently.

  The array \<open>[7 * 1440]bool\<close> is a list of that length, a metadata map is a HOL map, a
  \<open>*float64\<close> an option. The zone database is a parameter.
\<close>

section \<open>Data\<close>

record ModelPricingPeriod =
  P_Name :: string
  P_Timezone :: string
  P_Weekdays :: "int list"
  P_StartTime :: string
  P_EndTime :: string
  P_EffectiveFrom :: string
  P_EffectiveUntil :: string
  P_InputPriceUSDPer1M :: "f64 option"
  P_OutputPriceUSDPer1M :: "f64 option"
  P_CacheReadPriceUSDPer1M :: "f64 option"
  P_CacheWritePriceUSDPer1M :: "f64 option"
  P_CacheWrite5mPriceUSDPer1M :: "f64 option"
  P_CacheWrite1hPriceUSDPer1M :: "f64 option"

record Model =
  M_Modality :: string
  M_InputPriceUSDPer1M :: f64
  M_CacheReadPriceUSDPer1M :: f64
  M_CacheWritePriceUSDPer1M :: f64
  M_CacheWrite5mPriceUSDPer1M :: f64
  M_CacheWrite1hPriceUSDPer1M :: f64
  M_CacheWritePriceConfigured :: bool
  M_CacheWrite5mPriceConfigured :: bool
  M_CacheWrite1hPriceConfigured :: bool
  M_OutputPriceUSDPer1M :: f64
  M_EmbeddingPriceUSDPer1M :: f64
  M_PricingPeriods :: "ModelPricingPeriod list"
  M_Metadata :: "string \<rightharpoonup> string"

section \<open>Token counters\<close>

definition cacheWriteTokenParts :: "Usage \<Rightarrow> int64 \<times> int64 \<times> int64" where
  "cacheWriteTokenParts usage =
     (let five = maxInt64 (CacheWrite5mInputTokens usage) 0;
          hour = maxInt64 (CacheWrite1hInputTokens usage) 0;
          total0 = maxInt64 (CacheWriteInputTokens usage) 0;
          total = (if total0 = 0 then saturatingAddNonNegative five hour else total0);
          five1 = (if five > total then total else five);
          hour1 = (if hour > total - five1 then total - five1 else hour)
      in (five1, hour1, total - five1 - hour1))"

definition clampBillableInputTokens :: "Usage \<Rightarrow> Usage" where
  "clampBillableInputTokens usage =
     (let cached = minInt64 (maxInt64 (CachedInputTokens usage) 0) (PromptTokens usage);
          five0 = maxInt64 (CacheWrite5mInputTokens usage) 0;
          hour0 = maxInt64 (CacheWrite1hInputTokens usage) 0;
          written0 = maxInt64 (CacheWriteInputTokens usage) 0;
          written1 = (if written0 = 0 then saturatingAddNonNegative five0 hour0 else written0);
          written = minInt64 written1 (maxInt64 (wrap64 (PromptTokens usage - cached)) 0);
          five = minInt64 five0 written;
          hour = minInt64 hour0 (wrap64 (written - five))
      in usage\<lparr>CachedInputTokens := cached, CacheWriteInputTokens := written,
               CacheWrite5mInputTokens := five, CacheWrite1hInputTokens := hour\<rparr>)"

definition independentCacheEvidence :: "Usage \<Rightarrow> Usage \<times> bool" where
  "independentCacheEvidence usage =
     (if PromptTokens usage \<noteq> 0 \<or> CompletionTokens usage \<noteq> 0 \<or> TotalTokens usage \<noteq> 0
      then (zero_Usage, False)
      else let evidence =
             zero_Usage\<lparr>CachedInputTokens := maxInt64 (CachedInputTokens usage) 0,
                        CacheWriteInputTokens := maxInt64 (CacheWriteInputTokens usage) 0,
                        CacheWrite5mInputTokens := maxInt64 (CacheWrite5mInputTokens usage) 0,
                        CacheWrite1hInputTokens := maxInt64 (CacheWrite1hInputTokens usage) 0\<rparr>
           in (evidence, CachedInputTokens evidence > 0 \<or> CacheWriteInputTokens evidence > 0 \<or>
                 CacheWrite5mInputTokens evidence > 0 \<or> CacheWrite1hInputTokens evidence > 0))"

definition restoreIndependentCacheEvidence :: "Usage \<Rightarrow> Usage \<Rightarrow> bool \<Rightarrow> Usage" where
  "restoreIndependentCacheEvidence usage evidence present =
     (if \<not> present then usage
      else usage\<lparr>CachedInputTokens := CachedInputTokens evidence,
                 CacheWriteInputTokens := CacheWriteInputTokens evidence,
                 CacheWrite5mInputTokens := CacheWrite5mInputTokens evidence,
                 CacheWrite1hInputTokens := CacheWrite1hInputTokens evidence\<rparr>)"

text \<open>The counter part of \<open>priceUsageAt\<close>: the signs are clamped, a missing total is filled in
  and the cache counters are bounded by the prompt.\<close>

definition clamp_reported :: "Usage \<Rightarrow> Usage" where
  "clamp_reported usage =
     (let prompt = maxInt64 (PromptTokens usage) 0;
          completion = maxInt64 (CompletionTokens usage) 0;
          total0 = maxInt64 (TotalTokens usage) 0;
          total = (if total0 = 0 then saturatingAddNonNegative prompt completion else total0)
      in clampBillableInputTokens
           (usage\<lparr>PromptTokens := prompt, CompletionTokens := completion, TotalTokens := total\<rparr>))"

section \<open>Clocks and weekly windows\<close>

definition pricingWeekdayMatches :: "int list \<Rightarrow> int \<Rightarrow> bool" where
  "pricingWeekdayMatches days day = (if days = [] then True else list_ex (\<lambda>c. c = day) days)"

definition parsePricingClock :: "string \<Rightarrow> int \<times> bool" where
  "parsePricingClock value0 =
     (let value = TrimSpace value0 in
      if value = [] then (0, False)
      else case Split value (CHR '':'') of
        [h, m] \<Rightarrow>
          (case Atoi h of
             None \<Rightarrow> (0, False)
           | Some hour \<Rightarrow>
               if hour < 0 \<or> hour > 23 then (0, False)
               else case Atoi m of
                 None \<Rightarrow> (0, False)
               | Some minute \<Rightarrow>
                   if minute < 0 \<or> minute > 59 then (0, False) else (hour * 60 + minute, True))
      | _ \<Rightarrow> (0, False))"

definition validPricingClock :: "string \<Rightarrow> bool" where
  "validPricingClock value \<longleftrightarrow> snd (parsePricingClock value) \<and> length (TrimSpace value) = length ''00:00''"

definition pricingEffectiveWindowMatches :: "ModelPricingPeriod \<Rightarrow> instant \<Rightarrow> bool" where
  "pricingEffectiveWindowMatches period instant \<longleftrightarrow>
     (let from = TrimSpace (P_EffectiveFrom period) in
      from = [] \<or> (case parse_rfc3339 from of None \<Rightarrow> False | Some parsed \<Rightarrow> \<not> instant < parsed)) \<and>
     (let until = TrimSpace (P_EffectiveUntil period) in
      until = [] \<or> (case parse_rfc3339 until of None \<Rightarrow> False | Some parsed \<Rightarrow> instant < parsed))"

text \<open>The part of \<open>pricingPeriodMatches\<close> after the conversion to local time: a window that
  crosses midnight belongs to the weekday on which it starts.\<close>

definition clock_matches :: "ModelPricingPeriod \<Rightarrow> int \<Rightarrow> int \<Rightarrow> bool" where
  "clock_matches period weekday0 currentMinute =
     (case parsePricingClock (P_StartTime period) of (startMinute, hasStart) \<Rightarrow>
      case parsePricingClock (P_EndTime period) of (endMinute, hasEnd) \<Rightarrow>
      let weekday = (if hasStart \<and> hasEnd \<and> startMinute > endMinute \<and> currentMinute < endMinute
                     then (weekday0 + 6) mod 7 else weekday0)
      in if \<not> pricingWeekdayMatches (P_Weekdays period) weekday then False
         else if \<not> hasStart \<and> \<not> hasEnd then True
         else if hasStart \<noteq> hasEnd then False
         else if startMinute = endMinute then True
         else if startMinute < endMinute then currentMinute \<ge> startMinute \<and> currentMinute < endMinute
         else currentMinute \<ge> startMinute \<or> currentMinute < endMinute)"

definition pricingPeriodMatches :: "zone_db \<Rightarrow> ModelPricingPeriod \<Rightarrow> instant \<Rightarrow> bool" where
  "pricingPeriodMatches zones period instant =
     (if \<not> pricingEffectiveWindowMatches period instant then False
      else let zone = TrimSpace (P_Timezone period) in
      case (if zone \<noteq> [] then LoadLocation zones zone else Some UTC) of
        None \<Rightarrow> False
      | Some location \<Rightarrow>
          clock_matches period (local_weekday location instant)
            (local_hour location instant * 60 + local_minute location instant))"

definition week_minutes :: nat where
  "week_minutes = 10080"

text \<open>The first minute and the length of the daily window that \<open>pricingWeeklyMinutes\<close> marks.\<close>

definition window_of :: "ModelPricingPeriod \<Rightarrow> int \<times> int" where
  "window_of p =
     (case parsePricingClock (P_StartTime p) of (start0, hasStart) \<Rightarrow>
      case parsePricingClock (P_EndTime p) of (finish, _) \<Rightarrow>
      let duration0 = finish - start0
      in if \<not> hasStart \<or> duration0 = 0 then (0, 1440)
         else if duration0 < 0 then (start0, duration0 + 1440) else (start0, duration0))"

definition pricingWeeklyMinutes :: "ModelPricingPeriod \<Rightarrow> bool list" where
  "pricingWeeklyMinutes p =
     (case window_of p of (start, duration) \<Rightarrow>
        foldl (\<lambda>minutes day.
             if \<not> pricingWeekdayMatches (P_Weekdays p) day then minutes
             else foldl (\<lambda>ms offset. ms[nat ((day * 1440 + start + offset) mod int week_minutes) := True])
                    minutes [0..duration - 1])
           (replicate week_minutes False) [0..6])"

section \<open>Prices in force\<close>

definition priceOverride :: "f64 \<Rightarrow> f64 option \<Rightarrow> f64" where
  "priceOverride fallback override = (case override of None \<Rightarrow> fallback | Some v \<Rightarrow> v)"

definition cacheReadConfiguredKey :: string where
  "cacheReadConfiguredKey = ''cache_read_price_configured''"

definition withConfiguredCacheReadPrice :: "(string \<rightharpoonup> string) \<Rightarrow> bool \<Rightarrow> (string \<rightharpoonup> string)" where
  "withConfiguredCacheReadPrice metadata configured =
     (if configured then metadata(cacheReadConfiguredKey \<mapsto> ''true'')
      else metadata(cacheReadConfiguredKey := None))"

definition apply_period :: "ModelPricingPeriod \<Rightarrow> Model \<Rightarrow> Model" where
  "apply_period period model =
     (let m1 = model\<lparr>M_InputPriceUSDPer1M := priceOverride (M_InputPriceUSDPer1M model) (P_InputPriceUSDPer1M period),
                     M_OutputPriceUSDPer1M := priceOverride (M_OutputPriceUSDPer1M model) (P_OutputPriceUSDPer1M period)\<rparr>;
          m2 = (case P_CacheReadPriceUSDPer1M period of
                  None \<Rightarrow> m1
                | Some v \<Rightarrow> m1\<lparr>M_CacheReadPriceUSDPer1M := v,
                              M_Metadata := withConfiguredCacheReadPrice (M_Metadata m1) True\<rparr>);
          m3 = (case P_CacheWritePriceUSDPer1M period of
                  None \<Rightarrow> m2
                | Some v \<Rightarrow> m2\<lparr>M_CacheWritePriceUSDPer1M := v, M_CacheWritePriceConfigured := True\<rparr>);
          m4 = (case P_CacheWrite5mPriceUSDPer1M period of
                  None \<Rightarrow> m3
                | Some v \<Rightarrow> m3\<lparr>M_CacheWrite5mPriceUSDPer1M := v, M_CacheWrite5mPriceConfigured := True\<rparr>)
      in case P_CacheWrite1hPriceUSDPer1M period of
           None \<Rightarrow> m4
         | Some v \<Rightarrow> m4\<lparr>M_CacheWrite1hPriceUSDPer1M := v, M_CacheWrite1hPriceConfigured := True\<rparr>)"

fun first_period :: "zone_db \<Rightarrow> instant \<Rightarrow> ModelPricingPeriod list \<Rightarrow> Model \<Rightarrow> Model" where
  "first_period zones t [] model = model"
| "first_period zones t (period # rest) model =
     (if \<not> pricingPeriodMatches zones period t then first_period zones t rest model
      else apply_period period model)"

definition modelPriceAt :: "zone_db \<Rightarrow> instant \<Rightarrow> Model \<Rightarrow> instant \<Rightarrow> Model" where
  "modelPriceAt zones now model requestStartedAt =
     first_period zones (if requestStartedAt = zero_time then now else requestStartedAt)
       (M_PricingPeriods model) model"

definition effectiveCacheWritePriceUSDPer1M :: "Model \<Rightarrow> f64" where
  "effectiveCacheWritePriceUSDPer1M model =
     (if M_Modality model = ''embedding'' then Fin 0
      else if M_CacheWritePriceConfigured model then M_CacheWritePriceUSDPer1M model
      else M_InputPriceUSDPer1M model)"

definition effectiveCacheWrite5mPriceUSDPer1M :: "Model \<Rightarrow> f64" where
  "effectiveCacheWrite5mPriceUSDPer1M model =
     (if M_CacheWrite5mPriceConfigured model then M_CacheWrite5mPriceUSDPer1M model
      else effectiveCacheWritePriceUSDPer1M model)"

definition effectiveCacheWrite1hPriceUSDPer1M :: "Model \<Rightarrow> f64" where
  "effectiveCacheWrite1hPriceUSDPer1M model =
     (if M_CacheWrite1hPriceConfigured model then M_CacheWrite1hPriceUSDPer1M model
      else effectiveCacheWritePriceUSDPer1M model)"

section \<open>Validation\<close>

fun bad_price :: "f64 \<Rightarrow> bool" where
  "bad_price NaN = True"
| "bad_price (Inf _) = True"
| "bad_price (Fin q) = (q < 0)"

definition invalidModelPricingPeriod :: "int \<Rightarrow> string \<Rightarrow> HTTPError" where
  "invalidModelPricingPeriod index message =
     NewHTTPError 400 ''invalid_model_pricing_period'' (''pricing_periods['' @ show_int index @ '']: '' @ message)"

definition pricingPeriodPriceOverrides :: "ModelPricingPeriod \<Rightarrow> (string \<times> f64 option) list" where
  "pricingPeriodPriceOverrides period =
     [(''input_price_usd_per_1m'', P_InputPriceUSDPer1M period),
      (''output_price_usd_per_1m'', P_OutputPriceUSDPer1M period),
      (''cache_read_price_usd_per_1m'', P_CacheReadPriceUSDPer1M period),
      (''cache_write_price_usd_per_1m'', P_CacheWritePriceUSDPer1M period),
      (''cache_write_5m_price_usd_per_1m'', P_CacheWrite5mPriceUSDPer1M period),
      (''cache_write_1h_price_usd_per_1m'', P_CacheWrite1hPriceUSDPer1M period)]"

definition pricingEffectiveRangesOverlap :: "ModelPricingPeriod \<Rightarrow> ModelPricingPeriod \<Rightarrow> bool" where
  "pricingEffectiveRangesOverlap a b =
     (let af = parse_or_zero (TrimSpace (P_EffectiveFrom a)); au = parse_or_zero (TrimSpace (P_EffectiveUntil a));
          bf = parse_or_zero (TrimSpace (P_EffectiveFrom b)); bu = parse_or_zero (TrimSpace (P_EffectiveUntil b))
      in (au = zero_time \<or> bf = zero_time \<or> bf < au) \<and> (bu = zero_time \<or> af = zero_time \<or> af < bu))"

definition zone_name :: "string \<Rightarrow> string" where
  "zone_name v = (let t = TrimSpace v in if t = [] then ''UTC'' else t)"

fun weekdays_valid :: "int list \<Rightarrow> int list \<Rightarrow> bool" where
  "weekdays_valid seen [] = True"
| "weekdays_valid seen (day # rest) =
     (if day < 0 \<or> day > 6 \<or> day \<in> set seen then False else weekdays_valid (day # seen) rest)"

definition check_pair :: "nat \<Rightarrow> ModelPricingPeriod \<Rightarrow> ModelPricingPeriod \<Rightarrow> HTTPError + unit" where
  "check_pair i p other =
     (if \<not> pricingEffectiveRangesOverlap p other then Inr ()
      else if zone_name (P_Timezone p) \<noteq> zone_name (P_Timezone other)
      then Inl (invalidModelPricingPeriod (int i) ''periods with overlapping effective ranges must use the same timezone'')
      else if list_ex (\<lambda>(l, r). l \<and> r) (zip (pricingWeeklyMinutes p) (pricingWeeklyMinutes other))
      then Inl (invalidModelPricingPeriod (int i) ''pricing windows must not overlap'')
      else Inr ())"

definition check_period :: "ModelPricingPeriod list \<Rightarrow> nat \<Rightarrow> HTTPError + unit" where
  "check_period periods i =
     (let p = periods ! i;
          from = parse_or_zero (TrimSpace (P_EffectiveFrom p));
          until = parse_or_zero (TrimSpace (P_EffectiveUntil p))
      in if \<not> weekdays_valid [] (P_Weekdays p)
         then Inl (invalidModelPricingPeriod (int i) ''weekdays must contain unique integers from 0 (Sunday) to 6 (Saturday)'')
         else if from \<noteq> zero_time \<and> until \<noteq> zero_time \<and> \<not> from < until
         then Inl (invalidModelPricingPeriod (int i) ''effective_from must precede effective_until'')
         else foldr_res (\<lambda>other _. check_pair i p other) (take i periods) ())"

definition validatePricingSchedule :: "ModelPricingPeriod list \<Rightarrow> HTTPError + unit" where
  "validatePricingSchedule periods = foldr_res (\<lambda>i _. check_period periods i) [0..<length periods] ()"

definition check_fields :: "zone_db \<Rightarrow> ModelPricingPeriod list \<Rightarrow> nat \<Rightarrow> HTTPError + unit" where
  "check_fields zones periods index =
     (let period = periods ! index;
          fail = (\<lambda>message. Inl (invalidModelPricingPeriod (int index) message));
          zone = TrimSpace (P_Timezone period);
          from = TrimSpace (P_EffectiveFrom period);
          until = TrimSpace (P_EffectiveUntil period)
      in if zone \<noteq> [] \<and> LoadLocation zones zone = None then fail ''timezone must be a valid IANA timezone''
         else if snd (parsePricingClock (P_StartTime period)) \<noteq> snd (parsePricingClock (P_EndTime period))
         then fail ''start_time and end_time must be configured together''
         else if TrimSpace (P_StartTime period) \<noteq> [] \<and> \<not> validPricingClock (P_StartTime period)
         then fail ''start_time must use HH:MM''
         else if TrimSpace (P_EndTime period) \<noteq> [] \<and> \<not> validPricingClock (P_EndTime period)
         then fail ''end_time must use HH:MM''
         else if from \<noteq> [] \<and> parse_rfc3339 from = None then fail ''effective_from must be RFC3339''
         else if until \<noteq> [] \<and> parse_rfc3339 until = None then fail ''effective_until must be RFC3339''
         else case find (\<lambda>(name, value). \<exists>v \<in> set_option value. bad_price v) (pricingPeriodPriceOverrides period) of
           Some (name, value) \<Rightarrow> fail (name @ '' must be a finite non-negative number'')
         | None \<Rightarrow> Inr ())"

definition validateModelPricingPeriods :: "zone_db \<Rightarrow> ModelPricingPeriod list \<Rightarrow> HTTPError + unit" where
  "validateModelPricingPeriods zones periods =
     (if length periods > 64 then Inl (invalidModelPricingPeriod 64 ''at most 64 pricing periods are supported'')
      else rbind (foldr_res (\<lambda>index _. check_fields zones periods index) [0..<length periods] ())
             (\<lambda>_. validatePricingSchedule periods))"

text \<open>\<open>validateModelBasePrices\<close> ranges over a map; \<open>order\<close> is one order of its iteration, so the
  field an error names may vary while the decision does not.\<close>

definition base_prices :: "Model \<Rightarrow> (string \<times> f64) list" where
  "base_prices model =
     [(''input_price_usd_per_1m'', M_InputPriceUSDPer1M model),
      (''output_price_usd_per_1m'', M_OutputPriceUSDPer1M model),
      (''embedding_price_usd_per_1m'', M_EmbeddingPriceUSDPer1M model),
      (''cache_read_price_usd_per_1m'', M_CacheReadPriceUSDPer1M model),
      (''cache_write_price_usd_per_1m'', M_CacheWritePriceUSDPer1M model),
      (''cache_write_5m_price_usd_per_1m'', M_CacheWrite5mPriceUSDPer1M model),
      (''cache_write_1h_price_usd_per_1m'', M_CacheWrite1hPriceUSDPer1M model)]"

definition validateModelBasePrices :: "((string \<times> f64) list \<Rightarrow> (string \<times> f64) list) \<Rightarrow> Model \<Rightarrow> HTTPError + unit" where
  "validateModelBasePrices order model =
     (case find (\<lambda>(field, value). bad_price value) (order (base_prices model)) of
        Some (field, _) \<Rightarrow>
          Inl (NewHTTPError 400 ''invalid_model_price'' (field @ '' must be a finite non-negative number''))
      | None \<Rightarrow> Inr ())"

definition f64_nonzero :: "f64 \<Rightarrow> bool" where
  "f64_nonzero v \<longleftrightarrow> \<not> f64_is_zero v"

definition normalizeModelCacheWriteConfiguration :: "Model \<Rightarrow> Model" where
  "normalizeModelCacheWriteConfiguration model =
     (let m1 = (if f64_nonzero (M_CacheWritePriceUSDPer1M model)
                then model\<lparr>M_CacheWritePriceConfigured := True\<rparr> else model);
          m2 = (if f64_nonzero (M_CacheWrite5mPriceUSDPer1M m1)
                then m1\<lparr>M_CacheWrite5mPriceConfigured := True\<rparr> else m1)
      in if f64_nonzero (M_CacheWrite1hPriceUSDPer1M m2)
         then m2\<lparr>M_CacheWrite1hPriceConfigured := True\<rparr> else m2)"

text \<open>\<open>applyModelPricingPatch\<close> for a patch whose fields are all present (after
  \<open>mergeModelPricePatch\<close>). The model is updated in place, so it is returned with an error too.\<close>

definition apply_merged_prices ::
  "zone_db \<Rightarrow> ((string \<times> f64) list \<Rightarrow> (string \<times> f64) list) \<Rightarrow> Model \<Rightarrow> Model \<Rightarrow> (HTTPError + unit) \<times> Model" where
  "apply_merged_prices zones order model patch =
     (case validateModelBasePrices order patch of
        Inl e \<Rightarrow> (Inl e, model)
      | Inr _ \<Rightarrow>
          let m1 = normalizeModelCacheWriteConfiguration
                (patch\<lparr>M_Modality := M_Modality model, M_Metadata := M_Metadata model\<rparr>)
          in case validateModelPricingPeriods zones (M_PricingPeriods m1) of
               Inl e \<Rightarrow> (Inl e, m1)
             | Inr _ \<Rightarrow>
                 (Inr (),
                  if M_Modality m1 = ''embedding''
                  then m1\<lparr>M_CacheReadPriceUSDPer1M := Fin 0, M_CacheWritePriceUSDPer1M := Fin 0,
                          M_CacheWritePriceConfigured := False, M_CacheWrite5mPriceUSDPer1M := Fin 0,
                          M_CacheWrite5mPriceConfigured := False, M_CacheWrite1hPriceUSDPer1M := Fin 0,
                          M_CacheWrite1hPriceConfigured := False\<rparr>
                  else m1))"

section \<open>Clocks\<close>

lemma parsePricingClock_range:
  assumes "parsePricingClock v = (m, ok)"
  shows "0 \<le> m \<and> m < 1440"
  using assms by (auto simp: parsePricingClock_def Let_def split: if_splits list.splits option.splits)

lemma pricingWeekdayMatches_iff: "pricingWeekdayMatches days d \<longleftrightarrow> days = [] \<or> d \<in> set days"
  by (auto simp: pricingWeekdayMatches_def list_ex_iff)

section \<open>The weekly array\<close>

lemma foldl_mark:
  "length (foldl (\<lambda>ms x. ms[f x := True]) ms xs) = length ms"
  "i < length ms \<Longrightarrow> foldl (\<lambda>ms x. ms[f x := True]) ms xs ! i \<longleftrightarrow> ms ! i \<or> (\<exists>x \<in> set xs. f x = i)"
proof (induction xs arbitrary: ms)
  case Nil
  case 1 show ?case by simp
  case 2 show ?case by simp
next
  case (Cons x xs)
  case 1 show ?case by (simp add: Cons.IH(1))
  case 2
  then have "ms[f x := True] ! i \<longleftrightarrow> ms ! i \<or> f x = i" by (cases "f x = i") simp_all
  with 2 show ?case using Cons.IH(2) [of "ms[f x := True]"] by auto
qed

lemma foldl_mark_days:
  "length (foldl (\<lambda>ms d. if \<not> P d then ms else foldl (\<lambda>ms x. ms[f d x := True]) ms xs) ms ds) = length ms"
  "i < length ms \<Longrightarrow>
     foldl (\<lambda>ms d. if \<not> P d then ms else foldl (\<lambda>ms x. ms[f d x := True]) ms xs) ms ds ! i \<longleftrightarrow>
     ms ! i \<or> (\<exists>d \<in> set ds. P d \<and> (\<exists>x \<in> set xs. f d x = i))"
proof (induction ds arbitrary: ms)
  case Nil
  case 1 show ?case by simp
  case 2 show ?case by simp
next
  case (Cons d ds)
  case 1 show ?case by (simp add: Cons.IH(1) foldl_mark(1))
  case 2
  then show ?case
    using Cons.IH(2) [of "foldl (\<lambda>ms x. ms[f d x := True]) ms xs"] Cons.IH(2) [of ms]
    by (auto simp: foldl_mark)
qed

lemma pricingWeeklyMinutes_nth:
  assumes "window_of p = (start, duration)"
  shows "length (pricingWeeklyMinutes p) = week_minutes"
    and "i < week_minutes \<Longrightarrow> pricingWeeklyMinutes p ! i \<longleftrightarrow>
      (\<exists>d \<in> {0..6}. pricingWeekdayMatches (P_Weekdays p) d \<and>
         (\<exists>x \<in> {0..duration - 1}. nat ((d * 1440 + start + x) mod int week_minutes) = i))"
  by (simp_all add: pricingWeeklyMinutes_def assms foldl_mark_days)

text \<open>Position of a minute in the week.\<close>

lemma day_minute_eq:
  fixes a b x y :: int
  assumes "0 \<le> x" "x < 1440" "0 \<le> y" "y < 1440"
  shows "a * 1440 + x = b * 1440 + y \<longleftrightarrow> a = b \<and> x = y"
proof
  assume eq: "a * 1440 + x = b * 1440 + y"
  have "a = (a * 1440 + x) div 1440" and "b = (b * 1440 + y) div 1440" using assms by simp_all
  with eq have "a = b" by simp
  with eq show "a = b \<and> x = y" by simp
qed simp

lemma week_position:
  fixes d w m x :: int
  assumes "0 \<le> d" "d \<le> 6" "0 \<le> w" "w \<le> 6" "0 \<le> m" "m < 1440" "0 \<le> x" "x < 2880"
  shows "(d * 1440 + x) mod 10080 = w * 1440 + m \<longleftrightarrow>
    (x < 1440 \<and> w = d \<and> m = x) \<or> (1440 \<le> x \<and> d = (w + 6) mod 7 \<and> m = x - 1440)"
proof (cases "x < 1440")
  case True
  with assms have "(d * 1440 + x) mod 10080 = d * 1440 + x" by (intro mod_pos_pos_trivial) auto
  moreover have "d * 1440 + x = w * 1440 + m \<longleftrightarrow> w = d \<and> m = x" using day_minute_eq [of x m d w] assms True by auto
  ultimately show ?thesis using True by auto
next
  case False
  define y where "y = x - 1440"
  have y: "x = y + 1440" "0 \<le> y" "y < 1440" using False assms by (simp_all add: y_def)
  have "(d * 1440 + x) mod 10080 = (if d = 6 then y else (d + 1) * 1440 + y)"
  proof (cases "d = 6")
    case True
    then show ?thesis using y by simp
  next
    case False
    then have "d * 1440 + x < 10080" using assms y by simp
    then have "(d * 1440 + x) mod 10080 = d * 1440 + x" using assms by (intro mod_pos_pos_trivial) auto
    then show ?thesis using False y(1) by simp
  qed
  moreover have "d = (w + 6) mod 7 \<longleftrightarrow> (if d = 6 then w = 0 else w = d + 1)"
  proof (cases "w = 0")
    case False
    then have "(w + 6) mod 7 = w - 1" using assms(3,4) mod_pos_pos_trivial [of "w - 1" 7]
      by (simp add: add.commute flip: mod_add_self2 [of "w - 1" 7])
    then show ?thesis using False assms(1-4) by auto
  qed (use assms(1) in auto)
  moreover have "y = w * 1440 + m \<longleftrightarrow> w = 0 \<and> m = y" using day_minute_eq [of y m 0 w] assms y by auto
  moreover have "(d + 1) * 1440 + y = w * 1440 + m \<longleftrightarrow> w = d + 1 \<and> m = y"
    using day_minute_eq [of y m "d + 1" w] assms y by auto
  ultimately show ?thesis using False y by (cases "d = 6") auto
qed

text \<open>For a period with both clock times or none, the matching of a local clock is membership in
  the weekly array.\<close>

lemma clock_matches_weekly:
  assumes wd: "0 \<le> w" "w \<le> 6" and mi: "0 \<le> m" "m < 1440"
    and both: "snd (parsePricingClock (P_StartTime p)) = snd (parsePricingClock (P_EndTime p))"
  shows "clock_matches p w m \<longleftrightarrow> pricingWeeklyMinutes p ! nat (w * 1440 + m)"
proof -
  obtain s hs where s: "parsePricingClock (P_StartTime p) = (s, hs)" by fastforce
  obtain e he where e: "parsePricingClock (P_EndTime p) = (e, he)" by fastforce
  have he: "he = hs" using both s e by simp
  have range: "0 \<le> s" "s < 1440" "0 \<le> e" "e < 1440"
    using parsePricingClock_range [OF s] parsePricingClock_range [OF e] by auto
  let ?W = "pricingWeekdayMatches (P_Weekdays p)"
  obtain st du where win: "window_of p = (st, du)" by fastforce
  have pos: "0 \<le> st" "st < 1440" "0 \<le> du" "du \<le> 1440" "st + du \<le> 2880"
    using win range by (auto simp: window_of_def s e Let_def split: if_splits)
  have idx: "nat (w * 1440 + m) < week_minutes" using wd mi by (simp add: week_minutes_def)
  have "pricingWeeklyMinutes p ! nat (w * 1440 + m) \<longleftrightarrow>
      (\<exists>d \<in> {0..6}. ?W d \<and> (\<exists>x \<in> {0..du - 1}. (d * 1440 + (st + x)) mod 10080 = w * 1440 + m))"
    unfolding pricingWeeklyMinutes_nth(2) [OF win idx] using wd mi
    by (simp add: week_minutes_def eq_nat_nat_iff add.assoc)
  also have "\<dots> \<longleftrightarrow> (\<exists>d \<in> {0..6}. ?W d \<and> (\<exists>x \<in> {0..du - 1}.
      (st + x < 1440 \<and> w = d \<and> m = st + x) \<or> (1440 \<le> st + x \<and> d = (w + 6) mod 7 \<and> m = st + x - 1440)))"
    using pos wd mi by (intro bex_cong refl conj_cong week_position) auto
  also have "\<dots> \<longleftrightarrow> (?W w \<and> st \<le> m \<and> m < st + du) \<or> (?W ((w + 6) mod 7) \<and> m + 1440 < st + du)"
    (is "?L \<longleftrightarrow> ?R")
  proof
    assume ?L
    then show ?R using pos by auto
  next
    assume r: ?R
    have d6: "(w + 6) mod 7 \<in> {0..6}" using wd by auto
    from r show ?L
    proof
      assume "?W w \<and> st \<le> m \<and> m < st + du"
      then show ?thesis using wd mi by (intro bexI [of _ w] conjI bexI [of _ "m - st"]) auto
    next
      assume "?W ((w + 6) mod 7) \<and> m + 1440 < st + du"
      then show ?thesis using d6 mi pos
        by (intro bexI [of _ "(w + 6) mod 7"] conjI bexI [of _ "m + 1440 - st"]) auto
    qed
  qed
  also have "\<dots> \<longleftrightarrow> clock_matches p w m"
    using win range mi by (auto simp: clock_matches_def window_of_def s e he Let_def split: if_splits)
  finally show ?thesis by simp
qed

lemma local_clock_week:
  "0 \<le> local_weekday loc t" "local_weekday loc t \<le> 6"
  "0 \<le> local_hour loc t * 60 + local_minute loc t" "local_hour loc t * 60 + local_minute loc t < 1440"
  using local_clock_bounds [of loc t] by (auto simp: local_weekday_def)

definition week_index :: "location \<Rightarrow> instant \<Rightarrow> nat" where
  "week_index loc t = nat (local_weekday loc t * 1440 + (local_hour loc t * 60 + local_minute loc t))"

lemma week_index_less: "week_index loc t < week_minutes"
  using local_clock_week [of loc t] by (simp add: week_index_def week_minutes_def)

lemma matches_weekly:
  assumes "snd (parsePricingClock (P_StartTime p)) = snd (parsePricingClock (P_EndTime p))"
  shows "pricingPeriodMatches zones p t \<longleftrightarrow> pricingEffectiveWindowMatches p t \<and>
    (\<exists>loc. LoadLocation zones (zone_name (P_Timezone p)) = Some loc \<and> pricingWeeklyMinutes p ! week_index loc t)"
  unfolding pricingPeriodMatches_def zone_name_def Let_def week_index_def
  by (simp add: clock_matches_weekly [OF local_clock_week assms] split: option.split)

section \<open>Accepted schedules\<close>

lemma effective_windows_overlap:
  assumes "pricingEffectiveWindowMatches a t" and "pricingEffectiveWindowMatches b t"
  shows "pricingEffectiveRangesOverlap a b"
  using assms
  by (auto simp: pricingEffectiveWindowMatches_def pricingEffectiveRangesOverlap_def parse_or_zero_def Let_def
      split: option.splits if_splits)

lemma validate_Inr:
  assumes "validateModelPricingPeriods zones periods = Inr ()"
  shows "i < length periods \<Longrightarrow> check_fields zones periods i = Inr ()"
    and "i < length periods \<Longrightarrow> check_period periods i = Inr ()"
  using assms
  by (auto simp: validateModelPricingPeriods_def validatePricingSchedule_def rbind_eq_Inr_iff foldr_res_unit
      split: if_splits)

lemma check_fields_clocks:
  "check_fields zones periods i = Inr () \<Longrightarrow>
   snd (parsePricingClock (P_StartTime (periods ! i))) = snd (parsePricingClock (P_EndTime (periods ! i)))"
  by (auto simp: check_fields_def Let_def split: if_splits)

lemma check_period_pair:
  assumes "check_period periods j = Inr ()" and "i < j" and "j < length periods"
  shows "check_pair j (periods ! j) (periods ! i) = Inr ()"
proof -
  have "periods ! i \<in> set (take j periods)" using assms(2,3) by (auto simp: in_set_conv_nth)
  then show ?thesis using assms(1)
    by (auto simp: check_period_def Let_def foldr_res_unit split: if_splits)
qed

lemma schedule_pair_disjoint:
  assumes valid: "validateModelPricingPeriods zones periods = Inr ()"
    and ij: "i < j" "j < length periods"
    and mi: "pricingPeriodMatches zones (periods ! i) t" and mj: "pricingPeriodMatches zones (periods ! j) t"
  shows False
proof -
  let ?p = "periods ! j" and ?q = "periods ! i"
  note clk = check_fields_clocks [OF validate_Inr(1) [OF valid]]
  from mi mj ij have eff: "pricingEffectiveWindowMatches ?q t" "pricingEffectiveWindowMatches ?p t"
    by (auto simp: matches_weekly clk)
  have pair: "check_pair j ?p ?q = Inr ()"
    using check_period_pair [OF validate_Inr(2) [OF valid ij(2)] ij] .
  then have zone: "zone_name (P_Timezone ?p) = zone_name (P_Timezone ?q)"
    and none: "\<not> list_ex (\<lambda>(l, r). l \<and> r) (zip (pricingWeeklyMinutes ?p) (pricingWeeklyMinutes ?q))"
    using effective_windows_overlap [OF eff(2,1)] by (auto simp: check_pair_def split: if_splits)
  from mi mj ij zone obtain loc
    where "pricingWeeklyMinutes ?q ! week_index loc t" and "pricingWeeklyMinutes ?p ! week_index loc t"
    by (auto simp: matches_weekly clk)
  moreover have "length (pricingWeeklyMinutes r) = week_minutes" for r
    using pricingWeeklyMinutes_nth(1) [of r] by (cases "window_of r") simp
  ultimately show False using none week_index_less [of loc t]
    by (auto simp: list_ex_iff set_zip)
qed

lemma schedule_filter_one:
  assumes "validateModelPricingPeriods zones periods = Inr ()"
  shows "length (filter (\<lambda>p. pricingPeriodMatches zones p t) periods) \<le> 1"
proof (rule ccontr)
  let ?I = "{i. i < length periods \<and> pricingPeriodMatches zones (periods ! i) t}"
  assume "\<not> ?thesis"
  then have "1 < card ?I" by (simp add: length_filter_conv_card)
  then obtain i j where "i \<in> ?I" "j \<in> ?I" "i \<noteq> j"
    using card_le_Suc0_iff_eq [of ?I] by auto
  with schedule_pair_disjoint [OF assms, of i j t] schedule_pair_disjoint [OF assms, of j i t]
  show False by (cases "i < j") auto
qed

lemma first_period_filter:
  "first_period zones t ps model =
     (case filter (\<lambda>p. pricingPeriodMatches zones p t) ps of [] \<Rightarrow> model | p # _ \<Rightarrow> apply_period p model)"
  by (induction ps) auto

lemma mset_filter_short:
  assumes "mset xs = mset ys" and "length (filter P xs) \<le> 1"
  shows "filter P ys = filter P xs"
proof -
  have "mset (filter P ys) = mset (filter P xs)" using assms(1) by (simp add: mset_filter)
  with assms(2) show ?thesis by (cases "filter P xs") (auto simp del: mset_filter)
qed

lemma apply_period_periods:
  "apply_period p (model\<lparr>M_PricingPeriods := ps\<rparr>) = (apply_period p model)\<lparr>M_PricingPeriods := ps\<rparr>"
  by (simp add: apply_period_def Let_def split: option.split)

section \<open>Billable tokens\<close>

text \<open>The written total that is billed, and the whole clamped report in terms of it.\<close>

definition billable_writes :: "Usage \<Rightarrow> int" where
  "billable_writes u =
     (if max (CacheWriteInputTokens u) 0 = 0
      then saturatingAddNonNegative (max (CacheWrite5mInputTokens u) 0) (max (CacheWrite1hInputTokens u) 0)
      else max (CacheWriteInputTokens u) 0)"

lemma clampBillable_steps:
  assumes "cr = min (max (CachedInputTokens u) 0) (PromptTokens u)"
    and "W = min (billable_writes u) (max (wrap64 (PromptTokens u - cr)) 0)"
    and "F = min (max (CacheWrite5mInputTokens u) 0) W"
  shows "clampBillableInputTokens u =
    u\<lparr>CachedInputTokens := cr, CacheWriteInputTokens := W, CacheWrite5mInputTokens := F,
      CacheWrite1hInputTokens := min (max (CacheWrite1hInputTokens u) 0) (wrap64 (W - F))\<rparr>"
  unfolding assms clampBillableInputTokens_def billable_writes_def Let_def minmax_Int64 by (rule refl)

lemma wrap64_diff: "0 \<le> b \<Longrightarrow> b \<le> a \<Longrightarrow> a \<le> max_int64 \<Longrightarrow> wrap64 (a - b) = a - b"
  by (intro wrap64_id) (simp add: int64_bounds)

lemma billable_writes_nonneg:
  assumes "usage_in_range u"
  shows "0 \<le> billable_writes u"
proof -
  have "in_int64 (max x 0)" if "in_int64 x" for x using that by (auto simp: int64_bounds)
  then show ?thesis using usage_in_rangeD(4,5) [OF assms] by (auto simp: billable_writes_def)
qed

lemma clampBillable_counters:
  assumes "usage_in_range u" and "0 \<le> PromptTokens u"
  shows "\<exists>cr W F H. clampBillableInputTokens u =
      u\<lparr>CachedInputTokens := cr, CacheWriteInputTokens := W, CacheWrite5mInputTokens := F, CacheWrite1hInputTokens := H\<rparr> \<and>
    0 \<le> cr \<and> 0 \<le> F \<and> 0 \<le> H \<and> F + H \<le> W \<and> cr + W \<le> PromptTokens u"
proof -
  define cr where "cr = min (max (CachedInputTokens u) 0) (PromptTokens u)"
  define W where "W = min (billable_writes u) (max (wrap64 (PromptTokens u - cr)) 0)"
  define F where "F = min (max (CacheWrite5mInputTokens u) 0) W"
  define H where "H = min (max (CacheWrite1hInputTokens u) 0) (wrap64 (W - F))"
  have p: "PromptTokens u \<le> max_int64" using usage_in_rangeD(1) [OF assms(1)] by (simp add: in_int64_def)
  have cr: "0 \<le> cr" "cr \<le> PromptTokens u" using assms(2) by (simp_all add: cr_def)
  then have "wrap64 (PromptTokens u - cr) = PromptTokens u - cr" using p by (rule wrap64_diff)
  then have W: "0 \<le> W" "W \<le> PromptTokens u - cr"
    using cr billable_writes_nonneg [OF assms(1)] by (simp_all add: W_def)
  have F: "0 \<le> F" "F \<le> W" using W(1) by (simp_all add: F_def)
  then have "wrap64 (W - F) = W - F" using W p cr by (intro wrap64_diff) simp_all
  then have H: "0 \<le> H" "F + H \<le> W" using F by (simp_all add: H_def)
  show ?thesis
    using clampBillable_steps [OF cr_def W_def F_def] cr W F H unfolding H_def [symmetric]
    by (intro exI [of _ cr] exI [of _ W] exI [of _ F] exI [of _ H]) simp
qed

lemma cacheWriteTokenParts_bounded:
  assumes "0 \<le> CacheWrite5mInputTokens u" and "0 \<le> CacheWrite1hInputTokens u"
    and "CacheWrite5mInputTokens u + CacheWrite1hInputTokens u \<le> CacheWriteInputTokens u"
  shows "cacheWriteTokenParts u =
    (CacheWrite5mInputTokens u, CacheWrite1hInputTokens u,
     CacheWriteInputTokens u - CacheWrite5mInputTokens u - CacheWrite1hInputTokens u)"
proof (cases "CacheWriteInputTokens u = 0")
  case True
  with assms have "CacheWrite5mInputTokens u = 0" "CacheWrite1hInputTokens u = 0" by simp_all
  with True show ?thesis
    by (simp add: cacheWriteTokenParts_def saturatingAddNonNegative_def max_int64_def Let_def)
next
  case False
  with assms show ?thesis by (simp add: cacheWriteTokenParts_def Let_def)
qed

lemma clamp_reported_cases:
  assumes "usage_in_range u"
  obtains v where "clamp_reported u = clampBillableInputTokens v" and "usage_in_range v"
    and "PromptTokens v = max (PromptTokens u) 0" and "0 \<le> CompletionTokens v"
    and "TotalTokens v = (if max (TotalTokens u) 0 = 0
           then saturatingAddNonNegative (PromptTokens v) (CompletionTokens v) else max (TotalTokens u) 0)"
proof -
  define v where "v = u\<lparr>PromptTokens := max (PromptTokens u) 0, CompletionTokens := max (CompletionTokens u) 0,
    TotalTokens := (if max (TotalTokens u) 0 = 0
      then saturatingAddNonNegative (max (PromptTokens u) 0) (max (CompletionTokens u) 0) else max (TotalTokens u) 0)\<rparr>"
  have m: "in_int64 (max x 0)" if "in_int64 x" for x using that by (auto simp: int64_bounds)
  have "usage_in_range v"
    using assms m by (auto simp: v_def usage_in_range_def usage_counters_def)
  moreover have "clamp_reported u = clampBillableInputTokens v"
    unfolding v_def clamp_reported_def Let_def minmax_Int64 by (rule refl)
  ultimately show thesis by (intro that [of v]) (simp_all add: v_def)
qed

text \<open>A schedule with two periods: office hours on weekdays until the year 2030, all day from then.\<close>

definition zone_sample :: zone_db where
  "zone_sample name = None"

definition sample_period :: ModelPricingPeriod where
  "sample_period =
     \<lparr>P_Name = ''peak'', P_Timezone = '''', P_Weekdays = [1, 2, 3, 4, 5], P_StartTime = ''08:00'',
      P_EndTime = ''18:30'', P_EffectiveFrom = '''', P_EffectiveUntil = ''2030-01-01T00:00:00Z'',
      P_InputPriceUSDPer1M = Some (Fin 3), P_OutputPriceUSDPer1M = None, P_CacheReadPriceUSDPer1M = None,
      P_CacheWritePriceUSDPer1M = None, P_CacheWrite5mPriceUSDPer1M = None, P_CacheWrite1hPriceUSDPer1M = None\<rparr>"

definition sample_schedule :: "ModelPricingPeriod list" where
  "sample_schedule =
     [sample_period,
      sample_period\<lparr>P_Weekdays := [], P_StartTime := '''', P_EndTime := '''',
        P_EffectiveFrom := ''2030-01-01T00:00:00Z'', P_EffectiveUntil := ''''\<rparr>]"

definition sample_model :: Model where
  "sample_model =
     \<lparr>M_Modality = ''chat'', M_InputPriceUSDPer1M = Fin 2, M_CacheReadPriceUSDPer1M = Fin 0,
      M_CacheWritePriceUSDPer1M = Fin 0, M_CacheWrite5mPriceUSDPer1M = Fin 0, M_CacheWrite1hPriceUSDPer1M = Fin 0,
      M_CacheWritePriceConfigured = False, M_CacheWrite5mPriceConfigured = False,
      M_CacheWrite1hPriceConfigured = False, M_OutputPriceUSDPer1M = Fin 8, M_EmbeddingPriceUSDPer1M = Fin 0,
      M_PricingPeriods = sample_schedule, M_Metadata = Map.empty\<rparr>"

lemma sample_texts:
  "TrimSpace ''08:00'' = ''08:00''" "TrimSpace ''18:30'' = ''18:30''"
  "TrimSpace ''2030-01-01T00:00:00Z'' = ''2030-01-01T00:00:00Z''"
  by (rule TrimSpace_graph_all; simp add: is_graph_def code_of_def)+

lemma sample_until: "parse_rfc3339 ''2030-01-01T00:00:00Z'' = Some 1893456000000000000"
  by code_simp

lemma sample_clocks: "parsePricingClock ''08:00'' = (480, True)" "parsePricingClock ''18:30'' = (1110, True)"
  "parsePricingClock [] = (0, False)"
  unfolding parsePricingClock_def sample_texts TrimSpace_Nil by code_simp+

lemmas sample_facts = sample_texts sample_until sample_clocks

lemma sample_window: "pricingEffectiveWindowMatches sample_period 1800000000000000000"
  by (simp add: pricingEffectiveWindowMatches_def sample_period_def sample_facts)

lemma sample_clock:
  "local_weekday UTC 1800000000000000000 = 5" "local_hour UTC 1800000000000000000 = 8"
  "local_minute UTC 1800000000000000000 = 0"
  by (simp_all add: local_weekday_def local_hour_def local_minute_def)

lemma sample_matches: "pricingPeriodMatches zone_sample (sample_schedule ! 0) 1800000000000000000"
  using sample_window
  by (simp add: pricingPeriodMatches_def sample_schedule_def sample_clock clock_matches_def sample_facts
      sample_period_def pricingWeekdayMatches_iff)

lemma sample_fields:
  "check_fields zone_sample sample_schedule 0 = Inr ()" "check_fields zone_sample sample_schedule 1 = Inr ()"
  by (simp_all add: check_fields_def sample_schedule_def sample_period_def sample_facts validPricingClock_def
      pricingPeriodPriceOverrides_def Let_def)

lemma sample_pairs:
  "check_period sample_schedule 0 = Inr ()" "check_period sample_schedule 1 = Inr ()"
  by (simp_all add: check_period_def check_pair_def sample_schedule_def sample_period_def sample_facts
      pricingEffectiveRangesOverlap_def parse_or_zero_def zero_time_def Let_def)

lemma sample_valid: "validateModelPricingPeriods zone_sample sample_schedule = Inr ()"
proof -
  have "[0..<length sample_schedule] = [0, 1]" by (simp add: sample_schedule_def)
  moreover have "\<not> 64 < length sample_schedule" by (simp add: sample_schedule_def)
  ultimately show ?thesis
    by (simp add: validateModelPricingPeriods_def validatePricingSchedule_def sample_fields sample_pairs
        del: One_nat_def)
qed

section \<open>Properties\<close>

text \<open>(C24) An accepted schedule is unambiguous: at no instant do two of its periods match, whatever
  the zone database says about offsets and clock changes.\<close>

theorem pricing_schedule_unambiguous:
  assumes "validateModelPricingPeriods zones periods = Inr ()"
    and "i < length periods" and "j < length periods"
    and "pricingPeriodMatches zones (periods ! i) t" and "pricingPeriodMatches zones (periods ! j) t"
  shows "i = j"
  using schedule_pair_disjoint [OF assms(1), of i j t] schedule_pair_disjoint [OF assms(1), of j i t] assms(2-)
  by (cases i j rule: linorder_cases) auto

theorem pricing_schedule_unambiguous_witness:
  "\<not> pricingPeriodMatches zone_sample (sample_schedule ! 1) 1800000000000000000"
proof
  assume late: "pricingPeriodMatches zone_sample (sample_schedule ! 1) 1800000000000000000"
  have "pricingPeriodMatches zone_sample (sample_schedule ! 0) 1800000000000000000"
    by (rule sample_matches)
  from pricing_schedule_unambiguous [OF sample_valid _ _ this late] show False
    by (simp add: sample_schedule_def)
qed

text \<open>The price in force does not depend on the order in which the periods of an accepted
  schedule are listed.\<close>

theorem modelPriceAt_order_free:
  assumes "validateModelPricingPeriods zones (M_PricingPeriods model) = Inr ()"
    and "mset periods = mset (M_PricingPeriods model)"
  shows "modelPriceAt zones now (model\<lparr>M_PricingPeriods := periods\<rparr>) t =
    (modelPriceAt zones now model t)\<lparr>M_PricingPeriods := periods\<rparr>"
  using mset_filter_short [OF assms(2) [symmetric] schedule_filter_one [OF assms(1)]]
  by (simp add: modelPriceAt_def first_period_filter apply_period_periods split: list.split)

theorem modelPriceAt_order_free_witness:
  "modelPriceAt zone_sample 0 (sample_model\<lparr>M_PricingPeriods := rev sample_schedule\<rparr>) 1800000000000000000 =
   (modelPriceAt zone_sample 0 sample_model 1800000000000000000)\<lparr>M_PricingPeriods := rev sample_schedule\<rparr>"
  using modelPriceAt_order_free [of zone_sample sample_model "rev sample_schedule"] sample_valid
  by (simp add: sample_model_def)

text \<open>(C26) Whatever counters an upstream reports, every prompt token is billed exactly once: after
  the clamping of \<open>priceUsageAt\<close>, the uncached, cached and cache-write parts are non-negative and add
  up to the prompt tokens.\<close>

theorem prompt_tokens_billed_once:
  assumes "usage_in_range reported" and "c = clamp_reported reported"
    and "cacheWriteTokenParts c = (five, hour, other)"
  shows "0 \<le> CachedInputTokens c \<and> 0 \<le> five \<and> 0 \<le> hour \<and> 0 \<le> other \<and>
    0 \<le> PromptTokens c - CachedInputTokens c - CacheWriteInputTokens c \<and>
    (PromptTokens c - CachedInputTokens c - CacheWriteInputTokens c) + CachedInputTokens c + five + hour + other
      = max (PromptTokens reported) 0"
proof -
  from clamp_reported_cases [OF assms(1)] obtain v where v: "clamp_reported reported = clampBillableInputTokens v"
    "usage_in_range v" "PromptTokens v = max (PromptTokens reported) 0" .
  from clampBillable_counters [OF v(2)] v(3) obtain cr W F H
    where c: "c = v\<lparr>CachedInputTokens := cr, CacheWriteInputTokens := W, CacheWrite5mInputTokens := F, CacheWrite1hInputTokens := H\<rparr>"
      and b: "0 \<le> cr" "0 \<le> F" "0 \<le> H" "F + H \<le> W" "cr + W \<le> PromptTokens v"
    unfolding assms(2) v(1) by auto
  have "cacheWriteTokenParts c = (F, H, W - F - H)" using cacheWriteTokenParts_bounded [of c] b by (simp add: c)
  with assms(3) have "five = F" "hour = H" "other = W - F - H" by auto
  then show ?thesis using b v(3) by (simp add: c)
qed

theorem prompt_tokens_billed_once_witness:
  "usage_in_range (zero_Usage\<lparr>PromptTokens := 100, CachedInputTokens := 150, CacheWriteInputTokens := - 5\<rparr>) \<and>
   CachedInputTokens (clamp_reported (zero_Usage\<lparr>PromptTokens := 100, CachedInputTokens := 150, CacheWriteInputTokens := - 5\<rparr>)) \<le> 100"
proof
  let ?u = "zero_Usage\<lparr>PromptTokens := 100, CachedInputTokens := 150, CacheWriteInputTokens := - 5\<rparr>"
  show r: "usage_in_range ?u" by (simp add: usage_in_range_def usage_counters_def zero_Usage_def int64_bounds)
  obtain five hour other where "cacheWriteTokenParts (clamp_reported ?u) = (five, hour, other)"
    using prod_cases3 by blast
  from prompt_tokens_billed_once [OF r refl this]
  show "CachedInputTokens (clamp_reported ?u) \<le> 100" by simp
qed

text \<open>The clock texts that validation accepts under the message \<open>must use HH:MM\<close> include
  texts of another form: a sign in place of the first digit, or one hour digit and three minute
  digits.\<close>

theorem validPricingClock_lenient:
  "validPricingClock ''+9:05'' \<and> validPricingClock ''1:030''"
proof -
  have t: "TrimSpace ''+9:05'' = ''+9:05''" "TrimSpace ''1:030'' = ''1:030''"
    by (rule TrimSpace_graph_all; simp add: is_graph_def code_of_def)+
  have "parsePricingClock ''+9:05'' = (545, True)" "parsePricingClock ''1:030'' = (90, True)"
    unfolding parsePricingClock_def t by code_simp+
  then show ?thesis by (simp add: validPricingClock_def t)
qed

end
