(* ===== verification/QuotaPolicy.thy ===== *)
theory QuotaPolicy
  imports ServerTypes
begin

text \<open>
  Quota limits and the policies they come from (\<open>types.go\<close>, \<open>store_backup_quota.go\<close>,
  \<open>store_helpers.go\<close>, \<open>user_quota_policy.go\<close>, \<open>api_key_rate_limit.go\<close> of the server package):
  reading the limits of a stored policy, choosing the policies that apply to a call, merging
  them to the strictest ones with the scope each comes from, and deciding whether counters
  exceed them. A limit that is not positive means no limit.

  The fields of a stored policy are a JSON object: a map to \<open>any_value\<close>. \<open>sprint\<close> is
  \<open>fmt.Sprint\<close> of a \<open>float64\<close>. Converting a \<open>float64\<close> outside the range of \<open>int64\<close> gives the
  least \<open>int64\<close>, as on amd64.
\<close>

section \<open>Data\<close>

record QuotaLimits =
  L_RateLimitRPM :: int64
  L_TokenLimitTPM :: int64
  L_DailyRequests :: int64
  L_MonthlyRequests :: int64
  L_DailyTokens :: int64
  L_MonthlyTokens :: int64
  L_DailyCostUSD :: f64
  L_MonthlyCostUSD :: f64
  L_MaxConcurrency :: int64

definition zero_QuotaLimits :: QuotaLimits where
  "zero_QuotaLimits =
     \<lparr>L_RateLimitRPM = 0, L_TokenLimitTPM = 0, L_DailyRequests = 0, L_MonthlyRequests = 0, L_DailyTokens = 0,
      L_MonthlyTokens = 0, L_DailyCostUSD = Fin 0, L_MonthlyCostUSD = Fin 0, L_MaxConcurrency = 0\<rparr>"

record QuotaCounter =
  N_Requests :: int64
  N_PromptTokens :: int64
  N_CompletionTokens :: int64
  N_TotalTokens :: int64
  N_CostUSD :: f64

definition zero_QuotaCounter :: QuotaCounter where
  "zero_QuotaCounter =
     \<lparr>N_Requests = 0, N_PromptTokens = 0, N_CompletionTokens = 0, N_TotalTokens = 0, N_CostUSD = Fin 0\<rparr>"

record MinuteLimitScopes =
  S_RPM :: string
  S_TPM :: string
  S_DailyRequests :: string
  S_MonthlyRequests :: string
  S_DailyTokens :: string
  S_MonthlyTokens :: string
  S_DailyCostUSD :: string
  S_MonthlyCostUSD :: string

definition zero_MinuteLimitScopes :: MinuteLimitScopes where
  "zero_MinuteLimitScopes =
     \<lparr>S_RPM = [], S_TPM = [], S_DailyRequests = [], S_MonthlyRequests = [], S_DailyTokens = [],
      S_MonthlyTokens = [], S_DailyCostUSD = [], S_MonthlyCostUSD = []\<rparr>"

record UserQuotaPolicy =
  UP_UserID :: string
  UP_Limits :: QuotaLimits

definition Enabled :: "UserQuotaPolicy \<Rightarrow> bool" where
  "Enabled p \<longleftrightarrow> TrimSpace (UP_UserID p) \<noteq> [] \<and> UP_Limits p \<noteq> zero_QuotaLimits"

record Project =
  Pr_ID :: string
  Pr_TeamID :: string
  Pr_OwnerUserID :: string
  Pr_Status :: string
  Pr_CostCenter :: string
  Pr_DefaultQuotaRef :: string
  Pr_ModelAccessMode :: string
  Pr_AllowedModels :: "string list"

record APIKey =
  K_ID :: string
  K_ProjectID :: string
  K_OwnerUserID :: string
  K_Limits :: QuotaLimits
  K_RateLimitRPM :: "int64 option"
  K_TokenLimitTPM :: "int64 option"
  K_Status :: string
  K_ExpiresAt :: "instant option"
  K_GraceUntil :: "instant option"
  K_ModelAccessMode :: string
  K_Allowed :: "string list"
  K_Metadata :: "string \<rightharpoonup> string"

datatype any_value = VNil | VBool bool | VInt int | VFloat f64 | VNumber string | VString string | VOther string

type_synonym json_fields = "string \<rightharpoonup> any_value"

section \<open>Reading fields\<close>

definition stringField :: "(f64 \<Rightarrow> string) \<Rightarrow> json_fields \<Rightarrow> string \<Rightarrow> string" where
  "stringField sprint flds key =
     (case flds key of
        None \<Rightarrow> []
      | Some v \<Rightarrow>
          (case v of
             VNil \<Rightarrow> []
           | VString s \<Rightarrow> s
           | VBool b \<Rightarrow> (if b then ''true'' else ''false'')
           | VInt n \<Rightarrow> show_int n
           | VFloat x \<Rightarrow> sprint x
           | VNumber text \<Rightarrow> text
           | VOther text \<Rightarrow> text))"

fun parse_digits64 :: "int64 \<Rightarrow> string \<Rightarrow> int64" where
  "parse_digits64 acc [] = acc"
| "parse_digits64 acc (ch # rest) =
     (if \<not> is_digit_char ch then 0 else parse_digits64 (wrap64 (acc * 10 + int (digit_val ch))) rest)"

fun f64_to_int64 :: "f64 \<Rightarrow> int64" where
  "f64_to_int64 (Fin q) =
     (let n = (if q < 0 then - \<lfloor>- q\<rfloor> else \<lfloor>q\<rfloor>) in if in_int64 n then n else min_int64)"
| "f64_to_int64 _ = min_int64"

text \<open>A \<open>json.Number\<close> is the text of a JSON number. \<open>Int64\<close> and \<open>Float64\<close> read it with the library's
  parsers; the error is dropped, so that an integer out of range is clamped and any other text is zero.\<close>

definition number_int64 :: "string \<Rightarrow> int64" where
  "number_int64 s =
     (let neg = (s \<noteq> [] \<and> hd s = CHR ''-'');
          body = (if s \<noteq> [] \<and> (hd s = CHR ''-'' \<or> hd s = CHR ''+'') then tl s else s)
      in if body = [] \<or> \<not> list_all is_digit_char body then 0
         else let n = (if neg then - int (digits_val body) else int (digits_val body))
              in if in_int64 n then n else if neg then min_int64 else max_int64)"

definition pow10 :: "int \<Rightarrow> rat" where
  "pow10 e = (if e \<ge> 0 then 10 ^ nat e else 1 / 10 ^ nat (- e))"

definition number_exponent :: "string \<Rightarrow> int option" where
  "number_exponent s =
     (let neg = (s \<noteq> [] \<and> hd s = CHR ''-'');
          body = (if s \<noteq> [] \<and> (hd s = CHR ''-'' \<or> hd s = CHR ''+'') then tl s else s)
      in if body = [] \<or> \<not> list_all is_digit_char body then None
         else Some (if neg then - int (digits_val body) else int (digits_val body)))"

definition number_float64 :: "string \<Rightarrow> f64" where
  "number_float64 s =
     (let neg = (s \<noteq> [] \<and> hd s = CHR ''-'');
          body = (if s \<noteq> [] \<and> (hd s = CHR ''-'' \<or> hd s = CHR ''+'') then tl s else s);
          whole = takeWhile is_digit_char body; rest = dropWhile is_digit_char body;
          dotted = (rest \<noteq> [] \<and> hd rest = CHR ''.'');
          fraction = (if dotted then takeWhile is_digit_char (tl rest) else []);
          tail = (if dotted then dropWhile is_digit_char (tl rest) else rest);
          exponent = (if tail = [] then Some 0
                      else if hd tail = CHR ''e'' \<or> hd tail = CHR ''E'' then number_exponent (tl tail) else None)
      in if whole @ fraction = [] then Fin 0
         else case exponent of
           None \<Rightarrow> Fin 0
         | Some e \<Rightarrow> f64_round ((if neg then - 1 else 1) * of_nat (digits_val (whole @ fraction)) * pow10 (e - int (length fraction))))"

definition int64Field :: "json_fields \<Rightarrow> string \<Rightarrow> int64" where
  "int64Field flds key =
     (case flds key of
        Some (VInt n) \<Rightarrow> n
      | Some (VFloat x) \<Rightarrow> f64_to_int64 x
      | Some (VNumber text) \<Rightarrow> number_int64 text
      | Some (VString s) \<Rightarrow> parse_digits64 0 (TrimSpace s)
      | _ \<Rightarrow> 0)"

text \<open>The decimal reader of \<open>float64Field\<close>: \<open>parsed\<close> and \<open>scale\<close> are the loop variables.\<close>

fun parse_decimal :: "f64 \<Rightarrow> f64 \<Rightarrow> string \<Rightarrow> f64" where
  "parse_decimal parsed scale [] = parsed"
| "parse_decimal parsed scale (ch # rest) =
     (if ch = CHR ''.'' \<and> f64_is_zero scale then parse_decimal parsed (Fin 1) rest
      else if \<not> is_digit_char ch then Fin 0
      else let digit = Fin (of_nat (digit_val ch)) in
      if f64_less (Fin 0) scale then
        let scale1 = f64_mul scale (Fin 10)
        in parse_decimal (f64_add parsed (f64_div digit scale1)) scale1 rest
      else parse_decimal (f64_add (f64_mul parsed (Fin 10)) digit) scale rest)"

definition float64Field :: "json_fields \<Rightarrow> string \<Rightarrow> f64" where
  "float64Field flds key =
     (case flds key of
        Some (VInt n) \<Rightarrow> f64_round (of_int n)
      | Some (VFloat x) \<Rightarrow> x
      | Some (VNumber text) \<Rightarrow> number_float64 text
      | Some (VString s) \<Rightarrow> parse_decimal (Fin 0) (Fin 0) (TrimSpace s)
      | _ \<Rightarrow> Fin 0)"

section \<open>Merging limits\<close>

definition strictInt64 :: "int64 \<Rightarrow> int64 \<Rightarrow> int64" where
  "strictInt64 a b = (if a \<le> 0 then b else if b \<le> 0 then a else if a < b then a else b)"

definition strictFloat64 :: "f64 \<Rightarrow> f64 \<Rightarrow> f64" where
  "strictFloat64 a b =
     (if f64_le a (Fin 0) then b else if f64_le b (Fin 0) then a else if f64_less a b then a else b)"

definition strictLimitChanged :: "int64 \<Rightarrow> int64 \<Rightarrow> bool" where
  "strictLimitChanged current candidate \<longleftrightarrow> candidate > 0 \<and> (current \<le> 0 \<or> candidate < current)"

definition strictCostChanged :: "f64 \<Rightarrow> f64 \<Rightarrow> bool" where
  "strictCostChanged current candidate \<longleftrightarrow>
     f64_le current (Fin 0) \<and> f64_less (Fin 0) candidate \<or> f64_less (Fin 0) candidate \<and> f64_less candidate current"

definition mergeQuotaLimits :: "QuotaLimits \<Rightarrow> QuotaLimits \<Rightarrow> QuotaLimits" where
  "mergeQuotaLimits base override =
     \<lparr>L_RateLimitRPM = strictInt64 (L_RateLimitRPM base) (L_RateLimitRPM override),
      L_TokenLimitTPM = strictInt64 (L_TokenLimitTPM base) (L_TokenLimitTPM override),
      L_DailyRequests = strictInt64 (L_DailyRequests base) (L_DailyRequests override),
      L_MonthlyRequests = strictInt64 (L_MonthlyRequests base) (L_MonthlyRequests override),
      L_DailyTokens = strictInt64 (L_DailyTokens base) (L_DailyTokens override),
      L_MonthlyTokens = strictInt64 (L_MonthlyTokens base) (L_MonthlyTokens override),
      L_DailyCostUSD = strictFloat64 (L_DailyCostUSD base) (L_DailyCostUSD override),
      L_MonthlyCostUSD = strictFloat64 (L_MonthlyCostUSD base) (L_MonthlyCostUSD override),
      L_MaxConcurrency = strictInt64 (L_MaxConcurrency base) (L_MaxConcurrency override)\<rparr>"

definition normalizedQuotaPolicyScope :: "string \<Rightarrow> string" where
  "normalizedQuotaPolicyScope scope =
     (let s = ToLower (TrimSpace scope) in
      if s = ''project'' then ''project''
      else if s = ''team'' then ''team''
      else if s = ''api_key'' \<or> s = ''key'' then ''api_key''
      else if s = ''user'' then ''user''
      else ''global'')"

definition updateQuotaLimitScopes :: "MinuteLimitScopes \<Rightarrow> QuotaLimits \<Rightarrow> QuotaLimits \<Rightarrow> string \<Rightarrow> MinuteLimitScopes" where
  "updateQuotaLimitScopes scopes current candidate scope =
     (let n = normalizedQuotaPolicyScope scope;
          pick = (\<lambda>changed old. if changed then n else old)
      in \<lparr>S_RPM = pick (strictLimitChanged (L_RateLimitRPM current) (L_RateLimitRPM candidate)) (S_RPM scopes),
          S_TPM = pick (strictLimitChanged (L_TokenLimitTPM current) (L_TokenLimitTPM candidate)) (S_TPM scopes),
          S_DailyRequests = pick (strictLimitChanged (L_DailyRequests current) (L_DailyRequests candidate)) (S_DailyRequests scopes),
          S_MonthlyRequests = pick (strictLimitChanged (L_MonthlyRequests current) (L_MonthlyRequests candidate)) (S_MonthlyRequests scopes),
          S_DailyTokens = pick (strictLimitChanged (L_DailyTokens current) (L_DailyTokens candidate)) (S_DailyTokens scopes),
          S_MonthlyTokens = pick (strictLimitChanged (L_MonthlyTokens current) (L_MonthlyTokens candidate)) (S_MonthlyTokens scopes),
          S_DailyCostUSD = pick (strictCostChanged (L_DailyCostUSD current) (L_DailyCostUSD candidate)) (S_DailyCostUSD scopes),
          S_MonthlyCostUSD = pick (strictCostChanged (L_MonthlyCostUSD current) (L_MonthlyCostUSD candidate)) (S_MonthlyCostUSD scopes)\<rparr>)"

definition fillMissingKeyQuotaLimitScopes :: "MinuteLimitScopes \<Rightarrow> QuotaLimits \<Rightarrow> MinuteLimitScopes" where
  "fillMissingKeyQuotaLimitScopes scopes limits =
     (let fill = (\<lambda>limited old. if limited \<and> old = [] then ''api_key'' else old)
      in \<lparr>S_RPM = fill (L_RateLimitRPM limits > 0) (S_RPM scopes),
          S_TPM = fill (L_TokenLimitTPM limits > 0) (S_TPM scopes),
          S_DailyRequests = fill (L_DailyRequests limits > 0) (S_DailyRequests scopes),
          S_MonthlyRequests = fill (L_MonthlyRequests limits > 0) (S_MonthlyRequests scopes),
          S_DailyTokens = fill (L_DailyTokens limits > 0) (S_DailyTokens scopes),
          S_MonthlyTokens = fill (L_MonthlyTokens limits > 0) (S_MonthlyTokens scopes),
          S_DailyCostUSD = fill (f64_less (Fin 0) (L_DailyCostUSD limits)) (S_DailyCostUSD scopes),
          S_MonthlyCostUSD = fill (f64_less (Fin 0) (L_MonthlyCostUSD limits)) (S_MonthlyCostUSD scopes)\<rparr>)"

section \<open>Policies that apply\<close>

definition unattributedQuotaUserID :: string where
  "unattributedQuotaUserID = ''__tokenhub_unattributed__''"

definition allUsersQuotaScopeID :: string where
  "allUsersQuotaScopeID = ''all_users''"

definition quotaAttributionKey :: "string \<Rightarrow> string" where
  "quotaAttributionKey userID = (let u = TrimSpace userID in if u = [] then unattributedQuotaUserID else u)"

definition usageAttributionUserID :: "APIKey \<Rightarrow> Project \<Rightarrow> string" where
  "usageAttributionUserID key project =
     (if TrimSpace (K_OwnerUserID key) \<noteq> [] then TrimSpace (K_OwnerUserID key)
      else case K_Metadata key ''created_by'' of
        Some creator \<Rightarrow> if TrimSpace creator \<noteq> [] then TrimSpace creator else TrimSpace (Pr_OwnerUserID project)
      | None \<Rightarrow> TrimSpace (Pr_OwnerUserID project))"

definition userQuotaPolicyApplies :: "string \<Rightarrow> string \<Rightarrow> bool" where
  "userQuotaPolicyApplies scopeID attributedUserID \<longleftrightarrow>
     attributedUserID \<noteq> [] \<and> attributedUserID \<noteq> unattributedQuotaUserID \<and>
     (scopeID = allUsersQuotaScopeID \<or> scopeID = attributedUserID)"

definition quotaPolicyApplies :: "string \<Rightarrow> string \<Rightarrow> Project \<Rightarrow> APIKey \<Rightarrow> bool" where
  "quotaPolicyApplies scope scopeID project key =
     (if scope = [] \<or> scope = ''global'' \<or> scope = ''organization''
      then scopeID = [] \<or> scopeID = ''default'' \<or> scopeID = ''global''
      else if scope = ''project'' then scopeID = [] \<or> scopeID = Pr_ID project
      else if scope = ''api_key'' \<or> scope = ''key'' then scopeID = [] \<or> scopeID = K_ID key
      else if scope = ''team'' then scopeID = [] \<or> scopeID = Pr_TeamID project
      else if scope = ''user'' then userQuotaPolicyApplies scopeID (usageAttributionUserID key project)
      else False)"

definition policy_scope :: "(f64 \<Rightarrow> string) \<Rightarrow> json_fields \<Rightarrow> string" where
  "policy_scope sprint flds =
     (let scope = ToLower (TrimSpace (stringField sprint flds ''scope''))
      in if scope = [] then ToLower (TrimSpace (stringField sprint flds ''scope_type'')) else scope)"

definition policy_limits :: "json_fields \<Rightarrow> QuotaLimits" where
  "policy_limits flds =
     \<lparr>L_RateLimitRPM = int64Field flds ''rate_limit_rpm'',
      L_TokenLimitTPM = int64Field flds ''token_limit_tpm'',
      L_DailyRequests = int64Field flds ''daily_requests'',
      L_MonthlyRequests = int64Field flds ''monthly_requests'',
      L_DailyTokens = int64Field flds ''daily_tokens'',
      L_MonthlyTokens = int64Field flds ''monthly_tokens'',
      L_DailyCostUSD = float64Field flds ''daily_cost_usd'',
      L_MonthlyCostUSD = float64Field flds ''monthly_cost_usd'',
      L_MaxConcurrency = int64Field flds ''max_concurrency''\<rparr>"

type_synonym policy_state = "QuotaLimits \<times> MinuteLimitScopes \<times> UserQuotaPolicy"

definition apply_policy ::
  "(f64 \<Rightarrow> string) \<Rightarrow> Project \<Rightarrow> APIKey \<Rightarrow> policy_state \<Rightarrow> json_fields \<Rightarrow> policy_state" where
  "apply_policy sprint project key st flds =
     (case st of (limits, scopes, userPolicy) \<Rightarrow>
      let scope = policy_scope sprint flds;
          scopeID = TrimSpace (stringField sprint flds ''scope_id'');
          candidate = policy_limits flds
      in if \<not> quotaPolicyApplies scope scopeID project key then st
         else if scope = ''user'' then
           (limits, scopes,
            \<lparr>UP_UserID = usageAttributionUserID key project,
             UP_Limits = mergeQuotaLimits (UP_Limits userPolicy) candidate\<rparr>)
         else (mergeQuotaLimits limits candidate, updateQuotaLimitScopes scopes limits candidate scope, userPolicy))"

definition quotaPolicyLimits :: "(f64 \<Rightarrow> string) \<Rightarrow> json_fields list \<Rightarrow> Project \<Rightarrow> APIKey \<Rightarrow> policy_state" where
  "quotaPolicyLimits sprint resources project key =
     foldl (apply_policy sprint project key)
       (zero_QuotaLimits, zero_MinuteLimitScopes, \<lparr>UP_UserID = [], UP_Limits = zero_QuotaLimits\<rparr>) resources"

section \<open>Counters against limits\<close>

definition exceededQuotaLimitWithScope ::
  "QuotaLimits \<Rightarrow> MinuteLimitScopes \<Rightarrow> QuotaCounter \<Rightarrow> QuotaCounter \<Rightarrow> string \<times> string" where
  "exceededQuotaLimitWithScope limits scopes day month =
     (if L_DailyRequests limits > 0 \<and> N_Requests day \<ge> L_DailyRequests limits
      then (''daily_requests'', normalizedQuotaPolicyScope (S_DailyRequests scopes))
      else if L_MonthlyRequests limits > 0 \<and> N_Requests month \<ge> L_MonthlyRequests limits
      then (''monthly_requests'', normalizedQuotaPolicyScope (S_MonthlyRequests scopes))
      else if L_DailyTokens limits > 0 \<and> N_TotalTokens day \<ge> L_DailyTokens limits
      then (''daily_tokens'', normalizedQuotaPolicyScope (S_DailyTokens scopes))
      else if L_MonthlyTokens limits > 0 \<and> N_TotalTokens month \<ge> L_MonthlyTokens limits
      then (''monthly_tokens'', normalizedQuotaPolicyScope (S_MonthlyTokens scopes))
      else if f64_less (Fin 0) (L_DailyCostUSD limits) \<and> f64_le (L_DailyCostUSD limits) (N_CostUSD day)
      then (''daily_cost_usd'', normalizedQuotaPolicyScope (S_DailyCostUSD scopes))
      else if f64_less (Fin 0) (L_MonthlyCostUSD limits) \<and> f64_le (L_MonthlyCostUSD limits) (N_CostUSD month)
      then (''monthly_cost_usd'', normalizedQuotaPolicyScope (S_MonthlyCostUSD scopes))
      else ([], []))"

definition exceededQuotaLimitWithReservation ::
  "QuotaLimits \<Rightarrow> QuotaCounter \<Rightarrow> QuotaCounter \<Rightarrow> int64 \<Rightarrow> string" where
  "exceededQuotaLimitWithReservation limits day month reservation0 =
     (let reservation = maxInt64 reservation0 0 in
      if L_DailyRequests limits > 0 \<and> N_Requests day \<ge> L_DailyRequests limits then ''daily_requests''
      else if L_MonthlyRequests limits > 0 \<and> N_Requests month \<ge> L_MonthlyRequests limits then ''monthly_requests''
      else if L_DailyTokens limits > 0 \<and> (N_TotalTokens day \<ge> L_DailyTokens limits \<or>
             saturatingAddNonNegative (N_TotalTokens day) reservation > L_DailyTokens limits) then ''daily_tokens''
      else if L_MonthlyTokens limits > 0 \<and> (N_TotalTokens month \<ge> L_MonthlyTokens limits \<or>
             saturatingAddNonNegative (N_TotalTokens month) reservation > L_MonthlyTokens limits) then ''monthly_tokens''
      else if f64_less (Fin 0) (L_DailyCostUSD limits) \<and> f64_le (L_DailyCostUSD limits) (N_CostUSD day)
      then ''daily_cost_usd''
      else if f64_less (Fin 0) (L_MonthlyCostUSD limits) \<and> f64_le (L_MonthlyCostUSD limits) (N_CostUSD month)
      then ''monthly_cost_usd''
      else [])"

definition addUsage :: "QuotaCounter \<Rightarrow> Usage \<Rightarrow> f64 \<Rightarrow> QuotaCounter" where
  "addUsage counter usage cost =
     counter\<lparr>N_PromptTokens := wrap64 (N_PromptTokens counter + PromptTokens usage),
             N_CompletionTokens := wrap64 (N_CompletionTokens counter + CompletionTokens usage),
             N_TotalTokens := wrap64 (N_TotalTokens counter + TotalTokens usage),
             N_CostUSD := f64_add (N_CostUSD counter) cost\<rparr>"

definition refundQuotaReservation :: "QuotaCounter \<Rightarrow> int64 \<Rightarrow> QuotaCounter" where
  "refundQuotaReservation counter reservation0 =
     (let reservation = maxInt64 reservation0 0 in
      if reservation \<ge> N_TotalTokens counter then counter\<lparr>N_TotalTokens := 0\<rparr>
      else counter\<lparr>N_TotalTokens := wrap64 (N_TotalTokens counter - reservation)\<rparr>)"

definition mergeQuotaCounterMax :: "QuotaCounter \<Rightarrow> QuotaCounter \<Rightarrow> QuotaCounter" where
  "mergeQuotaCounterMax tgt source =
     \<lparr>N_Requests = (if N_Requests source > N_Requests tgt then N_Requests source else N_Requests tgt),
      N_PromptTokens = (if N_PromptTokens source > N_PromptTokens tgt then N_PromptTokens source else N_PromptTokens tgt),
      N_CompletionTokens = (if N_CompletionTokens source > N_CompletionTokens tgt then N_CompletionTokens source else N_CompletionTokens tgt),
      N_TotalTokens = (if N_TotalTokens source > N_TotalTokens tgt then N_TotalTokens source else N_TotalTokens tgt),
      N_CostUSD = (if f64_less (N_CostUSD tgt) (N_CostUSD source) then N_CostUSD source else N_CostUSD tgt)\<rparr>"

section \<open>The merged limits block what one of the policies blocks\<close>

definition over_int :: "int64 \<Rightarrow> int64 \<Rightarrow> bool" where
  "over_int limit x \<longleftrightarrow> limit > 0 \<and> x \<ge> limit"

definition over_cost :: "f64 \<Rightarrow> f64 \<Rightarrow> bool" where
  "over_cost limit x \<longleftrightarrow> f64_less (Fin 0) limit \<and> f64_le limit x"

definition over_quota :: "QuotaLimits \<Rightarrow> QuotaCounter \<Rightarrow> QuotaCounter \<Rightarrow> bool" where
  "over_quota limits day month \<longleftrightarrow>
     over_int (L_DailyRequests limits) (N_Requests day) \<or> over_int (L_MonthlyRequests limits) (N_Requests month) \<or>
     over_int (L_DailyTokens limits) (N_TotalTokens day) \<or> over_int (L_MonthlyTokens limits) (N_TotalTokens month) \<or>
     over_cost (L_DailyCostUSD limits) (N_CostUSD day) \<or> over_cost (L_MonthlyCostUSD limits) (N_CostUSD month)"

lemma exceeded_iff_over_quota:
  "fst (exceededQuotaLimitWithScope limits scopes day month) \<noteq> [] \<longleftrightarrow> over_quota limits day month"
  by (simp add: exceededQuotaLimitWithScope_def over_quota_def over_int_def over_cost_def)

lemma strictInt64_over: "over_int (strictInt64 a b) x \<longleftrightarrow> over_int a x \<or> over_int b x"
  by (auto simp: over_int_def strictInt64_def)

lemma strictFloat64_over:
  assumes "a \<noteq> NaN" and "b \<noteq> NaN"
  shows "over_cost (strictFloat64 a b) x \<longleftrightarrow> over_cost a x \<or> over_cost b x"
  using assms by (cases a; cases b; cases x) (auto simp: over_cost_def strictFloat64_def f64_le_def split: if_splits)

lemma strictFloat64_not_NaN: "a \<noteq> NaN \<Longrightarrow> b \<noteq> NaN \<Longrightarrow> strictFloat64 a b \<noteq> NaN"
  by (simp add: strictFloat64_def)

definition costs_ok :: "QuotaLimits \<Rightarrow> bool" where
  "costs_ok limits \<longleftrightarrow> L_DailyCostUSD limits \<noteq> NaN \<and> L_MonthlyCostUSD limits \<noteq> NaN"

lemma merge_costs_ok: "costs_ok a \<Longrightarrow> costs_ok b \<Longrightarrow> costs_ok (mergeQuotaLimits a b)"
  by (simp add: costs_ok_def mergeQuotaLimits_def strictFloat64_not_NaN)

lemma merge_over_quota:
  "costs_ok a \<Longrightarrow> costs_ok b \<Longrightarrow>
   over_quota (mergeQuotaLimits a b) day month \<longleftrightarrow> over_quota a day month \<or> over_quota b day month"
  by (auto simp: over_quota_def mergeQuotaLimits_def costs_ok_def strictInt64_over strictFloat64_over)

text \<open>The policies that bound the counters of a key: those that apply and are not for a user.\<close>

definition key_policy :: "(f64 \<Rightarrow> string) \<Rightarrow> Project \<Rightarrow> APIKey \<Rightarrow> json_fields \<Rightarrow> bool" where
  "key_policy sprint project key flds \<longleftrightarrow>
     policy_scope sprint flds \<noteq> ''user'' \<and>
     quotaPolicyApplies (policy_scope sprint flds) (TrimSpace (stringField sprint flds ''scope_id'')) project key"

lemma apply_policy_limits:
  "fst (apply_policy sprint project key st flds) =
     (if key_policy sprint project key flds then mergeQuotaLimits (fst st) (policy_limits flds) else fst st)"
  by (simp add: apply_policy_def key_policy_def Let_def split: prod.split)

lemma quotaPolicyLimits_fst:
  "fst (foldl (apply_policy sprint project key) st rs) =
     foldl mergeQuotaLimits (fst st) (map policy_limits (filter (key_policy sprint project key) rs))"
  by (induction rs arbitrary: st) (simp_all add: apply_policy_limits)

lemma foldl_merge_over:
  assumes "costs_ok l" and "\<forall>m \<in> set ms. costs_ok m"
  shows "over_quota (foldl mergeQuotaLimits l ms) day month \<longleftrightarrow>
    over_quota l day month \<or> (\<exists>m \<in> set ms. over_quota m day month)"
  using assms by (induction ms arbitrary: l) (auto simp: merge_costs_ok merge_over_quota)

lemma zero_limits: "costs_ok zero_QuotaLimits" "\<not> over_quota zero_QuotaLimits day month"
  by (simp_all add: costs_ok_def zero_QuotaLimits_def over_quota_def over_int_def over_cost_def)

section \<open>Reservation and refund\<close>

lemma refund_reserve:
  assumes "in_int64 r" and "0 \<le> N_TotalTokens c" and "N_TotalTokens c + max r 0 \<le> max_int64"
  shows "refundQuotaReservation (c\<lparr>N_TotalTokens := saturatingAddNonNegative (N_TotalTokens c) (max r 0)\<rparr>) r = c"
proof -
  let ?t = "N_TotalTokens c" and ?r = "max r 0"
  have "saturatingAddNonNegative ?t ?r = ?t + ?r"
    using assms by (subst saturating_eq) (auto simp: int64_bounds)
  then show ?thesis
    using assms by (cases "?t = 0") (auto simp: refundQuotaReservation_def wrap64_id int64_bounds)
qed

section \<open>Properties\<close>

text \<open>(C30) The limits computed for a key refuse a call on its day and month counters exactly when one
  of the active policies that apply to the key, other than user policies, does: merging loses no
  limit and adds none, whatever the order of the policies.\<close>

theorem quotaPolicyLimits_blocks_iff:
  assumes "\<forall>flds \<in> set policies. costs_ok (policy_limits flds)"
  shows "fst (exceededQuotaLimitWithScope (fst (quotaPolicyLimits sprint policies project key)) scopes day month) \<noteq> [] \<longleftrightarrow>
    (\<exists>flds \<in> set policies. key_policy sprint project key flds \<and>
       fst (exceededQuotaLimitWithScope (policy_limits flds) scopes day month) \<noteq> [])"
  using assms foldl_merge_over [OF zero_limits(1), of "map policy_limits (filter (key_policy sprint project key) policies)"]
  by (auto simp: exceeded_iff_over_quota quotaPolicyLimits_def quotaPolicyLimits_fst zero_limits)

theorem quotaPolicyLimits_blocks_iff_witness:
  "fst (exceededQuotaLimitWithScope
     (fst (quotaPolicyLimits (\<lambda>_. []) [[''daily_requests'' \<mapsto> VInt 5], [''daily_requests'' \<mapsto> VInt 3]]
        \<lparr>Pr_ID = ''p'', Pr_TeamID = [], Pr_OwnerUserID = [], Pr_Status = ''active'', Pr_CostCenter = [],
         Pr_DefaultQuotaRef = [], Pr_ModelAccessMode = [], Pr_AllowedModels = []\<rparr>
        \<lparr>K_ID = ''k'', K_ProjectID = ''p'', K_OwnerUserID = [], K_Limits = zero_QuotaLimits, K_RateLimitRPM = None,
         K_TokenLimitTPM = None, K_Status = ''active'', K_ExpiresAt = None, K_GraceUntil = None,
         K_ModelAccessMode = [], K_Allowed = [], K_Metadata = Map.empty\<rparr>))
     zero_MinuteLimitScopes (zero_QuotaCounter\<lparr>N_Requests := 3\<rparr>) zero_QuotaCounter) \<noteq> []"
  by (subst quotaPolicyLimits_blocks_iff)
    (simp_all add: costs_ok_def policy_limits_def float64Field_def int64Field_def key_policy_def policy_scope_def
      stringField_def ToLower_def quotaPolicyApplies_def exceededQuotaLimitWithScope_def zero_QuotaCounter_def)

end
