(* ===== verification/QuotaStore.thy ===== *)
theory QuotaStore
  imports QuotaPolicy
begin

text \<open>
  The quota tables of the gateway's store and the operations on them (\<open>store_backup_quota.go\<close>,
  \<open>store_routing_calls.go\<close>, \<open>store_providers.go\<close>, \<open>store_database.go\<close>, \<open>store_helpers.go\<close>):
  counters per key, period and attributed user, with the minute rate limits, and the in-flight
  leases that bound concurrency across processes.

  A table is a list of rows. Each operation runs inside the caller's transaction and returns an
  error or its result with the new tables, so an error leaves the tables of the caller alone. A
  database call may fail: \<open>fault\<close> gives, per call site, the error it returns, if any. The
  database clock is an argument; \<open>NULL\<close> and \<open>''\<close> in the attribution column are one value.
\<close>

section \<open>State\<close>

datatype store_error = Http HTTPError | Db string

type_synonym store_faults = "string \<Rightarrow> string option"

record QuotaBucket =
  B_KeyID :: string
  B_Scope :: string
  B_Bucket :: string
  B_AttributedUserID :: string
  B_Counter :: QuotaCounter

record InFlightLease =
  IL_ID :: string
  IL_ScopeType :: string
  IL_ScopeID :: string
  IL_ExpiresAt :: instant
  IL_CreatedAt :: instant
  IL_UpdatedAt :: instant

record quota_db =
  qd_buckets :: "QuotaBucket list"
  qd_leases :: "InFlightLease list"

definition db_call :: "store_faults \<Rightarrow> string \<Rightarrow> store_error + unit" where
  "db_call fault site = (case fault site of Some e \<Rightarrow> Inl (Db e) | None \<Rightarrow> Inr ())"

section \<open>Clock text\<close>

definition dayBucket :: "instant \<Rightarrow> string" where
  "dayBucket t = (case local_date UTC t of (y, m, d) \<Rightarrow> pad_int 4 y @ ''-'' @ pad_int 2 m @ ''-'' @ pad_int 2 d)"

definition monthBucket :: "instant \<Rightarrow> string" where
  "monthBucket t = (case local_date UTC t of (y, m, d) \<Rightarrow> pad_int 4 y @ ''-'' @ pad_int 2 m)"

definition minuteBucket :: "instant \<Rightarrow> string" where
  "minuteBucket t =
     (case local_date UTC t of (y, m, d) \<Rightarrow>
        pad_int 4 y @ ''-'' @ pad_int 2 m @ ''-'' @ pad_int 2 d @ ''T'' @
        pad_int 2 (local_hour UTC t) @ '':'' @ pad_int 2 (local_minute UTC t))"

section \<open>Counters\<close>

definition userQuotaBucketKey :: "string \<Rightarrow> string" where
  "userQuotaBucketKey userID = ''user:'' @ TrimSpace userID"

definition row_key :: "QuotaBucket \<Rightarrow> string \<times> string \<times> string \<times> string" where
  "row_key r = (B_KeyID r, B_Scope r, B_Bucket r, B_AttributedUserID r)"

text \<open>The rewriting of rows that predate the attribution column.\<close>

definition adopt_legacy :: "string \<Rightarrow> string \<Rightarrow> string \<Rightarrow> QuotaBucket list \<Rightarrow> QuotaBucket list" where
  "adopt_legacy keyID scope bucket rows =
     (if list_ex (\<lambda>r. row_key r = (keyID, scope, bucket, unattributedQuotaUserID)) rows then rows
      else map (\<lambda>r. if row_key r = (keyID, scope, bucket, [])
                    then r\<lparr>B_AttributedUserID := unattributedQuotaUserID\<rparr> else r) rows)"

definition quotaBucketForUpdate ::
  "store_faults \<Rightarrow> string \<Rightarrow> string \<Rightarrow> string \<Rightarrow> string \<Rightarrow> quota_db \<Rightarrow> store_error + (QuotaBucket \<times> quota_db)" where
  "quotaBucketForUpdate fault keyID scope bucket user db =
     (let attributed = quotaAttributionKey user in
      rbind (if attributed = unattributedQuotaUserID then db_call fault ''bucket.adopt'' else Inr ()) (\<lambda>_.
      rbind (db_call fault ''bucket.create'') (\<lambda>_.
      rbind (db_call fault ''bucket.first'') (\<lambda>_.
        let rows1 = (if attributed = unattributedQuotaUserID
                     then adopt_legacy keyID scope bucket (qd_buckets db) else qd_buckets db);
            seed = \<lparr>B_KeyID = keyID, B_Scope = scope, B_Bucket = bucket, B_AttributedUserID = attributed,
                    B_Counter = zero_QuotaCounter\<rparr>
        in case find (\<lambda>r. row_key r = row_key seed) rows1 of
             Some item \<Rightarrow> Inr (item, db\<lparr>qd_buckets := rows1\<rparr>)
           | None \<Rightarrow> Inr (seed, db\<lparr>qd_buckets := rows1 @ [seed]\<rparr>)))))"

text \<open>\<open>tx.Save\<close> of a counter row: update by primary key, insert when there is none.\<close>

definition save_bucket :: "store_faults \<Rightarrow> QuotaBucket \<Rightarrow> quota_db \<Rightarrow> store_error + quota_db" where
  "save_bucket fault item db =
     rbind (db_call fault ''bucket.save'') (\<lambda>_.
       Inr (db\<lparr>qd_buckets :=
         (if list_ex (\<lambda>r. row_key r = row_key item) (qd_buckets db)
          then map (\<lambda>r. if row_key r = row_key item then item else r) (qd_buckets db)
          else qd_buckets db @ [item])\<rparr>))"

definition apiKeyMinuteBucketRetention :: duration where
  "apiKeyMinuteBucketRetention = 24 * Hour"

definition pruneAPIKeyMinuteBuckets :: "store_faults \<Rightarrow> string \<Rightarrow> instant \<Rightarrow> quota_db \<Rightarrow> store_error + quota_db" where
  "pruneAPIKeyMinuteBuckets fault keyID now db =
     (let cutoff = minuteBucket (now - apiKeyMinuteBucketRetention) in
      rbind (db_call fault ''bucket.prune'') (\<lambda>_.
        Inr (db\<lparr>qd_buckets :=
          filter (\<lambda>r. \<not> (B_KeyID r = keyID \<and> B_Scope r = ''minute'' \<and> B_Bucket r < cutoff)) (qd_buckets db)\<rparr>)))"

text \<open>What the rollback of an admission gives back to a counter.\<close>

definition drop_request :: "QuotaBucket \<Rightarrow> QuotaBucket" where
  "drop_request row =
     (if N_Requests (B_Counter row) > 0
      then row\<lparr>B_Counter := (B_Counter row)\<lparr>N_Requests := N_Requests (B_Counter row) - 1\<rparr>\<rparr> else row)"

definition drop_minute_request :: "store_faults \<Rightarrow> string \<Rightarrow> instant \<Rightarrow> string \<Rightarrow> quota_db \<Rightarrow> store_error + quota_db" where
  "drop_minute_request fault ident admittedAt user q =
     rbind (quotaBucketForUpdate fault ident ''minute'' (minuteBucket admittedAt) user q) (\<lambda>(row, q1). save_bucket fault (drop_request row) q1)"

section \<open>Minute limits\<close>

definition reset_seconds :: "instant \<Rightarrow> int64" where
  "reset_seconds now =
     (let r = (now - now mod Minute + Minute - now) div 1000000000 in if r < 1 then 1 else r)"

definition apiKeyRateLimitHeaders :: "QuotaLimits \<Rightarrow> QuotaCounter \<Rightarrow> instant \<Rightarrow> bool \<Rightarrow> (string \<times> string) list" where
  "apiKeyRateLimitHeaders limits counter now retry =
     (if L_RateLimitRPM limits \<le> 0 \<and> L_TokenLimitTPM limits \<le> 0 then []
      else
        (if L_RateLimitRPM limits > 0 then
           [(''X-RateLimit-Limit-Requests'', show_int (L_RateLimitRPM limits)),
            (''X-RateLimit-Remaining-Requests'', show_int (maxInt64 (wrap64 (L_RateLimitRPM limits - N_Requests counter)) 0)),
            (''X-RateLimit-Reset-Requests'', show_int (reset_seconds now))] else []) @
        (if L_TokenLimitTPM limits > 0 then
           [(''X-RateLimit-Limit-Tokens'', show_int (L_TokenLimitTPM limits)),
            (''X-RateLimit-Remaining-Tokens'', show_int (maxInt64 (wrap64 (L_TokenLimitTPM limits - N_TotalTokens counter)) 0)),
            (''X-RateLimit-Reset-Tokens'', show_int (reset_seconds now))] else []) @
        (if retry then [(''Retry-After'', show_int (reset_seconds now))] else []))"

fun combined_remaining_loop :: "int64 \<Rightarrow> (int64 \<times> int64) list \<Rightarrow> int64" where
  "combined_remaining_loop remaining [] = (if remaining < 0 then 0 else remaining)"
| "combined_remaining_loop remaining ((value, used) # rest) =
     (if value \<le> 0 then combined_remaining_loop remaining rest
      else let candidate = maxInt64 (wrap64 (value - maxInt64 used 0)) 0
           in combined_remaining_loop (if remaining < 0 \<or> candidate < remaining then candidate else remaining) rest)"

definition combinedMinuteRemaining :: "int64 \<Rightarrow> int64 \<Rightarrow> int64 \<Rightarrow> int64 \<Rightarrow> int64" where
  "combinedMinuteRemaining primaryLimit primaryUsed secondaryLimit secondaryUsed =
     combined_remaining_loop (- 1) [(primaryLimit, primaryUsed), (secondaryLimit, secondaryUsed)]"

definition combinedRateLimitHeaders ::
  "QuotaLimits \<Rightarrow> QuotaCounter \<Rightarrow> QuotaLimits \<Rightarrow> QuotaCounter \<Rightarrow> instant \<Rightarrow> bool \<Rightarrow> (string \<times> string) list" where
  "combinedRateLimitHeaders pl pc sl sc now retry =
     (let requestLimit = strictInt64 (L_RateLimitRPM pl) (L_RateLimitRPM sl);
          tokenLimit = strictInt64 (L_TokenLimitTPM pl) (L_TokenLimitTPM sl)
      in if requestLimit \<le> 0 \<and> tokenLimit \<le> 0 then []
         else
           (if requestLimit > 0 then
              [(''X-RateLimit-Limit-Requests'', show_int requestLimit),
               (''X-RateLimit-Remaining-Requests'',
                show_int (combinedMinuteRemaining (L_RateLimitRPM pl) (N_Requests pc) (L_RateLimitRPM sl) (N_Requests sc))),
               (''X-RateLimit-Reset-Requests'', show_int (reset_seconds now))] else []) @
           (if tokenLimit > 0 then
              [(''X-RateLimit-Limit-Tokens'', show_int tokenLimit),
               (''X-RateLimit-Remaining-Tokens'',
                show_int (combinedMinuteRemaining (L_TokenLimitTPM pl) (N_TotalTokens pc) (L_TokenLimitTPM sl) (N_TotalTokens sc))),
               (''X-RateLimit-Reset-Tokens'', show_int (reset_seconds now))] else []) @
           (if retry then [(''Retry-After'', show_int (reset_seconds now))] else []))"

definition apiKeyRateLimitError ::
  "string \<Rightarrow> string \<Rightarrow> string \<Rightarrow> QuotaLimits \<Rightarrow> QuotaCounter \<Rightarrow> instant \<Rightarrow> store_error" where
  "apiKeyRateLimitError code message scope limits counter now =
     Http \<lparr>err_Status = 429, err_Code = code, err_Message = message,
           err_Details = [(''scope'', normalizedQuotaPolicyScope scope)],
           err_Headers = apiKeyRateLimitHeaders limits counter now True\<rparr>"

definition consumeAPIKeyMinuteRequest ::
  "store_faults \<Rightarrow> string \<Rightarrow> QuotaLimits \<Rightarrow> MinuteLimitScopes \<Rightarrow> int64 \<Rightarrow> instant \<Rightarrow> string \<Rightarrow> quota_db \<Rightarrow>
   store_error + (QuotaCounter \<times> quota_db)" where
  "consumeAPIKeyMinuteRequest fault keyID limits scopes reservation0 now user db =
     (if L_RateLimitRPM limits \<le> 0 \<and> L_TokenLimitTPM limits \<le> 0 then Inr (zero_QuotaCounter, db)
      else rbind (quotaBucketForUpdate fault keyID ''minute'' (minuteBucket now) user db) (\<lambda>(bucket, db1).
      let c = B_Counter bucket; reservation = maxInt64 reservation0 0 in
      if L_RateLimitRPM limits > 0 \<and> N_Requests c \<ge> L_RateLimitRPM limits
      then Inl (apiKeyRateLimitError ''api_key_rpm_exceeded'' ''API key requests per minute limit exceeded'' (S_RPM scopes) limits c now)
      else if L_TokenLimitTPM limits > 0 \<and> saturatingAddNonNegative (N_TotalTokens c) reservation > L_TokenLimitTPM limits
      then Inl (apiKeyRateLimitError ''api_key_tpm_exceeded'' ''API key tokens per minute limit exceeded'' (S_TPM scopes) limits c now)
      else
        let c1 = (if L_RateLimitRPM limits > 0 then c\<lparr>N_Requests := wrap64 (N_Requests c + 1)\<rparr> else c);
            c2 = (if L_TokenLimitTPM limits > 0
                  then c1\<lparr>N_TotalTokens := saturatingAddNonNegative (N_TotalTokens c1) reservation\<rparr> else c1)
        in rbind (save_bucket fault (bucket\<lparr>B_Counter := c2\<rparr>) db1) (\<lambda>db2. Inr (c2, db2))))"

definition reconciled_tokens :: "int64 \<Rightarrow> int64 \<Rightarrow> int64 \<Rightarrow> int64" where
  "reconciled_tokens tokens reserved0 actual0 =
     (let actual = maxInt64 actual0 0; reserved = maxInt64 reserved0 0 in
      if actual \<ge> reserved then saturatingAddNonNegative tokens (wrap64 (actual - reserved))
      else let refund = wrap64 (reserved - actual)
           in if refund \<ge> tokens then 0 else wrap64 (tokens - refund))"

definition reconcileQuotaMinuteTokens ::
  "store_faults \<Rightarrow> string \<Rightarrow> string \<Rightarrow> int64 \<Rightarrow> int64 \<Rightarrow> string \<Rightarrow> quota_db \<Rightarrow> store_error + quota_db" where
  "reconcileQuotaMinuteTokens fault bucketID bucketName reserved actual user db =
     (if bucketName = [] \<or> reserved = 0 \<and> actual = 0 then Inr db
      else rbind (quotaBucketForUpdate fault bucketID ''minute'' bucketName user db) (\<lambda>(bucket, db1).
        let c = B_Counter bucket
        in save_bucket fault (bucket\<lparr>B_Counter := c\<lparr>N_TotalTokens := reconciled_tokens (N_TotalTokens c) reserved actual\<rparr>\<rparr>) db1))"

section \<open>Leases\<close>

definition effectiveLeaseTTL :: "duration \<Rightarrow> duration \<Rightarrow> duration" where
  "effectiveLeaseTTL value fallback = (if value \<le> 0 then fallback else value)"

definition persistedLeaseConfirmation :: "instant \<Rightarrow> instant \<Rightarrow> duration" where
  "persistedLeaseConfirmation expiresAt now = (let remaining = time_Sub expiresAt now in if remaining < 0 then 0 else remaining)"

definition ErrRateLimitExceeded :: HTTPError where
  "ErrRateLimitExceeded = NewHTTPError 429 ''rate_limit_exceeded'' ''Rate limit exceeded''"

definition in_scope :: "string \<Rightarrow> string \<Rightarrow> InFlightLease \<Rightarrow> bool" where
  "in_scope scopeType scopeID l \<longleftrightarrow> IL_ScopeType l = scopeType \<and> IL_ScopeID l = scopeID"

text \<open>\<open>now\<close> and \<open>later\<close> are the two readings of the database clock.\<close>

definition acquireInFlightLease ::
  "store_faults \<Rightarrow> duration \<Rightarrow> string \<Rightarrow> string \<Rightarrow> int64 \<Rightarrow> string \<Rightarrow> instant \<Rightarrow> instant \<Rightarrow> quota_db \<Rightarrow>
   store_error + (duration \<times> quota_db)" where
  "acquireInFlightLease fault leaseTTL scopeType scopeID limit leaseID now later db =
     (if limit \<le> 0 then Inr (0, db)
      else rbind (db_call fault ''lease.lock'') (\<lambda>_.
      rbind (db_call fault ''lease.now'') (\<lambda>_.
      rbind (db_call fault ''lease.expire'') (\<lambda>_.
      rbind (db_call fault ''lease.count'') (\<lambda>_.
      let live = filter (\<lambda>l. \<not> (in_scope scopeType scopeID l \<and> IL_ExpiresAt l \<le> now)) (qd_leases db);
          held = int (length (filter (\<lambda>l. in_scope scopeType scopeID l \<and> IL_ExpiresAt l > now) live))
      in if held \<ge> limit then Inl (Http ErrRateLimitExceeded)
         else let expiresAt = now + effectiveLeaseTTL leaseTTL 300000000000;
                  lease = \<lparr>IL_ID = leaseID, IL_ScopeType = scopeType, IL_ScopeID = scopeID,
                           IL_ExpiresAt = expiresAt, IL_CreatedAt = now, IL_UpdatedAt = now\<rparr>
              in if list_ex (\<lambda>l. IL_ID l = leaseID) live then Inl (Db ''unique constraint'')
                 else rbind (db_call fault ''lease.create'') (\<lambda>_.
                      rbind (db_call fault ''lease.confirm'') (\<lambda>_.
                        Inr (persistedLeaseConfirmation expiresAt later, db\<lparr>qd_leases := live @ [lease]\<rparr>))))))))"

definition renewInFlightLease ::
  "store_faults \<Rightarrow> string \<Rightarrow> duration \<Rightarrow> instant \<Rightarrow> instant \<Rightarrow> quota_db \<Rightarrow> store_error + ((duration \<times> bool) \<times> quota_db)" where
  "renewInFlightLease fault leaseID ttl now later db =
     rbind (db_call fault ''lease.now'') (\<lambda>_.
     rbind (db_call fault ''lease.renew'') (\<lambda>_.
       if \<not> list_ex (\<lambda>l. IL_ID l = leaseID) (qd_leases db) then Inr ((0, False), db)
       else rbind (db_call fault ''lease.confirm'') (\<lambda>_.
         let confirmed = persistedLeaseConfirmation (now + ttl) later
         in Inr ((confirmed, confirmed > 0),
              db\<lparr>qd_leases := map (\<lambda>l. if IL_ID l = leaseID
                then l\<lparr>IL_ExpiresAt := now + ttl, IL_UpdatedAt := now\<rparr> else l) (qd_leases db)\<rparr>))))"

definition userConcurrencyLeaseID :: "string \<Rightarrow> string" where
  "userConcurrencyLeaseID requestID = TrimSpace requestID @ '':user''"

definition requestConcurrencyLeaseIDs :: "string \<Rightarrow> string list" where
  "requestConcurrencyLeaseIDs requestID =
     (if TrimSpace requestID = [] then [] else [TrimSpace requestID, userConcurrencyLeaseID (TrimSpace requestID)])"

definition deleteRequestConcurrencyLeases :: "store_faults \<Rightarrow> string \<Rightarrow> quota_db \<Rightarrow> store_error + quota_db" where
  "deleteRequestConcurrencyLeases fault requestID db =
     (let leaseIDs = requestConcurrencyLeaseIDs requestID in
      if leaseIDs = [] then Inr db
      else rbind (db_call fault ''lease.delete'') (\<lambda>_.
        Inr (db\<lparr>qd_leases := filter (\<lambda>l. IL_ID l \<notin> set leaseIDs) (qd_leases db)\<rparr>)))"

definition ReleaseProviderResourceCapacity :: "store_faults \<Rightarrow> string \<Rightarrow> quota_db \<Rightarrow> quota_db" where
  "ReleaseProviderResourceCapacity fault leaseID db =
     (if TrimSpace leaseID = [] \<or> fault ''lease.delete'' \<noteq> None then db
      else db\<lparr>qd_leases := filter (\<lambda>l. IL_ID l \<noteq> leaseID) (qd_leases db)\<rparr>)"

section \<open>The counter table as a map\<close>

text \<open>What a row key reads: its row, or for the unattributed key a row from before attribution.\<close>

type_synonym counter_key = "string \<times> string \<times> string \<times> string"

definition attribution :: "counter_key \<Rightarrow> string" where
  "attribution k = snd (snd (snd k))"

definition legacy_key :: "counter_key \<Rightarrow> counter_key" where
  "legacy_key k = (fst k, fst (snd k), fst (snd (snd k)), [])"

definition lookup_row :: "QuotaBucket list \<Rightarrow> counter_key \<Rightarrow> QuotaCounter option" where
  "lookup_row rows k = map_option B_Counter (find (\<lambda>r. row_key r = k) rows)"

definition count_of :: "quota_db \<Rightarrow> counter_key \<Rightarrow> QuotaCounter" where
  "count_of db k =
     (case lookup_row (qd_buckets db) k of
        Some c \<Rightarrow> c
      | None \<Rightarrow>
          if attribution k = unattributedQuotaUserID
          then (case lookup_row (qd_buckets db) (legacy_key k) of Some c \<Rightarrow> c | None \<Rightarrow> zero_QuotaCounter)
          else zero_QuotaCounter)"

lemma count_of_buckets:
  assumes "qd_buckets db1 = qd_buckets db"
  shows "count_of db1 = count_of db"
  unfolding count_of_def assms by (rule refl)

lemma lookup_row_simps [simp]:
  "lookup_row [] k = None"
  "lookup_row (r # rows) k = (if row_key r = k then Some (B_Counter r) else lookup_row rows k)"
  by (simp_all add: lookup_row_def)

lemma lookup_row_append: "lookup_row (xs @ ys) k = (case lookup_row xs k of Some c \<Rightarrow> Some c | None \<Rightarrow> lookup_row ys k)"
  by (induction xs) auto

lemma lookup_row_None: "lookup_row rows k = None \<longleftrightarrow> \<not> list_ex (\<lambda>r. row_key r = k) rows"
  by (induction rows) auto

lemma lookup_row_save:
  "lookup_row (map (\<lambda>r. if row_key r = row_key item then item else r) rows) k =
     (if k = row_key item \<and> list_ex (\<lambda>r. row_key r = k) rows then Some (B_Counter item) else lookup_row rows k)"
  by (induction rows) auto

lemma row_key_adopted: "row_key (r\<lparr>B_AttributedUserID := u\<rparr>) = (B_KeyID r, B_Scope r, B_Bucket r, u)"
  by (simp add: row_key_def)

lemma unattributed_nonempty [simp]: "unattributedQuotaUserID \<noteq> []"
  by (simp add: unattributedQuotaUserID_def)

lemma quotaAttributionKey_nonempty [simp]: "quotaAttributionKey u \<noteq> []"
  by (simp add: quotaAttributionKey_def Let_def)

lemma lookup_adopt_legacy:
  assumes "attribution k \<noteq> []"
  shows "lookup_row (adopt_legacy x y z rows) k =
    (case lookup_row rows k of
       Some c \<Rightarrow> Some c
     | None \<Rightarrow> if k = (x, y, z, unattributedQuotaUserID) then lookup_row rows (x, y, z, []) else None)"
proof (cases "list_ex (\<lambda>r. row_key r = (x, y, z, unattributedQuotaUserID)) rows")
  case True
  then show ?thesis
    using lookup_row_None [of rows "(x, y, z, unattributedQuotaUserID)"]
    by (auto simp: adopt_legacy_def split: option.split)
next
  case False
  let ?f = "\<lambda>r. if row_key r = (x, y, z, []) then r\<lparr>B_AttributedUserID := unattributedQuotaUserID\<rparr> else r"
  have key: "row_key (r\<lparr>B_AttributedUserID := unattributedQuotaUserID\<rparr>) = (x, y, z, unattributedQuotaUserID)"
    if "row_key r = (x, y, z, [])" for r
    using that by (simp add: row_key_def)
  have "lookup_row (map ?f rs) k =
      (case lookup_row rs k of
         Some c \<Rightarrow> Some c
       | None \<Rightarrow> if k = (x, y, z, unattributedQuotaUserID) then lookup_row rs (x, y, z, []) else None)"
    if "\<not> list_ex (\<lambda>r. row_key r = (x, y, z, unattributedQuotaUserID)) rs" for rs
    using that
  proof (induction rs)
    case (Cons r rs)
    then show ?case
    proof (cases "row_key r = (x, y, z, [])")
      case True
      moreover have "lookup_row rs (x, y, z, unattributedQuotaUserID) = None"
        using Cons.prems by (simp add: lookup_row_None)
      ultimately show ?thesis using Cons assms by (auto simp: key attribution_def)
    qed (auto split: option.split)
  qed simp
  with False show ?thesis by (simp add: adopt_legacy_def)
qed

lemma attribution_simp [simp]: "attribution (x, y, z, a) = a"
  by (simp add: attribution_def)

lemma legacy_key_simp [simp]: "legacy_key (x, y, z, a) = (x, y, z, [])"
  by (simp add: legacy_key_def)

lemma lookup_adopt_other:
  "(a, b, c) \<noteq> (x, y, z) \<Longrightarrow> lookup_row (adopt_legacy x y z rows) (a, b, c, []) = lookup_row rows (a, b, c, [])"
proof -
  assume "(a, b, c) \<noteq> (x, y, z)"
  then have "lookup_row (map (\<lambda>r. if row_key r = (x, y, z, []) then r\<lparr>B_AttributedUserID := unattributedQuotaUserID\<rparr> else r) rs)
      (a, b, c, []) = lookup_row rs (a, b, c, [])" for rs
    by (induction rs) (auto simp: row_key_def)
  then show ?thesis by (simp add: adopt_legacy_def)
qed

lemma adopt_legacy_none: "lookup_row rows (x, y, z, []) = None \<Longrightarrow> adopt_legacy x y z rows = rows"
  by (auto simp: adopt_legacy_def lookup_row_None list_ex_iff intro: map_idI)

lemma count_of_adopt:
  assumes "attribution k \<noteq> []"
  shows "count_of (db\<lparr>qd_buckets := adopt_legacy x y z (qd_buckets db)\<rparr>) k = count_of db k"
proof -
  obtain a b c u where k: "k = (a, b, c, u)" by (cases k)
  let ?rows = "qd_buckets db"
  note look = lookup_adopt_legacy [OF assms, of x y z ?rows]
  show ?thesis
  proof (cases "lookup_row ?rows k")
    case (Some v)
    then show ?thesis by (simp add: count_of_def look)
  next
    case None
    show ?thesis
    proof (cases "(a, b, c) = (x, y, z)")
      case True
      then show ?thesis using None look
        by (cases "lookup_row ?rows (x, y, z, [])") (auto simp: count_of_def k adopt_legacy_none)
    next
      case False
      then show ?thesis using None look lookup_adopt_other [OF False, of ?rows]
        by (auto simp: count_of_def k)
    qed
  qed
qed

lemma count_of_seed:
  assumes "attribution k \<noteq> []" and "row_key seed = k0" and "B_Counter seed = count_of db k0"
    and "lookup_row (qd_buckets db) k0 = None" and "attribution k0 \<noteq> []"
  shows "count_of (db\<lparr>qd_buckets := qd_buckets db @ [seed]\<rparr>) k = count_of db k"
proof -
  obtain a b c u where k: "k = (a, b, c, u)" by (cases k)
  have leg: "legacy_key k \<noteq> k0" using assms(5) by (cases k0) (auto simp: k)
  show ?thesis
  proof (cases "k = k0")
    case True
    then show ?thesis using assms by (simp add: count_of_def lookup_row_append)
  next
    case False
    then show ?thesis using assms(2) leg
      by (auto simp: count_of_def lookup_row_append split: option.split)
  qed
qed

lemma find_lookup: "find (\<lambda>r. row_key r = k) rows = Some item \<Longrightarrow> lookup_row rows k = Some (B_Counter item) \<and> row_key item = k"
  by (induction rows) (auto split: if_splits)

lemma find_None_lookup: "find (\<lambda>r. row_key r = k) rows = None \<longleftrightarrow> lookup_row rows k = None"
  by (simp add: lookup_row_def)

text \<open>The first law of the table: opening a row reads the counter of its key and changes no counter.\<close>

lemma quotaBucketForUpdate_law:
  assumes "quotaBucketForUpdate fault key scope bucket user db = Inr (item, db1)"
  shows "row_key item = (key, scope, bucket, quotaAttributionKey user)"
    and "B_Counter item = count_of db (row_key item)"
    and "qd_leases db1 = qd_leases db"
    and "attribution k \<noteq> [] \<Longrightarrow> count_of db1 k = count_of db k"
proof -
  let ?u = "quotaAttributionKey user" and ?k = "(key, scope, bucket, quotaAttributionKey user)"
  define rows1 where "rows1 = (if ?u = unattributedQuotaUserID then adopt_legacy key scope bucket (qd_buckets db) else qd_buckets db)"
  define seed where "seed = \<lparr>B_KeyID = key, B_Scope = scope, B_Bucket = bucket, B_AttributedUserID = ?u,
    B_Counter = zero_QuotaCounter\<rparr>"
  have seed: "row_key seed = ?k" "B_Counter seed = zero_QuotaCounter" by (simp_all add: seed_def row_key_def)
  have same: "count_of (db\<lparr>qd_buckets := rows1\<rparr>) k = count_of db k" if "attribution k \<noteq> []" for k
    using count_of_adopt [OF that] by (simp add: rows1_def)
  have res: "(case find (\<lambda>r. row_key r = row_key seed) rows1 of
       Some item \<Rightarrow> Inr (item, db\<lparr>qd_buckets := rows1\<rparr>)
     | None \<Rightarrow> Inr (seed, db\<lparr>qd_buckets := rows1 @ [seed]\<rparr>)) = (Inr (item, db1) :: store_error + _)"
    using assms unfolding quotaBucketForUpdate_def Let_def rbind_eq_Inr_iff seed_def rows1_def by simp
  consider (found) "lookup_row rows1 ?k = Some (B_Counter item)" "row_key item = ?k" "db1 = db\<lparr>qd_buckets := rows1\<rparr>"
    | (fresh) "lookup_row rows1 ?k = None" "item = seed" "db1 = db\<lparr>qd_buckets := rows1 @ [seed]\<rparr>"
    using res seed by (auto simp: find_None_lookup dest: find_lookup split: option.splits)
  then have all: "row_key item = ?k \<and> B_Counter item = count_of db ?k \<and> qd_leases db1 = qd_leases db \<and>
    (\<forall>k. attribution k \<noteq> [] \<longrightarrow> count_of db1 k = count_of db k)"
  proof (cases)
    case found
    have "count_of (db\<lparr>qd_buckets := rows1\<rparr>) ?k = B_Counter item" using found by (simp add: count_of_def)
    with found same same [of ?k] show ?thesis by simp
  next
    case fresh
    have "count_of (db\<lparr>qd_buckets := rows1\<rparr>) ?k = zero_QuotaCounter"
    proof (cases "?u = unattributedQuotaUserID")
      case True
      then have "lookup_row (qd_buckets db) (key, scope, bucket, []) = None"
        using fresh(1) lookup_adopt_legacy [of ?k key scope bucket "qd_buckets db"]
        by (auto simp: rows1_def split: option.splits)
      then show ?thesis using fresh(1) True by (simp add: count_of_def rows1_def adopt_legacy_none)
    qed (use fresh(1) in \<open>simp add: count_of_def\<close>)
    moreover from this have "count_of (db\<lparr>qd_buckets := rows1 @ [seed]\<rparr>) k = count_of (db\<lparr>qd_buckets := rows1\<rparr>) k"
      if "attribution k \<noteq> []" for k
      using count_of_seed [OF that seed(1), of "db\<lparr>qd_buckets := rows1\<rparr>"] fresh(1) seed(2) by simp
    ultimately show ?thesis using fresh seed same same [of ?k] by simp
  qed
  show "row_key item = ?k" "B_Counter item = count_of db (row_key item)" "qd_leases db1 = qd_leases db"
    "attribution k \<noteq> [] \<Longrightarrow> count_of db1 k = count_of db k"
    using all by (simp_all del: split_paired_All)
qed

text \<open>The second law: saving a row updates the counter of its key and no other.\<close>

lemma save_bucket_law:
  assumes "save_bucket fault item db = Inr db1" and "attribution (row_key item) \<noteq> []"
  shows "qd_leases db1 = qd_leases db"
    and "attribution k \<noteq> [] \<Longrightarrow> count_of db1 k = (if k = row_key item then B_Counter item else count_of db k)"
proof -
  let ?rows = "if list_ex (\<lambda>r. row_key r = row_key item) (qd_buckets db)
    then map (\<lambda>r. if row_key r = row_key item then item else r) (qd_buckets db) else qd_buckets db @ [item]"
  have look: "lookup_row ?rows j = (if j = row_key item then Some (B_Counter item) else lookup_row (qd_buckets db) j)" for j
    by (auto simp: lookup_row_save lookup_row_append lookup_row_None [symmetric] split: option.split)
  then obtain rows where db1: "db1 = db\<lparr>qd_buckets := rows\<rparr>" and
    look: "\<And>j. lookup_row rows j = (if j = row_key item then Some (B_Counter item) else lookup_row (qd_buckets db) j)"
    using assms(1) by (auto simp: save_bucket_def rbind_eq_Inr_iff)
  show "qd_leases db1 = qd_leases db" by (simp add: db1)
  assume "attribution k \<noteq> []"
  have "legacy_key k \<noteq> row_key item" using assms(2) by (cases "row_key item"; cases k) auto
  then show "count_of db1 k = (if k = row_key item then B_Counter item else count_of db k)"
    by (auto simp: count_of_def db1 look split: option.split)
qed

section \<open>Interface for the users of the table\<close>

text \<open>Reading a row under lock and saving it with another counter is an update of the counters at
  one key.\<close>

locale counter_table =
  fixes counts :: "'db \<Rightarrow> counter_key \<Rightarrow> QuotaCounter"
    and open_row :: "store_faults \<Rightarrow> string \<Rightarrow> string \<Rightarrow> string \<Rightarrow> string \<Rightarrow> 'db \<Rightarrow> store_error + (QuotaBucket \<times> 'db)"
    and save_row :: "store_faults \<Rightarrow> QuotaBucket \<Rightarrow> 'db \<Rightarrow> store_error + 'db"
  assumes open_key: "open_row f key scope bucket user db = Inr (item, db1) \<Longrightarrow>
      row_key item = (key, scope, bucket, quotaAttributionKey user)"
    and open_counter: "open_row f key scope bucket user db = Inr (item, db1) \<Longrightarrow>
      B_Counter item = counts db (row_key item)"
    and open_keeps: "open_row f key scope bucket user db = Inr (item, db1) \<Longrightarrow> attribution k \<noteq> [] \<Longrightarrow>
      counts db1 k = counts db k"
    and save_updates: "save_row f item db = Inr db1 \<Longrightarrow> attribution (row_key item) \<noteq> [] \<Longrightarrow> attribution k \<noteq> [] \<Longrightarrow>
      counts db1 k = (if k = row_key item then B_Counter item else counts db k)"
begin

lemma modify_row:
  assumes "open_row f key scope bucket user db = Inr (item, db1)"
    and "save_row f (item\<lparr>B_Counter := c\<rparr>) db1 = Inr db2" and "attribution k \<noteq> []"
  shows "counts db2 k = (if k = (key, scope, bucket, quotaAttributionKey user) then c else counts db k)"
proof -
  have key: "row_key (item\<lparr>B_Counter := c\<rparr>) = (key, scope, bucket, quotaAttributionKey user)"
    using open_key [OF assms(1)] by (simp add: row_key_def)
  have "counts db2 k = (if k = row_key (item\<lparr>B_Counter := c\<rparr>) then c else counts db1 k)"
    using save_updates [OF assms(2) _ assms(3)] key by simp
  then show ?thesis using key open_keeps [OF assms(1,3)] by simp
qed

lemma read_row:
  "open_row f key scope bucket user db = Inr (item, db1) \<Longrightarrow>
   B_Counter item = counts db (key, scope, bucket, quotaAttributionKey user)"
  using open_key open_counter by metis

end

interpretation qt: counter_table count_of quotaBucketForUpdate save_bucket
proof
  show "row_key item = (key, scope, bucket, quotaAttributionKey user)"
    if "quotaBucketForUpdate f key scope bucket user db = Inr (item, db1)" for f key scope bucket user db item db1
    using that by (rule quotaBucketForUpdate_law(1))
  show "B_Counter item = count_of db (row_key item)"
    if "quotaBucketForUpdate f key scope bucket user db = Inr (item, db1)" for f key scope bucket user db item db1
    using that by (rule quotaBucketForUpdate_law(2))
  show "count_of db1 k = count_of db k"
    if "quotaBucketForUpdate f key scope bucket user db = Inr (item, db1)" "attribution k \<noteq> []"
    for f key scope bucket user db item db1 k
    using that by (rule quotaBucketForUpdate_law(4))
  show "count_of db1 k = (if k = row_key item then B_Counter item else count_of db k)"
    if "save_bucket f item db = Inr db1" "attribution (row_key item) \<noteq> []" "attribution k \<noteq> []" for f item db db1 k
    using that by (rule save_bucket_law(2))
qed

section \<open>Minute limits\<close>

lemma consume_cases:
  assumes "consumeAPIKeyMinuteRequest fault key limits scopes r now user db = Inr (c2, db2)"
  obtains (unlimited) "L_RateLimitRPM limits \<le> 0" "L_TokenLimitTPM limits \<le> 0" "db2 = db"
  | (counted) item db1 where
      "quotaBucketForUpdate fault key ''minute'' (minuteBucket now) user db = Inr (item, db1)"
      "save_bucket fault (item\<lparr>B_Counter := c2\<rparr>) db1 = Inr db2"
      "L_RateLimitRPM limits > 0 \<Longrightarrow> N_Requests (B_Counter item) < L_RateLimitRPM limits"
      "L_TokenLimitTPM limits > 0 \<Longrightarrow>
         saturatingAddNonNegative (N_TotalTokens (B_Counter item)) (max r 0) \<le> L_TokenLimitTPM limits"
      "N_Requests c2 = (if L_RateLimitRPM limits > 0 then wrap64 (N_Requests (B_Counter item) + 1) else N_Requests (B_Counter item))"
      "N_TotalTokens c2 = (if L_TokenLimitTPM limits > 0
         then saturatingAddNonNegative (N_TotalTokens (B_Counter item)) (max r 0) else N_TotalTokens (B_Counter item))"
proof (cases "L_RateLimitRPM limits \<le> 0 \<and> L_TokenLimitTPM limits \<le> 0")
  case True
  then show thesis using assms unlimited by (simp add: consumeAPIKeyMinuteRequest_def)
next
  case False
  then obtain item db1 where op: "quotaBucketForUpdate fault key ''minute'' (minuteBucket now) user db = Inr (item, db1)"
    using assms by (auto simp: consumeAPIKeyMinuteRequest_def rbind_eq_Inr_iff)
  show thesis
    using assms False op
    by (intro counted [OF op])
      (auto simp: consumeAPIKeyMinuteRequest_def Let_def rbind_eq_Inr_iff split: if_splits)
qed

lemma prune_law:
  assumes "pruneAPIKeyMinuteBuckets fault key now db = Inr db1"
    and "k = (x, y, z, u)" and "x = key \<Longrightarrow> y = ''minute'' \<Longrightarrow> \<not> z < minuteBucket (now - apiKeyMinuteBucketRetention)"
  shows "count_of db1 k = count_of db k"
proof -
  let ?keep = "\<lambda>r. \<not> (B_KeyID r = key \<and> B_Scope r = ''minute'' \<and> B_Bucket r < minuteBucket (now - apiKeyMinuteBucketRetention))"
  have "lookup_row (filter ?keep rows) (x, y, z, v) = lookup_row rows (x, y, z, v)" for rows v
    using assms(3) by (induction rows) (auto simp: row_key_def)
  then show ?thesis
    using assms(1,2) by (auto simp: pruneAPIKeyMinuteBuckets_def Let_def rbind_eq_Inr_iff count_of_def split: option.split)
qed

text \<open>Everything that happens to the tables while calls are admitted, settled and rolled back, with the
  list of the requests a minute counter accepted and of those it was given back. The rate limit of the watched counter is at most
  \<open>limit\<close> whenever it is consulted, and the watched minute is not old enough to be pruned.\<close>

datatype minute_event = Accepted counter_key | Given_back counter_key

inductive minute_step :: "counter_key \<Rightarrow> int64 \<Rightarrow> quota_db \<times> minute_event list \<Rightarrow> quota_db \<times> minute_event list \<Rightarrow> bool"
  for watched :: counter_key and limit :: int64 where
  consume:
    "consumeAPIKeyMinuteRequest fault key limits scopes r now user db = Inr (c, db1) \<Longrightarrow>
     k = (key, ''minute'', minuteBucket now, quotaAttributionKey user) \<Longrightarrow>
     (k = watched \<Longrightarrow> 0 < L_RateLimitRPM limits \<and> L_RateLimitRPM limits \<le> limit) \<Longrightarrow>
     minute_step watched limit (db, tr) (db1, Accepted k # tr)"
| give_back:
    "drop_minute_request fault key admittedAt user db = Inr db1 \<Longrightarrow>
     minute_step watched limit (db, tr) (db1, Given_back (key, ''minute'', minuteBucket admittedAt, quotaAttributionKey user) # tr)"
| reconcile:
    "reconcileQuotaMinuteTokens fault key bucket reserved actual user db = Inr db1 \<Longrightarrow>
     minute_step watched limit (db, tr) (db1, tr)"
| prune:
    "pruneAPIKeyMinuteBuckets fault key now db = Inr db1 \<Longrightarrow>
     (key = fst watched \<Longrightarrow> \<not> fst (snd (snd watched)) < minuteBucket (now - apiKeyMinuteBucketRetention)) \<Longrightarrow>
     minute_step watched limit (db, tr) (db1, tr)"
| period:
    "quotaBucketForUpdate fault key scope bucket user db = Inr (item, db1) \<Longrightarrow> scope \<noteq> ''minute'' \<Longrightarrow>
     save_bucket fault (item\<lparr>B_Counter := c\<rparr>) db1 = Inr db2 \<Longrightarrow>
     minute_step watched limit (db, tr) (db2, tr)"
| lease:
    "qd_buckets db1 = qd_buckets db \<Longrightarrow> minute_step watched limit (db, tr) (db1, tr)"

definition minute_inv :: "counter_key \<Rightarrow> int64 \<Rightarrow> quota_db \<times> minute_event list \<Rightarrow> bool" where
  "minute_inv watched limit st \<longleftrightarrow>
     (let n = N_Requests (count_of (fst st) watched) in
      0 \<le> n \<and> n \<le> limit \<and> n \<le> int (count_list (snd st) (Accepted watched)) \<and>
      int (count_list (snd st) (Accepted watched)) \<le> n + int (count_list (snd st) (Given_back watched)))"

lemma reconcile_requests:
  assumes "reconcileQuotaMinuteTokens fault key bucket reserved actual user db = Inr db1" and "attribution k \<noteq> []"
  shows "N_Requests (count_of db1 k) = N_Requests (count_of db k)"
proof (cases "bucket = [] \<or> reserved = 0 \<and> actual = 0")
  case True
  with assms(1) show ?thesis by (auto simp: reconcileQuotaMinuteTokens_def)
next
  case False
  with assms(1) obtain item dbm where op: "quotaBucketForUpdate fault key ''minute'' bucket user db = Inr (item, dbm)"
    and sv: "save_bucket fault (item\<lparr>B_Counter := (B_Counter item)
      \<lparr>N_TotalTokens := reconciled_tokens (N_TotalTokens (B_Counter item)) reserved actual\<rparr>\<rparr>) dbm = Inr db1"
    by (auto simp: reconcileQuotaMinuteTokens_def Let_def rbind_eq_Inr_iff)
  show ?thesis using qt.modify_row [OF op sv assms(2)] qt.read_row [OF op] by simp
qed

lemma drop_minute_law:
  assumes "drop_minute_request fault key admittedAt user db = Inr db1" and "attribution k \<noteq> []"
  shows "N_Requests (count_of db1 k) =
    (let n = N_Requests (count_of db k) in
     if k = (key, ''minute'', minuteBucket admittedAt, quotaAttributionKey user) \<and> n > 0 then n - 1 else n)"
proof -
  from assms(1) obtain item dbm where op: "quotaBucketForUpdate fault key ''minute'' (minuteBucket admittedAt) user db = Inr (item, dbm)"
    and sv: "save_bucket fault (item\<lparr>B_Counter := (if N_Requests (B_Counter item) > 0
      then (B_Counter item)\<lparr>N_Requests := N_Requests (B_Counter item) - 1\<rparr> else B_Counter item)\<rparr>) dbm = Inr db1"
    by (auto simp: drop_minute_request_def drop_request_def rbind_eq_Inr_iff split: if_splits)
  show ?thesis using qt.modify_row [OF op sv assms(2)] qt.read_row [OF op] by (simp add: Let_def)
qed

lemma minute_step_inv:
  assumes "minute_step watched limit st st'" and "minute_inv watched limit st"
    and "attribution watched \<noteq> []" and "fst (snd watched) = ''minute''" and "in_int64 limit"
  shows "minute_inv watched limit st'"
  using assms(1,2)
proof (cases rule: minute_step.cases)
  case (consume fault key limits scopes r now user db c db1 k tr)
  show ?thesis
  proof (cases "k = watched")
    case True
    note rpm = consume(5) [OF True]
    from consume(3) show ?thesis
    proof (cases rule: consume_cases)
      case unlimited
      with rpm show ?thesis by simp
    next
      case (counted item dbm)
      let ?n = "N_Requests (B_Counter item)"
      have n: "?n = N_Requests (count_of db watched)" using qt.read_row [OF counted(1)] consume(4) True by simp
      then have "?n + 1 \<le> limit" "0 \<le> ?n" using counted(3) rpm assms(2) consume(1) n by (auto simp: minute_inv_def Let_def)
      then have "wrap64 (?n + 1) = ?n + 1" using assms(5) by (intro wrap64_id) (auto simp: int64_bounds)
      moreover have "count_of db1 watched = c"
        using qt.modify_row [OF counted(1,2) assms(3)] consume(4) True by simp
      ultimately show ?thesis
        using counted(5) rpm n \<open>?n + 1 \<le> limit\<close> True consume(1,2) assms(2) by (simp add: minute_inv_def Let_def)
    qed
  next
    case False
    from consume(3) have "count_of db1 watched = count_of db watched"
    proof (cases rule: consume_cases)
      case (counted item dbm)
      show ?thesis using qt.modify_row [OF counted(1,2) assms(3)] False consume(4) by simp
    qed simp
    then show ?thesis using assms(2) consume(1,2) False by (simp add: minute_inv_def)
  qed
next
  case (give_back fault key admittedAt user db db1 tr)
  from drop_minute_law [OF give_back(3) assms(3)] show ?thesis
    using assms(2) give_back(1,2) by (auto simp: minute_inv_def Let_def)
next
  case (reconcile fault key bucket reserved actual user db db1 tr)
  then show ?thesis using assms(2,3) reconcile_requests by (simp add: minute_inv_def)
next
  case (prune fault key now db db1 tr)
  obtain x y z u where w: "watched = (x, y, z, u)" by (cases watched)
  have "count_of db1 watched = count_of db watched" using prune(3,4) by (intro prune_law) (auto simp: w)
  then show ?thesis using assms(2) prune(1,2) by (simp add: minute_inv_def)
next
  case (period fault key scope bucket user db item db1 c db2 tr)
  then have "count_of db2 watched = count_of db watched"
    using qt.modify_row [OF period(3,5) assms(3)] assms(4) by auto
  then show ?thesis using assms(2) period(1,2) by (simp add: minute_inv_def)
next
  case (lease db1 db tr)
  then show ?thesis using assms(2) count_of_buckets [OF lease(3)] by (simp add: minute_inv_def)
qed

section \<open>Leases\<close>

definition scope_leases :: "string \<Rightarrow> string \<Rightarrow> quota_db \<Rightarrow> nat" where
  "scope_leases st sid db = length (filter (in_scope st sid) (qd_leases db))"

text \<open>What processes do with leases, in any order and with any clock readings; \<open>bound\<close> is the
  largest limit ever configured for a scope.\<close>

inductive lease_step :: "(string \<Rightarrow> string \<Rightarrow> nat) \<Rightarrow> quota_db \<Rightarrow> quota_db \<Rightarrow> bool"
  for bound :: "string \<Rightarrow> string \<Rightarrow> nat" where
  acquire:
    "acquireInFlightLease fault ttl st sid limit ident now later db = Inr (d, db1) \<Longrightarrow>
     limit \<le> int (bound st sid) \<Longrightarrow> lease_step bound db db1"
| renew: "renewInFlightLease fault ident ttl now later db = Inr (r, db1) \<Longrightarrow> lease_step bound db db1"
| finish: "deleteRequestConcurrencyLeases fault request db = Inr db1 \<Longrightarrow> lease_step bound db db1"
| release: "lease_step bound db (ReleaseProviderResourceCapacity fault ident db)"
| counters: "qd_leases db1 = qd_leases db \<Longrightarrow> lease_step bound db db1"

lemma scope_leases_filter:
  "scope_leases x y (db\<lparr>qd_leases := filter Q (qd_leases db)\<rparr>) \<le> scope_leases x y db"
proof -
  have "length (filter P (filter Q xs)) \<le> length (filter P xs)" for P and xs :: "InFlightLease list"
    by (induction xs) auto
  then show ?thesis by (simp add: scope_leases_def)
qed

lemma acquire_scope:
  assumes "acquireInFlightLease fault ttl st sid limit ident now later db = Inr (d, db1)"
  shows "scope_leases x y db1 \<le> scope_leases x y db \<or> (x = st \<and> y = sid \<and> int (scope_leases x y db1) \<le> limit)"
proof (cases "limit \<le> 0")
  case True
  with assms show ?thesis by (simp add: acquireInFlightLease_def)
next
  case False
  define live where "live = filter (\<lambda>l. \<not> (in_scope st sid l \<and> IL_ExpiresAt l \<le> now)) (qd_leases db)"
  define lease where "lease = \<lparr>IL_ID = ident, IL_ScopeType = st, IL_ScopeID = sid,
    IL_ExpiresAt = now + effectiveLeaseTTL ttl 300000000000, IL_CreatedAt = now, IL_UpdatedAt = now\<rparr>"
  have held: "int (length (filter (\<lambda>l. in_scope st sid l \<and> IL_ExpiresAt l > now) live)) < limit"
    and db1: "db1 = db\<lparr>qd_leases := live @ [lease]\<rparr>"
    using assms False
    by (auto simp: acquireInFlightLease_def Let_def rbind_eq_Inr_iff live_def lease_def split: if_splits)
  have "filter (\<lambda>l. in_scope st sid l \<and> IL_ExpiresAt l > now) live = filter (in_scope st sid) live"
    by (intro filter_cong) (auto simp: live_def)
  then have "int (scope_leases st sid db1) \<le> limit"
    using held by (simp add: scope_leases_def db1 lease_def in_scope_def)
  moreover have "scope_leases x y db1 \<le> scope_leases x y db" if "(x, y) \<noteq> (st, sid)"
    using that scope_leases_filter [where x = x and y = y and db = db and Q = "\<lambda>l. \<not> (in_scope st sid l \<and> IL_ExpiresAt l \<le> now)"]
    by (auto simp: scope_leases_def db1 lease_def live_def in_scope_def)
  ultimately show ?thesis by (cases "(x, y) = (st, sid)") auto
qed

lemma lease_step_bounded:
  assumes "lease_step bound db db1" and "scope_leases x y db \<le> bound x y"
  shows "scope_leases x y db1 \<le> bound x y"
  using assms
proof (cases rule: lease_step.cases)
  case (acquire fault ttl st sid limit ident now later d)
  then show ?thesis using acquire_scope [OF acquire(1), of x y] assms(2) by auto
next
  case (renew fault ident ttl now later r)
  have "length (filter (in_scope x y) (map (\<lambda>l. if IL_ID l = ident
      then l\<lparr>IL_ExpiresAt := now + ttl, IL_UpdatedAt := now\<rparr> else l) ls)) = length (filter (in_scope x y) ls)" for ls
    by (induction ls) (auto simp: in_scope_def)
  with renew assms(2) show ?thesis
    by (auto simp: renewInFlightLease_def Let_def rbind_eq_Inr_iff scope_leases_def split: if_splits)
next
  case (finish fault request)
  then have "db1 = db \<or> (\<exists>Q. db1 = db\<lparr>qd_leases := filter Q (qd_leases db)\<rparr>)"
    by (auto simp: deleteRequestConcurrencyLeases_def Let_def rbind_eq_Inr_iff split: if_splits)
  then show ?thesis using assms(2) scope_leases_filter [where x = x and y = y and db = db] le_trans by blast
next
  case (release fault ident)
  then have "db1 = db \<or> (\<exists>Q. db1 = db\<lparr>qd_leases := filter Q (qd_leases db)\<rparr>)"
    by (auto simp: ReleaseProviderResourceCapacity_def)
  then show ?thesis using assms(2) scope_leases_filter [where x = x and y = y and db = db] le_trans by blast
next
  case counters
  then show ?thesis using assms(2) by (simp add: scope_leases_def)
qed

section \<open>Properties\<close>

text \<open>(C27) However admissions, settlements, rollbacks of job admissions, pruning and other writes of the
  counter table interleave, a minute counter stays between zero and the rate limit it is checked against:
  the requests it accepted, less those given back by rollbacks, never exceed the limit, and without a
  rollback it never accepts more requests than the limit.\<close>

theorem minute_requests_bounded:
  assumes "(minute_step watched limit)\<^sup>*\<^sup>* (db, []) (db', tr)"
    and "N_Requests (count_of db watched) = 0" and "0 \<le> limit" and "in_int64 limit"
    and "watched = (key, ''minute'', bucket, user)" and "user \<noteq> []"
  shows "0 \<le> N_Requests (count_of db' watched) \<and> N_Requests (count_of db' watched) \<le> limit \<and>
    int (count_list tr (Accepted watched)) \<le> limit + int (count_list tr (Given_back watched))"
proof -
  have "minute_inv watched limit (db, [])" using assms(2,3) by (simp add: minute_inv_def)
  moreover have w: "attribution watched \<noteq> []" "fst (snd watched) = ''minute''" using assms(5,6) by simp_all
  moreover have "minute_inv watched limit st"
    if "(minute_step watched limit)\<^sup>*\<^sup>* st0 st" and "minute_inv watched limit st0" for st0 st
    using that by (induction rule: rtranclp_induct) (auto intro: minute_step_inv [OF _ _ w assms(4)])
  ultimately have "minute_inv watched limit (db', tr)" using assms(1) by blast
  then show ?thesis by (auto simp: minute_inv_def Let_def)
qed

definition sample_limits :: QuotaLimits where
  "sample_limits = zero_QuotaLimits\<lparr>L_RateLimitRPM := 1\<rparr>"

definition minute_table :: "int64 \<Rightarrow> quota_db" where
  "minute_table n = \<lparr>qd_buckets = [\<lparr>B_KeyID = ''k'', B_Scope = ''minute'', B_Bucket = minuteBucket 0,
     B_AttributedUserID = unattributedQuotaUserID, B_Counter = zero_QuotaCounter\<lparr>N_Requests := n\<rparr>\<rparr>], qd_leases = []\<rparr>"

lemmas sample_minute = quotaBucketForUpdate_def save_bucket_def db_call_def minute_table_def zero_QuotaCounter_def
  quotaAttributionKey_def adopt_legacy_def row_key_def wrap64_def

lemma sample_consume:
  "consumeAPIKeyMinuteRequest (\<lambda>_. None) ''k'' sample_limits zero_MinuteLimitScopes 0 0 [] (minute_table 0) =
     Inr (zero_QuotaCounter\<lparr>N_Requests := 1\<rparr>, minute_table 1)"
  by (simp add: consumeAPIKeyMinuteRequest_def sample_limits_def zero_QuotaLimits_def sample_minute Let_def)

lemma sample_give_back: "drop_minute_request (\<lambda>_. None) ''k'' 0 [] (minute_table 1) = Inr (minute_table 0)"
  by (simp add: drop_minute_request_def drop_request_def sample_minute Let_def)

text \<open>Under a limit of one, two requests are accepted once the first is given back.\<close>

theorem minute_requests_bounded_witness:
  "\<exists>tr. (minute_step (''k'', ''minute'', minuteBucket 0, unattributedQuotaUserID) 1)\<^sup>*\<^sup>* (minute_table 0, []) (minute_table 1, tr) \<and>
     count_list tr (Accepted (''k'', ''minute'', minuteBucket 0, unattributedQuotaUserID)) = 2 \<and>
     int (count_list tr (Accepted (''k'', ''minute'', minuteBucket 0, unattributedQuotaUserID))) \<le>
       1 + int (count_list tr (Given_back (''k'', ''minute'', minuteBucket 0, unattributedQuotaUserID)))"
proof -
  let ?w = "(''k'', ''minute'', minuteBucket 0, unattributedQuotaUserID)"
  have u: "quotaAttributionKey [] = unattributedQuotaUserID" by (simp add: quotaAttributionKey_def)
  have accept: "minute_step ?w 1 (minute_table 0, tr) (minute_table 1, Accepted ?w # tr)" for tr
    using minute_step.consume [OF sample_consume refl, of ?w 1 tr, unfolded u] by (simp add: sample_limits_def zero_QuotaLimits_def)
  have given: "minute_step ?w 1 (minute_table 1, tr) (minute_table 0, Given_back ?w # tr)" for tr
    using minute_step.give_back [OF sample_give_back, of ?w 1 tr, unfolded u] .
  have st: "(minute_step ?w 1)\<^sup>*\<^sup>* (minute_table 0, []) (minute_table 1, [Accepted ?w, Given_back ?w, Accepted ?w])"
    by (meson accept given rtranclp.rtrancl_refl rtranclp.rtrancl_into_rtrancl)
  have "int (count_list [Accepted ?w, Given_back ?w, Accepted ?w] (Accepted ?w)) \<le>
      1 + int (count_list [Accepted ?w, Given_back ?w, Accepted ?w] (Given_back ?w))"
    using minute_requests_bounded [OF st _ _ _ refl]
    by (simp add: count_of_def minute_table_def row_key_def zero_QuotaCounter_def int64_bounds)
  then show ?thesis using st by (intro exI [of _ "[Accepted ?w, Given_back ?w, Accepted ?w]"]) simp
qed

text \<open>(C28) However acquisitions, renewals, expirations and releases interleave, and whatever the clock
  readings, a scope never has more in-flight leases than the largest concurrency limit ever configured
  for it.\<close>

theorem leases_bounded:
  assumes "(lease_step bound)\<^sup>*\<^sup>* db db'" and "qd_leases db = []"
  shows "scope_leases st sid db' \<le> bound st sid"
  using assms(1)
proof (induction rule: rtranclp_induct)
  case base
  then show ?case by (simp add: scope_leases_def assms(2))
next
  case (step y z)
  from lease_step_bounded [OF step(2,3)] show ?case .
qed

theorem leases_bounded_witness:
  "\<exists>db'. (lease_step (\<lambda>_ _. 1))\<^sup>*\<^sup>* \<lparr>qd_buckets = [], qd_leases = []\<rparr> db' \<and> scope_leases ''api_key'' ''k'' db' = 1 \<and>
     scope_leases ''api_key'' ''k'' db' \<le> 1"
proof -
  let ?db = "\<lparr>qd_buckets = [], qd_leases = []\<rparr>"
  let ?db1 = "?db\<lparr>qd_leases := [\<lparr>IL_ID = ''r'', IL_ScopeType = ''api_key'', IL_ScopeID = ''k'',
    IL_ExpiresAt = 10, IL_CreatedAt = 0, IL_UpdatedAt = 0\<rparr>]\<rparr>"
  have acq: "acquireInFlightLease (\<lambda>_. None) 10 ''api_key'' ''k'' 1 ''r'' 0 0 ?db = Inr (10, ?db1)"
    by (simp add: acquireInFlightLease_def db_call_def effectiveLeaseTTL_def persistedLeaseConfirmation_def
        time_Sub_def int64_bounds Let_def)
  have steps: "(lease_step (\<lambda>_ _. 1))\<^sup>*\<^sup>* ?db ?db1"
    using lease_step.acquire [OF acq] by (intro r_into_rtranclp) simp
  show ?thesis using steps leases_bounded [OF steps, of "''api_key''" "''k''"]
    by (intro exI [of _ ?db1]) (simp add: scope_leases_def in_scope_def)
qed

end
