(* ===== verification/RuntimeBudget.thy ===== *)
theory RuntimeBudget
  imports QuotaStore
begin

text \<open>
  Enforcement of budgets when a call is admitted (\<open>store_backup_quota.go\<close>, \<open>costCenterForProject\<close> of
  \<open>admin_authorization.go\<close>): an active budget of the current month that covers the project of the call
  and is already spent refuses the call. The code reads as few tables as the applicable budgets need;
  the theory compares it with a definition that reads everything.

  \<open>grp\<close> is the database's \<open>SELECT project_id, SUM(cost_usd) ... GROUP BY project_id\<close> on a list of
  usage rows. \<open>wall\<close> is the host's clock, which \<open>periodStart\<close> reads for a text that is no month.
\<close>

section \<open>Data\<close>

record AdminResource =
  AR_ID :: string
  AR_Kind :: string
  AR_Status :: string
  AR_Fields :: json_fields

record UsageRecord =
  UR_ProjectID :: string
  UR_CostUSD :: f64
  UR_CreatedAt :: instant

record budget_db =
  bd_resources :: "AdminResource list"
  bd_usage :: "UsageRecord list"
  bd_projects :: "Project list"

record runtimeBudgetCandidate =
  bc_scope :: string
  bc_scopeID :: string
  bc_amount :: f64

record runtimeBudgetScopes =
  bs_global :: bool
  bs_team :: bool
  bs_costCenter :: bool

record runtimeBudgetTotals =
  bt_global :: f64
  bt_project :: f64
  bt_team :: f64
  bt_costCenter :: f64

type_synonym resource_map = "string \<Rightarrow> AdminResource option"
type_synonym group_query = "UsageRecord list \<Rightarrow> (string \<times> f64) list"

definition ErrBudgetExceeded :: HTTPError where
  "ErrBudgetExceeded = NewHTTPError 429 ''budget_exceeded'' ''Budget exceeded''"

definition forScope :: "runtimeBudgetTotals \<Rightarrow> string \<Rightarrow> f64" where
  "forScope t scope =
     (if scope = ''project'' then bt_project t
      else if scope = ''team'' then bt_team t
      else if scope = ''cost_center'' \<or> scope = ''cost-center'' then bt_costCenter t
      else if scope = ''global'' \<or> scope = ''organization'' then bt_global t
      else Fin 0)"

section \<open>Months\<close>

definition format_month :: "instant \<Rightarrow> string" where
  "format_month t = (case local_date UTC t of (y, m, d) \<Rightarrow> pad_int 4 y @ ''-'' @ pad_int 2 m)"

definition normalizeBillingPeriod :: "string \<Rightarrow> instant \<Rightarrow> string" where
  "normalizeBillingPeriod period0 now =
     (let period = TrimSpace period0 in
      if period = [] then format_month now
      else if length period \<ge> 7 then take 7 period else format_month now)"

definition parse_month :: "string \<Rightarrow> instant option" where
  "parse_month text =
     (case read_digits 4 text of
        None \<Rightarrow> None
      | Some (y, rest) \<Rightarrow>
          (case rest of
             c # rest1 \<Rightarrow>
               if c \<noteq> CHR ''-'' then None
               else (case read_digits 2 rest1 of
                       Some (m, []) \<Rightarrow> if 1 \<le> m \<and> m \<le> 12 then Some (DateIn UTC y m 1 0 0 0 0) else None
                     | _ \<Rightarrow> None)
           | [] \<Rightarrow> None))"

definition periodStart :: "instant \<Rightarrow> string \<Rightarrow> instant" where
  "periodStart wall period =
     (case parse_month period of
        Some t \<Rightarrow> t
      | None \<Rightarrow> (case parse_month (format_month wall) of Some t \<Rightarrow> t | None \<Rightarrow> zero_time))"

definition periodEnd :: "instant \<Rightarrow> string \<Rightarrow> instant" where
  "periodEnd wall period = AddDate UTC (periodStart wall period) 0 1 0"

section \<open>Budgets\<close>

definition budgetScopeID :: "(f64 \<Rightarrow> string) \<Rightarrow> AdminResource \<Rightarrow> string \<Rightarrow> string" where
  "budgetScopeID sprint budget scope =
     (let field = (\<lambda>key. TrimSpace (stringField sprint (AR_Fields budget) key)); scopeID = field ''scope_id'' in
      if scope = ''project'' then (if scopeID = [] then field ''project_id'' else scopeID)
      else if scope = ''team'' then (if scopeID = [] then field ''team_id'' else scopeID)
      else if scope = ''cost_center'' \<or> scope = ''cost-center'' then (if scopeID = [] then field ''cost_center'' else scopeID)
      else scopeID)"

definition budgetEnforced :: "(f64 \<Rightarrow> string) \<Rightarrow> AdminResource \<Rightarrow> bool" where
  "budgetEnforced sprint budget \<longleftrightarrow>
     ToLower (TrimSpace (stringField sprint (AR_Fields budget) ''enforcement'')) \<notin> set [''warn'', ''monitor'', ''off'', ''disabled'']"

definition budgetScopeAppliesToProject :: "string \<Rightarrow> string \<Rightarrow> Project \<Rightarrow> string \<Rightarrow> bool" where
  "budgetScopeAppliesToProject scope scopeID project costCenter =
     (if scope = ''project'' then scopeID \<noteq> [] \<and> scopeID = Pr_ID project
      else if scope = ''team'' then scopeID \<noteq> [] \<and> scopeID = Pr_TeamID project
      else if scope = ''cost_center'' \<or> scope = ''cost-center'' then scopeID \<noteq> [] \<and> scopeID = costCenter
      else scope = ''global'' \<or> scope = ''organization'')"

text \<open>The body of the loop over the budgets: the candidate a budget contributes.\<close>

definition budget_candidate ::
  "(f64 \<Rightarrow> string) \<Rightarrow> instant \<Rightarrow> string \<Rightarrow> AdminResource \<Rightarrow> runtimeBudgetCandidate option" where
  "budget_candidate sprint now period budget =
     (if \<not> budgetEnforced sprint budget then None
      else let budgetPeriod = TrimSpace (stringField sprint (AR_Fields budget) ''period_ref'') in
        if budgetPeriod \<noteq> [] \<and> normalizeBillingPeriod budgetPeriod now \<noteq> period then None
        else let amount = float64Field (AR_Fields budget) ''amount_usd'' in
          if f64_le amount (Fin 0) then None
          else let scope = ToLower (TrimSpace (stringField sprint (AR_Fields budget) ''scope''))
               in Some \<lparr>bc_scope = scope, bc_scopeID = budgetScopeID sprint budget scope, bc_amount = amount\<rparr>)"

definition cost_center_scope :: "string \<Rightarrow> bool" where
  "cost_center_scope scope \<longleftrightarrow> scope = ''cost_center'' \<or> scope = ''cost-center''"

definition runtimeBudgetCandidates ::
  "(f64 \<Rightarrow> string) \<Rightarrow> AdminResource list \<Rightarrow> instant \<Rightarrow> string \<Rightarrow> runtimeBudgetCandidate list \<times> bool" where
  "runtimeBudgetCandidates sprint budgets now period =
     (let candidates = List.map_filter (budget_candidate sprint now period) budgets
      in (candidates, list_ex (\<lambda>c. cost_center_scope (bc_scope c)) candidates))"

definition by_resource_id :: "AdminResource list \<Rightarrow> string \<Rightarrow> resource_map" where
  "by_resource_id resources kind key = find (\<lambda>r. AR_Kind r = kind \<and> AR_ID r = key) (rev resources)"

definition loadCostCenterResources :: "store_faults \<Rightarrow> budget_db \<Rightarrow> store_error + (resource_map \<times> resource_map)" where
  "loadCostCenterResources fault db =
     rbind (db_call fault ''budget.resources'') (\<lambda>_.
       Inr (by_resource_id (bd_resources db) ''teams'', by_resource_id (bd_resources db) ''quota-policies''))"

definition resource_cost_center :: "(f64 \<Rightarrow> string) \<Rightarrow> resource_map \<Rightarrow> string \<Rightarrow> string" where
  "resource_cost_center sprint m key =
     (if TrimSpace key = [] then []
      else case m key of None \<Rightarrow> [] | Some r \<Rightarrow> TrimSpace (stringField sprint (AR_Fields r) ''cost_center''))"

definition costCenterForProject :: "(f64 \<Rightarrow> string) \<Rightarrow> Project \<Rightarrow> resource_map \<Rightarrow> resource_map \<Rightarrow> string" where
  "costCenterForProject sprint project teamsByID quotasByID =
     (if TrimSpace (Pr_CostCenter project) \<noteq> [] then TrimSpace (Pr_CostCenter project)
      else if resource_cost_center sprint teamsByID (Pr_TeamID project) \<noteq> []
      then resource_cost_center sprint teamsByID (Pr_TeamID project)
      else if resource_cost_center sprint quotasByID (Pr_DefaultQuotaRef project) \<noteq> []
      then resource_cost_center sprint quotasByID (Pr_DefaultQuotaRef project)
      else if TrimSpace (Pr_TeamID project) \<noteq> [] then Pr_TeamID project
      else if TrimSpace (Pr_ID project) \<noteq> [] then ''project:'' @ Pr_ID project
      else ''unknown'')"

section \<open>Totals\<close>

definition project_by_id :: "Project list \<Rightarrow> string \<Rightarrow> Project option" where
  "project_by_id projects key = find (\<lambda>p. Pr_ID p = key) (rev projects)"

definition add_row ::
  "(f64 \<Rightarrow> string) \<Rightarrow> Project \<Rightarrow> runtimeBudgetScopes \<Rightarrow> string \<Rightarrow> resource_map \<Rightarrow> resource_map \<Rightarrow> (string \<Rightarrow> Project option) \<Rightarrow>
   runtimeBudgetTotals \<Rightarrow> string \<times> f64 \<Rightarrow> runtimeBudgetTotals" where
  "add_row sprint project scopes costCenter teamsByID quotasByID projectsByID t0 row =
     (case row of (rowID, cost) \<Rightarrow>
      let t1 = t0\<lparr>bt_global := f64_add (bt_global t0) cost\<rparr>;
          t2 = (if rowID = Pr_ID project then t1\<lparr>bt_project := f64_add (bt_project t1) cost\<rparr> else t1)
      in if \<not> bs_team scopes \<and> \<not> bs_costCenter scopes then t2
         else case projectsByID rowID of
           None \<Rightarrow> t2
         | Some rowProject \<Rightarrow>
             let t3 = (if bs_team scopes \<and> Pr_TeamID rowProject = Pr_TeamID project
                       then t2\<lparr>bt_team := f64_add (bt_team t2) cost\<rparr> else t2)
             in if bs_costCenter scopes \<and> costCenterForProject sprint rowProject teamsByID quotasByID = costCenter
                then t3\<lparr>bt_costCenter := f64_add (bt_costCenter t3) cost\<rparr> else t3)"

definition zero_totals :: runtimeBudgetTotals where
  "zero_totals = \<lparr>bt_global = Fin 0, bt_project = Fin 0, bt_team = Fin 0, bt_costCenter = Fin 0\<rparr>"

definition aggregateRuntimeBudgetTotals ::
  "store_faults \<Rightarrow> group_query \<Rightarrow> (f64 \<Rightarrow> string) \<Rightarrow> instant \<Rightarrow> string \<Rightarrow> Project \<Rightarrow> runtimeBudgetScopes \<Rightarrow> string \<Rightarrow>
   resource_map \<Rightarrow> resource_map \<Rightarrow> budget_db \<Rightarrow> store_error + runtimeBudgetTotals" where
  "aggregateRuntimeBudgetTotals fault grp sprint wall period project scopes costCenter teamsByID quotasByID db =
     (let inPeriod = filter (\<lambda>r. periodStart wall period \<le> UR_CreatedAt r \<and> UR_CreatedAt r < periodEnd wall period) (bd_usage db);
          queried = (if \<not> bs_global scopes \<and> \<not> bs_team scopes \<and> \<not> bs_costCenter scopes
                     then filter (\<lambda>r. UR_ProjectID r = Pr_ID project) inPeriod else inPeriod)
      in rbind (db_call fault ''budget.usage'') (\<lambda>_.
         rbind (if bs_team scopes \<or> bs_costCenter scopes then db_call fault ''budget.projects'' else Inr ()) (\<lambda>_.
           Inr (foldl (add_row sprint project scopes costCenter teamsByID quotasByID (project_by_id (bd_projects db)))
                  zero_totals (grp queried)))))"

definition applicable_scopes :: "runtimeBudgetCandidate list \<Rightarrow> runtimeBudgetScopes" where
  "applicable_scopes applicable =
     \<lparr>bs_global = list_ex (\<lambda>c. bc_scope c = ''global'' \<or> bc_scope c = ''organization'') applicable,
      bs_team = list_ex (\<lambda>c. bc_scope c = ''team'') applicable,
      bs_costCenter = list_ex (\<lambda>c. cost_center_scope (bc_scope c)) applicable\<rparr>"

definition checkRuntimeBudget ::
  "store_faults \<Rightarrow> group_query \<Rightarrow> (f64 \<Rightarrow> string) \<Rightarrow> instant \<Rightarrow> Project \<Rightarrow> instant \<Rightarrow> budget_db \<Rightarrow> store_error + unit" where
  "checkRuntimeBudget fault grp sprint wall project now db =
     (let period = format_month now in
      rbind (db_call fault ''budget.budgets'') (\<lambda>_.
      case runtimeBudgetCandidates sprint (filter (\<lambda>r. AR_Kind r = ''budgets'' \<and> AR_Status r = ''active'') (bd_resources db)) now period of
        (candidates, hasCostCenterScope) \<Rightarrow>
          if candidates = [] then Inr ()
          else rbind (if hasCostCenterScope then loadCostCenterResources fault db else Inr (\<lambda>_. None, \<lambda>_. None))
            (\<lambda>(teamsByID, quotasByID).
              let costCenter = (if hasCostCenterScope then costCenterForProject sprint project teamsByID quotasByID else []);
                  applicable = filter (\<lambda>c. budgetScopeAppliesToProject (bc_scope c) (bc_scopeID c) project costCenter) candidates
              in if applicable = [] then Inr ()
                 else rbind (aggregateRuntimeBudgetTotals fault grp sprint wall period project (applicable_scopes applicable)
                               costCenter teamsByID quotasByID db) (\<lambda>totals.
                   if list_ex (\<lambda>c. f64_le (bc_amount c) (forScope totals (bc_scope c))) applicable
                   then Inl (Http ErrBudgetExceeded) else Inr ()))))"

section \<open>The check without the shortcuts\<close>

definition counts_for ::
  "(f64 \<Rightarrow> string) \<Rightarrow> Project \<Rightarrow> string \<Rightarrow> resource_map \<Rightarrow> resource_map \<Rightarrow> (string \<Rightarrow> Project option) \<Rightarrow> string \<Rightarrow> string \<Rightarrow> bool" where
  "counts_for sprint project cc teams quotas projects scope rowID =
     (if scope = ''project'' then rowID = Pr_ID project
      else if scope = ''team'' then (case projects rowID of None \<Rightarrow> False | Some p \<Rightarrow> Pr_TeamID p = Pr_TeamID project)
      else if cost_center_scope scope
      then (case projects rowID of None \<Rightarrow> False | Some p \<Rightarrow> costCenterForProject sprint p teams quotas = cc)
      else scope = ''global'' \<or> scope = ''organization'')"

definition add_cost :: "f64 \<Rightarrow> string \<times> f64 \<Rightarrow> f64" where
  "add_cost t row = f64_add t (snd row)"

definition month_usage :: "instant \<Rightarrow> instant \<Rightarrow> budget_db \<Rightarrow> UsageRecord list" where
  "month_usage wall now db =
     filter (\<lambda>r. periodStart wall (format_month now) \<le> UR_CreatedAt r \<and> UR_CreatedAt r < periodEnd wall (format_month now)) (bd_usage db)"

definition scope_spend ::
  "group_query \<Rightarrow> (f64 \<Rightarrow> string) \<Rightarrow> instant \<Rightarrow> Project \<Rightarrow> instant \<Rightarrow> budget_db \<Rightarrow> string \<Rightarrow> f64" where
  "scope_spend grp sprint wall project now db scope =
     (let teams = by_resource_id (bd_resources db) ''teams''; quotas = by_resource_id (bd_resources db) ''quota-policies''
      in foldl add_cost (Fin 0)
           (filter (\<lambda>row. counts_for sprint project (costCenterForProject sprint project teams quotas) teams quotas
                            (project_by_id (bd_projects db)) scope (fst row))
              (grp (month_usage wall now db))))"

definition budget_spent ::
  "group_query \<Rightarrow> (f64 \<Rightarrow> string) \<Rightarrow> instant \<Rightarrow> Project \<Rightarrow> instant \<Rightarrow> budget_db \<Rightarrow> AdminResource \<Rightarrow> bool" where
  "budget_spent grp sprint wall project now db budget \<longleftrightarrow>
     AR_Kind budget = ''budgets'' \<and> AR_Status budget = ''active'' \<and>
     (case budget_candidate sprint now (format_month now) budget of
        None \<Rightarrow> False
      | Some c \<Rightarrow>
          budgetScopeAppliesToProject (bc_scope c) (bc_scopeID c) project
            (costCenterForProject sprint project (by_resource_id (bd_resources db) ''teams'') (by_resource_id (bd_resources db) ''quota-policies'')) \<and>
          f64_le (bc_amount c) (scope_spend grp sprint wall project now db (bc_scope c)))"

text \<open>What is relied on of the grouped query: the sum of a project does not depend on the rows of others.\<close>

definition groups_by_project :: "group_query \<Rightarrow> bool" where
  "groups_by_project grp \<longleftrightarrow>
     (\<forall>rows p. grp (filter (\<lambda>r. UR_ProjectID r = p) rows) = filter (\<lambda>row. fst row = p) (grp rows))"

section \<open>Totals of the fold\<close>

lemma fold_totals:
  fixes sprint project scopes cc teams quotas projects
  defines "f \<equiv> add_row sprint project scopes cc teams quotas projects"
  shows "bt_global (foldl f t rows) = foldl add_cost (bt_global t) rows"
    and "bt_project (foldl f t rows) = foldl add_cost (bt_project t) (filter (\<lambda>row. fst row = Pr_ID project) rows)"
    and "bs_team scopes \<Longrightarrow> bt_team (foldl f t rows) =
      foldl add_cost (bt_team t) (filter (\<lambda>row. case projects (fst row) of None \<Rightarrow> False | Some p \<Rightarrow> Pr_TeamID p = Pr_TeamID project) rows)"
    and "bs_costCenter scopes \<Longrightarrow> bt_costCenter (foldl f t rows) =
      foldl add_cost (bt_costCenter t) (filter (\<lambda>row. case projects (fst row) of None \<Rightarrow> False
        | Some p \<Rightarrow> costCenterForProject sprint p teams quotas = cc) rows)"
  unfolding f_def
  by (induction rows arbitrary: t) (auto simp: add_row_def add_cost_def Let_def split: prod.split option.split)

definition scope_covered :: "runtimeBudgetScopes \<Rightarrow> string \<Rightarrow> bool" where
  "scope_covered scopes scope \<longleftrightarrow>
     scope = ''project'' \<or> scope = ''global'' \<or> scope = ''organization'' \<or>
     scope = ''team'' \<and> bs_team scopes \<or> cost_center_scope scope \<and> bs_costCenter scopes"

lemma forScope_fold:
  assumes "scope_covered scopes scope"
  shows "forScope (foldl (add_row sprint project scopes cc teams quotas projects) zero_totals rows) scope =
    foldl add_cost (Fin 0) (filter (\<lambda>row. counts_for sprint project cc teams quotas projects scope (fst row)) rows)"
proof -
  note defs = forScope_def counts_for_def zero_totals_def cost_center_scope_def
  consider "scope = ''project''" | "scope = ''global''" | "scope = ''organization''" | "scope = ''team''" "bs_team scopes"
    | "scope = ''cost_center''" "bs_costCenter scopes" | "scope = ''cost-center''" "bs_costCenter scopes"
    using assms unfolding scope_covered_def cost_center_scope_def by (elim disjE conjE)
  then show ?thesis
  proof cases
    case 1
    then show ?thesis using fold_totals(2) [of sprint project scopes cc teams quotas projects] by (simp add: defs)
  next
    case 2
    then show ?thesis using fold_totals(1) [of sprint project scopes cc teams quotas projects] by (simp add: defs)
  next
    case 3
    then show ?thesis using fold_totals(1) [of sprint project scopes cc teams quotas projects] by (simp add: defs)
  next
    case 4
    then show ?thesis using fold_totals(3) [of scopes sprint project cc teams quotas projects] by (simp add: defs)
  next
    case 5
    then show ?thesis using fold_totals(4) [of scopes sprint project cc teams quotas projects] by (simp add: defs)
  next
    case 6
    then show ?thesis using fold_totals(4) [of scopes sprint project cc teams quotas projects] by (simp add: defs)
  qed
qed

lemma applicable_covered:
  assumes "c \<in> set applicable" and "budgetScopeAppliesToProject (bc_scope c) sid project cc"
  shows "scope_covered (applicable_scopes applicable) (bc_scope c)"
  using assms
  by (auto simp: scope_covered_def applicable_scopes_def budgetScopeAppliesToProject_def cost_center_scope_def list_ex_iff split: if_splits)

lemma no_route_scopes:
  assumes "\<not> bs_global scopes" "\<not> bs_team scopes" "\<not> bs_costCenter scopes" and "scopes = applicable_scopes applicable"
    and "c \<in> set applicable" and "budgetScopeAppliesToProject (bc_scope c) sid project cc"
  shows "bc_scope c = ''project''"
  using assms by (auto simp: applicable_scopes_def budgetScopeAppliesToProject_def cost_center_scope_def list_ex_iff split: if_splits)

lemma totals_spend:
  assumes "groups_by_project grp" and "c \<in> set applicable" and "budgetScopeAppliesToProject (bc_scope c) sid project cc"
    and "aggregateRuntimeBudgetTotals (\<lambda>_. None) grp sprint wall (format_month now) project (applicable_scopes applicable)
           cc teams quotas db = Inr totals"
  shows "forScope totals (bc_scope c) =
    foldl add_cost (Fin 0) (filter (\<lambda>row. counts_for sprint project cc teams quotas (project_by_id (bd_projects db)) (bc_scope c) (fst row))
      (grp (month_usage wall now db)))"
proof -
  let ?s = "applicable_scopes applicable"
  let ?f = "add_row sprint project ?s cc teams quotas (project_by_id (bd_projects db))"
  note cov = applicable_covered [OF assms(2,3)]
  show ?thesis
  proof (cases "\<not> bs_global ?s \<and> \<not> bs_team ?s \<and> \<not> bs_costCenter ?s")
    case True
    then have p: "bc_scope c = ''project''" using no_route_scopes [OF _ _ _ refl assms(2,3)] by blast
    have "totals = foldl ?f zero_totals (grp (filter (\<lambda>r. UR_ProjectID r = Pr_ID project) (month_usage wall now db)))"
      using assms(4) True by (simp add: aggregateRuntimeBudgetTotals_def db_call_def month_usage_def Let_def)
    moreover have "grp (filter (\<lambda>r. UR_ProjectID r = Pr_ID project) (month_usage wall now db)) =
        filter (\<lambda>row. fst row = Pr_ID project) (grp (month_usage wall now db))"
      using assms(1) unfolding groups_by_project_def by blast
    ultimately show ?thesis using forScope_fold [OF cov] p by (simp add: counts_for_def)
  next
    case False
    then have "totals = foldl ?f zero_totals (grp (month_usage wall now db))"
      using assms(4) by (auto simp: aggregateRuntimeBudgetTotals_def db_call_def month_usage_def Let_def rbind_eq_Inr_iff split: if_splits)
    then show ?thesis using forScope_fold [OF cov] by simp
  qed
qed

lemma aggregate_total: "\<exists>totals. aggregateRuntimeBudgetTotals (\<lambda>_. None) grp sprint wall period project scopes cc teams quotas db = Inr totals"
  by (simp add: aggregateRuntimeBudgetTotals_def db_call_def Let_def)

lemma set_map_filter: "set (List.map_filter f xs) = {y. \<exists>x \<in> set xs. f x = Some y}"
  by (induction xs) (auto simp: map_filter_simps split: option.splits)

text \<open>Without a budget on a cost center, the resolved cost center and the resources do not matter.\<close>

lemma cost_center_irrelevant:
  assumes "\<not> cost_center_scope scope"
  shows "budgetScopeAppliesToProject scope sid project cc = budgetScopeAppliesToProject scope sid project cc'"
    and "counts_for sprint project cc teams quotas projects scope = counts_for sprint project cc' teams' quotas' projects scope"
  using assms by (auto simp: budgetScopeAppliesToProject_def counts_for_def cost_center_scope_def fun_eq_iff)

text \<open>What the check does once the cost center is resolved.\<close>

definition refuses ::
  "group_query \<Rightarrow> (f64 \<Rightarrow> string) \<Rightarrow> instant \<Rightarrow> Project \<Rightarrow> instant \<Rightarrow> budget_db \<Rightarrow> string \<Rightarrow> resource_map \<Rightarrow> resource_map \<Rightarrow>
   runtimeBudgetCandidate \<Rightarrow> bool" where
  "refuses grp sprint wall project now db cc teams quotas c \<longleftrightarrow>
     budgetScopeAppliesToProject (bc_scope c) (bc_scopeID c) project cc \<and>
     f64_le (bc_amount c) (foldl add_cost (Fin 0)
       (filter (\<lambda>row. counts_for sprint project cc teams quotas (project_by_id (bd_projects db)) (bc_scope c) (fst row))
          (grp (month_usage wall now db))))"

lemma refuses_irrelevant:
  assumes "\<not> cost_center_scope (bc_scope c)"
  shows "refuses grp sprint wall project now db cc teams quotas c = refuses grp sprint wall project now db cc' teams' quotas' c"
  unfolding refuses_def cost_center_irrelevant(1) [OF assms, of "bc_scopeID c" project cc cc']
    cost_center_irrelevant(2) [OF assms, of sprint project cc teams quotas _ cc' teams' quotas'] ..

lemma applicable_refuses:
  assumes "groups_by_project grp" and "applicable = filter (\<lambda>c. budgetScopeAppliesToProject (bc_scope c) (bc_scopeID c) project cc) candidates"
  shows "(if applicable = [] then Inr () else
      rbind (aggregateRuntimeBudgetTotals (\<lambda>_. None) grp sprint wall (format_month now) project (applicable_scopes applicable)
               cc teams quotas db) (\<lambda>totals.
        if list_ex (\<lambda>c. f64_le (bc_amount c) (forScope totals (bc_scope c))) applicable then Inl e else Inr ())) =
    (if \<exists>c \<in> set candidates. refuses grp sprint wall project now db cc teams quotas c then Inl e else Inr ())"
proof -
  obtain totals where t: "aggregateRuntimeBudgetTotals (\<lambda>_. None) grp sprint wall (format_month now) project (applicable_scopes applicable)
      cc teams quotas db = Inr totals" using aggregate_total by blast
  have "f64_le (bc_amount c) (forScope totals (bc_scope c)) \<longleftrightarrow> refuses grp sprint wall project now db cc teams quotas c"
    if "c \<in> set applicable" for c
  proof -
    have ap: "budgetScopeAppliesToProject (bc_scope c) (bc_scopeID c) project cc" using that assms(2) by simp
    show ?thesis unfolding refuses_def totals_spend [OF assms(1) that ap t] using ap by simp
  qed
  then have "list_ex (\<lambda>c. f64_le (bc_amount c) (forScope totals (bc_scope c))) applicable \<longleftrightarrow>
      (\<exists>c \<in> set candidates. refuses grp sprint wall project now db cc teams quotas c)"
    using assms(2) by (auto simp: list_ex_iff refuses_def)
  then show ?thesis using t by auto
qed

text \<open>(C29) Reading only the tables that the applicable budgets need never changes the decision: a call is
  refused exactly when some active, enforced budget of the current month covers its project and the
  spending of its whole scope has reached the amount.\<close>

theorem checkRuntimeBudget_exact:
  assumes "groups_by_project grp"
  shows "checkRuntimeBudget (\<lambda>_. None) grp sprint wall project now db =
    (if \<exists>budget \<in> set (bd_resources db). budget_spent grp sprint wall project now db budget
     then Inl (Http ErrBudgetExceeded) else Inr ())"
proof -
  let ?teams = "by_resource_id (bd_resources db) ''teams''" and ?quotas = "by_resource_id (bd_resources db) ''quota-policies''"
  let ?cc = "costCenterForProject sprint project ?teams ?quotas"
  let ?budgets = "filter (\<lambda>r. AR_Kind r = ''budgets'' \<and> AR_Status r = ''active'') (bd_resources db)"
  define candidates where "candidates = List.map_filter (budget_candidate sprint now (format_month now)) ?budgets"
  define has_cc where "has_cc = list_ex (\<lambda>c. cost_center_scope (bc_scope c)) candidates"
  let ?refuses = "refuses grp sprint wall project now db ?cc ?teams ?quotas"
  have spent: "(\<exists>budget \<in> set (bd_resources db). budget_spent grp sprint wall project now db budget) \<longleftrightarrow> (\<exists>c \<in> set candidates. ?refuses c)"
    by (auto simp: budget_spent_def candidates_def set_map_filter refuses_def scope_spend_def Let_def split: option.splits)
  have eq: "checkRuntimeBudget (\<lambda>_. None) grp sprint wall project now db =
      (if candidates = [] then Inr () else
       let (teams, quotas) = (if has_cc then (?teams, ?quotas) else (\<lambda>_. None, \<lambda>_. None));
           cc = (if has_cc then costCenterForProject sprint project teams quotas else []);
           applicable = filter (\<lambda>c. budgetScopeAppliesToProject (bc_scope c) (bc_scopeID c) project cc) candidates
       in if applicable = [] then Inr () else
          rbind (aggregateRuntimeBudgetTotals (\<lambda>_. None) grp sprint wall (format_month now) project (applicable_scopes applicable)
                   cc teams quotas db) (\<lambda>totals.
            if list_ex (\<lambda>c. f64_le (bc_amount c) (forScope totals (bc_scope c))) applicable
            then Inl (Http ErrBudgetExceeded) else Inr ()))"
    by (simp add: checkRuntimeBudget_def runtimeBudgetCandidates_def loadCostCenterResources_def db_call_def Let_def
        flip: candidates_def has_cc_def)
  show ?thesis
  proof (cases has_cc)
    case True
    then show ?thesis unfolding eq spent by (simp add: Let_def applicable_refuses [OF assms refl])
  next
    case False
    then have "(\<exists>c \<in> set candidates. refuses grp sprint wall project now db [] (\<lambda>_. None) (\<lambda>_. None) c) \<longleftrightarrow> (\<exists>c \<in> set candidates. ?refuses c)"
      unfolding has_cc_def list_ex_iff using refuses_irrelevant by blast
    then show ?thesis unfolding eq spent using False by (simp add: Let_def applicable_refuses [OF assms refl])
  qed
qed

section \<open>Witness\<close>

definition sum_groups :: group_query where
  "sum_groups rows =
     map (\<lambda>p. (p, foldl f64_add (Fin 0) (map UR_CostUSD (filter (\<lambda>r. UR_ProjectID r = p) rows)))) (remdups (map UR_ProjectID rows))"

lemma sum_groups_ok: "groups_by_project sum_groups"
  unfolding groups_by_project_def sum_groups_def
proof (intro allI)
  fix rows :: "UsageRecord list" and p
  have "map UR_ProjectID (filter (\<lambda>r. UR_ProjectID r = p) rows) = filter (\<lambda>q. q = p) (map UR_ProjectID rows)"
    by (simp add: filter_map comp_def)
  then have keys: "remdups (map UR_ProjectID (filter (\<lambda>r. UR_ProjectID r = p) rows)) = filter (\<lambda>q. q = p) (remdups (map UR_ProjectID rows))"
    by (simp add: remdups_filter)
  show "map (\<lambda>q. (q, foldl f64_add (Fin 0) (map UR_CostUSD (filter (\<lambda>r. UR_ProjectID r = q) (filter (\<lambda>r. UR_ProjectID r = p) rows)))))
      (remdups (map UR_ProjectID (filter (\<lambda>r. UR_ProjectID r = p) rows))) =
    filter (\<lambda>row. fst row = p)
      (map (\<lambda>q. (q, foldl f64_add (Fin 0) (map UR_CostUSD (filter (\<lambda>r. UR_ProjectID r = q) rows)))) (remdups (map UR_ProjectID rows)))"
    unfolding keys filter_map comp_def fst_conv by (rule map_cong [OF refl]) (auto cong: filter_cong)
qed

text \<open>A budget of five dollars for the whole organisation, and a call of a project that has spent nothing
  itself after another project has spent seven.\<close>

definition budget_fields :: json_fields where
  "budget_fields = [''scope'' \<mapsto> VString ''Global'', ''amount_usd'' \<mapsto> VInt 5]"

definition spent_db :: budget_db where
  "spent_db =
     \<lparr>bd_resources = [\<lparr>AR_ID = ''b'', AR_Kind = ''budgets'', AR_Status = ''active'', AR_Fields = budget_fields\<rparr>],
      bd_usage = [\<lparr>UR_ProjectID = ''other'', UR_CostUSD = Fin 7, UR_CreatedAt = 1000000000\<rparr>],
      bd_projects = []\<rparr>"

definition quiet_project :: Project where
  "quiet_project = \<lparr>Pr_ID = ''p'', Pr_TeamID = [], Pr_OwnerUserID = [], Pr_Status = ''active'', Pr_CostCenter = [],
     Pr_DefaultQuotaRef = [], Pr_ModelAccessMode = [], Pr_AllowedModels = []\<rparr>"

lemma spent_global: "budget_spent sum_groups (\<lambda>_. []) 0 quiet_project 5000000000 spent_db (hd (bd_resources spent_db))"
proof -
  have five: "float64Field budget_fields ''amount_usd'' = Fin 5"
    using f64_round_int [of 5] by (simp add: float64Field_def budget_fields_def)
  have t: "TrimSpace ''Global'' = ''Global''" by (rule TrimSpace_graph_all) (simp add: is_graph_def code_of_def)
  have lo: "ToLower ''Global'' = ''global''" "ToLower [] = []" by code_simp+
  have cand: "budget_candidate (\<lambda>_. []) 5000000000 (format_month 5000000000) (hd (bd_resources spent_db)) =
      Some \<lparr>bc_scope = ''global'', bc_scopeID = [], bc_amount = Fin 5\<rparr>"
    by (simp add: budget_candidate_def budgetEnforced_def spent_db_def five t stringField_def budgetScopeID_def Let_def)
      (simp add: budget_fields_def t lo f64_le_def)
  have seven: "f64_add (Fin 0) (Fin 7) = Fin 7" using f64_round_int [of 7] by simp
  have usage: "month_usage 0 5000000000 spent_db = bd_usage spent_db" by code_simp
  have "scope_spend sum_groups (\<lambda>_. []) 0 quiet_project 5000000000 spent_db ''global'' = Fin 7"
    unfolding scope_spend_def Let_def usage
    by (simp add: sum_groups_def spent_db_def counts_for_def cost_center_scope_def add_cost_def seven del: f64_add.simps)
  then show ?thesis
    by (simp add: budget_spent_def cand budgetScopeAppliesToProject_def f64_le_def) (simp add: spent_db_def)
qed

theorem checkRuntimeBudget_exact_witness:
  "checkRuntimeBudget (\<lambda>_. None) sum_groups (\<lambda>_. []) 0 quiet_project 5000000000 spent_db = Inl (Http ErrBudgetExceeded)"
  using checkRuntimeBudget_exact [OF sum_groups_ok, of "\<lambda>_. []" 0 quiet_project 5000000000 spent_db] spent_global
  by (auto simp: spent_db_def)

end
