(* ===== verification/CallAdmission.thy ===== *)
theory CallAdmission
  imports RuntimeBudget
begin

text \<open>
  Admission of a call (\<open>store_call_admission.go\<close>, \<open>quota_timezone.go\<close>, \<open>StartCall\<close> in
  \<open>store_routing_calls.go\<close>, model access in \<open>store_helpers.go\<close>, \<open>captureMeteringRequest\<close> in
  \<open>metering_capture.go\<close>): one transaction checks the key, the model, the quotas of the key and of its
  user, concurrency and budgets, counts the request and reserves its tokens.

  The store is the one without Redis. A transaction returns an error, or its result with the new
  tables. \<open>fault\<close> gives the error of a database call, as for the counters; the \<open>environment\<close> holds
  number printing, the time-zone database, the grouped query and the lease duration. The metering
  entry of an admission is kept as the part of its JSON text that is read here, the quota periods;
  the prices it records are not kept.
\<close>

section \<open>Data\<close>

record catalog_model =
  CM_Name :: string
  CM_Status :: string

record quotaPeriods =
  QP_Day :: string
  QP_Month :: string

record AlertEvent =
  Al_ScopeType :: string
  Al_ScopeID :: string
  Al_Code :: string
  Al_ResourceID :: string

text \<open>A row of the metering entries: an admission with the periods it recorded, if any, the shadow
  settlement of a request, or a payload that does not decode.\<close>

datatype metering_payload = Admission "quotaPeriods option" | ShadowSettlement | Undecodable string

record RequestLog =
  RL_RequestID :: string
  RL_ProjectID :: string
  RL_APIKeyID :: string
  RL_AttributedUserID :: string
  RL_ModelName :: string
  RL_ProviderID :: string
  RL_ProviderResourceID :: string
  RL_StatusCode :: int
  RL_ErrorCode :: string
  RL_CreatedAt :: instant

record ProviderObservation =
  PO_ProviderID :: string
  PO_ResourceID :: string
  PO_AdapterType :: string
  PO_Success :: bool
  PO_ErrorCode :: string
  PO_ObservedAt :: instant

record ProviderResourceObservation =
  RO_ResourceID :: string
  RO_AdapterType :: string
  RO_UpstreamRequestID :: string
  RO_ServedModel :: string
  RO_UpdatedAt :: instant

record gateway_db =
  gd_quota :: quota_db
  gd_budget :: budget_db
  gd_keys :: "APIKey list"
  gd_models :: "catalog_model list"
  gd_entries :: "(string \<times> metering_payload) list"
  gd_logs :: "RequestLog list"
  gd_alerts :: "AlertEvent list"
  gd_observations :: "ProviderObservation list"
  gd_resource_observations :: "ProviderResourceObservation list"

record CallContext =
  C_RequestID :: string
  C_RouteProtocol :: string
  C_Project :: Project
  C_Key :: APIKey
  C_ModelName :: string
  C_StartedAt :: instant
  C_RateLimitHeaders :: "(string \<times> string) list"
  C_TokenLimitBucket :: string
  C_MinuteRequestHeld :: bool
  C_ReservedTokens :: int64
  C_UserQuotaID :: string
  C_UserQuotaEnabled :: bool
  C_UserMinuteRequestHeld :: bool
  C_UserTokenLimitBucket :: string
  C_UserQuotaLimits :: QuotaLimits
  C_AttributedUserID :: string
  C_StreamOutputCommitted :: bool

text \<open>The readings of the clocks during an admission: the host's, the database's, and two of the database's
  for each lease.\<close>

record admission_clock =
  ck_host :: instant
  ck_db :: instant
  ck_lease :: "instant \<times> instant"
  ck_user_lease :: "instant \<times> instant"

record environment =
  env_sprint :: "f64 \<Rightarrow> string"
  env_zones :: zone_db
  env_group :: group_query
  env_leaseTTL :: duration

definition http :: "int \<Rightarrow> string \<Rightarrow> string \<Rightarrow> store_error" where
  "http status code message = Http (NewHTTPError status code message)"

definition ErrInvalidAPIKey :: store_error where "ErrInvalidAPIKey = http 401 ''invalid_api_key'' ''Invalid API key''"
definition ErrAPIKeyDisabled :: store_error where "ErrAPIKeyDisabled = http 403 ''api_key_disabled'' ''API key is disabled''"
definition ErrAPIKeyExpired :: store_error where "ErrAPIKeyExpired = http 403 ''api_key_expired'' ''API key has expired''"
definition ErrModelNotAllowed :: store_error where "ErrModelNotAllowed = http 403 ''model_not_allowed'' ''Model is not allowed for this API key''"
definition ErrQuotaExceeded :: HTTPError where "ErrQuotaExceeded = NewHTTPError 429 ''quota_exceeded'' ''Quota exceeded''"

definition scopedHTTPError :: "HTTPError \<Rightarrow> string \<Rightarrow> HTTPError" where
  "scopedHTTPError base scope =
     \<lparr>err_Status = err_Status base, err_Code = err_Code base, err_Message = err_Message base,
      err_Details = [(''scope'', normalizedQuotaPolicyScope scope)], err_Headers = []\<rparr>"

definition quotaExceededError :: "string \<Rightarrow> store_error" where
  "quotaExceededError scope = Http (scopedHTTPError ErrQuotaExceeded scope)"

definition AsHTTPError :: "store_error \<Rightarrow> HTTPError" where
  "AsHTTPError err = (case err of Http e \<Rightarrow> e | Db text \<Rightarrow> NewHTTPError 500 ''internal_error'' text)"

section \<open>Model access\<close>

fun unique_loop :: "string list \<Rightarrow> string list \<Rightarrow> string list" where
  "unique_loop seen [] = []"
| "unique_loop seen (value # rest) =
     (let v = TrimSpace value in
      if v = [] \<or> v \<in> set seen then unique_loop seen rest else v # unique_loop (v # seen) rest)"

definition uniqueStrings :: "string list \<Rightarrow> string list" where
  "uniqueStrings values = unique_loop [] values"

definition normalizeModelAccess :: "string \<Rightarrow> string list \<Rightarrow> (string \<times> string list) option" where
  "normalizeModelAccess mode0 allowed0 =
     (let mode1 = ToLower (TrimSpace mode0); allowed = sort (uniqueStrings allowed0);
          mode = (if mode1 = [] then if allowed \<noteq> [] then ''restricted'' else ''inherit'' else mode1)
      in if mode = ''inherit'' then Some (mode, [])
         else if mode = ''restricted'' then Some (mode, allowed)
         else None)"

definition hydrated :: "string \<Rightarrow> string list \<Rightarrow> string \<times> string list" where
  "hydrated mode allowed = (case normalizeModelAccess mode allowed of Some r \<Rightarrow> r | None \<Rightarrow> (''restricted'', []))"

definition hydrateAPIKey :: "APIKey \<Rightarrow> APIKey" where
  "hydrateAPIKey key = (case hydrated (K_ModelAccessMode key) (K_Allowed key) of
     (mode, allowed) \<Rightarrow> key\<lparr>K_ModelAccessMode := mode, K_Allowed := allowed\<rparr>)"

definition hydrateProject :: "Project \<Rightarrow> Project" where
  "hydrateProject project = (case hydrated (Pr_ModelAccessMode project) (Pr_AllowedModels project) of
     (mode, allowed) \<Rightarrow> project\<lparr>Pr_ModelAccessMode := mode, Pr_AllowedModels := allowed\<rparr>)"

definition AllowedModelSet :: "string list \<Rightarrow> string \<Rightarrow> bool" where
  "AllowedModelSet models name = list_ex (\<lambda>m. TrimSpace m \<noteq> [] \<and> TrimSpace m = name) models"

definition modelAllowedByScopes :: "Project \<Rightarrow> APIKey \<Rightarrow> string \<Rightarrow> bool" where
  "modelAllowedByScopes project0 key0 modelName =
     (let project = hydrateProject project0; key = hydrateAPIKey key0 in
      if Pr_ModelAccessMode project = ''restricted'' \<and> \<not> AllowedModelSet (Pr_AllowedModels project) modelName then False
      else if K_ModelAccessMode key = ''restricted'' \<and> \<not> AllowedModelSet (K_Allowed key) modelName then False
      else True)"

section \<open>Quota periods\<close>

definition quotaLocation :: "zone_db \<Rightarrow> string \<Rightarrow> store_error + location" where
  "quotaLocation zones name0 =
     (let name1 = TrimSpace name0; name = (if name1 = [] then ''UTC'' else name1);
          invalid = http 400 ''invalid_quota_timezone'' ''quota_timezone must be a valid IANA timezone, such as UTC or Asia/Shanghai''
      in if name \<noteq> ''Local''
         then (case LoadLocation zones name of Some loc \<Rightarrow> Inr loc | None \<Rightarrow> Inl invalid)
         else Inl invalid)"

definition currentQuotaPeriods :: "store_faults \<Rightarrow> environment \<Rightarrow> instant \<Rightarrow> gateway_db \<Rightarrow> store_error + quotaPeriods" where
  "currentQuotaPeriods fault env t db =
     rbind (db_call fault ''periods.settings'') (\<lambda>_.
       let flds = (case find (\<lambda>r. AR_Kind r = ''settings'' \<and> AR_ID r = ''cfg_gateway'') (bd_resources (gd_budget db)) of
                     Some r \<Rightarrow> AR_Fields r | None \<Rightarrow> Map.empty)
       in rbind (quotaLocation (env_zones env) (stringField (env_sprint env) flds ''quota_timezone'')) (\<lambda>loc.
            case local_date loc t of (y, m, d) \<Rightarrow>
              Inr \<lparr>QP_Day = pad_int 4 y @ ''-'' @ pad_int 2 m @ ''-'' @ pad_int 2 d, QP_Month = pad_int 4 y @ ''-'' @ pad_int 2 m\<rparr>))"

definition admittedQuotaPeriods :: "store_faults \<Rightarrow> string \<Rightarrow> instant \<Rightarrow> gateway_db \<Rightarrow> store_error + quotaPeriods" where
  "admittedQuotaPeriods fault requestID t db =
     (let fallback = \<lparr>QP_Day = dayBucket t, QP_Month = monthBucket t\<rparr> in
      if requestID = [] then Inr fallback
      else rbind (db_call fault ''periods.snapshot'') (\<lambda>_.
        case map_of (gd_entries db) (requestID @ '':admission'') of
          None \<Rightarrow> Inr fallback
        | Some (Undecodable text) \<Rightarrow> Inl (Db text)
        | Some (Admission (Some periods)) \<Rightarrow> Inr periods
        | Some _ \<Rightarrow> Inr fallback))"

section \<open>Admission\<close>

text \<open>\<open>First\<close> whose errors, a missing row among them, are all answered with the same error.\<close>

definition first_or :: "store_faults \<Rightarrow> string \<Rightarrow> store_error \<Rightarrow> ('a \<Rightarrow> bool) \<Rightarrow> 'a list \<Rightarrow> store_error + 'a" where
  "first_or fault site err sel rows =
     (if fault site \<noteq> None then Inl err else case find sel rows of None \<Rightarrow> Inl err | Some row \<Rightarrow> Inr row)"

lemma first_or_Inr: "first_or fault site err sel rows = Inr row \<longleftrightarrow> fault site = None \<and> find sel rows = Some row"
  by (auto simp: first_or_def split: option.splits)

definition authorize_call ::
  "store_faults \<Rightarrow> instant \<Rightarrow> string \<Rightarrow> string \<Rightarrow> gateway_db \<Rightarrow> store_error + (APIKey \<times> Project)" where
  "authorize_call fault now keyID modelName db =
     rbind (db_call fault ''lock.api_key'') (\<lambda>_.
     rbind (first_or fault ''key.first'' ErrInvalidAPIKey (\<lambda>k. K_ID k = keyID) (gd_keys db)) (\<lambda>key0.
     let key = hydrateAPIKey key0 in
     rbind (db_call fault ''lock.project'') (\<lambda>_.
     rbind (first_or fault ''project.first'' ErrInvalidAPIKey (\<lambda>p. Pr_ID p = K_ProjectID key) (bd_projects (gd_budget db))) (\<lambda>project0.
     let project = hydrateProject project0 in
     if Pr_Status project \<noteq> ''active'' \<or> K_Status key = ''disabled'' \<or>
        (K_Status key = ''revoked'' \<and> (case K_GraceUntil key of None \<Rightarrow> True | Some until \<Rightarrow> \<not> now < until))
     then Inl ErrAPIKeyDisabled
     else if (case K_ExpiresAt key of None \<Rightarrow> False | Some expiry \<Rightarrow> expiry < now) then Inl ErrAPIKeyExpired
     else rbind (first_or fault ''model.first'' ErrModelNotAllowed (\<lambda>m. CM_Name m = modelName \<and> CM_Status m = ''active'') (gd_models db)) (\<lambda>_.
          if \<not> modelAllowedByScopes project key modelName then Inl ErrModelNotAllowed
          else Inr (key, project))))))"

definition key_limits :: "APIKey \<Rightarrow> QuotaLimits" where
  "key_limits key = (K_Limits key)
     \<lparr>L_RateLimitRPM := (case K_RateLimitRPM key of Some n \<Rightarrow> n | None \<Rightarrow> 0),
      L_TokenLimitTPM := (case K_TokenLimitTPM key of Some n \<Rightarrow> n | None \<Rightarrow> 0)\<rparr>"

definition key_limit_scopes :: "MinuteLimitScopes \<Rightarrow> QuotaLimits \<Rightarrow> QuotaLimits \<Rightarrow> MinuteLimitScopes" where
  "key_limit_scopes s policy keyL =
     (let pick = (\<lambda>changed old. if changed then ''api_key'' else old) in
      \<lparr>S_RPM = pick (strictLimitChanged (L_RateLimitRPM policy) (L_RateLimitRPM keyL)) (S_RPM s),
       S_TPM = pick (strictLimitChanged (L_TokenLimitTPM policy) (L_TokenLimitTPM keyL)) (S_TPM s),
       S_DailyRequests = pick (strictLimitChanged (L_DailyRequests policy) (L_DailyRequests keyL)) (S_DailyRequests s),
       S_MonthlyRequests = pick (strictLimitChanged (L_MonthlyRequests policy) (L_MonthlyRequests keyL)) (S_MonthlyRequests s),
       S_DailyTokens = pick (strictLimitChanged (L_DailyTokens policy) (L_DailyTokens keyL)) (S_DailyTokens s),
       S_MonthlyTokens = pick (strictLimitChanged (L_MonthlyTokens policy) (L_MonthlyTokens keyL)) (S_MonthlyTokens s),
       S_DailyCostUSD = pick (strictCostChanged (L_DailyCostUSD policy) (L_DailyCostUSD keyL)) (S_DailyCostUSD s),
       S_MonthlyCostUSD = pick (strictCostChanged (L_MonthlyCostUSD policy) (L_MonthlyCostUSD keyL)) (S_MonthlyCostUSD s)\<rparr>)"

definition call_limits ::
  "environment \<Rightarrow> APIKey \<Rightarrow> Project \<Rightarrow> gateway_db \<Rightarrow> QuotaLimits \<times> MinuteLimitScopes \<times> UserQuotaPolicy" where
  "call_limits env key project db =
     (let policies = map AR_Fields (filter (\<lambda>r. AR_Kind r = ''quota-policies'' \<and> AR_Status r = ''active'') (bd_resources (gd_budget db))) in
      case quotaPolicyLimits (env_sprint env) policies project key of
        (policyLimits, scopes, userPolicy) \<Rightarrow>
          let effective = mergeQuotaLimits (key_limits key) policyLimits
          in (effective, fillMissingKeyQuotaLimitScopes (key_limit_scopes scopes policyLimits (key_limits key)) effective, userPolicy))"

definition user_minute_scopes :: "QuotaLimits \<Rightarrow> MinuteLimitScopes" where
  "user_minute_scopes limits =
     zero_MinuteLimitScopes\<lparr>S_RPM := (if L_RateLimitRPM limits > 0 then ''user'' else []),
                            S_TPM := (if L_TokenLimitTPM limits > 0 then ''user'' else [])\<rparr>"

definition user_minute_error :: "store_error \<Rightarrow> store_error" where
  "user_minute_error err =
     (let e = AsHTTPError err in
      if err_Code e = ''api_key_rpm_exceeded'' \<or> err_Code e = ''api_key_tpm_exceeded''
      then Http ((scopedHTTPError ErrQuotaExceeded ''user'')\<lparr>err_Headers := err_Headers e\<rparr>) else err)"

definition on_error :: "('e \<Rightarrow> 'e) \<Rightarrow> 'e + 'a \<Rightarrow> 'e + 'a" where
  "on_error f r = (case r of Inl e \<Rightarrow> Inl (f e) | Inr a \<Rightarrow> Inr a)"

text \<open>The sums are the database's: one that is no \<open>int64\<close> fails the query (SQLite) or its scan (PostgreSQL).\<close>

definition aggregateUserQuotaCounter :: "store_faults \<Rightarrow> string \<Rightarrow> string \<Rightarrow> string \<Rightarrow> quota_db \<Rightarrow> store_error + QuotaCounter" where
  "aggregateUserQuotaCounter fault userID scope bucket db =
     rbind (db_call fault ''user.aggregate'') (\<lambda>_.
       let cs = map B_Counter (filter (\<lambda>r. B_Scope r = scope \<and> B_Bucket r = bucket \<and> \<not> prefix ''user:'' (B_KeyID r) \<and>
                                          B_AttributedUserID r = TrimSpace userID) (qd_buckets db))
       in if list_all (\<lambda>column. in_int64 (sum_list (map column cs))) [N_Requests, N_PromptTokens, N_CompletionTokens, N_TotalTokens]
          then Inr \<lparr>N_Requests = sum_list (map N_Requests cs), N_PromptTokens = sum_list (map N_PromptTokens cs),
               N_CompletionTokens = sum_list (map N_CompletionTokens cs), N_TotalTokens = sum_list (map N_TotalTokens cs),
               N_CostUSD = foldl f64_add (Fin 0) (map N_CostUSD cs)\<rparr>
          else Inl (Db ''integer overflow''))"

definition raise_to_history :: "QuotaBucket \<Rightarrow> QuotaCounter \<Rightarrow> QuotaBucket" where
  "raise_to_history row history = row\<lparr>B_Counter := mergeQuotaCounterMax (B_Counter row) history\<rparr>"

text \<open>The rows of the user for the day and the month, raised to the history of its keys.\<close>

definition open_user_rows ::
  "store_faults \<Rightarrow> UserQuotaPolicy \<Rightarrow> quotaPeriods \<Rightarrow> quota_db \<Rightarrow> store_error + (QuotaBucket \<times> QuotaBucket \<times> quota_db)" where
  "open_user_rows fault policy periods db =
     (let user = UP_UserID policy; qid = userQuotaBucketKey user in
      rbind (quotaBucketForUpdate fault qid ''day'' (QP_Day periods) user db) (\<lambda>(day, db1).
      rbind (quotaBucketForUpdate fault qid ''month'' (QP_Month periods) user db1) (\<lambda>(month, db2).
      rbind (aggregateUserQuotaCounter fault user ''day'' (QP_Day periods) db2) (\<lambda>historicalDay.
      rbind (aggregateUserQuotaCounter fault user ''month'' (QP_Month periods) db2) (\<lambda>historicalMonth.
        Inr (raise_to_history day historicalDay, raise_to_history month historicalMonth, db2))))))"

definition count_request :: "QuotaBucket \<Rightarrow> QuotaBucket" where
  "count_request row = row\<lparr>B_Counter := (B_Counter row)\<lparr>N_Requests := wrap64 (N_Requests (B_Counter row) + 1)\<rparr>\<rparr>"

definition count_reserved :: "int64 \<Rightarrow> QuotaBucket \<Rightarrow> QuotaBucket" where
  "count_reserved reservation row =
     (let c = B_Counter row
      in row\<lparr>B_Counter := c\<lparr>N_Requests := wrap64 (N_Requests c + 1),
                            N_TotalTokens := saturatingAddNonNegative (N_TotalTokens c) (maxInt64 reservation 0)\<rparr>\<rparr>)"

definition empty_bucket :: QuotaBucket where
  "empty_bucket = \<lparr>B_KeyID = [], B_Scope = [], B_Bucket = [], B_AttributedUserID = [], B_Counter = zero_QuotaCounter\<rparr>"

definition user_rows ::
  "store_faults \<Rightarrow> UserQuotaPolicy \<Rightarrow> quotaPeriods \<Rightarrow> quota_db \<Rightarrow> store_error + (QuotaBucket \<times> QuotaBucket \<times> quota_db)" where
  "user_rows fault policy periods q =
     (if Enabled policy then open_user_rows fault policy periods q else Inr (empty_bucket, empty_bucket, q))"

definition key_lease ::
  "store_faults \<Rightarrow> environment \<Rightarrow> admission_clock \<Rightarrow> string \<Rightarrow> int64 \<Rightarrow> string \<Rightarrow> quota_db \<Rightarrow> store_error + quota_db" where
  "key_lease fault env ck keyID limit requestID db =
     (if limit > 0
      then rbind (acquireInFlightLease fault (env_leaseTTL env) ''api_key'' keyID limit requestID (fst (ck_lease ck)) (snd (ck_lease ck)) db)
             (\<lambda>(confirmedFor, db1). Inr db1)
      else Inr db)"

definition user_lease_error :: "store_error \<Rightarrow> store_error" where
  "user_lease_error err =
     (if err_Code (AsHTTPError err) = err_Code ErrRateLimitExceeded then quotaExceededError ''user'' else err)"

definition user_lease ::
  "store_faults \<Rightarrow> environment \<Rightarrow> admission_clock \<Rightarrow> UserQuotaPolicy \<Rightarrow> string \<Rightarrow> quota_db \<Rightarrow> store_error + quota_db" where
  "user_lease fault env ck policy requestID db =
     (if Enabled policy \<and> L_MaxConcurrency (UP_Limits policy) > 0
      then on_error user_lease_error
             (rbind (acquireInFlightLease fault (env_leaseTTL env) ''user'' (UP_UserID policy) (L_MaxConcurrency (UP_Limits policy))
                       (userConcurrencyLeaseID requestID) (fst (ck_user_lease ck)) (snd (ck_user_lease ck)) db)
                (\<lambda>(confirmedFor, db1). Inr db1))
      else Inr db)"

text \<open>The minute counters of the key and of its user.\<close>

definition consume_minutes ::
  "store_faults \<Rightarrow> APIKey \<Rightarrow> QuotaLimits \<Rightarrow> MinuteLimitScopes \<Rightarrow> UserQuotaPolicy \<Rightarrow> int64 \<Rightarrow> instant \<Rightarrow> quota_db \<Rightarrow>
   store_error + (QuotaCounter \<times> QuotaCounter \<times> quota_db)" where
  "consume_minutes fault key effective scopes policy reservation now db =
     rbind (pruneAPIKeyMinuteBuckets fault (K_ID key) now db) (\<lambda>db1.
     rbind (consumeAPIKeyMinuteRequest fault (K_ID key) effective scopes reservation now [] db1) (\<lambda>(minute, db2).
     if Enabled policy
     then rbind (db_call fault ''lock.user_quota'') (\<lambda>_.
          on_error user_minute_error
            (rbind (consumeAPIKeyMinuteRequest fault (userQuotaBucketKey (UP_UserID policy)) (UP_Limits policy)
                      (user_minute_scopes (UP_Limits policy)) reservation now (UP_UserID policy) db2)
               (\<lambda>(userMinute, db3). Inr (minute, userMinute, db3))))
     else Inr (minute, zero_QuotaCounter, db2)))"

definition save_user_rows :: "store_faults \<Rightarrow> UserQuotaPolicy \<Rightarrow> int64 \<Rightarrow> QuotaBucket \<Rightarrow> QuotaBucket \<Rightarrow> quota_db \<Rightarrow> store_error + quota_db" where
  "save_user_rows fault policy reservation day month db =
     (if Enabled policy
      then rbind (save_bucket fault (count_reserved reservation day) db) (\<lambda>db1. save_bucket fault (count_reserved reservation month) db1)
      else Inr db)"

text \<open>The counters of one admission: opened, checked against the limits, and saved with the request.\<close>

definition count_call ::
  "store_faults \<Rightarrow> environment \<Rightarrow> admission_clock \<Rightarrow> Project \<Rightarrow> APIKey \<Rightarrow> QuotaLimits \<Rightarrow> MinuteLimitScopes \<Rightarrow> UserQuotaPolicy \<Rightarrow>
   int64 \<Rightarrow> string \<Rightarrow> quotaPeriods \<Rightarrow> gateway_db \<Rightarrow> quota_db \<Rightarrow> store_error + quota_db" where
  "count_call fault env ck project key effective scopes policy reservation requestID periods db q0 =
     rbind (quotaBucketForUpdate fault (K_ID key) ''day'' (QP_Day periods) [] q0) (\<lambda>(day, q1).
     rbind (user_rows fault policy periods q1) (\<lambda>(userDay, userMonth, q2).
     rbind (quotaBucketForUpdate fault (K_ID key) ''month'' (QP_Month periods) [] q2) (\<lambda>(month, q3).
     rbind (key_lease fault env ck (K_ID key) (L_MaxConcurrency effective) requestID q3) (\<lambda>q4.
     rbind (user_lease fault env ck policy requestID q4) (\<lambda>q5.
     if Enabled policy \<and> exceededQuotaLimitWithReservation (UP_Limits policy) (B_Counter userDay) (B_Counter userMonth) reservation \<noteq> []
     then Inl (quotaExceededError ''user'')
     else case exceededQuotaLimitWithScope effective scopes (B_Counter day) (B_Counter month) of
       (limit, scope) \<Rightarrow>
         if limit \<noteq> [] then Inl (quotaExceededError scope)
         else rbind (checkRuntimeBudget fault (env_group env) (env_sprint env) (ck_host ck) project (ck_db ck) (gd_budget db)) (\<lambda>_.
              rbind (save_bucket fault (count_request day) q5) (\<lambda>q6.
              rbind (save_bucket fault (count_request month) q6) (\<lambda>q7.
                save_user_rows fault policy reservation userDay userMonth q7))))))))"

definition admitted_call ::
  "admission_clock \<Rightarrow> Project \<Rightarrow> APIKey \<Rightarrow> string \<Rightarrow> QuotaLimits \<Rightarrow> UserQuotaPolicy \<Rightarrow> int64 \<Rightarrow> string \<Rightarrow> QuotaCounter \<Rightarrow> QuotaCounter \<Rightarrow> CallContext" where
  "admitted_call ck project key modelName effective policy reservation requestID minute userMinute =
     (let now = ck_db ck; enabled = Enabled policy; userLimits = UP_Limits policy in
      \<lparr>C_RequestID = requestID, C_RouteProtocol = [], C_Project = project, C_Key = key, C_ModelName = modelName, C_StartedAt = now,
       C_RateLimitHeaders = (if enabled then combinedRateLimitHeaders effective minute userLimits userMinute now False
                             else apiKeyRateLimitHeaders effective minute now False),
       C_TokenLimitBucket = (if L_TokenLimitTPM effective > 0 then minuteBucket now else []),
       C_MinuteRequestHeld = (L_RateLimitRPM effective > 0),
       C_ReservedTokens = (if L_TokenLimitTPM effective > 0 \<or> enabled then maxInt64 reservation 0 else 0),
       C_UserQuotaID = (if enabled then userQuotaBucketKey (UP_UserID policy) else []),
       C_UserQuotaEnabled = enabled,
       C_UserMinuteRequestHeld = (enabled \<and> L_RateLimitRPM userLimits > 0),
       C_UserTokenLimitBucket = (if enabled \<and> L_TokenLimitTPM userLimits > 0 then minuteBucket now else []),
       C_UserQuotaLimits = userLimits,
       C_AttributedUserID = usageAttributionUserID key project,
       C_StreamOutputCommitted = False\<rparr>)"

definition saveMeteringEntry :: "store_faults \<Rightarrow> string \<Rightarrow> metering_payload \<Rightarrow> gateway_db \<Rightarrow> store_error + gateway_db" where
  "saveMeteringEntry fault ident payload db =
     rbind (db_call fault ''metering.encode'') (\<lambda>_.
     rbind (db_call fault ''metering.create'') (\<lambda>_.
       if map_of (gd_entries db) ident \<noteq> None then Inl (Db ''unique constraint'')
       else Inr (db\<lparr>gd_entries := gd_entries db @ [(ident, payload)]\<rparr>)))"

definition captureMeteringRequest :: "store_faults \<Rightarrow> CallContext \<Rightarrow> quotaPeriods \<Rightarrow> gateway_db \<Rightarrow> store_error + gateway_db" where
  "captureMeteringRequest fault call periods db =
     (if C_RequestID call = [] then Inr db
      else rbind (db_call fault ''metering.card'') (\<lambda>_.
        saveMeteringEntry fault (C_RequestID call @ '':admission'') (Admission (Some periods)) db))"

definition admitCallTransaction ::
  "store_faults \<Rightarrow> environment \<Rightarrow> admission_clock \<Rightarrow> string \<Rightarrow> string \<Rightarrow> int64 \<Rightarrow> string \<Rightarrow> gateway_db \<Rightarrow> store_error + (CallContext \<times> gateway_db)" where
  "admitCallTransaction fault env ck keyID modelName reservation requestID db =
     rbind (authorize_call fault (ck_host ck) keyID modelName db) (\<lambda>(key, project).
     rbind (db_call fault ''policies.find'') (\<lambda>_.
     case call_limits env key project db of (effective, scopes, policy) \<Rightarrow>
     rbind (db_call fault ''database.now'') (\<lambda>_.
     rbind (currentQuotaPeriods fault env (ck_db ck) db) (\<lambda>periods.
     rbind (consume_minutes fault key effective scopes policy reservation (ck_db ck) (gd_quota db)) (\<lambda>(minute, userMinute, q1).
     rbind (count_call fault env ck project key effective scopes policy reservation requestID periods db q1) (\<lambda>q2.
       let call = admitted_call ck project key modelName effective policy reservation requestID minute userMinute
       in rbind (captureMeteringRequest fault call periods (db\<lparr>gd_quota := q2\<rparr>)) (\<lambda>db1. Inr (call, db1))))))))"

text \<open>\<open>StartCall\<close>: the transaction with a fresh request id; an error leaves the tables as they were.\<close>

definition StartCall ::
  "store_faults \<Rightarrow> environment \<Rightarrow> admission_clock \<Rightarrow> string \<Rightarrow> string \<Rightarrow> int64 \<Rightarrow> string \<Rightarrow> gateway_db \<Rightarrow> (store_error + CallContext) \<times> gateway_db" where
  "StartCall fault env ck keyID modelName reservation newID db =
     (case admitCallTransaction fault env ck keyID modelName reservation newID db of
        Inl e \<Rightarrow> (Inl e, db)
      | Inr (call, db1) \<Rightarrow> (Inr call, db1))"

section \<open>What the steps of an admission do to the counters\<close>

text \<open>\<open>touches K q q'\<close>: every counter outside \<open>K\<close> is the same in both tables.\<close>

definition touches :: "counter_key set \<Rightarrow> quota_db \<Rightarrow> quota_db \<Rightarrow> bool" where
  "touches K q q' \<longleftrightarrow> (\<forall>k. attribution k \<noteq> [] \<longrightarrow> k \<notin> K \<longrightarrow> count_of q' k = count_of q k)"

lemma touchesD: "touches K q q' \<Longrightarrow> attribution k \<noteq> [] \<Longrightarrow> k \<notin> K \<Longrightarrow> count_of q' k = count_of q k"
  unfolding touches_def by blast

lemma touchesI: "(\<And>k. attribution k \<noteq> [] \<Longrightarrow> k \<notin> K \<Longrightarrow> count_of q' k = count_of q k) \<Longrightarrow> touches K q q'"
  unfolding touches_def by blast

lemma touches_refl [simp]: "touches K q q"
  by (simp add: touches_def)

lemma touches_trans: "touches K q q' \<Longrightarrow> touches K' q' q'' \<Longrightarrow> touches (K \<union> K') q q''"
  unfolding touches_def by (metis UnI1 UnI2)

lemma touches_mono: "touches K q q' \<Longrightarrow> K \<subseteq> K' \<Longrightarrow> touches K' q q'"
  unfolding touches_def by blast

lemma touches_leases: "qd_buckets q' = qd_buckets q \<Longrightarrow> touches {} q q'"
  by (drule count_of_buckets) (simp add: touches_def)

lemma open_touches: "quotaBucketForUpdate f key scope bucket user q = Inr (item, q1) \<Longrightarrow> touches {} q q1"
  by (rule touchesI) (rule qt.open_keeps)

lemma save_touches:
  assumes "save_bucket f item q = Inr q1" and "attribution (row_key item) \<noteq> []"
  shows "touches {row_key item} q q1" and "count_of q1 (row_key item) = B_Counter item"
  by (rule touchesI) (simp_all add: qt.save_updates [OF assms] assms(2))

definition minute_keys :: "string \<Rightarrow> counter_key set" where
  "minute_keys key = {k. fst k = key \<and> fst (snd k) = ''minute''}"

lemma in_minute_keys [simp]: "(x, y, z, u) \<in> minute_keys key \<longleftrightarrow> x = key \<and> y = ''minute''"
  by (simp add: minute_keys_def)

lemma prune_touches: "pruneAPIKeyMinuteBuckets f key now q = Inr q1 \<Longrightarrow> touches (minute_keys key) q q1"
  by (rule touchesI) (auto intro!: prune_law [OF _ refl] simp: minute_keys_def)

lemma consume_touches:
  assumes "consumeAPIKeyMinuteRequest f key limits scopes r now user q = Inr (c, q1)"
  shows "touches (minute_keys key) q q1"
  using assms
proof (cases rule: consume_cases)
  case (counted item dbm)
  then show ?thesis using qt.modify_row [OF counted(1,2)] by (auto intro!: touchesI)
qed simp

lemma acquire_buckets:
  "acquireInFlightLease f ttl st sid limit ident now later q = Inr (d, q1) \<Longrightarrow> qd_buckets q1 = qd_buckets q"
  by (auto simp: acquireInFlightLease_def Let_def rbind_eq_Inr_iff split: if_splits)

lemma on_error_eq_Inr [simp]: "on_error f r = Inr a \<longleftrightarrow> r = Inr a"
  by (simp add: on_error_def split: sum.split)

lemma key_lease_buckets: "key_lease f env ck keyID limit rid q = Inr q1 \<Longrightarrow> qd_buckets q1 = qd_buckets q"
  by (auto simp: key_lease_def rbind_eq_Inr_iff acquire_buckets split: if_splits)

lemma user_lease_buckets: "user_lease f env ck policy rid q = Inr q1 \<Longrightarrow> qd_buckets q1 = qd_buckets q"
  by (auto simp: user_lease_def rbind_eq_Inr_iff acquire_buckets split: if_splits)

lemma consume_minutes_touches:
  assumes "consume_minutes f key effective scopes policy r now q = Inr (m, um, q1)"
  shows "touches (minute_keys (K_ID key) \<union> minute_keys (userQuotaBucketKey (UP_UserID policy))) q q1"
proof -
  from assms obtain qa qb ma where "pruneAPIKeyMinuteBuckets f (K_ID key) now q = Inr qa"
    and "consumeAPIKeyMinuteRequest f (K_ID key) effective scopes r now [] qa = Inr (ma, qb)"
    and tail: "qb = q1 \<or> (\<exists>ub. consumeAPIKeyMinuteRequest f (userQuotaBucketKey (UP_UserID policy)) (UP_Limits policy)
      (user_minute_scopes (UP_Limits policy)) r now (UP_UserID policy) qb = Inr (ub, q1))"
    by (auto simp: consume_minutes_def rbind_eq_Inr_iff split: if_splits)
  then have "touches (minute_keys (K_ID key)) q qb"
    by (metis touches_trans prune_touches consume_touches sup.idem)
  moreover have "touches (minute_keys (userQuotaBucketKey (UP_UserID policy))) qb q1"
    using tail consume_touches by auto
  ultimately show ?thesis by (rule touches_trans)
qed

section \<open>The history of a user\<close>

definition history_row :: "string \<Rightarrow> string \<Rightarrow> string \<Rightarrow> counter_key \<Rightarrow> bool" where
  "history_row user scope bucket k \<longleftrightarrow>
     (case k of (x, y, z, u) \<Rightarrow> y = scope \<and> z = bucket \<and> \<not> prefix ''user:'' x \<and> u = TrimSpace user)"

definition history_rows :: "string \<Rightarrow> string \<Rightarrow> string \<Rightarrow> quota_db \<Rightarrow> QuotaCounter list" where
  "history_rows user scope bucket q = map B_Counter (filter (\<lambda>r. history_row user scope bucket (row_key r)) (qd_buckets q))"

definition total_counter :: "QuotaCounter list \<Rightarrow> QuotaCounter" where
  "total_counter cs =
     \<lparr>N_Requests = sum_list (map N_Requests cs), N_PromptTokens = sum_list (map N_PromptTokens cs),
      N_CompletionTokens = sum_list (map N_CompletionTokens cs), N_TotalTokens = sum_list (map N_TotalTokens cs),
      N_CostUSD = foldl f64_add (Fin 0) (map N_CostUSD cs)\<rparr>"

lemma aggregate_history:
  "aggregateUserQuotaCounter f user scope bucket q = Inr c \<Longrightarrow> c = total_counter (history_rows user scope bucket q)"
  by (auto simp: aggregateUserQuotaCounter_def rbind_eq_Inr_iff Let_def total_counter_def history_rows_def
      history_row_def row_key_def conj_ac split: if_split_asm)

lemma open_history:
  assumes "quotaBucketForUpdate f key sc b u q = Inr (item, q1)"
    and "\<not> history_row user scope bucket (key, sc, b, quotaAttributionKey u)" and "TrimSpace user \<noteq> []"
  shows "history_rows user scope bucket q1 = history_rows user scope bucket q"
proof -
  let ?h = "\<lambda>r. history_row user scope bucket (row_key r)"
  define rows1 where "rows1 = (if quotaAttributionKey u = unattributedQuotaUserID then adopt_legacy key sc b (qd_buckets q) else qd_buckets q)"
  let ?f = "\<lambda>r. if row_key r = (key, sc, b, []) then r\<lparr>B_AttributedUserID := unattributedQuotaUserID\<rparr> else r"
  have "filter ?h (map ?f rs) = filter ?h rs" if "quotaAttributionKey u = unattributedQuotaUserID" for rs
    using assms(2,3) that by (induction rs) (auto simp: history_row_def row_key_def)
  then have rows: "filter ?h rows1 = filter ?h (qd_buckets q)"
    by (auto simp: rows1_def adopt_legacy_def)
  have "qd_buckets q1 = rows1 \<or> (\<exists>seed. row_key seed = (key, sc, b, quotaAttributionKey u) \<and> qd_buckets q1 = rows1 @ [seed])"
    using assms(1) unfolding quotaBucketForUpdate_def Let_def rbind_eq_Inr_iff rows1_def
    by (auto simp: row_key_def split: option.splits)
  then show ?thesis using rows assms(2) by (auto simp: history_rows_def)
qed

lemma save_history:
  assumes "save_bucket f item q = Inr q1" and "\<not> history_row user scope bucket (row_key item)"
  shows "history_rows user scope bucket q1 = history_rows user scope bucket q"
proof -
  let ?h = "\<lambda>r. history_row user scope bucket (row_key r)"
  have "filter ?h (map (\<lambda>r. if row_key r = row_key item then item else r) rs) = filter ?h rs" for rs
    using assms(2) by (induction rs) auto
  then show ?thesis using assms by (auto simp: save_bucket_def rbind_eq_Inr_iff history_rows_def)
qed

lemma prune_history:
  assumes "pruneAPIKeyMinuteBuckets f key now q = Inr q1" and "scope \<noteq> ''minute''"
  shows "history_rows user scope bucket q1 = history_rows user scope bucket q"
proof -
  have "filter (\<lambda>r. history_row user scope bucket (row_key r)) (filter (\<lambda>r. \<not> (B_KeyID r = key \<and> B_Scope r = ''minute'' \<and> P r)) rs) =
      filter (\<lambda>r. history_row user scope bucket (row_key r)) rs" for rs and P :: "QuotaBucket \<Rightarrow> bool"
    using assms(2) by (induction rs) (auto simp: history_row_def row_key_def)
  then show ?thesis
    using assms(1) by (auto simp: pruneAPIKeyMinuteBuckets_def Let_def rbind_eq_Inr_iff history_rows_def)
qed

lemma consume_history:
  assumes "consumeAPIKeyMinuteRequest f key limits scopes r now u q = Inr (c, q1)" and "scope \<noteq> ''minute''" and "TrimSpace user \<noteq> []"
  shows "history_rows user scope bucket q1 = history_rows user scope bucket q"
  using assms(1)
proof (cases rule: consume_cases)
  case (counted item dbm)
  have key: "row_key (item\<lparr>B_Counter := c\<rparr>) = (key, ''minute'', minuteBucket now, quotaAttributionKey u)"
    using qt.open_key [OF counted(1)] by (simp add: row_key_def)
  show ?thesis
    using open_history [OF counted(1) _ assms(3), of scope bucket] save_history [OF counted(2), of user scope bucket] assms(2)
    by (simp add: key history_row_def)
qed simp

lemma consume_minutes_history:
  assumes "consume_minutes f key effective scopes policy r now q = Inr (m, um, q1)" and "scope \<noteq> ''minute''" and "TrimSpace user \<noteq> []"
  shows "history_rows user scope bucket q1 = history_rows user scope bucket q"
proof -
  from assms(1) obtain qa qb ma where p: "pruneAPIKeyMinuteBuckets f (K_ID key) now q = Inr qa"
    and c: "consumeAPIKeyMinuteRequest f (K_ID key) effective scopes r now [] qa = Inr (ma, qb)"
    and tail: "qb = q1 \<or> (\<exists>ub. consumeAPIKeyMinuteRequest f (userQuotaBucketKey (UP_UserID policy)) (UP_Limits policy)
      (user_minute_scopes (UP_Limits policy)) r now (UP_UserID policy) qb = Inr (ub, q1))"
    by (auto simp: consume_minutes_def rbind_eq_Inr_iff split: if_splits)
  have "history_rows user scope bucket q1 = history_rows user scope bucket qb"
    using tail consume_history [OF _ assms(2,3)] by metis
  then show ?thesis by (simp add: consume_history [OF c assms(2,3)] prune_history [OF p assms(2)])
qed

section \<open>Specification of an admission\<close>

definition period_keys :: "string \<Rightarrow> string \<Rightarrow> quotaPeriods \<Rightarrow> counter_key \<times> counter_key" where
  "period_keys ident user periods =
     ((ident, ''day'', QP_Day periods, quotaAttributionKey user), (ident, ''month'', QP_Month periods, quotaAttributionKey user))"

abbreviation key_period :: "APIKey \<Rightarrow> quotaPeriods \<Rightarrow> counter_key \<times> counter_key" where
  "key_period key periods \<equiv> period_keys (K_ID key) [] periods"

abbreviation user_period :: "UserQuotaPolicy \<Rightarrow> quotaPeriods \<Rightarrow> counter_key \<times> counter_key" where
  "user_period policy periods \<equiv> period_keys (userQuotaBucketKey (UP_UserID policy)) (UP_UserID policy) periods"

text \<open>What an aggregate counter of a user shows: at least the history of the user's keys.\<close>

definition user_count :: "string \<Rightarrow> quota_db \<Rightarrow> counter_key \<Rightarrow> QuotaCounter" where
  "user_count user q k = mergeQuotaCounterMax (count_of q k) (total_counter (history_rows user (fst (snd k)) (fst (snd (snd k))) q))"

text \<open>The counters of the periods after an admission, from the counters before it.\<close>

definition admission_spec :: "APIKey \<Rightarrow> UserQuotaPolicy \<Rightarrow> int64 \<Rightarrow> quotaPeriods \<Rightarrow> quota_db \<Rightarrow> counter_key \<Rightarrow> QuotaCounter" where
  "admission_spec key policy r periods q k =
     (if k = fst (key_period key periods) \<or> k = snd (key_period key periods)
      then (count_of q k)\<lparr>N_Requests := wrap64 (N_Requests (count_of q k) + 1)\<rparr>
      else if Enabled policy \<and> (k = fst (user_period policy periods) \<or> k = snd (user_period policy periods))
      then (user_count (UP_UserID policy) q k)
             \<lparr>N_Requests := wrap64 (N_Requests (user_count (UP_UserID policy) q k) + 1),
              N_TotalTokens := saturatingAddNonNegative (N_TotalTokens (user_count (UP_UserID policy) q k)) (max r 0)\<rparr>
      else count_of q k)"

lemma attribution_period [simp]:
  "attribution (fst (period_keys i u p)) = quotaAttributionKey u" "attribution (snd (period_keys i u p)) = quotaAttributionKey u"
  by (simp_all add: period_keys_def)

lemma period_keys_distinct: "fst (period_keys i u p) \<noteq> snd (period_keys i' u' p)"
  by (simp add: period_keys_def)

lemma quotaAttributionKey_user: "TrimSpace u \<noteq> [] \<Longrightarrow> quotaAttributionKey u = TrimSpace u"
  by (simp add: quotaAttributionKey_def Let_def)

lemma prefix_userQuotaBucketKey [simp]: "prefix ''user:'' (userQuotaBucketKey u)"
  by (simp add: userQuotaBucketKey_def)

lemma row_key_count [simp]:
  "row_key (count_request row) = row_key row" "row_key (count_reserved r row) = row_key row" "row_key (raise_to_history row h) = row_key row"
  by (simp_all add: count_request_def count_reserved_def raise_to_history_def row_key_def Let_def)

text \<open>Opening the rows of a user reads the raised counters and changes nothing.\<close>

lemma open_user_rows_law:
  assumes "open_user_rows f policy periods q = Inr (day, month, q2)" and "TrimSpace (UP_UserID policy) \<noteq> []"
  shows "row_key day = fst (user_period policy periods)" and "row_key month = snd (user_period policy periods)"
    and "B_Counter day = user_count (UP_UserID policy) q (row_key day)"
    and "B_Counter month = user_count (UP_UserID policy) q (row_key month)"
    and "touches {} q q2"
proof -
  let ?u = "UP_UserID policy"
  let ?i = "userQuotaBucketKey ?u"
  from assms(1) obtain d0 m0 q1 hd hm where o1: "quotaBucketForUpdate f ?i ''day'' (QP_Day periods) ?u q = Inr (d0, q1)"
    and o2: "quotaBucketForUpdate f ?i ''month'' (QP_Month periods) ?u q1 = Inr (m0, q2)"
    and a1: "aggregateUserQuotaCounter f ?u ''day'' (QP_Day periods) q2 = Inr hd"
    and a2: "aggregateUserQuotaCounter f ?u ''month'' (QP_Month periods) q2 = Inr hm"
    and res: "day = raise_to_history d0 hd" "month = raise_to_history m0 hm"
    by (auto simp: open_user_rows_def Let_def rbind_eq_Inr_iff)
  have raised: "B_Counter (raise_to_history row h) = mergeQuotaCounterMax (B_Counter row) h" for row h
    by (simp add: raise_to_history_def)
  have t1: "touches {} q q1" and t2: "touches {} q1 q2" using open_touches [OF o1] open_touches [OF o2] by auto
  have hist: "history_rows ?u s b q2 = history_rows ?u s b q" for s b
    using open_history [OF o1 _ assms(2), of s b] open_history [OF o2 _ assms(2), of s b] by (simp add: history_row_def)
  have k: "row_key d0 = fst (user_period policy periods)" "row_key m0 = snd (user_period policy periods)"
    using qt.open_key [OF o1] qt.open_key [OF o2] by (simp_all add: period_keys_def)
  show "row_key day = fst (user_period policy periods)" "row_key month = snd (user_period policy periods)"
    by (simp_all add: res k)
  show "B_Counter day = user_count ?u q (row_key day)"
    using qt.open_counter [OF o1] aggregate_history [OF a1] hist
    by (simp add: res user_count_def raised k period_keys_def)
  show "B_Counter month = user_count ?u q (row_key month)"
    using qt.open_counter [OF o2] aggregate_history [OF a2] hist touchesD [OF t1, of "row_key m0"]
    by (simp add: res user_count_def raised k period_keys_def)
  show "touches {} q q2" using touches_trans [OF t1 t2] by simp
qed

lemma user_count_cong:
  "count_of q' k = count_of q k \<Longrightarrow> history_rows u (fst (snd k)) (fst (snd (snd k))) q' = history_rows u (fst (snd k)) (fst (snd (snd k))) q \<Longrightarrow>
   user_count u q' k = user_count u q k"
  by (simp add: user_count_def)

text \<open>The four rows are read before any of them is written.\<close>

lemma count_call_cases:
  assumes "count_call f env ck project key effective scopes policy r rid periods db q0 = Inr q'"
  obtains (rows) day month userDay userMonth q5 q6 q7 where
    "row_key day = fst (key_period key periods)" "row_key month = snd (key_period key periods)"
    "B_Counter day = count_of q0 (row_key day)" "B_Counter month = count_of q0 (row_key month)"
    "Enabled policy \<Longrightarrow> row_key userDay = fst (user_period policy periods) \<and> row_key userMonth = snd (user_period policy periods)"
    "Enabled policy \<Longrightarrow> TrimSpace (UP_UserID policy) \<noteq> unattributedQuotaUserID \<Longrightarrow>
       B_Counter userDay = user_count (UP_UserID policy) q0 (row_key userDay) \<and>
       B_Counter userMonth = user_count (UP_UserID policy) q0 (row_key userMonth)"
    "touches {} q0 q5"
    "Enabled policy \<Longrightarrow> exceededQuotaLimitWithReservation (UP_Limits policy) (B_Counter userDay) (B_Counter userMonth) r = []"
    "fst (exceededQuotaLimitWithScope effective scopes (B_Counter day) (B_Counter month)) = []"
    "checkRuntimeBudget f (env_group env) (env_sprint env) (ck_host ck) project (ck_db ck) (gd_budget db) = Inr ()"
    "save_bucket f (count_request day) q5 = Inr q6" "save_bucket f (count_request month) q6 = Inr q7"
    "save_user_rows f policy r userDay userMonth q7 = Inr q'"
proof -
  let ?u = "UP_UserID policy"
  from assms(1) obtain day q1 userDay userMonth q2 month q3 q4 q5 q6 q7
    where o1: "quotaBucketForUpdate f (K_ID key) ''day'' (QP_Day periods) [] q0 = Inr (day, q1)"
      and ou: "user_rows f policy periods q1 = Inr (userDay, userMonth, q2)"
      and o2: "quotaBucketForUpdate f (K_ID key) ''month'' (QP_Month periods) [] q2 = Inr (month, q3)"
      and l1: "key_lease f env ck (K_ID key) (L_MaxConcurrency effective) rid q3 = Inr q4"
      and l2: "user_lease f env ck policy rid q4 = Inr q5"
      and ex: "Enabled policy \<Longrightarrow> exceededQuotaLimitWithReservation (UP_Limits policy) (B_Counter userDay) (B_Counter userMonth) r = []"
      and ek: "fst (exceededQuotaLimitWithScope effective scopes (B_Counter day) (B_Counter month)) = []"
      and bud: "checkRuntimeBudget f (env_group env) (env_sprint env) (ck_host ck) project (ck_db ck) (gd_budget db) = Inr ()"
      and sv: "save_bucket f (count_request day) q5 = Inr q6" "save_bucket f (count_request month) q6 = Inr q7"
        "save_user_rows f policy r userDay userMonth q7 = Inr q'"
    by (auto simp: count_call_def rbind_eq_Inr_iff case_prod_beta split: if_split_asm)
  have t1: "touches {} q0 q1" by (rule open_touches [OF o1])
  have key: "row_key day = fst (key_period key periods)" "row_key month = snd (key_period key periods)"
    using qt.open_key [OF o1] qt.open_key [OF o2] by (simp_all add: period_keys_def)
  have hist: "history_rows ?u s b q1 = history_rows ?u s b q0" if "Enabled policy" "TrimSpace ?u \<noteq> unattributedQuotaUserID" for s b
    using open_history [OF o1, of ?u s b] that by (simp add: history_row_def quotaAttributionKey_def Enabled_def)
  have same: "user_count ?u q1 k = user_count ?u q0 k" if "Enabled policy" "TrimSpace ?u \<noteq> unattributedQuotaUserID" "attribution k \<noteq> []" for k
    using that by (intro user_count_cong touchesD [OF t1] hist) auto
  have urows: "touches {} q1 q2 \<and> (Enabled policy \<longrightarrow> row_key userDay = fst (user_period policy periods) \<and>
      row_key userMonth = snd (user_period policy periods)) \<and>
      (Enabled policy \<longrightarrow> TrimSpace ?u \<noteq> unattributedQuotaUserID \<longrightarrow> B_Counter userDay = user_count ?u q0 (row_key userDay) \<and>
      B_Counter userMonth = user_count ?u q0 (row_key userMonth))"
  proof (cases "Enabled policy")
    case True
    with ou [unfolded user_rows_def] have "open_user_rows f policy periods q1 = Inr (userDay, userMonth, q2)" by simp
    from open_user_rows_law [OF this] True same show ?thesis by (simp add: Enabled_def)
  qed (use ou in \<open>simp add: user_rows_def\<close>)
  have t2: "touches {} q0 q2" using touches_trans [OF t1 conjunct1 [OF urows]] by simp
  have "touches {} q2 q5"
    using touches_trans [OF open_touches [OF o2] touches_leases]
    by (simp add: key_lease_buckets [OF l1] user_lease_buckets [OF l2])
  with t2 have t5: "touches {} q0 q5" using touches_trans [of "{}" q0 q2 "{}" q5] by simp
  have "B_Counter day = count_of q0 (row_key day)" by (rule qt.open_counter [OF o1])
  moreover have "B_Counter month = count_of q0 (row_key month)"
    using qt.open_counter [OF o2] touchesD [OF t2, of "row_key month"] by (simp add: key)
  ultimately show thesis using that key urows t5 ex ek bud sv by blast
qed

lemma save_user_rows_law:
  assumes "save_user_rows f policy r day month q = Inr q'" and "attribution k \<noteq> []"
    and "Enabled policy \<Longrightarrow> row_key day = fst (user_period policy periods) \<and> row_key month = snd (user_period policy periods)"
  shows "count_of q' k =
    (if Enabled policy \<and> k = fst (user_period policy periods) then B_Counter (count_reserved r day)
     else if Enabled policy \<and> k = snd (user_period policy periods) then B_Counter (count_reserved r month)
     else count_of q k)"
proof (cases "Enabled policy")
  case True
  with assms(1) obtain q1 where s1: "save_bucket f (count_reserved r day) q = Inr q1"
    and s2: "save_bucket f (count_reserved r month) q1 = Inr q'"
    by (auto simp: save_user_rows_def rbind_eq_Inr_iff)
  show ?thesis
    using qt.save_updates [OF s1 _ assms(2)] qt.save_updates [OF s2 _ assms(2)] assms(3) True period_keys_distinct
    by auto
qed (use assms(1) in \<open>simp add: save_user_rows_def\<close>)

lemma count_call_law:
  assumes "count_call f env ck project key effective scopes policy r rid periods db q0 = Inr q'"
    and user: "Enabled policy \<Longrightarrow> TrimSpace (UP_UserID policy) \<noteq> unattributedQuotaUserID"
    and "attribution k \<noteq> []"
  shows "count_of q' k = admission_spec key policy r periods q0 k"
  using assms(1)
proof (cases rule: count_call_cases)
  case (rows day month userDay userMonth q5 q6 q7)
  have s1: "count_of q6 k = (if k = row_key day then B_Counter (count_request day) else count_of q5 k)"
    using qt.save_updates [OF rows(11) _ assms(3)] rows(1) by simp
  have s2: "count_of q7 k = (if k = row_key month then B_Counter (count_request month) else count_of q6 k)"
    using qt.save_updates [OF rows(12) _ assms(3)] rows(2) by simp
  have s3: "count_of q' k =
    (if Enabled policy \<and> k = fst (user_period policy periods) then B_Counter (count_reserved r userDay)
     else if Enabled policy \<and> k = snd (user_period policy periods) then B_Counter (count_reserved r userMonth)
     else count_of q7 k)"
    using save_user_rows_law [OF rows(13) assms(3)] rows(5) by blast
  have key: "k \<noteq> fst (key_period key periods) \<and> k \<noteq> snd (key_period key periods)"
    if "Enabled policy" "k = fst (user_period policy periods) \<or> k = snd (user_period policy periods)"
    using that user by (auto simp: period_keys_def quotaAttributionKey_def Enabled_def)
  show ?thesis
    using s1 s2 s3 rows(1-5) rows(6) [OF _ user] touchesD [OF rows(7) assms(3)] key
    by (auto simp: admission_spec_def count_request_def count_reserved_def Let_def)
qed

text \<open>The aggregate of a user belongs to the user a key's usage is attributed to, and that is a real
  user.\<close>

lemma usageAttributionUserID_trim [simp]: "TrimSpace (usageAttributionUserID key project) = usageAttributionUserID key project"
  by (auto simp: usageAttributionUserID_def split: option.split)

lemma quotaPolicyLimits_user:
  assumes "quotaPolicyLimits sprint policies project key = (limits, scopes, policy)"
  shows "UP_UserID policy = [] \<or> UP_UserID policy = usageAttributionUserID key project \<and> UP_UserID policy \<noteq> unattributedQuotaUserID"
proof -
  define ok where "ok st \<longleftrightarrow> UP_UserID (snd (snd st)) = [] \<or>
    UP_UserID (snd (snd st)) = usageAttributionUserID key project \<and> UP_UserID (snd (snd st)) \<noteq> unattributedQuotaUserID"
    for st :: policy_state
  have step: "ok (apply_policy sprint project key st flds)" if "ok st" for st flds
    using that
    by (cases st) (simp add: ok_def apply_policy_def Let_def quotaPolicyApplies_def userQuotaPolicyApplies_def)
  have "ok (foldl (apply_policy sprint project key) st policies)" if "ok st" for st
    using that by (induction policies arbitrary: st) (simp_all add: step)
  from this [of "(zero_QuotaLimits, zero_MinuteLimitScopes, \<lparr>UP_UserID = [], UP_Limits = zero_QuotaLimits\<rparr>)"]
  show ?thesis using assms by (simp add: quotaPolicyLimits_def ok_def)
qed

lemma call_limits_user:
  assumes "call_limits env key project db = (effective, scopes, policy)" and "Enabled policy"
  shows "UP_UserID policy = usageAttributionUserID key project" and "TrimSpace (UP_UserID policy) \<noteq> unattributedQuotaUserID"
proof -
  obtain limits sc pol where q: "quotaPolicyLimits (env_sprint env)
      (map AR_Fields (filter (\<lambda>r. AR_Kind r = ''quota-policies'' \<and> AR_Status r = ''active'') (bd_resources (gd_budget db)))) project key =
      (limits, sc, pol)"
    by (cases "quotaPolicyLimits (env_sprint env)
      (map AR_Fields (filter (\<lambda>r. AR_Kind r = ''quota-policies'' \<and> AR_Status r = ''active'') (bd_resources (gd_budget db)))) project key")
  then have "pol = policy" using assms(1) by (simp add: call_limits_def Let_def)
  moreover have "UP_UserID policy \<noteq> []" using assms(2) by (auto simp: Enabled_def)
  ultimately show "UP_UserID policy = usageAttributionUserID key project" "TrimSpace (UP_UserID policy) \<noteq> unattributedQuotaUserID"
    using quotaPolicyLimits_user [OF q] by auto
qed

lemma admitCallTransaction_cases:
  assumes "admitCallTransaction f env ck keyID m r rid db = Inr (call, db1)"
  obtains (admitted) key project effective scopes policy periods minute userMinute q1 q2 where
    "authorize_call f (ck_host ck) keyID m db = Inr (key, project)"
    "call_limits env key project db = (effective, scopes, policy)"
    "currentQuotaPeriods f env (ck_db ck) db = Inr periods"
    "consume_minutes f key effective scopes policy r (ck_db ck) (gd_quota db) = Inr (minute, userMinute, q1)"
    "count_call f env ck project key effective scopes policy r rid periods db q1 = Inr q2"
    "call = admitted_call ck project key m effective policy r rid minute userMinute"
    "captureMeteringRequest f call periods (db\<lparr>gd_quota := q2\<rparr>) = Inr db1"
proof -
  from assms obtain key project where auth: "authorize_call f (ck_host ck) keyID m db = Inr (key, project)"
    by (auto simp: admitCallTransaction_def rbind_eq_Inr_iff)
  obtain effective scopes policy where lim: "call_limits env key project db = (effective, scopes, policy)"
    by (cases "call_limits env key project db")
  show thesis
    using assms auth lim by (auto simp: admitCallTransaction_def rbind_eq_Inr_iff Let_def intro: admitted)
qed

lemma capture_quota: "captureMeteringRequest f call periods db = Inr db1 \<Longrightarrow> gd_quota db1 = gd_quota db"
  by (auto simp: captureMeteringRequest_def saveMeteringEntry_def rbind_eq_Inr_iff split: if_splits)

lemma admission_spec_cong:
  assumes "count_of q' k = count_of q k" and "\<And>u. TrimSpace u \<noteq> [] \<Longrightarrow> history_rows u (fst (snd k)) (fst (snd (snd k))) q' = history_rows u (fst (snd k)) (fst (snd (snd k))) q"
  shows "admission_spec key policy r periods q' k = admission_spec key policy r periods q k"
proof (cases "Enabled policy")
  case True
  then have "user_count (UP_UserID policy) q' k = user_count (UP_UserID policy) q k"
    using assms by (intro user_count_cong) (auto simp: Enabled_def)
  then show ?thesis using assms(1) by (auto simp: admission_spec_def)
qed (simp add: admission_spec_def assms(1))

text \<open>Access to models, read directly off the two fields: without a mode a list restricts; an
  unknown mode admits nothing.\<close>

definition access_allows :: "string \<Rightarrow> string list \<Rightarrow> string \<Rightarrow> bool" where
  "access_allows mode allowed name =
     (let m = ToLower (TrimSpace mode); names = {TrimSpace a | a. a \<in> set allowed \<and> TrimSpace a \<noteq> []} in
      if m = ''inherit'' \<or> m = [] \<and> names = {} then True
      else if m = ''restricted'' \<or> m = [] then name \<in> names
      else False)"

lemma set_unique_loop: "set (unique_loop seen xs) = {TrimSpace a | a. a \<in> set xs \<and> TrimSpace a \<noteq> []} - set seen"
  by (induction xs arbitrary: seen) (auto simp: Let_def)

lemma AllowedModelSet_unique: "AllowedModelSet (sort (uniqueStrings xs)) name \<longleftrightarrow> name \<in> {TrimSpace a | a. a \<in> set xs \<and> TrimSpace a \<noteq> []}"
  by (auto simp: AllowedModelSet_def uniqueStrings_def list_ex_iff set_unique_loop)

lemma hydrated_allows:
  "hydrated mode allowed = (m', a') \<Longrightarrow> (m' = ''restricted'' \<longrightarrow> AllowedModelSet a' name) \<longleftrightarrow> access_allows mode allowed name"
proof -
  assume "hydrated mode allowed = (m', a')"
  moreover have "uniqueStrings allowed = [] \<longleftrightarrow> {TrimSpace a | a. a \<in> set allowed \<and> TrimSpace a \<noteq> []} = {}"
    by (simp only: uniqueStrings_def set_unique_loop set_empty [symmetric] list.set(1) Diff_empty)
  moreover have "sort (uniqueStrings allowed) = [] \<longleftrightarrow> uniqueStrings allowed = []"
    by (metis length_0_conv length_sort)
  moreover have "\<not> AllowedModelSet [] name" by (simp add: AllowedModelSet_def)
  ultimately show ?thesis
    using AllowedModelSet_unique [of allowed name]
    by (auto simp: hydrated_def normalizeModelAccess_def Let_def access_allows_def split: if_splits)
qed


lemma modelAllowedByScopes_iff:
  "modelAllowedByScopes project key name \<longleftrightarrow>
     access_allows (Pr_ModelAccessMode project) (Pr_AllowedModels project) name \<and>
     access_allows (K_ModelAccessMode key) (K_Allowed key) name"
proof -
  obtain pm pa km ka where p: "hydrated (Pr_ModelAccessMode project) (Pr_AllowedModels project) = (pm, pa)"
    and k: "hydrated (K_ModelAccessMode key) (K_Allowed key) = (km, ka)"
    by (meson surj_pair)
  show ?thesis
    unfolding hydrated_allows [OF p, symmetric] hydrated_allows [OF k, symmetric]
    by (simp add: modelAllowedByScopes_def hydrateProject_def hydrateAPIKey_def p k Let_def)
qed

text \<open>Hydrating twice is hydrating once, so the rights of a stored key are those of its fields.\<close>

lemma access_hydrated: "hydrated mode allowed = (m', a') \<Longrightarrow> access_allows m' a' name \<longleftrightarrow> access_allows mode allowed name"
proof -
  assume h: "hydrated mode allowed = (m', a')"
  then have m: "m' = ''restricted'' \<or> m' = ''inherit''"
    by (auto simp: hydrated_def normalizeModelAccess_def Let_def split: if_splits)
  have t: "TrimSpace ''restricted'' = ''restricted''" "TrimSpace ''inherit'' = ''inherit''" by code_simp+
  have l: "ToLower ''restricted'' = ''restricted''" "ToLower ''inherit'' = ''inherit''" by code_simp+
  have "access_allows m' a' name \<longleftrightarrow> (m' = ''restricted'' \<longrightarrow> AllowedModelSet a' name)"
    using m by (auto simp: access_allows_def t l AllowedModelSet_def list_ex_iff)
  then show ?thesis using hydrated_allows [OF h] by simp
qed

definition may_call :: "instant \<Rightarrow> APIKey \<Rightarrow> Project \<Rightarrow> string \<Rightarrow> catalog_model list \<Rightarrow> bool" where
  "may_call now key project name models \<longleftrightarrow>
     Pr_ID project = K_ProjectID key \<and> Pr_Status project = ''active'' \<and> K_Status key \<noteq> ''disabled'' \<and>
     (K_Status key = ''revoked'' \<longrightarrow> (\<exists>t. K_GraceUntil key = Some t \<and> now < t)) \<and>
     (\<forall>t. K_ExpiresAt key = Some t \<longrightarrow> now \<le> t) \<and>
     (\<exists>model \<in> set models. CM_Name model = name \<and> CM_Status model = ''active'') \<and>
     access_allows (Pr_ModelAccessMode project) (Pr_AllowedModels project) name \<and>
     access_allows (K_ModelAccessMode key) (K_Allowed key) name"

lemma hydrate_simps [simp]:
  "K_ID (hydrateAPIKey key) = K_ID key" "K_ProjectID (hydrateAPIKey key) = K_ProjectID key"
  "K_Status (hydrateAPIKey key) = K_Status key" "K_GraceUntil (hydrateAPIKey key) = K_GraceUntil key"
  "K_ExpiresAt (hydrateAPIKey key) = K_ExpiresAt key" "Pr_ID (hydrateProject project) = Pr_ID project"
  "Pr_Status (hydrateProject project) = Pr_Status project"
  by (simp_all add: hydrateAPIKey_def hydrateProject_def split: prod.split)

lemma access_hydrate [simp]:
  "access_allows (K_ModelAccessMode (hydrateAPIKey key)) (K_Allowed (hydrateAPIKey key)) name \<longleftrightarrow>
   access_allows (K_ModelAccessMode key) (K_Allowed key) name"
  "access_allows (Pr_ModelAccessMode (hydrateProject project)) (Pr_AllowedModels (hydrateProject project)) name \<longleftrightarrow>
   access_allows (Pr_ModelAccessMode project) (Pr_AllowedModels project) name"
  by (simp_all add: hydrateAPIKey_def hydrateProject_def access_hydrated split: prod.split)

lemma find_set: "find P xs = Some x \<Longrightarrow> x \<in> set xs \<and> P x"
  by (induction xs) (auto split: if_splits)

lemma authorize_call_sound:
  assumes "authorize_call f now keyID name db = Inr (key, project)"
  obtains key0 project0 where "key0 \<in> set (gd_keys db)" "K_ID key0 = keyID" "key = hydrateAPIKey key0"
    "project0 \<in> set (bd_projects (gd_budget db))" "project = hydrateProject project0"
    "may_call now key0 project0 name (gd_models db)"
proof -
  from assms obtain key0 project0 where k: "find (\<lambda>k. K_ID k = keyID) (gd_keys db) = Some key0"
    and p: "find (\<lambda>p. Pr_ID p = K_ProjectID key0) (bd_projects (gd_budget db)) = Some project0"
    and kp: "key = hydrateAPIKey key0" "project = hydrateProject project0"
    by (auto simp: authorize_call_def rbind_eq_Inr_iff first_or_Inr Let_def split: if_split_asm)
  have "may_call now key0 project0 name (gd_models db)"
    using assms k p find_set [OF p]
    by (auto simp: authorize_call_def rbind_eq_Inr_iff first_or_Inr Let_def may_call_def modelAllowedByScopes_iff
        split: option.splits if_split_asm dest!: find_set)
  then show thesis using that find_set [OF k] find_set [OF p] kp by blast
qed

lemma admission_law:
  assumes "admitCallTransaction f env ck keyID name r rid db = Inr (call, db1)"
    and "authorize_call f (ck_host ck) keyID name db = Inr (key, project)"
    and "call_limits env key project db = (effective, scopes, policy)"
    and "currentQuotaPeriods f env (ck_db ck) db = Inr periods"
    and "fst (snd k) \<noteq> ''minute''" and "attribution k \<noteq> []"
  shows "count_of (gd_quota db1) k = admission_spec key policy r periods (gd_quota db) k"
  using assms(1)
proof (cases rule: admitCallTransaction_cases)
  case (admitted key' project' effective' scopes' policy' periods' minute userMinute q1 q2)
  with assms have eqs: "key' = key" "policy' = policy" "periods' = periods" by auto
  have "count_of q1 k = count_of (gd_quota db) k"
    using touchesD [OF consume_minutes_touches [OF admitted(4)] assms(6)] assms(5) by (auto simp: minute_keys_def)
  then have "admission_spec key policy r periods q1 k = admission_spec key policy r periods (gd_quota db) k"
    using consume_minutes_history [OF admitted(4) assms(5)] by (rule admission_spec_cong)
  then show ?thesis
    using count_call_law [OF admitted(5) call_limits_user(2) [OF admitted(2)] assms(6)] capture_quota [OF admitted(7)] eqs by simp
qed

definition plain_key :: APIKey where
  "plain_key = \<lparr>K_ID = ''k'', K_ProjectID = ''p'', K_OwnerUserID = ''u'', K_Limits = zero_QuotaLimits\<lparr>L_DailyRequests := 2\<rparr>,
     K_RateLimitRPM = None, K_TokenLimitTPM = None, K_Status = ''active'', K_ExpiresAt = None, K_GraceUntil = None,
     K_ModelAccessMode = ''restricted'', K_Allowed = [''m''], K_Metadata = Map.empty\<rparr>"

definition user_policy :: AdminResource where
  "user_policy = \<lparr>AR_ID = ''q'', AR_Kind = ''quota-policies'', AR_Status = ''active'',
     AR_Fields = [''scope'' \<mapsto> VString ''user'', ''scope_id'' \<mapsto> VString ''u'', ''daily_tokens'' \<mapsto> VInt 100]\<rparr>"

definition admission_db :: gateway_db where
  "admission_db = \<lparr>gd_quota = \<lparr>qd_buckets = [], qd_leases = []\<rparr>,
     gd_budget = \<lparr>bd_resources = [user_policy], bd_usage = [], bd_projects = [quiet_project]\<rparr>,
     gd_keys = [plain_key], gd_models = [\<lparr>CM_Name = ''m'', CM_Status = ''active''\<rparr>], gd_entries = [], gd_logs = [],
     gd_alerts = [], gd_observations = [], gd_resource_observations = []\<rparr>"

definition plain_env :: environment where
  "plain_env = \<lparr>env_sprint = (\<lambda>_. []), env_zones = (\<lambda>_. None), env_group = (\<lambda>_. []), env_leaseTTL = 0\<rparr>"

definition plain_clock :: admission_clock where
  "plain_clock = \<lparr>ck_host = 0, ck_db = 0, ck_lease = (0, 0), ck_user_lease = (0, 0)\<rparr>"

abbreviation sample_admission :: "store_error + (CallContext \<times> gateway_db)" where
  "sample_admission \<equiv> admitCallTransaction (\<lambda>_. None) plain_env plain_clock ''k'' ''m'' 7 ''r'' admission_db"

lemma sample_admitted: "\<not> isl sample_admission"
  by code_simp

lemma sample_policy:
  "case authorize_call (\<lambda>_. None) 0 ''k'' ''m'' admission_db of
     Inl _ \<Rightarrow> False
   | Inr (key, project) \<Rightarrow>
       (case call_limits plain_env key project admission_db of
          (effective, scopes, policy) \<Rightarrow> K_ID key = ''k'' \<and> Enabled policy \<and> UP_UserID policy = ''u'')"
  by code_simp

lemma sample_periods: "currentQuotaPeriods (\<lambda>_. None) plain_env 0 admission_db = Inr \<lparr>QP_Day = ''1970-01-01'', QP_Month = ''1970-01''\<rparr>"
  by code_simp

lemma sample_context:
  obtains key project effective scopes policy where
    "authorize_call (\<lambda>_. None) (ck_host plain_clock) ''k'' ''m'' admission_db = Inr (key, project)"
    "call_limits plain_env key project admission_db = (effective, scopes, policy)"
    "K_ID key = ''k''" "Enabled policy" "UP_UserID policy = ''u''"
    "currentQuotaPeriods (\<lambda>_. None) plain_env (ck_db plain_clock) admission_db = Inr \<lparr>QP_Day = ''1970-01-01'', QP_Month = ''1970-01''\<rparr>"
  using sample_policy sample_periods by (auto simp: plain_clock_def split: sum.splits prod.splits)

lemma sample_admission_cases: obtains call db1 where "sample_admission = Inr (call, db1)"
  using sample_admitted by (cases sample_admission) auto

section \<open>Properties\<close>

text \<open>(C10) A call is admitted only for a stored key of an active project that is neither disabled,
  revoked beyond its grace period nor expired, for an active model that both the project and the key
  may use, with the counters of the key's day and month below every day and month limit that applies to
  it, those of its user with room for the reservation, and no exhausted budget. The minute and concurrency
  limits, checked in the same transaction, have their bounds in \<open>QuotaStore\<close>.\<close>

theorem admission_safe:
  assumes "admitCallTransaction f env ck keyID name r rid db = Inr (call, db1)"
  shows "\<exists>key project effective scopes policy periods.
    key \<in> set (gd_keys db) \<and> K_ID key = keyID \<and> project \<in> set (bd_projects (gd_budget db)) \<and>
    may_call (ck_host ck) key project name (gd_models db) \<and>
    call_limits env (hydrateAPIKey key) (hydrateProject project) db = (effective, scopes, policy) \<and>
    currentQuotaPeriods f env (ck_db ck) db = Inr periods \<and>
    \<not> over_quota effective (count_of (gd_quota db) (fst (key_period key periods))) (count_of (gd_quota db) (snd (key_period key periods))) \<and>
    (Enabled policy \<longrightarrow>
       exceededQuotaLimitWithReservation (UP_Limits policy)
         (user_count (UP_UserID policy) (gd_quota db) (fst (user_period policy periods)))
         (user_count (UP_UserID policy) (gd_quota db) (snd (user_period policy periods))) r = []) \<and>
    checkRuntimeBudget f (env_group env) (env_sprint env) (ck_host ck) (hydrateProject project) (ck_db ck) (gd_budget db) = Inr ()"
  using assms
proof (cases rule: admitCallTransaction_cases)
  case (admitted key project effective scopes policy periods minute userMinute q1 q2)
  let ?u = "UP_UserID policy"
  have same: "count_of q1 k = count_of (gd_quota db) k" if "attribution k \<noteq> []" "fst (snd k) \<noteq> ''minute''" for k
    using touchesD [OF consume_minutes_touches [OF admitted(4)] that(1)] that(2) by (auto simp: minute_keys_def)
  have hist: "user_count ?u q1 k = user_count ?u (gd_quota db) k"
    if "Enabled policy" "attribution k \<noteq> []" "fst (snd k) \<noteq> ''minute''" for k
    using same [OF that(2,3)] consume_minutes_history [OF admitted(4) that(3)] that(1)
    by (intro user_count_cong) (auto simp: Enabled_def)
  from admitted(1) obtain key0 project0 where a: "key0 \<in> set (gd_keys db)" "K_ID key0 = keyID" "key = hydrateAPIKey key0"
    "project0 \<in> set (bd_projects (gd_budget db))" "project = hydrateProject project0"
    "may_call (ck_host ck) key0 project0 name (gd_models db)"
    by (rule authorize_call_sound)
  have sc: "fst (snd (fst (period_keys i u p))) \<noteq> ''minute''" "fst (snd (snd (period_keys i u p))) \<noteq> ''minute''" for i u p
    by (simp_all add: period_keys_def)
  from admitted(5) show ?thesis
  proof (cases rule: count_call_cases)
    case (rows day month userDay userMonth q5 q6 q7)
    have "\<not> over_quota effective (count_of (gd_quota db) (fst (key_period key periods))) (count_of (gd_quota db) (snd (key_period key periods)))"
      using rows(1-4,9) sc by (simp add: same exceeded_iff_over_quota [of effective scopes, symmetric])
    moreover have "exceededQuotaLimitWithReservation (UP_Limits policy) (user_count ?u (gd_quota db) (fst (user_period policy periods)))
         (user_count ?u (gd_quota db) (snd (user_period policy periods))) r = []"
      if "Enabled policy"
      using rows(5) [OF that] rows(6) [OF that call_limits_user(2) [OF admitted(2) that]] rows(8) [OF that] sc by (simp add: hist that)
    ultimately show ?thesis using a admitted(2,3) rows(10)
      by (intro exI [of _ key0] exI [of _ project0] exI [of _ effective] exI [of _ scopes] exI [of _ policy] exI [of _ periods]) simp
  qed
qed

theorem admission_safe_witness:
  "\<exists>call db1 key project. sample_admission = Inr (call, db1) \<and> key \<in> set (gd_keys admission_db) \<and> K_ID key = ''k'' \<and>
     may_call 0 key project ''m'' (gd_models admission_db)"
proof -
  obtain call db1 where a: "sample_admission = Inr (call, db1)" by (rule sample_admission_cases)
  from admission_safe [OF a] a show ?thesis by (auto simp: plain_clock_def)
qed

text \<open>(C13) Admission refines its specification: every day and month counter, and every other counter
  that is not a minute counter, becomes what \<open>admission_spec\<close> says. The key's two counters gain
  one request, the two counters of its user are raised to the history of the user's keys and gain one
  request and the reserved tokens, and no other counter changes.\<close>

theorem admission_refines:
  assumes "admitCallTransaction f env ck keyID name r rid db = Inr (call, db1)"
    and "authorize_call f (ck_host ck) keyID name db = Inr (key, project)"
    and "call_limits env key project db = (effective, scopes, policy)"
    and "currentQuotaPeriods f env (ck_db ck) db = Inr periods"
    and "fst (snd k) \<noteq> ''minute''" and "attribution k \<noteq> []"
  shows "count_of (gd_quota db1) k = admission_spec key policy r periods (gd_quota db) k"
  by (rule admission_law [OF assms])

theorem admission_refines_witness:
  "\<exists>call db1. sample_admission = Inr (call, db1) \<and>
     N_Requests (count_of (gd_quota db1) (''k'', ''day'', ''1970-01-01'', unattributedQuotaUserID)) = 1 \<and>
     N_TotalTokens (count_of (gd_quota db1) (''user:u'', ''day'', ''1970-01-01'', ''u'')) = 7"
proof -
  obtain call db1 where a: "sample_admission = Inr (call, db1)" by (rule sample_admission_cases)
  obtain key project effective scopes policy
    where au: "authorize_call (\<lambda>_. None) (ck_host plain_clock) ''k'' ''m'' admission_db = Inr (key, project)"
      and cl: "call_limits plain_env key project admission_db = (effective, scopes, policy)"
      and p: "K_ID key = ''k''" "Enabled policy" "UP_UserID policy = ''u''"
      and per: "currentQuotaPeriods (\<lambda>_. None) plain_env (ck_db plain_clock) admission_db = Inr \<lparr>QP_Day = ''1970-01-01'', QP_Month = ''1970-01''\<rparr>"
    by (rule sample_context)
  note spec = admission_refines [OF a au cl per]
  have t: "TrimSpace ''u'' = ''u''" by code_simp
  have q: "quotaAttributionKey [] = unattributedQuotaUserID" "quotaAttributionKey ''u'' = ''u''" "userQuotaBucketKey ''u'' = ''user:u''"
    by (simp_all add: quotaAttributionKey_def userQuotaBucketKey_def t)
  have "''u'' \<noteq> unattributedQuotaUserID" by (simp add: unattributedQuotaUserID_def)
  then have "N_Requests (count_of (gd_quota db1) (''k'', ''day'', ''1970-01-01'', unattributedQuotaUserID)) = 1"
    "N_TotalTokens (count_of (gd_quota db1) (''user:u'', ''day'', ''1970-01-01'', ''u'')) = 7"
    by (subst spec, simp, simp,
        simp add: admission_spec_def period_keys_def p q user_count_def count_of_def history_rows_def total_counter_def
          mergeQuotaCounterMax_def admission_db_def zero_QuotaCounter_def wrap64_def saturatingAddNonNegative_def max_int64_def)+
  with a show ?thesis by blast
qed

end
