(* ===== verification/CallSettlement.thy ===== *)
theory CallSettlement
  imports CallAdmission
begin

text \<open>
  Settlement of a call (\<open>FinishCall\<close> and \<open>finishCallTransaction\<close> in
  \<open>store_routing_calls.go\<close>, \<open>admission_settlement.go\<close>, the alerts in \<open>store_backup_quota.go\<close>,
  \<open>usage_record.go\<close>): one transaction replaces the reservation of an admission by what was used, records
  the usage and the log row of the request, and releases its leases. The usage is already priced. Of a
  log row, an alert, an observation and a usage record the model keeps the columns other code here
  reads or that identify the call; the payload of the shadow settlement is not kept.
\<close>

section \<open>Data\<close>

record RetrievalUsageEvidence =
  RE_Unit :: string
  RE_Quantity :: "int64 option"
  RE_Source :: string

record reported_usage =
  RU_Tokens :: Usage
  RU_CostUSD :: f64
  RU_ProviderCostUSD :: f64
  RU_RateLimitTokens :: int64
  RU_RetrievalEvidence :: "RetrievalUsageEvidence option"
  RU_AudioDurationSeconds :: "f64 option"
  RU_AudioDurationSource :: string
  RU_AudioDurationUnit :: string
  RU_DocumentCount :: int
  RU_HasResponseHeaders :: bool
  RU_UpstreamRequestID :: string
  RU_ServedModel :: string

record RouteSelection =
  RS_ProviderID :: string
  RS_ProviderType :: string
  RS_Resource :: "string option"
  RS_RouteResourceID :: string

section \<open>What a call used\<close>

definition retrievalTokenQuantityUnknown :: "reported_usage \<Rightarrow> bool" where
  "retrievalTokenQuantityUnknown usage =
     (case RU_RetrievalEvidence usage of
        None \<Rightarrow> False
      | Some e \<Rightarrow> (RE_Unit e \<noteq> ''token'' \<or> RE_Quantity e = None \<or> RE_Source e = ''invalid'') \<and> meteredTokens (RU_Tokens usage) = 0)"

definition quotaActualTokens :: "CallContext \<Rightarrow> reported_usage \<Rightarrow> int64" where
  "quotaActualTokens call usage =
     (let providerTokens = meteredTokens (RU_Tokens usage);
          a0 = RU_RateLimitTokens usage;
          a1 = (if a0 \<le> 0 then providerTokens else a0);
          a2 = (if C_StreamOutputCommitted call \<and> providerTokens = 0 \<and> a1 < C_ReservedTokens call then C_ReservedTokens call else a1)
      in if retrievalTokenQuantityUnknown usage \<and> a2 < C_ReservedTokens call then C_ReservedTokens call else a2)"

definition audioTranscriptionEndpoint :: "string list \<Rightarrow> bool" where
  "audioTranscriptionEndpoint endpoints =
     (case endpoints of
        [] \<Rightarrow> False
      | e # _ \<Rightarrow> e \<in> {''/audio/transcriptions'', ''/audio/translations'', ''audio/transcriptions'', ''audio/translations''})"

definition apiKeyPeriodUsage :: "CallContext \<Rightarrow> reported_usage \<Rightarrow> reported_usage" where
  "apiKeyPeriodUsage call usage =
     (if audioTranscriptionEndpoint [C_RouteProtocol call]
      then usage\<lparr>RU_Tokens := (RU_Tokens usage)\<lparr>TotalTokens := meteredTokens (RU_Tokens usage)\<rparr>\<rparr> else usage)"

definition audioDurationEvidence_reported :: "reported_usage \<Rightarrow> bool" where
  "audioDurationEvidence_reported usage \<longleftrightarrow>
     \<not> (RU_AudioDurationSeconds usage = None \<and> RU_AudioDurationSource usage = [] \<and>
        (RU_AudioDurationUnit usage = [] \<or> RU_AudioDurationUnit usage = ''token''))"

definition hasTranscriptionTokenUsage :: "CallContext \<Rightarrow> reported_usage \<Rightarrow> bool" where
  "hasTranscriptionTokenUsage call usage \<longleftrightarrow>
     audioTranscriptionEndpoint [C_RouteProtocol call] \<and> meteredTokens (RU_Tokens usage) > 0"

definition add_usage :: "QuotaBucket \<Rightarrow> reported_usage \<Rightarrow> QuotaBucket" where
  "add_usage row usage = row\<lparr>B_Counter := addUsage (B_Counter row) (RU_Tokens usage) (RU_CostUSD usage)\<rparr>"

section \<open>Alerts\<close>

definition f64_of_int64 :: "int64 \<Rightarrow> f64" where
  "f64_of_int64 x = f64_round (of_int x)"

definition quota_checks :: "QuotaLimits \<Rightarrow> QuotaCounter \<Rightarrow> QuotaCounter \<Rightarrow> (f64 \<times> f64 \<times> string) list" where
  "quota_checks limits day month =
     [(f64_of_int64 (L_DailyTokens limits), f64_of_int64 (N_TotalTokens day), ''daily_tokens_near_limit''),
      (f64_of_int64 (L_MonthlyTokens limits), f64_of_int64 (N_TotalTokens month), ''monthly_tokens_near_limit''),
      (L_DailyCostUSD limits, N_CostUSD day, ''daily_cost_near_limit''),
      (L_MonthlyCostUSD limits, N_CostUSD month, ''monthly_cost_near_limit'')]"

fun raise_alerts ::
  "store_faults \<Rightarrow> (string \<Rightarrow> AlertEvent) \<Rightarrow> (f64 \<times> f64 \<times> string) list \<Rightarrow> gateway_db \<Rightarrow> store_error + gateway_db" where
  "raise_alerts fault event [] db = Inr db"
| "raise_alerts fault event ((limit, current, code) # rest) db =
     (if f64_le limit (Fin 0) \<or> f64_less current limit then raise_alerts fault event rest db
      else rbind (db_call fault ''alert.create'') (\<lambda>_.
        raise_alerts fault event rest (db\<lparr>gd_alerts := gd_alerts db @ [event code]\<rparr>)))"

definition raiseQuotaAlerts ::
  "store_faults \<Rightarrow> APIKey \<Rightarrow> QuotaCounter \<Rightarrow> QuotaCounter \<Rightarrow> gateway_db \<Rightarrow> store_error + gateway_db" where
  "raiseQuotaAlerts fault key day month db =
     raise_alerts fault
       (\<lambda>code. \<lparr>Al_ScopeType = ''api_key'', Al_ScopeID = K_ID key, Al_Code = code, Al_ResourceID = K_ProjectID key\<rparr>)
       (quota_checks (K_Limits key) day month) db"

definition raiseUserQuotaAlerts ::
  "store_faults \<Rightarrow> string \<Rightarrow> QuotaCounter \<Rightarrow> QuotaCounter \<Rightarrow> QuotaLimits \<Rightarrow> gateway_db \<Rightarrow> store_error + gateway_db" where
  "raiseUserQuotaAlerts fault resourceID day month limits db =
     raise_alerts fault
       (\<lambda>code. \<lparr>Al_ScopeType = ''user'', Al_ScopeID = ''aggregate'', Al_Code = code, Al_ResourceID = resourceID\<rparr>)
       (quota_checks limits day month) db"

section \<open>Settlement\<close>

definition addAttributedQuotaUsage ::
  "store_faults \<Rightarrow> string \<Rightarrow> string \<Rightarrow> string \<Rightarrow> string \<Rightarrow> reported_usage \<Rightarrow> quota_db \<Rightarrow> store_error + quota_db" where
  "addAttributedQuotaUsage fault keyID scope bucket userID0 usage q =
     (let userID = TrimSpace userID0 in
      if userID = [] \<or> prefix ''user:'' keyID then Inr q
      else rbind (quotaBucketForUpdate fault keyID scope bucket userID q) (\<lambda>(item, q1).
             save_bucket fault (add_usage (count_request item) usage) q1))"

definition reconcileAPIKeyMinuteTokens :: "store_faults \<Rightarrow> CallContext \<Rightarrow> int64 \<Rightarrow> quota_db \<Rightarrow> store_error + quota_db" where
  "reconcileAPIKeyMinuteTokens fault call actual q =
     reconcileQuotaMinuteTokens fault (K_ID (C_Key call)) (C_TokenLimitBucket call) (C_ReservedTokens call) actual [] q"

definition call_user :: "CallContext \<Rightarrow> string" where
  "call_user call =
     (let u = TrimSpace (C_AttributedUserID call)
      in if u = [] then usageAttributionUserID (C_Key call) (C_Project call) else u)"

definition refund_row :: "int64 \<Rightarrow> QuotaBucket \<Rightarrow> QuotaBucket" where
  "refund_row reservation row = row\<lparr>B_Counter := refundQuotaReservation (B_Counter row) reservation\<rparr>"

text \<open>The key's rows of the day and the month, then the rows of its user under the key.\<close>

definition settle_key_rows ::
  "store_faults \<Rightarrow> CallContext \<Rightarrow> reported_usage \<Rightarrow> reported_usage \<Rightarrow> quotaPeriods \<Rightarrow> quota_db \<Rightarrow>
   store_error + (QuotaBucket \<times> QuotaBucket \<times> quota_db)" where
  "settle_key_rows fault call usage quotaUsage periods q =
     (let keyID = K_ID (C_Key call) in
      rbind (quotaBucketForUpdate fault keyID ''day'' (QP_Day periods) [] q) (\<lambda>(day0, q1).
      rbind (quotaBucketForUpdate fault keyID ''month'' (QP_Month periods) [] q1) (\<lambda>(month0, q2).
      let day = add_usage day0 (apiKeyPeriodUsage call usage); month = add_usage month0 (apiKeyPeriodUsage call usage) in
      rbind (save_bucket fault day q2) (\<lambda>q3.
      rbind (save_bucket fault month q3) (\<lambda>q4.
      rbind (addAttributedQuotaUsage fault keyID ''day'' (QP_Day periods) (call_user call) quotaUsage q4) (\<lambda>q5.
      rbind (addAttributedQuotaUsage fault keyID ''month'' (QP_Month periods) (call_user call) quotaUsage q5) (\<lambda>q6.
        Inr (day, month, q6))))))))"

text \<open>The aggregate rows of the user: the reservation out, the usage in.\<close>

definition settle_user_rows ::
  "store_faults \<Rightarrow> CallContext \<Rightarrow> reported_usage \<Rightarrow> quotaPeriods \<Rightarrow> quota_db \<Rightarrow> store_error + (QuotaBucket \<times> QuotaBucket \<times> quota_db)" where
  "settle_user_rows fault call quotaUsage periods q =
     rbind (quotaBucketForUpdate fault (C_UserQuotaID call) ''day'' (QP_Day periods) (call_user call) q) (\<lambda>(day0, q1).
     rbind (quotaBucketForUpdate fault (C_UserQuotaID call) ''month'' (QP_Month periods) (call_user call) q1) (\<lambda>(month0, q2).
     let day = add_usage (refund_row (C_ReservedTokens call) day0) quotaUsage;
         month = add_usage (refund_row (C_ReservedTokens call) month0) quotaUsage in
     rbind (save_bucket fault day q2) (\<lambda>q3.
     rbind (save_bucket fault month q3) (\<lambda>q4. Inr (day, month, q4)))))"

definition settle_minutes :: "store_faults \<Rightarrow> CallContext \<Rightarrow> int64 \<Rightarrow> quota_db \<Rightarrow> store_error + quota_db" where
  "settle_minutes fault call actual q =
     rbind (reconcileAPIKeyMinuteTokens fault call actual q) (\<lambda>q1.
       if C_UserQuotaEnabled call
       then reconcileQuotaMinuteTokens fault (C_UserQuotaID call) (C_UserTokenLimitBucket call) (C_ReservedTokens call) actual (call_user call) q1
       else Inr q1)"

definition alert_key ::
  "store_faults \<Rightarrow> APIKey option \<Rightarrow> QuotaCounter \<Rightarrow> QuotaCounter \<Rightarrow> gateway_db \<Rightarrow> store_error + gateway_db" where
  "alert_key fault liveKey day month db =
     (case liveKey of None \<Rightarrow> Inr db | Some key \<Rightarrow> raiseQuotaAlerts fault key day month db)"

definition settle_user ::
  "store_faults \<Rightarrow> CallContext \<Rightarrow> reported_usage \<Rightarrow> quotaPeriods \<Rightarrow> gateway_db \<Rightarrow> store_error + gateway_db" where
  "settle_user fault call quotaUsage periods db =
     (if C_UserQuotaEnabled call
      then rbind (settle_user_rows fault call quotaUsage periods (gd_quota db)) (\<lambda>(userDay, userMonth, q).
             raiseUserQuotaAlerts fault (Pr_ID (C_Project call)) (B_Counter userDay) (B_Counter userMonth) (C_UserQuotaLimits call)
               (db\<lparr>gd_quota := q\<rparr>))
      else Inr db)"

text \<open>The quota part, run for calls that have a key.\<close>

definition settle_quota ::
  "store_faults \<Rightarrow> CallContext \<Rightarrow> reported_usage \<Rightarrow> instant \<Rightarrow> gateway_db \<Rightarrow> store_error + gateway_db" where
  "settle_quota fault call usage admittedAt db =
     rbind (db_call fault ''key.first'') (\<lambda>_.
     let liveKey = find (\<lambda>k. K_ID k = K_ID (C_Key call)) (gd_keys db);
         actual = quotaActualTokens call usage;
         quotaUsage = usage\<lparr>RU_Tokens := (RU_Tokens usage)\<lparr>TotalTokens := actual\<rparr>\<rparr> in
     rbind (settle_minutes fault call actual (gd_quota db)) (\<lambda>q1.
     rbind (admittedQuotaPeriods fault (C_RequestID call) admittedAt db) (\<lambda>periods.
     rbind (settle_key_rows fault call usage quotaUsage periods q1) (\<lambda>(day, month, q2).
     rbind (alert_key fault liveKey (B_Counter day) (B_Counter month) (db\<lparr>gd_quota := q2\<rparr>)) (\<lambda>db1.
       settle_user fault call quotaUsage periods db1)))))"

definition newUsageRecord :: "CallContext \<Rightarrow> reported_usage \<Rightarrow> instant \<Rightarrow> UsageRecord" where
  "newUsageRecord call usage createdAt =
     \<lparr>UR_ProjectID = Pr_ID (C_Project call), UR_CostUSD = RU_CostUSD usage, UR_CreatedAt = createdAt\<rparr>"

definition record_usage :: "store_faults \<Rightarrow> CallContext \<Rightarrow> reported_usage \<Rightarrow> instant \<Rightarrow> gateway_db \<Rightarrow> store_error + gateway_db" where
  "record_usage fault call usage now db =
     (if TotalTokens (RU_Tokens usage) > 0 \<or> f64_less (Fin 0) (RU_CostUSD usage) \<or> f64_less (Fin 0) (RU_ProviderCostUSD usage) \<or>
         RU_RetrievalEvidence usage \<noteq> None \<or> audioDurationEvidence_reported usage \<or> RU_DocumentCount usage > 0 \<or>
         hasTranscriptionTokenUsage call usage
      then rbind (db_call fault ''usage.create'') (\<lambda>_.
        Inr (db\<lparr>gd_budget := (gd_budget db)\<lparr>bd_usage := bd_usage (gd_budget db) @ [newUsageRecord call usage now]\<rparr>\<rparr>))
      else Inr db)"

definition routeResourceID :: "RouteSelection \<Rightarrow> string" where
  "routeResourceID route = (case RS_Resource route of Some ident \<Rightarrow> ident | None \<Rightarrow> RS_RouteResourceID route)"

definition str_Contains :: "string \<Rightarrow> string \<Rightarrow> bool" where
  "str_Contains s sub = list_ex (prefix sub) (suffixes s)"

definition providerObservationSuccess :: "int \<Rightarrow> string \<Rightarrow> bool" where
  "providerObservationSuccess statusCode errorCode =
     (if statusCode \<ge> 200 \<and> statusCode < 400 then True
      else if statusCode \<ge> 400 \<and> statusCode < 500 \<and> statusCode \<noteq> 429
      then let code = ToLower (TrimSpace errorCode) in \<not> str_Contains code ''auth'' \<and> \<not> str_Contains code ''credential''
      else False)"

definition record_log ::
  "store_faults \<Rightarrow> CallContext \<Rightarrow> RouteSelection \<Rightarrow> int \<Rightarrow> string \<Rightarrow> instant \<Rightarrow> gateway_db \<Rightarrow> store_error + gateway_db" where
  "record_log fault call route statusCode errorCode now db =
     rbind (db_call fault ''log.create'') (\<lambda>_.
       Inr (db\<lparr>gd_logs := gd_logs db @
         [\<lparr>RL_RequestID = C_RequestID call, RL_ProjectID = Pr_ID (C_Project call), RL_APIKeyID = K_ID (C_Key call),
           RL_AttributedUserID = call_user call, RL_ModelName = C_ModelName call, RL_ProviderID = RS_ProviderID route,
           RL_ProviderResourceID = routeResourceID route, RL_StatusCode = statusCode, RL_ErrorCode = errorCode,
           RL_CreatedAt = now\<rparr>]\<rparr>))"

definition record_observations ::
  "store_faults \<Rightarrow> RouteSelection \<Rightarrow> reported_usage \<Rightarrow> int \<Rightarrow> string \<Rightarrow> instant \<Rightarrow> gateway_db \<Rightarrow> store_error + gateway_db" where
  "record_observations fault route usage statusCode errorCode now db =
     rbind (if RS_ProviderID route \<noteq> []
            then rbind (db_call fault ''observation.create'') (\<lambda>_. Inr (db\<lparr>gd_observations := gd_observations db @
                   [\<lparr>PO_ProviderID = RS_ProviderID route, PO_ResourceID = routeResourceID route, PO_AdapterType = RS_ProviderType route,
                     PO_Success = providerObservationSuccess statusCode errorCode, PO_ErrorCode = errorCode, PO_ObservedAt = now\<rparr>]\<rparr>))
            else Inr db) (\<lambda>db1.
     if routeResourceID route \<noteq> [] \<and>
        (RU_HasResponseHeaders usage \<or> RU_UpstreamRequestID usage \<noteq> [] \<or> RU_ServedModel usage \<noteq> [])
     then rbind (db_call fault ''resource_observation.upsert'') (\<lambda>_.
            Inr (db1\<lparr>gd_resource_observations :=
              filter (\<lambda>o'. RO_ResourceID o' \<noteq> routeResourceID route) (gd_resource_observations db1) @
              [\<lparr>RO_ResourceID = routeResourceID route, RO_AdapterType = RS_ProviderType route,
                RO_UpstreamRequestID = RU_UpstreamRequestID usage, RO_ServedModel = RU_ServedModel usage, RO_UpdatedAt = now\<rparr>]\<rparr>))
     else Inr db1)"

definition settleMeteringShadow :: "store_faults \<Rightarrow> CallContext \<Rightarrow> gateway_db \<Rightarrow> store_error + gateway_db" where
  "settleMeteringShadow fault call db =
     rbind (db_call fault ''metering.first'') (\<lambda>_.
       case map_of (gd_entries db) (C_RequestID call @ '':admission'') of
         None \<Rightarrow> Inr db
       | Some (Undecodable text) \<Rightarrow> Inl (Db text)
       | Some _ \<Rightarrow> saveMeteringEntry fault (C_RequestID call @ '':shadow'') ShadowSettlement db)"

definition release_request :: "store_faults \<Rightarrow> string \<Rightarrow> gateway_db \<Rightarrow> store_error + gateway_db" where
  "release_request fault requestID db =
     rbind (deleteRequestConcurrencyLeases fault requestID (gd_quota db)) (\<lambda>q. Inr (db\<lparr>gd_quota := q\<rparr>))"

definition finish_locks :: "store_faults \<Rightarrow> CallContext \<Rightarrow> store_error + unit" where
  "finish_locks fault call =
     rbind (if K_ID (C_Key call) \<noteq> [] then db_call fault ''lock.api_key'' else Inr ()) (\<lambda>_.
     rbind (if Pr_ID (C_Project call) \<noteq> [] then db_call fault ''lock.project'' else Inr ()) (\<lambda>_.
     if C_UserQuotaEnabled call then db_call fault ''lock.user_quota'' else Inr ()))"

definition settle_call ::
  "store_faults \<Rightarrow> CallContext \<Rightarrow> RouteSelection \<Rightarrow> reported_usage \<Rightarrow> int \<Rightarrow> string \<Rightarrow> instant \<Rightarrow> gateway_db \<Rightarrow> store_error + gateway_db" where
  "settle_call fault call route usage statusCode errorCode now db =
     rbind (finish_locks fault call) (\<lambda>_.
     rbind (if K_ID (C_Key call) \<noteq> []
            then settle_quota fault call usage (if C_StartedAt call = zero_time then now else C_StartedAt call) db
            else Inr db) (\<lambda>db1.
     rbind (record_usage fault call usage now db1) (\<lambda>db2.
     rbind (record_log fault call route statusCode errorCode now db2) (\<lambda>db3.
     rbind (record_observations fault route usage statusCode errorCode now db3) (\<lambda>db4.
     rbind (settleMeteringShadow fault call db4) (\<lambda>db5.
       release_request fault (C_RequestID call) db5))))))"

definition finishCallTransaction ::
  "store_faults \<Rightarrow> CallContext \<Rightarrow> RouteSelection \<Rightarrow> reported_usage \<Rightarrow> int \<Rightarrow> string \<Rightarrow> instant \<Rightarrow> gateway_db \<Rightarrow> store_error + gateway_db" where
  "finishCallTransaction fault call route usage statusCode errorCode now db =
     (if C_RequestID call \<noteq> []
      then rbind (db_call fault ''lock.request_settlement'') (\<lambda>_.
           rbind (db_call fault ''log.count'') (\<lambda>_.
             if list_ex (\<lambda>r. RL_RequestID r = C_RequestID call) (gd_logs db)
             then release_request fault (C_RequestID call) db
             else settle_call fault call route usage statusCode errorCode now db))
      else settle_call fault call route usage statusCode errorCode now db)"

text \<open>The wrapper: when the transaction fails its writes are undone and the leases are released
  outside it; \<open>retry\<close> gives the errors of those later calls.\<close>

definition FinishCall ::
  "store_faults \<Rightarrow> store_faults \<Rightarrow> CallContext \<Rightarrow> RouteSelection \<Rightarrow> reported_usage \<Rightarrow> int \<Rightarrow> string \<Rightarrow> instant \<Rightarrow> gateway_db \<Rightarrow> gateway_db" where
  "FinishCall fault retry call route usage statusCode errorCode now db =
     (case finishCallTransaction fault call route usage statusCode errorCode now db of
        Inr db1 \<Rightarrow> db1
      | Inl _ \<Rightarrow> (case release_request retry (C_RequestID call) db of Inr db1 \<Rightarrow> db1 | Inl _ \<Rightarrow> db))"

section \<open>What a settlement leaves behind\<close>

definition settled :: "string \<Rightarrow> gateway_db \<Rightarrow> bool" where
  "settled requestID db \<longleftrightarrow>
     list_ex (\<lambda>r. RL_RequestID r = requestID) (gd_logs db) \<and>
     (\<forall>l \<in> set (qd_leases (gd_quota db)). IL_ID l \<notin> set (requestConcurrencyLeaseIDs requestID))"

lemma record_observations_keeps:
  "record_observations f route usage st ec now db = Inr db1 \<Longrightarrow>
   gd_logs db1 = gd_logs db \<and> gd_quota db1 = gd_quota db \<and> gd_entries db1 = gd_entries db"
  by (auto simp: record_observations_def rbind_eq_Inr_iff split: if_splits)

lemma settleMeteringShadow_keeps:
  "settleMeteringShadow f call db = Inr db1 \<Longrightarrow> gd_logs db1 = gd_logs db \<and> gd_quota db1 = gd_quota db"
  by (auto simp: settleMeteringShadow_def saveMeteringEntry_def rbind_eq_Inr_iff split: option.splits metering_payload.splits if_splits)

lemma record_log_keeps:
  "record_log f call route st ec now db = Inr db1 \<Longrightarrow>
   gd_quota db1 = gd_quota db \<and> list_ex (\<lambda>r. RL_RequestID r = C_RequestID call) (gd_logs db1)"
  by (auto simp: record_log_def rbind_eq_Inr_iff)

lemma record_usage_keeps: "record_usage f call usage now db = Inr db1 \<Longrightarrow> gd_quota db1 = gd_quota db"
  by (auto simp: record_usage_def rbind_eq_Inr_iff split: if_splits)

lemma release_request_law:
  assumes "release_request f rid db = Inr db1"
  shows "gd_logs db1 = gd_logs db" and "qd_buckets (gd_quota db1) = qd_buckets (gd_quota db)"
    and "\<forall>l \<in> set (qd_leases (gd_quota db1)). IL_ID l \<notin> set (requestConcurrencyLeaseIDs rid)"
  using assms by (auto simp: release_request_def deleteRequestConcurrencyLeases_def Let_def rbind_eq_Inr_iff split: if_splits)

lemma release_settled: "settled rid db \<Longrightarrow> release_request f rid db = Inr db1 \<Longrightarrow> db1 = db"
  by (auto simp: settled_def release_request_def deleteRequestConcurrencyLeases_def Let_def rbind_eq_Inr_iff
      filter_True split: if_splits)

text \<open>The two halves of a settlement: the counters and alerts, then the records of the request.\<close>

lemma settle_call_cases:
  assumes "settle_call f call route usage st ec now db = Inr db'"
  obtains (settled) db1 db2 where
    "K_ID (C_Key call) \<noteq> [] \<Longrightarrow>
       settle_quota f call usage (if C_StartedAt call = zero_time then now else C_StartedAt call) db = Inr db1"
    "K_ID (C_Key call) = [] \<Longrightarrow> db1 = db"
    "gd_quota db2 = gd_quota db1" "list_ex (\<lambda>r. RL_RequestID r = C_RequestID call) (gd_logs db2)"
    "release_request f (C_RequestID call) db2 = Inr db'"
proof -
  from assms obtain db1 db2 db3 db4 db5
    where q: "(if K_ID (C_Key call) \<noteq> [] then settle_quota f call usage (if C_StartedAt call = zero_time then now else C_StartedAt call) db
        else Inr db) = Inr db1"
      and u: "record_usage f call usage now db1 = Inr db2" and l: "record_log f call route st ec now db2 = Inr db3"
      and ob: "record_observations f route usage st ec now db3 = Inr db4" and sh: "settleMeteringShadow f call db4 = Inr db5"
      and r: "release_request f (C_RequestID call) db5 = Inr db'"
    unfolding settle_call_def rbind_eq_Inr_iff by blast
  show thesis
    using q record_usage_keeps [OF u] record_log_keeps [OF l] record_observations_keeps [OF ob] settleMeteringShadow_keeps [OF sh] r
    by (intro settled [of db1 db5]) (auto split: if_splits)
qed

lemma finishCallTransaction_settled:
  assumes "finishCallTransaction f call route usage st ec now db = Inr db1" and "C_RequestID call \<noteq> []"
  shows "settled (C_RequestID call) db1"
proof (cases "list_ex (\<lambda>r. RL_RequestID r = C_RequestID call) (gd_logs db)")
  case True
  with assms have "release_request f (C_RequestID call) db = Inr db1"
    by (auto simp: finishCallTransaction_def rbind_eq_Inr_iff)
  from release_request_law [OF this] True show ?thesis by (simp add: settled_def)
next
  case False
  with assms have "settle_call f call route usage st ec now db = Inr db1"
    by (auto simp: finishCallTransaction_def rbind_eq_Inr_iff)
  then show ?thesis
  proof (cases rule: settle_call_cases)
    case (settled db1' db2)
    from release_request_law [OF settled(5)] settled(4) show ?thesis by (simp add: settled_def)
  qed
qed

lemma finish_when_settled:
  assumes "settled rid db" and "C_RequestID call = rid" and "rid \<noteq> []"
  shows "FinishCall f retry call route usage st ec now db = db"
proof -
  have "finishCallTransaction f call route usage st ec now db = Inr db1 \<Longrightarrow> db1 = db" for db1
    using assms release_settled [OF assms(1)]
    by (auto simp: finishCallTransaction_def rbind_eq_Inr_iff settled_def)
  moreover have "release_request retry rid db = Inr db1 \<Longrightarrow> db1 = db" for db1
    by (rule release_settled [OF assms(1)])
  ultimately show ?thesis using assms(2) by (auto simp: FinishCall_def split: sum.split)
qed

section \<open>The counters of a settlement\<close>

lemma reconcile_touches:
  assumes "reconcileQuotaMinuteTokens f ident bucket reserved actual user q = Inr q1"
  shows "touches (minute_keys ident) q q1"
proof (cases "bucket = [] \<or> reserved = 0 \<and> actual = 0")
  case False
  with assms obtain item qm where op: "quotaBucketForUpdate f ident ''minute'' bucket user q = Inr (item, qm)"
    and sv: "save_bucket f (item\<lparr>B_Counter := (B_Counter item)
      \<lparr>N_TotalTokens := reconciled_tokens (N_TotalTokens (B_Counter item)) reserved actual\<rparr>\<rparr>) qm = Inr q1"
    by (auto simp: reconcileQuotaMinuteTokens_def Let_def rbind_eq_Inr_iff)
  show ?thesis using qt.modify_row [OF op sv] by (auto intro!: touchesI)
qed (use assms in \<open>simp add: reconcileQuotaMinuteTokens_def\<close>)

lemma settle_minutes_touches:
  assumes "settle_minutes f call actual q = Inr q1"
  shows "touches (minute_keys (K_ID (C_Key call)) \<union> minute_keys (C_UserQuotaID call)) q q1"
proof -
  from assms obtain qa where a: "reconcileAPIKeyMinuteTokens f call actual q = Inr qa"
    and b: "(if C_UserQuotaEnabled call
       then reconcileQuotaMinuteTokens f (C_UserQuotaID call) (C_UserTokenLimitBucket call) (C_ReservedTokens call) actual (call_user call) qa
       else Inr qa) = Inr q1"
    unfolding settle_minutes_def rbind_eq_Inr_iff by blast
  have "touches (minute_keys (K_ID (C_Key call))) q qa"
    using a unfolding reconcileAPIKeyMinuteTokens_def by (rule reconcile_touches)
  moreover have "touches (minute_keys (C_UserQuotaID call)) qa q1"
    using b reconcile_touches by (auto split: if_splits)
  ultimately show ?thesis by (rule touches_trans)
qed

lemma row_key_usage [simp]: "row_key (add_usage row u) = row_key row" "row_key (refund_row r row) = row_key row"
  by (simp_all add: add_usage_def refund_row_def row_key_def)

definition charge :: "reported_usage \<Rightarrow> QuotaCounter \<Rightarrow> QuotaCounter" where
  "charge usage c = addUsage c (RU_Tokens usage) (RU_CostUSD usage)"

definition plus_request :: "QuotaCounter \<Rightarrow> QuotaCounter" where
  "plus_request c = c\<lparr>N_Requests := wrap64 (N_Requests c + 1)\<rparr>"

lemma add_usage_counter [simp]: "B_Counter (add_usage row u) = charge u (B_Counter row)"
  by (simp add: add_usage_def charge_def)

lemma add_attributed_law:
  assumes "addAttributedQuotaUsage f keyID scope bucket user usage q = Inr q1" and "attribution k \<noteq> []"
  shows "count_of q1 k =
    (if TrimSpace user \<noteq> [] \<and> \<not> prefix ''user:'' keyID \<and> k = (keyID, scope, bucket, quotaAttributionKey user)
     then charge usage (plus_request (count_of q k)) else count_of q k)"
proof (cases "TrimSpace user = [] \<or> prefix ''user:'' keyID")
  case False
  with assms(1) obtain item qm where op: "quotaBucketForUpdate f keyID scope bucket (TrimSpace user) q = Inr (item, qm)"
    and sv: "save_bucket f (add_usage (count_request item) usage) qm = Inr q1"
    by (auto simp: addAttributedQuotaUsage_def Let_def rbind_eq_Inr_iff)
  have upd: "add_usage (count_request item) usage = item\<lparr>B_Counter := charge usage (plus_request (B_Counter item))\<rparr>"
    by (simp add: add_usage_def count_request_def charge_def plus_request_def)
  have "quotaAttributionKey (TrimSpace user) = quotaAttributionKey user" by (simp add: quotaAttributionKey_def)
  then show ?thesis
    using False qt.modify_row [OF op sv [unfolded upd] assms(2)] qt.read_row [OF op] by auto
qed (use assms(1) in \<open>auto simp: addAttributedQuotaUsage_def Let_def\<close>)

lemma refund_row_counter [simp]: "B_Counter (refund_row r row) = refundQuotaReservation (B_Counter row) r"
  by (simp add: refund_row_def)

text \<open>Two rows opened together and saved with new counters.\<close>

lemma two_rows_law:
  assumes o1: "quotaBucketForUpdate f ident ''day'' (QP_Day periods) u q = Inr (day0, q1)"
    and o2: "quotaBucketForUpdate f ident ''month'' (QP_Month periods) u q1 = Inr (month0, q2)"
    and s1: "save_bucket f day q2 = Inr q3" "row_key day = row_key day0"
    and s2: "save_bucket f month q3 = Inr q4" "row_key month = row_key month0"
    and g: "B_Counter day = g (B_Counter day0)" "B_Counter month = g (B_Counter month0)"
    and k: "attribution k \<noteq> []"
  shows "count_of q4 k =
    (if k = fst (period_keys ident u periods) \<or> k = snd (period_keys ident u periods) then g (count_of q k) else count_of q k)"
    and "B_Counter day = g (count_of q (fst (period_keys ident u periods)))"
    and "B_Counter month = g (count_of q (snd (period_keys ident u periods)))"
proof -
  have key: "row_key day = fst (period_keys ident u periods)" "row_key month = snd (period_keys ident u periods)"
    using qt.open_key [OF o1] qt.open_key [OF o2] s1(2) s2(2) by (simp_all add: period_keys_def)
  show d: "B_Counter day = g (count_of q (fst (period_keys ident u periods)))"
    using g(1) qt.open_counter [OF o1] s1(2) key by simp
  show m: "B_Counter month = g (count_of q (snd (period_keys ident u periods)))"
    using g(2) qt.read_row [OF o2] touchesD [OF open_touches [OF o1], of "snd (period_keys ident u periods)"]
    by (simp add: period_keys_def)
  have "count_of q2 k = count_of q k"
    using touchesD [OF open_touches [OF o1] k] touchesD [OF open_touches [OF o2] k] by simp
  then show "count_of q4 k =
    (if k = fst (period_keys ident u periods) \<or> k = snd (period_keys ident u periods) then g (count_of q k) else count_of q k)"
    using qt.save_updates [OF s1(1) _ k] qt.save_updates [OF s2(1) _ k] key d m by auto
qed


definition quota_usage :: "CallContext \<Rightarrow> reported_usage \<Rightarrow> reported_usage" where
  "quota_usage call usage = usage\<lparr>RU_Tokens := (RU_Tokens usage)\<lparr>TotalTokens := quotaActualTokens call usage\<rparr>\<rparr>"

definition refunded :: "CallContext \<Rightarrow> QuotaCounter \<Rightarrow> QuotaCounter" where
  "refunded call c = refundQuotaReservation c (C_ReservedTokens call)"

text \<open>The counters of the periods after a settlement, from the counters before it: the key's own rows,
  the rows of the user under the key, and the aggregate rows of the user.\<close>

definition settlement_spec :: "CallContext \<Rightarrow> reported_usage \<Rightarrow> quotaPeriods \<Rightarrow> quota_db \<Rightarrow> counter_key \<Rightarrow> QuotaCounter" where
  "settlement_spec call usage periods q k =
     (let c = count_of q k; keyID = K_ID (C_Key call);
          is = (\<lambda>ks. k = fst ks \<or> k = snd ks) in
      if is (period_keys keyID [] periods) then charge (apiKeyPeriodUsage call usage) c
      else if C_UserQuotaEnabled call \<and> is (period_keys (C_UserQuotaID call) (call_user call) periods)
      then charge (quota_usage call usage) (refunded call c)
      else if call_user call \<noteq> [] \<and> \<not> prefix ''user:'' keyID \<and> is (period_keys keyID (call_user call) periods)
      then charge (quota_usage call usage) (plus_request c)
      else c)"

lemma call_user_trim [simp]: "TrimSpace (call_user call) = call_user call"
  by (simp add: call_user_def Let_def)

text \<open>What makes the three groups of rows different: the user is not the marker of unattributed rows,
  and aggregate rows carry the prefix of users.\<close>

definition context_ok :: "CallContext \<Rightarrow> bool" where
  "context_ok call \<longleftrightarrow> call_user call \<noteq> unattributedQuotaUserID \<and>
     (C_UserQuotaEnabled call \<longrightarrow> call_user call \<noteq> [] \<and> prefix ''user:'' (C_UserQuotaID call))"

lemma settle_key_rows_law:
  assumes "settle_key_rows f call usage qu periods q = Inr (day, month, q6)" and "attribution k \<noteq> []"
    and "call_user call \<noteq> unattributedQuotaUserID"
  shows "count_of q6 k =
    (if k = fst (key_period (C_Key call) periods) \<or> k = snd (key_period (C_Key call) periods)
     then charge (apiKeyPeriodUsage call usage) (count_of q k)
     else if call_user call \<noteq> [] \<and> \<not> prefix ''user:'' (K_ID (C_Key call)) \<and>
        (k = fst (period_keys (K_ID (C_Key call)) (call_user call) periods) \<or> k = snd (period_keys (K_ID (C_Key call)) (call_user call) periods))
     then charge qu (plus_request (count_of q k)) else count_of q k)"
proof -
  let ?id = "K_ID (C_Key call)"
  from assms(1) obtain day0 month0 q1 q2 q3 q4 q5
    where o: "quotaBucketForUpdate f ?id ''day'' (QP_Day periods) [] q = Inr (day0, q1)"
        "quotaBucketForUpdate f ?id ''month'' (QP_Month periods) [] q1 = Inr (month0, q2)"
      and s: "save_bucket f (add_usage day0 (apiKeyPeriodUsage call usage)) q2 = Inr q3"
        "save_bucket f (add_usage month0 (apiKeyPeriodUsage call usage)) q3 = Inr q4"
      and a: "addAttributedQuotaUsage f ?id ''day'' (QP_Day periods) (call_user call) qu q4 = Inr q5"
        "addAttributedQuotaUsage f ?id ''month'' (QP_Month periods) (call_user call) qu q5 = Inr q6"
    by (auto simp: settle_key_rows_def Let_def rbind_eq_Inr_iff)
  have four: "count_of q4 k = (if k = fst (key_period (C_Key call) periods) \<or> k = snd (key_period (C_Key call) periods)
      then charge (apiKeyPeriodUsage call usage) (count_of q k) else count_of q k)"
    by (rule two_rows_law(1) [OF o s(1) _ s(2) _ _ _ assms(2), where g = "charge (apiKeyPeriodUsage call usage)"]) simp_all
  define ks where "ks = period_keys ?id (call_user call) periods"
  let ?on = "call_user call \<noteq> [] \<and> \<not> prefix ''user:'' ?id"
  have five: "count_of q5 k = (if ?on \<and> k = fst ks then charge qu (plus_request (count_of q4 k)) else count_of q4 k)"
    using add_attributed_law [OF a(1) assms(2)] by (simp add: ks_def period_keys_def)
  have six: "count_of q6 k = (if ?on \<and> k = snd ks then charge qu (plus_request (count_of q5 k)) else count_of q5 k)"
    using add_attributed_law [OF a(2) assms(2)] by (simp add: ks_def period_keys_def)
  have ne: "fst ks \<noteq> snd ks" by (simp add: ks_def period_keys_distinct)
  have no: "k \<noteq> fst (key_period (C_Key call) periods) \<and> k \<noteq> snd (key_period (C_Key call) periods)"
    if "?on" "k = fst ks \<or> k = snd ks"
    using that assms(3) by (auto simp: ks_def period_keys_def quotaAttributionKey_def)
  show ?thesis
  proof (cases "?on \<and> (k = fst ks \<or> k = snd ks)")
    case True
    then have on: "?on" and kk: "k = fst ks \<or> k = snd ks" by simp_all
    have "count_of q4 k = count_of q k" using four no [OF on kk] by simp
    then show ?thesis unfolding ks_def [symmetric] using kk ne on no [OF on kk] six five by auto
  next
    case False
    then show ?thesis unfolding ks_def [symmetric] using four five six by auto
  qed
qed

lemma settle_user_rows_law:
  assumes "settle_user_rows f call qu periods q = Inr (day, month, q4)" and "attribution k \<noteq> []"
  shows "count_of q4 k =
    (if k = fst (period_keys (C_UserQuotaID call) (call_user call) periods) \<or> k = snd (period_keys (C_UserQuotaID call) (call_user call) periods)
     then charge qu (refunded call (count_of q k)) else count_of q k)"
proof -
  from assms(1) obtain day0 month0 q1 q2 q3
    where o: "quotaBucketForUpdate f (C_UserQuotaID call) ''day'' (QP_Day periods) (call_user call) q = Inr (day0, q1)"
        "quotaBucketForUpdate f (C_UserQuotaID call) ''month'' (QP_Month periods) (call_user call) q1 = Inr (month0, q2)"
      and s: "save_bucket f (add_usage (refund_row (C_ReservedTokens call) day0) qu) q2 = Inr q3"
        "save_bucket f (add_usage (refund_row (C_ReservedTokens call) month0) qu) q3 = Inr q4"
    by (auto simp: settle_user_rows_def Let_def rbind_eq_Inr_iff)
  show ?thesis
    by (rule two_rows_law(1) [OF o s(1) _ s(2) _ _ _ assms(2), where g = "\<lambda>c. charge qu (refunded call c)"])
      (simp_all add: refunded_def)
qed

lemma raise_alerts_quota: "raise_alerts f ev checks db = Inr db1 \<Longrightarrow> gd_quota db1 = gd_quota db"
  by (induction f ev checks db rule: raise_alerts.induct) (auto simp: rbind_eq_Inr_iff split: if_splits)

lemma settle_quota_law:
  assumes "settle_quota f call usage t db = Inr db1" and "context_ok call"
  obtains periods where "admittedQuotaPeriods f (C_RequestID call) t db = Inr periods"
    "\<And>k. attribution k \<noteq> [] \<Longrightarrow> fst (snd k) \<noteq> ''minute'' \<Longrightarrow>
       count_of (gd_quota db1) k = settlement_spec call usage periods (gd_quota db) k"
proof -
  let ?qu = "quota_usage call usage" and ?key = "K_ID (C_Key call)"
  from assms(1) obtain q1 periods day month q2 dba
    where m: "settle_minutes f call (quotaActualTokens call usage) (gd_quota db) = Inr q1"
      and p: "admittedQuotaPeriods f (C_RequestID call) t db = Inr periods"
      and r: "settle_key_rows f call usage ?qu periods q1 = Inr (day, month, q2)"
      and al: "alert_key f (find (\<lambda>k. K_ID k = ?key) (gd_keys db)) (B_Counter day) (B_Counter month) (db\<lparr>gd_quota := q2\<rparr>) = Inr dba"
      and fin: "settle_user f call ?qu periods dba = Inr db1"
    by (auto simp: settle_quota_def rbind_eq_Inr_iff Let_def quota_usage_def)
  have dba: "gd_quota dba = q2"
    using al raise_alerts_quota by (fastforce simp: alert_key_def raiseQuotaAlerts_def split: option.splits)
  define ks where "ks = period_keys (C_UserQuotaID call) (call_user call) periods"
  have user: "count_of (gd_quota db1) k =
      (if C_UserQuotaEnabled call \<and> (k = fst ks \<or> k = snd ks) then charge ?qu (refunded call (count_of q2 k)) else count_of q2 k)"
    if "attribution k \<noteq> []" for k
  proof (cases "C_UserQuotaEnabled call")
    case True
    with fin obtain ud um q3 where u: "settle_user_rows f call ?qu periods q2 = Inr (ud, um, q3)" and q3: "gd_quota db1 = q3"
      using raise_alerts_quota by (fastforce simp: settle_user_def raiseUserQuotaAlerts_def rbind_eq_Inr_iff dba)
    show ?thesis using settle_user_rows_law [OF u that] True q3 by (simp add: ks_def)
  qed (use fin dba in \<open>simp add: settle_user_def\<close>)
  have "count_of (gd_quota db1) k = settlement_spec call usage periods (gd_quota db) k"
    if k: "attribution k \<noteq> []" "fst (snd k) \<noteq> ''minute''" for k
  proof -
    have q1: "count_of q1 k = count_of (gd_quota db) k"
      using touchesD [OF settle_minutes_touches [OF m] k(1)] k(2) by (auto simp: minute_keys_def)
    have not_key: "k \<noteq> fst (key_period (C_Key call) periods) \<and> k \<noteq> snd (key_period (C_Key call) periods) \<and>
        \<not> (\<not> prefix ''user:'' ?key \<and> (k = fst (period_keys ?key (call_user call) periods) \<or> k = snd (period_keys ?key (call_user call) periods)))"
      if "C_UserQuotaEnabled call" "k = fst ks \<or> k = snd ks"
      using that assms(2) by (auto simp: context_ok_def ks_def period_keys_def quotaAttributionKey_def)
    note rows = settle_key_rows_law [OF r k(1)]
    show ?thesis
    proof (cases "C_UserQuotaEnabled call \<and> (k = fst ks \<or> k = snd ks)")
      case True
      then show ?thesis using user [OF k(1)] rows not_key q1 assms(2)
        by (auto simp: settlement_spec_def Let_def ks_def context_ok_def)
    next
      case False
      then have "count_of (gd_quota db1) k = count_of q2 k" using user [OF k(1)] by auto
      then show ?thesis using rows q1 assms(2) False
        by (auto simp: settlement_spec_def Let_def ks_def context_ok_def)
    qed
  qed
  with p show thesis by (rule that)
qed

lemma settlement_law:
  assumes "finishCallTransaction f call route usage st ec now db = Inr db1"
    and "\<not> list_ex (\<lambda>r. RL_RequestID r = C_RequestID call) (gd_logs db)"
    and "K_ID (C_Key call) \<noteq> []" and "context_ok call"
  obtains periods where
    "admittedQuotaPeriods f (C_RequestID call) (if C_StartedAt call = zero_time then now else C_StartedAt call) db = Inr periods"
    "\<And>k. attribution k \<noteq> [] \<Longrightarrow> fst (snd k) \<noteq> ''minute'' \<Longrightarrow>
       count_of (gd_quota db1) k = settlement_spec call usage periods (gd_quota db) k"
proof -
  have "settle_call f call route usage st ec now db = Inr db1"
    using assms(1,2) by (auto simp: finishCallTransaction_def rbind_eq_Inr_iff split: if_splits)
  then obtain dbq db2 where q: "settle_quota f call usage (if C_StartedAt call = zero_time then now else C_StartedAt call) db = Inr dbq"
    and q2: "gd_quota db2 = gd_quota dbq" and rel: "release_request f (C_RequestID call) db2 = Inr db1"
    using assms(3) by (cases rule: settle_call_cases) blast
  have "count_of (gd_quota db1) = count_of (gd_quota dbq)"
    using count_of_buckets [OF release_request_law(2) [OF rel]] q2 by simp
  with settle_quota_law [OF q assms(4)] that show thesis by metis
qed

lemma capture_effect:
  assumes "captureMeteringRequest f call periods db = Inr db1" and "C_RequestID call \<noteq> []"
  shows "map_of (gd_entries db1) (C_RequestID call @ '':admission'') = Some (Admission (Some periods))"
    and "gd_entries db1 = gd_entries db @ [(C_RequestID call @ '':admission'', Admission (Some periods))]" and "gd_logs db1 = gd_logs db"
  using assms by (auto simp: captureMeteringRequest_def saveMeteringEntry_def rbind_eq_Inr_iff map_add_def split: if_splits option.split)

lemma charge_refunded:
  assumes "in_int64 r" and "0 \<le> N_TotalTokens c" and "N_TotalTokens c + max r 0 \<le> max_int64" and "C_ReservedTokens call = max r 0"
  shows "refunded call (c\<lparr>N_Requests := n, N_TotalTokens := saturatingAddNonNegative (N_TotalTokens c) (max r 0)\<rparr>) = c\<lparr>N_Requests := n\<rparr>"
proof -
  have "refunded call = (\<lambda>x. refundQuotaReservation x r)"
    by (auto simp: refunded_def refundQuotaReservation_def assms(4) Let_def)
  then show ?thesis using refund_reserve [OF assms(1), of "c\<lparr>N_Requests := n\<rparr>"] assms(2,3) by simp
qed

text \<open>What a settlement finds of the admission that precedes it.\<close>

lemma admitted_context:
  assumes "admitCallTransaction f env ck keyID name r rid db = Inr (call, db1)"
    and "authorize_call f (ck_host ck) keyID name db = Inr (key, project)"
    and "call_limits env key project db = (effective, scopes, policy)" and "Enabled policy"
    and "currentQuotaPeriods f env (ck_db ck) db = Inr periods" and "rid \<noteq> []"
  shows "C_RequestID call = rid" and "C_Key call = key" and "K_ID key = keyID" and "C_UserQuotaEnabled call"
    and "call_user call = UP_UserID policy" and "C_UserQuotaID call = userQuotaBucketKey (UP_UserID policy)"
    and "C_ReservedTokens call = max r 0" and "context_ok call"
    and "gd_entries db1 = gd_entries db @ [(rid @ '':admission'', Admission (Some periods))]"
    and "map_of (gd_entries db1) (rid @ '':admission'') = Some (Admission (Some periods))" and "gd_logs db1 = gd_logs db"
proof -
  from assms(1) obtain effective' scopes' minute userMinute q2
    where call0: "call = admitted_call ck project key name effective' policy r rid minute userMinute"
      and cap: "captureMeteringRequest f call periods (db\<lparr>gd_quota := q2\<rparr>) = Inr db1"
    by (cases rule: admitCallTransaction_cases) (use assms(2,3,5) in auto)
  note u = call_limits_user [OF assms(3,4)]
  have call: "C_RequestID call = rid" "C_Key call = key" "C_UserQuotaEnabled call" "call_user call = UP_UserID policy"
    "C_UserQuotaID call = userQuotaBucketKey (UP_UserID policy)" "C_ReservedTokens call = max r 0"
    using assms(4) u(1) by (simp_all add: call0 admitted_call_def Let_def call_user_def)
  have key: "K_ID key = keyID" using authorize_call_sound [OF assms(2)] by (metis hydrate_simps(1))
  have "UP_UserID policy \<noteq> []" using assms(4) by (auto simp: Enabled_def)
  then have ok: "context_ok call" using u by (simp add: context_ok_def call)
  show "C_RequestID call = rid" "C_Key call = key" "K_ID key = keyID" "C_UserQuotaEnabled call"
    "call_user call = UP_UserID policy" "C_UserQuotaID call = userQuotaBucketKey (UP_UserID policy)"
    "C_ReservedTokens call = max r 0" "context_ok call"
    using call key ok by simp_all
  show "gd_entries db1 = gd_entries db @ [(rid @ '':admission'', Admission (Some periods))]"
    "map_of (gd_entries db1) (rid @ '':admission'') = Some (Admission (Some periods))" "gd_logs db1 = gd_logs db"
    using capture_effect [OF cap, unfolded call, OF assms(6)] by simp_all
qed

section \<open>A settlement succeeds when the database does\<close>

lemma db_call_none [simp]: "db_call (\<lambda>_. None) site = Inr ()"
  by (simp add: db_call_def)

lemma open_total: "\<exists>item q1. quotaBucketForUpdate (\<lambda>_. None) ident scope bucket user q = Inr (item, q1)"
  by (auto simp: quotaBucketForUpdate_def Let_def split: option.split)

lemma save_total: "\<exists>q1. save_bucket (\<lambda>_. None) item q = Inr q1"
  by (simp add: save_bucket_def)

lemma reconcile_total: "\<exists>q1. reconcileQuotaMinuteTokens (\<lambda>_. None) ident bucket reserved actual user q = Inr q1"
proof -
  obtain item qm where "quotaBucketForUpdate (\<lambda>_. None) ident ''minute'' bucket user q = Inr (item, qm)" using open_total by blast
  then show ?thesis using save_total by (simp add: reconcileQuotaMinuteTokens_def Let_def)
qed

lemma settle_minutes_total: "\<exists>q1. settle_minutes (\<lambda>_. None) call actual q = Inr q1"
proof -
  obtain q1 where "reconcileAPIKeyMinuteTokens (\<lambda>_. None) call actual q = Inr q1"
    unfolding reconcileAPIKeyMinuteTokens_def using reconcile_total by blast
  then show ?thesis using reconcile_total by (simp add: settle_minutes_def)
qed

lemma add_attributed_total: "\<exists>q1. addAttributedQuotaUsage (\<lambda>_. None) keyID scope bucket user usage q = Inr q1"
proof -
  obtain item qm where "quotaBucketForUpdate (\<lambda>_. None) keyID scope bucket (TrimSpace user) q = Inr (item, qm)" using open_total by blast
  then show ?thesis using save_total by (simp add: addAttributedQuotaUsage_def Let_def)
qed

lemma two_rows_total:
  "\<exists>d q1 m q2. quotaBucketForUpdate (\<lambda>_. None) ident ''day'' b u q = Inr (d, q1) \<and>
     quotaBucketForUpdate (\<lambda>_. None) ident ''month'' b' u q1 = Inr (m, q2) \<and>
     (\<exists>q3 q4. save_bucket (\<lambda>_. None) (g d) q2 = Inr q3 \<and> save_bucket (\<lambda>_. None) (g m) q3 = Inr q4)"
  by (metis open_total save_total)

lemma settle_key_rows_total: "\<exists>r. settle_key_rows (\<lambda>_. None) call usage qu periods q = Inr r"
proof -
  let ?id = "K_ID (C_Key call)"
  obtain d q1 m q2 q3 q4 where "quotaBucketForUpdate (\<lambda>_. None) ?id ''day'' (QP_Day periods) [] q = Inr (d, q1)"
    "quotaBucketForUpdate (\<lambda>_. None) ?id ''month'' (QP_Month periods) [] q1 = Inr (m, q2)"
    "save_bucket (\<lambda>_. None) (add_usage d (apiKeyPeriodUsage call usage)) q2 = Inr q3"
    "save_bucket (\<lambda>_. None) (add_usage m (apiKeyPeriodUsage call usage)) q3 = Inr q4"
    using two_rows_total [of ?id _ _ _ _ "\<lambda>r. add_usage r (apiKeyPeriodUsage call usage)"] by blast
  moreover obtain q5 where "addAttributedQuotaUsage (\<lambda>_. None) ?id ''day'' (QP_Day periods) (call_user call) qu q4 = Inr q5"
    using add_attributed_total by blast
  moreover obtain q6 where "addAttributedQuotaUsage (\<lambda>_. None) ?id ''month'' (QP_Month periods) (call_user call) qu q5 = Inr q6"
    using add_attributed_total by blast
  ultimately show ?thesis by (simp add: settle_key_rows_def Let_def)
qed

lemma settle_user_rows_total: "\<exists>r. settle_user_rows (\<lambda>_. None) call qu periods q = Inr r"
proof -
  let ?g = "\<lambda>r. add_usage (refund_row (C_ReservedTokens call) r) qu"
  obtain d q1 m q2 q3 q4 where "quotaBucketForUpdate (\<lambda>_. None) (C_UserQuotaID call) ''day'' (QP_Day periods) (call_user call) q = Inr (d, q1)"
    "quotaBucketForUpdate (\<lambda>_. None) (C_UserQuotaID call) ''month'' (QP_Month periods) (call_user call) q1 = Inr (m, q2)"
    "save_bucket (\<lambda>_. None) (?g d) q2 = Inr q3" "save_bucket (\<lambda>_. None) (?g m) q3 = Inr q4"
    using two_rows_total [of "C_UserQuotaID call" _ _ _ _ ?g] by blast
  then show ?thesis by (simp add: settle_user_rows_def Let_def)
qed

lemma raise_alerts_total: "\<exists>al. raise_alerts (\<lambda>_. None) ev checks db = Inr (db\<lparr>gd_alerts := al\<rparr>)"
proof (induction checks arbitrary: db)
  case Nil
  show ?case by (simp add: exI [of _ "gd_alerts db"])
next
  case (Cons c checks)
  show ?case
  proof (cases c)
    case (fields limit current code)
    obtain al1 al2 where "raise_alerts (\<lambda>_. None) ev checks db = Inr (db\<lparr>gd_alerts := al1\<rparr>)"
      "raise_alerts (\<lambda>_. None) ev checks (db\<lparr>gd_alerts := gd_alerts db @ [ev code]\<rparr>) =
        Inr (db\<lparr>gd_alerts := gd_alerts db @ [ev code]\<rparr>\<lparr>gd_alerts := al2\<rparr>)"
      using Cons.IH by blast
    then show ?thesis by (auto simp: fields)
  qed
qed

text \<open>The metering entries a request may have before it is settled.\<close>

definition entries_ok :: "string \<Rightarrow> gateway_db \<Rightarrow> bool" where
  "entries_ok rid db \<longleftrightarrow> (\<forall>text. map_of (gd_entries db) (rid @ '':admission'') \<noteq> Some (Undecodable text)) \<and>
     map_of (gd_entries db) (rid @ '':shadow'') = None"

lemma settle_quota_total:
  assumes "entries_ok (C_RequestID call) db"
  shows "\<exists>db'. settle_quota (\<lambda>_. None) call usage t db = Inr db' \<and> gd_entries db' = gd_entries db"
proof -
  let ?qu = "usage\<lparr>RU_Tokens := (RU_Tokens usage)\<lparr>TotalTokens := quotaActualTokens call usage\<rparr>\<rparr>"
  obtain q1 where "settle_minutes (\<lambda>_. None) call (quotaActualTokens call usage) (gd_quota db) = Inr q1" using settle_minutes_total by blast
  moreover have "\<exists>periods. admittedQuotaPeriods (\<lambda>_. None) (C_RequestID call) t db = Inr periods"
    using assms by (auto simp: entries_ok_def admittedQuotaPeriods_def Let_def split: option.split metering_payload.split)
  then obtain periods where "admittedQuotaPeriods (\<lambda>_. None) (C_RequestID call) t db = Inr periods" ..
  moreover obtain day month q2 where "settle_key_rows (\<lambda>_. None) call usage ?qu periods q1 = Inr (day, month, q2)"
    using settle_key_rows_total by (metis prod_cases3)
  moreover obtain al where "alert_key (\<lambda>_. None) (find (\<lambda>k. K_ID k = K_ID (C_Key call)) (gd_keys db)) (B_Counter day) (B_Counter month)
      (db\<lparr>gd_quota := q2\<rparr>) = Inr (db\<lparr>gd_quota := q2\<rparr>\<lparr>gd_alerts := al\<rparr>)"
  proof (cases "find (\<lambda>k. K_ID k = K_ID (C_Key call)) (gd_keys db)")
    case None
    then show thesis using that [of "gd_alerts db"] by (simp add: alert_key_def)
  next
    case (Some key)
    then show thesis using that raise_alerts_total [of _ _ "db\<lparr>gd_quota := q2\<rparr>"] by (auto simp: alert_key_def raiseQuotaAlerts_def)
  qed
  moreover have "\<exists>db'. settle_user (\<lambda>_. None) call ?qu periods (db\<lparr>gd_quota := q2\<rparr>\<lparr>gd_alerts := al\<rparr>) = Inr db' \<and> gd_entries db' = gd_entries db"
  proof (cases "C_UserQuotaEnabled call")
    case True
    obtain ud um q3 where r: "settle_user_rows (\<lambda>_. None) call ?qu periods q2 = Inr (ud, um, q3)"
      using settle_user_rows_total by (metis prod_cases3)
    let ?db = "db\<lparr>gd_quota := q2\<rparr>\<lparr>gd_alerts := al\<rparr>\<lparr>gd_quota := q3\<rparr>"
    obtain al' where "raiseUserQuotaAlerts (\<lambda>_. None) (Pr_ID (C_Project call)) (B_Counter ud) (B_Counter um) (C_UserQuotaLimits call) ?db =
        Inr (?db\<lparr>gd_alerts := al'\<rparr>)"
      unfolding raiseUserQuotaAlerts_def using raise_alerts_total by blast
    with r True show ?thesis by (simp add: settle_user_def)
  qed (simp add: settle_user_def)
  ultimately show ?thesis by (auto simp: settle_quota_def Let_def)
qed

lemma finish_total:
  assumes "entries_ok (C_RequestID call) db"
  shows "\<exists>db1. finishCallTransaction (\<lambda>_. None) call route usage st ec now db = Inr db1"
proof -
  have rel: "\<exists>db1. release_request (\<lambda>_. None) rid db' = Inr db1" for rid db'
    by (simp add: release_request_def deleteRequestConcurrencyLeases_def Let_def)
  obtain dbq where q: "(if K_ID (C_Key call) \<noteq> []
      then settle_quota (\<lambda>_. None) call usage (if C_StartedAt call = zero_time then now else C_StartedAt call) db else Inr db) = Inr dbq"
    "gd_entries dbq = gd_entries db"
    using settle_quota_total [OF assms, of usage "if C_StartedAt call = zero_time then now else C_StartedAt call"]
    by (cases "K_ID (C_Key call) = []") auto
  have "\<exists>db2. record_usage (\<lambda>_. None) call usage now dbq = Inr db2 \<and> gd_entries db2 = gd_entries dbq"
    by (simp add: record_usage_def)
  then obtain db2 where u: "record_usage (\<lambda>_. None) call usage now dbq = Inr db2" "gd_entries db2 = gd_entries dbq"
    by blast
  obtain db3 where l: "record_log (\<lambda>_. None) call route st ec now db2 = Inr db3" "gd_entries db3 = gd_entries db2"
    by (simp add: record_log_def)
  have "\<exists>db4. record_observations (\<lambda>_. None) route usage st ec now db3 = Inr db4 \<and> gd_entries db4 = gd_entries db3"
    by (simp add: record_observations_def)
  then obtain db4 where ob: "record_observations (\<lambda>_. None) route usage st ec now db3 = Inr db4" "gd_entries db4 = gd_entries db3"
    by blast
  have "\<exists>db5. settleMeteringShadow (\<lambda>_. None) call db4 = Inr db5"
    using assms q(2) u(2) l(2) ob(2)
    by (auto simp: settleMeteringShadow_def saveMeteringEntry_def entries_ok_def split: option.split metering_payload.split)
  then obtain db5 where sh: "settleMeteringShadow (\<lambda>_. None) call db4 = Inr db5" ..
  have "\<exists>db1. settle_call (\<lambda>_. None) call route usage st ec now db = Inr db1"
    using q(1) u(1) l(1) ob(1) sh rel by (simp add: settle_call_def finish_locks_def)
  then show ?thesis using rel by (simp add: finishCallTransaction_def)
qed

section \<open>Properties\<close>

text \<open>(C12) A request is settled once: after its settlement has committed, finishing it again, from any
  process, with any usage and whatever database calls fail, leaves every table as it is.\<close>

theorem finish_exactly_once:
  assumes "finishCallTransaction f call route usage st ec now db = Inr db1" and "C_RequestID call \<noteq> []"
    and "C_RequestID call' = C_RequestID call"
  shows "FinishCall f' retry call' route' usage' st' ec' now' db1 = db1"
  using finish_when_settled [OF finishCallTransaction_settled [OF assms(1,2)] assms(3,2)] .

text \<open>(C14) Settlement refines its specification: the key's day and month counters gain the usage, the
  counters of the user give back the reservation and gain the tokens that count, the history of the
  user under the key gains the request and its usage, and no other day or month counter changes. Minute
  counters are outside this statement.\<close>

theorem settlement_refines:
  assumes "finishCallTransaction f call route usage st ec now db = Inr db1"
    and "\<not> list_ex (\<lambda>r. RL_RequestID r = C_RequestID call) (gd_logs db)"
    and "K_ID (C_Key call) \<noteq> []" and "context_ok call"
    and "admittedQuotaPeriods f (C_RequestID call) (if C_StartedAt call = zero_time then now else C_StartedAt call) db = Inr periods"
    and "attribution k \<noteq> []" and "fst (snd k) \<noteq> ''minute''"
  shows "count_of (gd_quota db1) k = settlement_spec call usage periods (gd_quota db) k"
  using settlement_law [OF assms(1-4)] assms(5-7) by (metis sum.inject(2))

text \<open>(C11) From admission to settlement nothing of a reservation stays behind: the user's counters end
  with one more request and the usage of the call, on the day and the month of the admission, also
  when the settlement runs on another day or after the settings, such as the quota time zone, have
  been changed.\<close>

theorem admit_then_finish:
  assumes "admitCallTransaction f env ck keyID name r rid db = Inr (call, db1)"
    and "authorize_call f (ck_host ck) keyID name db = Inr (key, project)"
    and "call_limits env key project db = (effective, scopes, policy)" and "Enabled policy"
    and "currentQuotaPeriods f env (ck_db ck) db = Inr periods"
    and "finishCallTransaction f' call route usage st ec now (db1\<lparr>gd_budget := settings\<rparr>) = Inr db2"
    and "rid \<noteq> []" and "keyID \<noteq> []" and "\<not> list_ex (\<lambda>r. RL_RequestID r = rid) (gd_logs db)"
    and "k = fst (user_period policy periods) \<or> k = snd (user_period policy periods)"
    and "in_int64 r" and "0 \<le> N_TotalTokens (user_count (UP_UserID policy) (gd_quota db) k)"
    and "N_TotalTokens (user_count (UP_UserID policy) (gd_quota db) k) + max r 0 \<le> max_int64"
  shows "count_of (gd_quota db2) k = charge (quota_usage call usage) (plus_request (user_count (UP_UserID policy) (gd_quota db) k))"
proof -
  note ctx = admitted_context [OF assms(1-5,7)] and u = call_limits_user [OF assms(3,4)]
  have log: "\<not> list_ex (\<lambda>r. RL_RequestID r = C_RequestID call) (gd_logs (db1\<lparr>gd_budget := settings\<rparr>))"
    using assms(9) by (simp add: ctx)
  obtain p where "admittedQuotaPeriods f' rid (if C_StartedAt call = zero_time then now else C_StartedAt call) (db1\<lparr>gd_budget := settings\<rparr>) = Inr p"
    and fin: "\<And>k. attribution k \<noteq> [] \<Longrightarrow> fst (snd k) \<noteq> ''minute'' \<Longrightarrow>
       count_of (gd_quota db2) k = settlement_spec call usage p (gd_quota (db1\<lparr>gd_budget := settings\<rparr>)) k"
    using settlement_law [OF assms(6) log _ ctx(8)] assms(8) by (metis ctx(1,2,3))
  then have p: "p = periods"
    using ctx(10) assms(7) by (auto simp: admittedQuotaPeriods_def Let_def rbind_eq_Inr_iff)
  have "UP_UserID policy \<noteq> []" using assms(4) by (auto simp: Enabled_def)
  then have nk: "k \<noteq> fst (key_period key periods)" "k \<noteq> snd (key_period key periods)"
    using assms(10) u by (auto simp: period_keys_def quotaAttributionKey_def)
  have k: "attribution k \<noteq> []" "fst (snd k) \<noteq> ''minute''" using assms(10) by (auto simp: period_keys_def)
  have adm: "count_of (gd_quota db1) k = admission_spec key policy r periods (gd_quota db) k"
    by (rule admission_law [OF assms(1,2,3,5) k(2,1)])
  show ?thesis
    using fin [OF k] adm assms(4,10) nk charge_refunded [OF assms(11,12,13) ctx(7)]
    by (auto simp: p settlement_spec_def Let_def ctx(2,3,4,5,6) admission_spec_def plus_request_def)
qed

text \<open>(C15) A settlement cannot get stuck: with a working database, and unless the metering entry of the
  admission cannot be decoded or the request has a shadow entry already, it commits, whatever the
  call, the counters and the usage are.\<close>

theorem finish_succeeds:
  assumes "entries_ok (C_RequestID call) db"
  shows "\<exists>db1. finishCallTransaction (\<lambda>_. None) call route usage st ec now db = Inr db1"
  by (rule finish_total [OF assms])

definition quiet_usage :: reported_usage where
  "quiet_usage = \<lparr>RU_Tokens = zero_Usage\<lparr>TotalTokens := 5\<rparr>, RU_CostUSD = Fin 0, RU_ProviderCostUSD = Fin 0, RU_RateLimitTokens = 0,
     RU_RetrievalEvidence = None, RU_AudioDurationSeconds = None, RU_AudioDurationSource = [], RU_AudioDurationUnit = [],
     RU_DocumentCount = 0, RU_HasResponseHeaders = False, RU_UpstreamRequestID = [], RU_ServedModel = []\<rparr>"

definition no_route :: RouteSelection where
  "no_route = \<lparr>RS_ProviderID = [], RS_ProviderType = [], RS_Resource = None, RS_RouteResourceID = []\<rparr>"

abbreviation sample_finish :: "CallContext \<Rightarrow> gateway_db \<Rightarrow> store_error + gateway_db" where
  "sample_finish call db \<equiv> finishCallTransaction (\<lambda>_. None) call no_route quiet_usage 200 [] 86400000000000 db"

lemma sample_settlement:
  obtains call db1 key project effective scopes policy where
    "sample_admission = Inr (call, db1)" "C_RequestID call = ''r''" "C_Key call = key" "K_ID key = ''k''" "C_ReservedTokens call = 7"
    "context_ok call" "gd_logs db1 = []"
    "gd_entries db1 = [(''r:admission'', Admission (Some \<lparr>QP_Day = ''1970-01-01'', QP_Month = ''1970-01''\<rparr>))]"
    "authorize_call (\<lambda>_. None) (ck_host plain_clock) ''k'' ''m'' admission_db = Inr (key, project)"
    "call_limits plain_env key project admission_db = (effective, scopes, policy)"
    "Enabled policy" "UP_UserID policy = ''u''"
proof -
  obtain call db1 where a: "sample_admission = Inr (call, db1)" by (rule sample_admission_cases)
  obtain key project effective scopes policy
    where au: "authorize_call (\<lambda>_. None) (ck_host plain_clock) ''k'' ''m'' admission_db = Inr (key, project)"
      and cl: "call_limits plain_env key project admission_db = (effective, scopes, policy)"
      and p: "K_ID key = ''k''" "Enabled policy" "UP_UserID policy = ''u''"
      and per: "currentQuotaPeriods (\<lambda>_. None) plain_env (ck_db plain_clock) admission_db = Inr \<lparr>QP_Day = ''1970-01-01'', QP_Month = ''1970-01''\<rparr>"
    by (rule sample_context)
  have "''r'' \<noteq> []" by simp
  from admitted_context [OF a au cl p(2) per this] show thesis
    by (intro that [OF a _ _ p(1) _ _ _ _ au cl p(2,3)]) (simp_all add: admission_db_def)
qed

lemma entries_ok_sample: "gd_entries db = [(''r:admission'', Admission p)] \<Longrightarrow> entries_ok ''r'' db"
  by (simp add: entries_ok_def)

theorem finish_succeeds_witness:
  "\<exists>call db1 db2. sample_admission = Inr (call, db1) \<and> sample_finish call db1 = Inr db2"
proof -
  obtain call db1 where a: "sample_admission = Inr (call, db1)" and r: "C_RequestID call = ''r''"
    and e: "gd_entries db1 = [(''r:admission'', Admission (Some \<lparr>QP_Day = ''1970-01-01'', QP_Month = ''1970-01''\<rparr>))]"
    by (rule sample_settlement)
  from finish_succeeds [of call db1] entries_ok_sample [OF e] a r show ?thesis by auto
qed

lemma sample_finish_total:
  assumes "C_RequestID call = ''r''" and "gd_entries db1 = [(''r:admission'', Admission p)]"
  obtains db2 where "sample_finish call db1 = Inr db2"
  using finish_total [of call db1 no_route quiet_usage 200 "[]" 86400000000000] entries_ok_sample [OF assms(2)] assms(1) that by auto

theorem finish_exactly_once_witness:
  "\<exists>call db1 db2. sample_admission = Inr (call, db1) \<and> sample_finish call db1 = Inr db2 \<and>
     FinishCall (\<lambda>_. None) (\<lambda>_. None) call no_route quiet_usage 500 ''again'' 0 db2 = db2"
proof -
  obtain call db1 where a: "sample_admission = Inr (call, db1)" and r: "C_RequestID call = ''r''"
    and e: "gd_entries db1 = [(''r:admission'', Admission (Some \<lparr>QP_Day = ''1970-01-01'', QP_Month = ''1970-01''\<rparr>))]"
    by (rule sample_settlement)
  obtain db2 where f: "sample_finish call db1 = Inr db2" using r e by (rule sample_finish_total)
  from finish_exactly_once [OF f _ refl] r a f show ?thesis by auto
qed

theorem settlement_refines_witness:
  "\<exists>call db1 db2. sample_admission = Inr (call, db1) \<and> sample_finish call db1 = Inr db2 \<and>
     count_of (gd_quota db2) (''k'', ''day'', ''1970-01-01'', unattributedQuotaUserID) =
     settlement_spec call quiet_usage \<lparr>QP_Day = ''1970-01-01'', QP_Month = ''1970-01''\<rparr> (gd_quota db1)
       (''k'', ''day'', ''1970-01-01'', unattributedQuotaUserID)"
proof -
  obtain call db1 key where a: "sample_admission = Inr (call, db1)" and r: "C_RequestID call = ''r''"
    and k: "C_Key call = key" "K_ID key = ''k''" and ok: "context_ok call" and l: "gd_logs db1 = []"
    and e: "gd_entries db1 = [(''r:admission'', Admission (Some \<lparr>QP_Day = ''1970-01-01'', QP_Month = ''1970-01''\<rparr>))]"
    by (rule sample_settlement)
  obtain db2 where f: "sample_finish call db1 = Inr db2" using r e by (rule sample_finish_total)
  have "admittedQuotaPeriods (\<lambda>_. None) (C_RequestID call) t db1 = Inr \<lparr>QP_Day = ''1970-01-01'', QP_Month = ''1970-01''\<rparr>" for t
    by (simp add: admittedQuotaPeriods_def r e)
  from settlement_refines [OF f _ _ ok this] a f k l show ?thesis by auto
qed

theorem admit_then_finish_witness:
  "\<exists>call db1 db2. sample_admission = Inr (call, db1) \<and> sample_finish call db1 = Inr db2 \<and>
     count_of (gd_quota db2) (''user:u'', ''day'', ''1970-01-01'', ''u'') =
     charge (quota_usage call quiet_usage) (zero_QuotaCounter\<lparr>N_Requests := 1\<rparr>)"
proof -
  obtain call db1 key project effective scopes policy where a: "sample_admission = Inr (call, db1)" and r: "C_RequestID call = ''r''"
    and e: "gd_entries db1 = [(''r:admission'', Admission (Some \<lparr>QP_Day = ''1970-01-01'', QP_Month = ''1970-01''\<rparr>))]"
    and au: "authorize_call (\<lambda>_. None) (ck_host plain_clock) ''k'' ''m'' admission_db = Inr (key, project)"
    and cl: "call_limits plain_env key project admission_db = (effective, scopes, policy)" and en: "Enabled policy" and u: "UP_UserID policy = ''u''"
    by (rule sample_settlement)
  let ?p = "\<lparr>QP_Day = ''1970-01-01'', QP_Month = ''1970-01''\<rparr>"
  have per: "currentQuotaPeriods (\<lambda>_. None) plain_env (ck_db plain_clock) admission_db = Inr ?p"
    using sample_periods by (simp add: plain_clock_def)
  obtain db2 where f: "sample_finish call (db1\<lparr>gd_budget := gd_budget db1\<rparr>) = Inr db2"
    by (rule sample_finish_total [OF r, of "db1\<lparr>gd_budget := gd_budget db1\<rparr>"]) (simp add: e)
  have t: "TrimSpace ''u'' = ''u''" by code_simp
  have k: "fst (user_period policy ?p) = (''user:u'', ''day'', ''1970-01-01'', ''u'')"
    by (simp add: period_keys_def u userQuotaBucketKey_def quotaAttributionKey_def t)
  have z: "user_count (UP_UserID policy) (gd_quota admission_db) (fst (user_period policy ?p)) = zero_QuotaCounter"
    by (simp add: user_count_def count_of_def history_rows_def total_counter_def mergeQuotaCounterMax_def admission_db_def
        zero_QuotaCounter_def k)
  have "\<not> list_ex (\<lambda>r. RL_RequestID r = ''r'') (gd_logs admission_db)" by (simp add: admission_db_def)
  from admit_then_finish [OF a au cl en per f _ _ this disjI1 [OF refl]]
  have "count_of (gd_quota db2) (fst (user_period policy ?p)) = charge (quota_usage call quiet_usage) (plus_request zero_QuotaCounter)"
    unfolding z by (simp add: zero_QuotaCounter_def int64_bounds)
  moreover have "plus_request zero_QuotaCounter = zero_QuotaCounter\<lparr>N_Requests := 1\<rparr>"
    by (simp add: plus_request_def zero_QuotaCounter_def wrap64_def)
  moreover have "sample_finish call db1 = Inr db2" using f by simp
  ultimately show ?thesis using a k by auto
qed

end
