(* ===== verification/ImageJobs.thy ===== *)
theory ImageJobs imports CallSettlement
begin

text \<open>
  Image jobs (\<open>store_routing_calls.go\<close>, \<open>store_image_recovery.go\<close>, \<open>admission_settlement.go\<close> and the job
  helpers of \<open>image_generation.go\<close>): a job is created in the transaction that admits its call, claimed by
  a worker, completed in the transaction that settles the call, or failed, by its worker or by the
  recovery of jobs whose worker stopped, which undoes the admission.

  The tables of the gateway are extended with the jobs, the images and the heartbeats of the instances.
  An image is its identifier. The prompt and its encryption, the columns that describe the request and
  the provider's answer, the traces, metrics and use marks are left out, as is the Redis variant of the
  reservation.
\<close>

section \<open>Data\<close>

record ImageJob =
  IJ_ID :: string
  IJ_ProjectID :: string
  IJ_APIKeyID :: string
  IJ_AttributedUserID :: string
  IJ_RequestID :: string
  IJ_UserQuotaEnabled :: bool
  IJ_UserMinuteRequestHeld :: bool
  IJ_UserTokenLimitBucket :: string
  IJ_TokenLimitBucket :: string
  IJ_MinuteRequestHeld :: bool
  IJ_ReservedTokens :: int64
  IJ_AdmittedAt :: "instant option"
  IJ_Status :: string
  IJ_Model :: string
  IJ_WorkerInstance :: string
  IJ_ErrorCode :: string
  IJ_ErrorMessage :: string
  IJ_CreatedAt :: instant
  IJ_StartedAt :: "instant option"
  IJ_CompletedAt :: "instant option"

record image_db =
  im_gateway :: gateway_db
  im_jobs :: "ImageJob list"
  im_assets :: "string list"
  im_heartbeats :: "(string \<times> string) list"

definition in_gateway :: "(gateway_db \<Rightarrow> store_error + gateway_db) \<Rightarrow> image_db \<Rightarrow> store_error + image_db" where
  "in_gateway step db = rbind (step (im_gateway db)) (\<lambda>g. Inr (db\<lparr>im_gateway := g\<rparr>))"

section \<open>Creation\<close>

definition imageJobWithAdmission :: "ImageJob \<Rightarrow> CallContext \<Rightarrow> ImageJob" where
  "imageJobWithAdmission job call =
     job\<lparr>IJ_TokenLimitBucket := C_TokenLimitBucket call, IJ_MinuteRequestHeld := C_MinuteRequestHeld call,
         IJ_UserQuotaEnabled := C_UserQuotaEnabled call, IJ_UserMinuteRequestHeld := C_UserMinuteRequestHeld call,
         IJ_UserTokenLimitBucket := C_UserTokenLimitBucket call, IJ_ReservedTokens := C_ReservedTokens call,
         IJ_AdmittedAt := (if C_StartedAt call \<noteq> zero_time then Some (C_StartedAt call) else IJ_AdmittedAt job)\<rparr>"

definition createImageJob ::
  "store_faults \<Rightarrow> string \<Rightarrow> instant \<Rightarrow> ImageJob \<Rightarrow> image_db \<Rightarrow> store_error + (ImageJob \<times> image_db)" where
  "createImageJob fault newID now job0 db =
     (let job1 = (if TrimSpace (IJ_ID job0) = [] then job0\<lparr>IJ_ID := newID\<rparr> else job0);
          job2 = (if TrimSpace (IJ_Status job1) = [] then job1\<lparr>IJ_Status := ''queued''\<rparr> else job1);
          job = (if IJ_CreatedAt job2 = zero_time then job2\<lparr>IJ_CreatedAt := now\<rparr> else job2)
      in rbind (db_call fault ''image_job.create'') (\<lambda>_.
           if list_ex (\<lambda>j. IJ_ID j = IJ_ID job) (im_jobs db) then Inl (Db ''unique constraint'')
           else Inr (job, db\<lparr>im_jobs := im_jobs db @ [job]\<rparr>)))"

definition CreateImageJobWithAdmission ::
  "store_faults \<Rightarrow> environment \<Rightarrow> admission_clock \<Rightarrow> string \<Rightarrow> string \<Rightarrow> int64 \<Rightarrow> ImageJob \<Rightarrow> string \<Rightarrow> string \<Rightarrow> image_db \<Rightarrow>
   store_error + ((ImageJob \<times> CallContext) \<times> image_db)" where
  "CreateImageJobWithAdmission fault env ck keyID modelName reservation job newRequestID newJobID db =
     rbind (admitCallTransaction fault env ck keyID modelName reservation newRequestID (im_gateway db)) (\<lambda>(call, g).
       let job1 = job\<lparr>IJ_RequestID := C_RequestID call, IJ_AttributedUserID := C_AttributedUserID call\<rparr>
       in rbind (createImageJob fault newJobID (ck_host ck) (imageJobWithAdmission job1 call) (db\<lparr>im_gateway := g\<rparr>)) (\<lambda>(persisted, db1).
            Inr ((persisted, call), db1)))"

section \<open>Work\<close>

definition update_jobs :: "(ImageJob \<Rightarrow> bool) \<Rightarrow> (ImageJob \<Rightarrow> ImageJob) \<Rightarrow> image_db \<Rightarrow> image_db" where
  "update_jobs sel upd db = db\<lparr>im_jobs := map (\<lambda>j. if sel j then upd j else j) (im_jobs db)\<rparr>"

text \<open>The claim is one update; the row is read afterwards.\<close>

definition ClaimImageJob :: "store_faults \<Rightarrow> instant \<Rightarrow> string \<Rightarrow> image_db \<Rightarrow> (store_error + ImageJob option) \<times> image_db" where
  "ClaimImageJob fault now ident db =
     (let sel = (\<lambda>j. IJ_ID j = ident \<and> IJ_Status j = ''queued'') in
      case db_call fault ''image_job.claim'' of
        Inl e \<Rightarrow> (Inl e, db)
      | Inr _ \<Rightarrow>
          if \<not> list_ex sel (im_jobs db) then (Inr None, db)
          else let db1 = update_jobs sel (\<lambda>j. j\<lparr>IJ_Status := ''running'', IJ_StartedAt := Some now\<rparr>) db
               in (case db_call fault ''image_job.first'' of
                     Inl e \<Rightarrow> (Inl e, db1)
                   | Inr _ \<Rightarrow>
                       (case find (\<lambda>j. IJ_ID j = ident) (im_jobs db1) of
                          None \<Rightarrow> (Inl (Db ''record not found''), db1)
                        | Some job \<Rightarrow> (Inr (Some job), db1))))"

text \<open>\<open>db.Save\<close>: the whole row by primary key, inserted when there is none.\<close>

definition UpdateImageJob :: "store_faults \<Rightarrow> ImageJob \<Rightarrow> image_db \<Rightarrow> store_error + image_db" where
  "UpdateImageJob fault job db =
     rbind (db_call fault ''image_job.save'') (\<lambda>_.
       if list_ex (\<lambda>j. IJ_ID j = IJ_ID job) (im_jobs db)
       then Inr (update_jobs (\<lambda>j. IJ_ID j = IJ_ID job) (\<lambda>_. job) db)
       else Inr (db\<lparr>im_jobs := im_jobs db @ [job]\<rparr>))"

definition complete_transaction ::
  "store_faults \<Rightarrow> CallContext \<Rightarrow> ImageJob \<Rightarrow> string \<Rightarrow> RouteSelection \<Rightarrow> reported_usage \<Rightarrow> instant \<Rightarrow> image_db \<Rightarrow> store_error + image_db" where
  "complete_transaction fault call job asset route usage now db =
     rbind (in_gateway (finishCallTransaction fault call route usage 200 [] now) db) (\<lambda>db1.
     rbind (db_call fault ''image_asset.create'') (\<lambda>_.
     if asset \<in> set (im_assets db1) then Inl (Db ''unique constraint'')
     else let db2 = db1\<lparr>im_assets := im_assets db1 @ [asset]\<rparr>;
              sel = (\<lambda>j. IJ_ID j = IJ_ID job \<and> IJ_Status j = ''running'')
          in rbind (db_call fault ''image_job.complete'') (\<lambda>_.
               if length (filter sel (im_jobs db2)) \<noteq> 1 then Inl (Db (''image job '' @ IJ_ID job @ '' is not running''))
               else Inr (update_jobs sel (\<lambda>j. j\<lparr>IJ_Status := ''completed'', IJ_ErrorCode := [], IJ_ErrorMessage := [],
                      IJ_CompletedAt := (case IJ_CompletedAt job of None \<Rightarrow> Some now | Some t \<Rightarrow> Some t)\<rparr>) db2))))"

definition CompleteImageJob ::
  "store_faults \<Rightarrow> store_faults \<Rightarrow> CallContext \<Rightarrow> ImageJob \<Rightarrow> string \<Rightarrow> RouteSelection \<Rightarrow> reported_usage \<Rightarrow> instant \<Rightarrow> image_db \<Rightarrow>
   (store_error + unit) \<times> image_db" where
  "CompleteImageJob fault retry call job asset route usage now db =
     (case complete_transaction fault call job asset route usage now db of
        Inr db1 \<Rightarrow> (Inr (), db1)
      | Inl e \<Rightarrow>
          (Inl e, case in_gateway (release_request retry (C_RequestID call)) db of Inr db1 \<Rightarrow> db1 | Inl _ \<Rightarrow> db))"

text \<open>A worker's failure: the call is settled first, the job is marked in a second transaction.\<close>

definition finish_image_call ::
  "store_faults \<Rightarrow> store_faults \<Rightarrow> CallContext \<Rightarrow> RouteSelection \<Rightarrow> reported_usage \<Rightarrow> int \<Rightarrow> string \<Rightarrow> instant \<Rightarrow> image_db \<Rightarrow> image_db" where
  "finish_image_call fault retry call route usage status code now db =
     db\<lparr>im_gateway := FinishCall fault retry call route usage status code now (im_gateway db)\<rparr>"

definition failImageJob :: "store_faults \<Rightarrow> ImageJob \<Rightarrow> string \<Rightarrow> string \<Rightarrow> instant \<Rightarrow> image_db \<Rightarrow> image_db" where
  "failImageJob fault job code message now db =
     (case UpdateImageJob fault
            (job\<lparr>IJ_Status := ''failed'', IJ_ErrorCode := firstNonEmpty [TrimSpace code, ''image_generation_failed''],
                IJ_ErrorMessage := TrimSpace message, IJ_CompletedAt := Some now\<rparr>) db of
        Inl _ \<Rightarrow> db
      | Inr db1 \<Rightarrow> db1)"

definition finishImageJobFailure ::
  "store_faults \<Rightarrow> store_faults \<Rightarrow> CallContext \<Rightarrow> ImageJob \<Rightarrow> RouteSelection \<Rightarrow> reported_usage \<Rightarrow> int \<Rightarrow> string \<Rightarrow> string \<Rightarrow> instant \<Rightarrow> image_db \<Rightarrow> image_db" where
  "finishImageJobFailure fault retry call job route usage status code message now db =
     failImageJob fault job code message now (finish_image_call fault retry call route usage status code now db)"

section \<open>Undoing the admission of an image job\<close>

definition rollback_period :: "store_faults \<Rightarrow> ImageJob \<Rightarrow> string \<Rightarrow> string \<Rightarrow> quota_db \<Rightarrow> store_error + quota_db" where
  "rollback_period fault job period bucketName q =
     rbind (quotaBucketForUpdate fault (IJ_APIKeyID job) period bucketName [] q) (\<lambda>(row, q1).
     rbind (save_bucket fault (drop_request row) q1) (\<lambda>q2.
     if \<not> IJ_UserQuotaEnabled job then Inr q2
     else let user = TrimSpace (IJ_AttributedUserID job) in
          rbind (quotaBucketForUpdate fault (userQuotaBucketKey user) period bucketName user q2) (\<lambda>(userRow, q3).
            save_bucket fault (refund_row (IJ_ReservedTokens job) (drop_request userRow)) q3)))"

definition rollback_user_minute :: "store_faults \<Rightarrow> ImageJob \<Rightarrow> instant \<Rightarrow> quota_db \<Rightarrow> store_error + quota_db" where
  "rollback_user_minute fault job admittedAt q =
     (let user = TrimSpace (IJ_AttributedUserID job); qid = userQuotaBucketKey user in
      if \<not> IJ_UserQuotaEnabled job then Inr q
      else rbind (db_call fault ''lock.user_quota'') (\<lambda>_.
           rbind (if IJ_UserMinuteRequestHeld job then drop_minute_request fault qid admittedAt user q else Inr q) (\<lambda>q1.
             reconcileQuotaMinuteTokens fault qid (IJ_UserTokenLimitBucket job) (IJ_ReservedTokens job) 0 user q1)))"

definition rollbackImageJobAdmission :: "store_faults \<Rightarrow> ImageJob \<Rightarrow> gateway_db \<Rightarrow> store_error + gateway_db" where
  "rollbackImageJobAdmission fault job db =
     (case IJ_AdmittedAt job of
        None \<Rightarrow> Inr db
      | Some admittedAt \<Rightarrow>
          rbind (db_call fault ''lock.api_key'') (\<lambda>_.
          rbind (admittedQuotaPeriods fault (IJ_RequestID job) admittedAt db) (\<lambda>periods.
          rbind (if IJ_MinuteRequestHeld job then drop_minute_request fault (IJ_APIKeyID job) admittedAt [] (gd_quota db)
                 else Inr (gd_quota db)) (\<lambda>q1.
          rbind (reconcileQuotaMinuteTokens fault (IJ_APIKeyID job) (IJ_TokenLimitBucket job) (IJ_ReservedTokens job) 0 [] q1) (\<lambda>q2.
          rbind (rollback_user_minute fault job admittedAt q2) (\<lambda>q3.
          rbind (rollback_period fault job ''day'' (QP_Day periods) q3) (\<lambda>q4.
          rbind (rollback_period fault job ''month'' (QP_Month periods) q4) (\<lambda>q5.
            Inr (db\<lparr>gd_quota := q5\<rparr>)))))))))"

section \<open>Recovery\<close>

definition recovery_log :: "store_faults \<Rightarrow> string \<Rightarrow> instant \<Rightarrow> ImageJob \<Rightarrow> gateway_db \<Rightarrow> store_error + gateway_db" where
  "recovery_log fault code now job g =
     rbind (db_call fault ''log.count'') (\<lambda>_.
       if list_ex (\<lambda>r. RL_RequestID r = IJ_RequestID job) (gd_logs g) then Inr g
       else rbind (db_call fault ''log.create'') (\<lambda>_.
         Inr (g\<lparr>gd_logs := gd_logs g @
           [\<lparr>RL_RequestID = IJ_RequestID job, RL_ProjectID = IJ_ProjectID job, RL_APIKeyID = IJ_APIKeyID job,
             RL_AttributedUserID = IJ_AttributedUserID job, RL_ModelName = IJ_Model job, RL_ProviderID = [],
             RL_ProviderResourceID = [], RL_StatusCode = 503, RL_ErrorCode = code, RL_CreatedAt = now\<rparr>]\<rparr>)))"

definition recover_job :: "store_faults \<Rightarrow> string \<Rightarrow> instant \<Rightarrow> ImageJob \<Rightarrow> gateway_db \<Rightarrow> store_error + gateway_db" where
  "recover_job fault code now job g =
     rbind (rollbackImageJobAdmission fault job g) (\<lambda>g1.
       if TrimSpace (IJ_RequestID job) = [] then Inr g1
       else rbind (release_request fault (IJ_RequestID job) g1) (\<lambda>g2. recovery_log fault code now job g2))"

fun recover_jobs :: "store_faults \<Rightarrow> string \<Rightarrow> instant \<Rightarrow> ImageJob list \<Rightarrow> gateway_db \<Rightarrow> store_error + gateway_db" where
  "recover_jobs fault code now [] g = Inr g"
| "recover_jobs fault code now (job # rest) g = rbind (recover_job fault code now job g) (recover_jobs fault code now rest)"

definition failed_job :: "string \<Rightarrow> string \<Rightarrow> instant \<Rightarrow> ImageJob \<Rightarrow> ImageJob" where
  "failed_job code message now job =
     job\<lparr>IJ_Status := ''failed'', IJ_ErrorCode := code, IJ_ErrorMessage := message, IJ_CompletedAt := Some now\<rparr>"

definition failImageJobsWhere ::
  "store_faults \<Rightarrow> (ImageJob \<Rightarrow> bool) \<Rightarrow> string \<Rightarrow> string \<Rightarrow> instant \<Rightarrow> image_db \<Rightarrow> store_error + (ImageJob list \<times> image_db)" where
  "failImageJobsWhere fault scope code message now db =
     rbind (db_call fault ''image_job.mark'') (\<lambda>_.
     let db1 = update_jobs (\<lambda>j. scope j \<and> (IJ_Status j = ''queued'' \<or> IJ_Status j = ''running'')) (\<lambda>j. j\<lparr>IJ_Status := ''failing''\<rparr>) db in
     rbind (db_call fault ''image_job.find'') (\<lambda>_.
     let jobs = filter (\<lambda>j. IJ_Status j = ''failing'') (im_jobs db1) in
     if jobs = [] then Inr ([], db1)
     else rbind (db_call fault ''image_job.fail'') (\<lambda>_.
       let db2 = update_jobs (\<lambda>j. IJ_Status j = ''failing'') (failed_job code message now) db1 in
       rbind (in_gateway (recover_jobs fault code now jobs) db2) (\<lambda>db3.
         Inr (map (failed_job code message now) jobs, db3)))))"

definition FailUnfinishedImageJobs ::
  "store_faults \<Rightarrow> string \<Rightarrow> string \<Rightarrow> string \<Rightarrow> instant \<Rightarrow> image_db \<Rightarrow> store_error + (ImageJob list \<times> image_db)" where
  "FailUnfinishedImageJobs fault workerInstance code message now db =
     failImageJobsWhere fault (\<lambda>j. IJ_WorkerInstance j = workerInstance) code message now db"

definition InstanceHeartbeatTTL :: duration where
  "InstanceHeartbeatTTL = 90 * 1000000000"

definition format_RFC3339 :: "instant \<Rightarrow> string" where
  "format_RFC3339 t =
     (case local_date UTC t of (y, m, d) \<Rightarrow>
        pad_int 4 y @ ''-'' @ pad_int 2 m @ ''-'' @ pad_int 2 d @ ''T'' @
        pad_int 2 (local_hour UTC t) @ '':'' @ pad_int 2 (local_minute UTC t) @ '':'' @ pad_int 2 (local_second UTC t) @ ''Z'')"

definition FailAbandonedImageJobs ::
  "store_faults \<Rightarrow> string \<Rightarrow> string \<Rightarrow> instant \<Rightarrow> image_db \<Rightarrow> store_error + (ImageJob list \<times> image_db)" where
  "FailAbandonedImageJobs fault code message now db =
     (let cutoff = format_RFC3339 (now - InstanceHeartbeatTTL);
          live = map fst (filter (\<lambda>(ident, seen). cutoff \<le> seen) (im_heartbeats db))
      in failImageJobsWhere fault (\<lambda>j. IJ_WorkerInstance j = [] \<or> IJ_WorkerInstance j \<notin> set live) code message now db)"

section \<open>What undoing an admission does to the counters\<close>

definition dropped :: "QuotaCounter \<Rightarrow> QuotaCounter" where
  "dropped c = (if N_Requests c > 0 then c\<lparr>N_Requests := N_Requests c - 1\<rparr> else c)"

lemma drop_request_eq: "drop_request row = row\<lparr>B_Counter := dropped (B_Counter row)\<rparr>"
  by (simp add: drop_request_def dropped_def)

lemma refund_drop_eq: "refund_row r (drop_request row) = row\<lparr>B_Counter := refundQuotaReservation (dropped (B_Counter row)) r\<rparr>"
  by (simp add: refund_row_def drop_request_eq)

lemma drop_minute_touches:
  "drop_minute_request f ident t user q = Inr q1 \<Longrightarrow> touches (minute_keys ident) q q1"
proof -
  assume "drop_minute_request f ident t user q = Inr q1"
  then obtain row qm where o: "quotaBucketForUpdate f ident ''minute'' (minuteBucket t) user q = Inr (row, qm)"
    and s: "save_bucket f (row\<lparr>B_Counter := dropped (B_Counter row)\<rparr>) qm = Inr q1"
    by (auto simp: drop_minute_request_def rbind_eq_Inr_iff drop_request_eq)
  show ?thesis using qt.modify_row [OF o s] by (auto intro!: touchesI)
qed

definition job_user :: "ImageJob \<Rightarrow> string" where
  "job_user job = TrimSpace (IJ_AttributedUserID job)"

definition job_ok :: "ImageJob \<Rightarrow> bool" where
  "job_ok job \<longleftrightarrow> (IJ_UserQuotaEnabled job \<longrightarrow> job_user job \<noteq> [] \<and> job_user job \<noteq> unattributedQuotaUserID)"

lemma rollback_period_law:
  assumes "rollback_period f job period bucket q = Inr q'" and "job_ok job" and k: "attribution k \<noteq> []"
  shows "count_of q' k =
    (if k = (IJ_APIKeyID job, period, bucket, quotaAttributionKey []) then dropped (count_of q k)
     else if IJ_UserQuotaEnabled job \<and> k = (userQuotaBucketKey (job_user job), period, bucket, quotaAttributionKey (job_user job))
     then refundQuotaReservation (dropped (count_of q k)) (IJ_ReservedTokens job)
     else count_of q k)"
proof -
  let ?key = "(IJ_APIKeyID job, period, bucket, quotaAttributionKey [])"
  let ?user = "(userQuotaBucketKey (job_user job), period, bucket, quotaAttributionKey (job_user job))"
  from assms(1) obtain row q1 q2 where o1: "quotaBucketForUpdate f (IJ_APIKeyID job) period bucket [] q = Inr (row, q1)"
    and s1: "save_bucket f (row\<lparr>B_Counter := dropped (B_Counter row)\<rparr>) q1 = Inr q2"
    and rest: "(if \<not> IJ_UserQuotaEnabled job then Inr q2
      else let user = TrimSpace (IJ_AttributedUserID job) in
          rbind (quotaBucketForUpdate f (userQuotaBucketKey user) period bucket user q2) (\<lambda>(userRow, q3).
            save_bucket f (refund_row (IJ_ReservedTokens job) (drop_request userRow)) q3)) = Inr q'"
    by (auto simp: rollback_period_def rbind_eq_Inr_iff drop_request_eq)
  have first: "count_of q2 j = (if j = ?key then dropped (count_of q j) else count_of q j)" if "attribution j \<noteq> []" for j
    using qt.modify_row [OF o1 s1 that] qt.read_row [OF o1] by simp
  show ?thesis
  proof (cases "IJ_UserQuotaEnabled job")
    case True
    with rest obtain urow q3 where o2: "quotaBucketForUpdate f (userQuotaBucketKey (job_user job)) period bucket (job_user job) q2 = Inr (urow, q3)"
      and s2: "save_bucket f (urow\<lparr>B_Counter := refundQuotaReservation (dropped (B_Counter urow)) (IJ_ReservedTokens job)\<rparr>) q3 = Inr q'"
      by (auto simp: Let_def rbind_eq_Inr_iff job_user_def refund_drop_eq)
    have "?user \<noteq> ?key" using assms(2) True by (auto simp: job_ok_def quotaAttributionKey_def job_user_def)
    then show ?thesis using qt.modify_row [OF o2 s2 k] qt.read_row [OF o2] first k True by auto
  qed (use rest first k in auto)
qed

lemma rollback_user_minute_touches:
  assumes "rollback_user_minute f job t q = Inr q1"
  shows "touches (minute_keys (userQuotaBucketKey (job_user job))) q q1"
proof (cases "IJ_UserQuotaEnabled job")
  case True
  let ?id = "userQuotaBucketKey (job_user job)"
  from assms True obtain qm where a: "(if IJ_UserMinuteRequestHeld job then drop_minute_request f ?id t (job_user job) q else Inr q) = Inr qm"
    and b: "reconcileQuotaMinuteTokens f ?id (IJ_UserTokenLimitBucket job) (IJ_ReservedTokens job) 0 (job_user job) qm = Inr q1"
    unfolding rollback_user_minute_def Let_def job_user_def by (auto simp: rbind_eq_Inr_iff)
  have "touches (minute_keys ?id) q qm" using a drop_minute_touches by (auto split: if_splits)
  then show ?thesis using touches_trans [OF _ reconcile_touches [OF b]] by fastforce
qed (use assms in \<open>simp add: rollback_user_minute_def Let_def\<close>)

text \<open>The counters of the periods after an admission was undone.\<close>

definition rollback_spec :: "ImageJob \<Rightarrow> quotaPeriods \<Rightarrow> quota_db \<Rightarrow> counter_key \<Rightarrow> QuotaCounter" where
  "rollback_spec job periods q k =
     (let c = count_of q k; is = (\<lambda>ks. k = fst ks \<or> k = snd ks) in
      if is (period_keys (IJ_APIKeyID job) [] periods) then dropped c
      else if IJ_UserQuotaEnabled job \<and> is (period_keys (userQuotaBucketKey (job_user job)) (job_user job) periods)
      then refundQuotaReservation (dropped c) (IJ_ReservedTokens job)
      else c)"

lemma rollback_law:
  assumes "rollbackImageJobAdmission f job db = Inr db1" and "IJ_AdmittedAt job = Some t" and "job_ok job"
  obtains periods where "admittedQuotaPeriods f (IJ_RequestID job) t db = Inr periods"
    "\<And>k. attribution k \<noteq> [] \<Longrightarrow> fst (snd k) \<noteq> ''minute'' \<Longrightarrow>
       count_of (gd_quota db1) k = rollback_spec job periods (gd_quota db) k"
    "gd_logs db1 = gd_logs db"
proof -
  from assms(1,2) obtain periods q1 q2 q3 q4 q5
    where p: "admittedQuotaPeriods f (IJ_RequestID job) t db = Inr periods"
      and m1: "(if IJ_MinuteRequestHeld job then drop_minute_request f (IJ_APIKeyID job) t [] (gd_quota db) else Inr (gd_quota db)) = Inr q1"
      and m2: "reconcileQuotaMinuteTokens f (IJ_APIKeyID job) (IJ_TokenLimitBucket job) (IJ_ReservedTokens job) 0 [] q1 = Inr q2"
      and m3: "rollback_user_minute f job t q2 = Inr q3"
      and r1: "rollback_period f job ''day'' (QP_Day periods) q3 = Inr q4"
      and r2: "rollback_period f job ''month'' (QP_Month periods) q4 = Inr q5"
      and db1: "db1 = db\<lparr>gd_quota := q5\<rparr>"
    by (auto simp: rollbackImageJobAdmission_def rbind_eq_Inr_iff)
  have "touches (minute_keys (IJ_APIKeyID job)) (gd_quota db) q1" using m1 drop_minute_touches by (auto split: if_splits)
  from touches_trans [OF touches_trans [OF this reconcile_touches [OF m2]] rollback_user_minute_touches [OF m3]]
  have "count_of q3 k = count_of (gd_quota db) k" if "attribution k \<noteq> []" "fst (snd k) \<noteq> ''minute''" for k
    using that by (auto dest!: touchesD [where k = k] simp: minute_keys_def)
  then have "count_of (gd_quota db1) k = rollback_spec job periods (gd_quota db) k"
    if "attribution k \<noteq> []" "fst (snd k) \<noteq> ''minute''" for k
    using rollback_period_law [OF r1 assms(3) that(1)] rollback_period_law [OF r2 assms(3) that(1)] that
    by (auto simp: db1 rollback_spec_def Let_def period_keys_def)
  moreover have "gd_logs db1 = gd_logs db" by (simp add: db1)
  ultimately show thesis using that p by blast
qed

section \<open>Recovery of one job\<close>

lemma rollback_status [simp]:
  "rollbackImageJobAdmission f (job\<lparr>IJ_Status := s\<rparr>) db = rollbackImageJobAdmission f job db"
proof -
  have "rollback_period f (job\<lparr>IJ_Status := s\<rparr>) = rollback_period f job"
    by (intro ext) (simp add: rollback_period_def cong: if_cong)
  moreover have "rollback_user_minute f (job\<lparr>IJ_Status := s\<rparr>) = rollback_user_minute f job"
    by (intro ext) (simp add: rollback_user_minute_def cong: if_cong)
  ultimately show ?thesis
    by (cases "IJ_AdmittedAt job") (simp_all add: rollbackImageJobAdmission_def cong: if_cong)
qed

lemma recover_status [simp]: "recover_job f code now (job\<lparr>IJ_Status := s\<rparr>) g = recover_job f code now job g"
proof -
  have "recovery_log f code now (job\<lparr>IJ_Status := s\<rparr>) = recovery_log f code now job"
    by (intro ext) (simp add: recovery_log_def cong: if_cong)
  then show ?thesis by (simp add: recover_job_def cong: if_cong)
qed

lemma marked_jobs:
  assumes "\<forall>j \<in> set jobs. IJ_Status j \<noteq> ''failing''"
  shows "filter (\<lambda>j. IJ_Status j = ''failing'') (map (\<lambda>j. if sel j then j\<lparr>IJ_Status := ''failing''\<rparr> else j) jobs) =
    map (\<lambda>j. j\<lparr>IJ_Status := ''failing''\<rparr>) (filter sel jobs)"
  using assms by (induction jobs) auto

text \<open>The jobs a recovery claims: the unfinished ones in its scope.\<close>

definition claimed :: "(ImageJob \<Rightarrow> bool) \<Rightarrow> image_db \<Rightarrow> ImageJob list" where
  "claimed scope db = filter (\<lambda>j. scope j \<and> (IJ_Status j = ''queued'' \<or> IJ_Status j = ''running'')) (im_jobs db)"

lemma recover_jobs_status:
  "recover_jobs f code now (map (\<lambda>j. j\<lparr>IJ_Status := s\<rparr>) jobs) = recover_jobs f code now jobs"
  by (induction jobs) (auto intro!: ext)

lemma update_jobs_simps [simp]:
  "im_gateway (update_jobs sel upd db) = im_gateway db"
  "im_jobs (update_jobs sel upd db) = map (\<lambda>j. if sel j then upd j else j) (im_jobs db)"
  by (simp_all add: update_jobs_def)

lemma failImageJobsWhere_law:
  assumes "failImageJobsWhere f scope code message now db = Inr (js, db2)" and "\<forall>j \<in> set (im_jobs db). IJ_Status j \<noteq> ''failing''"
  shows "recover_jobs f code now (claimed scope db) (im_gateway db) = Inr (im_gateway db2)"
    and "im_jobs db2 = map (\<lambda>j. if scope j \<and> (IJ_Status j = ''queued'' \<or> IJ_Status j = ''running'')
      then failed_job code message now j else j) (im_jobs db)"
proof -
  let ?sel = "\<lambda>j. scope j \<and> (IJ_Status j = ''queued'' \<or> IJ_Status j = ''running'')"
  define db1 where "db1 = update_jobs ?sel (\<lambda>j. j\<lparr>IJ_Status := ''failing''\<rparr>) db"
  define fdb where "fdb = update_jobs (\<lambda>j. IJ_Status j = ''failing'') (failed_job code message now) db1"
  define js0 where "js0 = filter (\<lambda>j. IJ_Status j = ''failing'') (im_jobs db1)"
  have jobs: "js0 = map (\<lambda>j. j\<lparr>IJ_Status := ''failing''\<rparr>) (claimed scope db)"
    using marked_jobs [OF assms(2), of ?sel] by (simp add: js0_def db1_def claimed_def)
  have main: "if js0 = [] then db2 = db1 else \<exists>g. recover_jobs f code now js0 (im_gateway db) = Inr g \<and> db2 = fdb\<lparr>im_gateway := g\<rparr>"
    using assms(1) unfolding failImageJobsWhere_def Let_def db1_def [symmetric] js0_def [symmetric] fdb_def [symmetric]
    by (auto simp: rbind_eq_Inr_iff in_gateway_def fdb_def db1_def)
  show "recover_jobs f code now (claimed scope db) (im_gateway db) = Inr (im_gateway db2)"
    using main jobs by (auto simp: recover_jobs_status db1_def split: if_splits)
  have fj: "failed_job code message now (j\<lparr>IJ_Status := s\<rparr>) = failed_job code message now j" for j s
    by (simp add: failed_job_def)
  have failed: "im_jobs fdb = map (\<lambda>j. if ?sel j then failed_job code message now j else j) (im_jobs db)"
    using assms(2) by (auto simp: fdb_def db1_def fj)
  show "im_jobs db2 = map (\<lambda>j. if ?sel j then failed_job code message now j else j) (im_jobs db)"
  proof (cases "claimed scope db = []")
    case True
    then have "\<forall>j \<in> set (im_jobs db). \<not> ?sel j" by (auto simp: claimed_def filter_empty_conv)
    then have "im_jobs db1 = im_jobs db" "map (\<lambda>j. if ?sel j then failed_job code message now j else j) (im_jobs db) = im_jobs db"
      by (auto simp: db1_def intro!: map_idI)
    then show ?thesis using main jobs True by simp
  next
    case False
    then show ?thesis using main jobs failed by auto
  qed
qed

lemma recover_job_law:
  assumes "recover_job f code now job g = Inr g1" and "IJ_AdmittedAt job = Some t" and "job_ok job"
  obtains periods where "admittedQuotaPeriods f (IJ_RequestID job) t g = Inr periods"
    "\<And>k. attribution k \<noteq> [] \<Longrightarrow> fst (snd k) \<noteq> ''minute'' \<Longrightarrow>
       count_of (gd_quota g1) k = rollback_spec job periods (gd_quota g) k"
proof -
  from assms(1) obtain ga where r: "rollbackImageJobAdmission f job g = Inr ga"
    and rest: "(if TrimSpace (IJ_RequestID job) = [] then Inr ga
       else rbind (release_request f (IJ_RequestID job) ga) (recovery_log f code now job)) = Inr g1"
    by (auto simp: recover_job_def rbind_eq_Inr_iff)
  have log: "recovery_log f code now job ga' = Inr g1 \<Longrightarrow> gd_quota g1 = gd_quota ga'" for ga'
    by (auto simp: recovery_log_def rbind_eq_Inr_iff split: if_splits)
  have "qd_buckets (gd_quota g1) = qd_buckets (gd_quota ga)"
    using rest log release_request_law(2) by (auto simp: rbind_eq_Inr_iff split: if_splits)
  then have "count_of (gd_quota g1) = count_of (gd_quota ga)" by (rule count_of_buckets)
  with rollback_law [OF r assms(2,3)] that show thesis by metis
qed

section \<open>From creation to recovery\<close>

lemma created_job:
  assumes "CreateImageJobWithAdmission f env ck keyID name r job0 rid jid db = Inr ((job, call), db1)"
  shows "admitCallTransaction f env ck keyID name r rid (im_gateway db) = Inr (call, im_gateway db1)"
    and "im_jobs db1 = im_jobs db @ [job]" and "IJ_RequestID job = C_RequestID call"
    and "IJ_AttributedUserID job = C_AttributedUserID call" and "IJ_UserQuotaEnabled job = C_UserQuotaEnabled call"
    and "IJ_ReservedTokens job = C_ReservedTokens call" and "IJ_APIKeyID job = IJ_APIKeyID job0"
    and "C_StartedAt call \<noteq> zero_time \<Longrightarrow> IJ_AdmittedAt job = Some (C_StartedAt call)"
  using assms
  by (auto simp: CreateImageJobWithAdmission_def createImageJob_def imageJobWithAdmission_def Let_def rbind_eq_Inr_iff split: if_splits)

lemma admitted_fields:
  assumes "admitCallTransaction f env ck keyID name r rid db = Inr (call, db1)"
    and "authorize_call f (ck_host ck) keyID name db = Inr (key, project)"
  shows "C_StartedAt call = ck_db ck" and "C_AttributedUserID call = usageAttributionUserID key project"
  using assms(1) by (cases rule: admitCallTransaction_cases; use assms(2) in \<open>simp add: admitted_call_def Let_def\<close>)+

lemma raise_alerts_entries: "raise_alerts f ev checks db = Inr db1 \<Longrightarrow> gd_entries db1 = gd_entries db"
  by (induction f ev checks db rule: raise_alerts.induct) (auto simp: rbind_eq_Inr_iff split: if_splits)

lemma settle_quota_entries: "settle_quota f call usage t db = Inr db1 \<Longrightarrow> gd_entries db1 = gd_entries db"
  by (fastforce simp: settle_quota_def Let_def rbind_eq_Inr_iff alert_key_def settle_user_def raiseQuotaAlerts_def
      raiseUserQuotaAlerts_def dest: raise_alerts_entries split: option.splits if_splits)

lemma finish_entries:
  assumes "finishCallTransaction f call route usage st ec now db = Inr db1" and "map_of (gd_entries db) i = Some e"
  shows "map_of (gd_entries db1) i = Some e"
proof -
  have rel: "release_request f rid a = Inr b \<Longrightarrow> gd_entries b = gd_entries a" for rid a b
    by (auto simp: release_request_def rbind_eq_Inr_iff)
  have "release_request f (C_RequestID call) db = Inr db1 \<or> settle_call f call route usage st ec now db = Inr db1"
    using assms(1) by (auto simp: finishCallTransaction_def rbind_eq_Inr_iff split: if_splits)
  then show ?thesis
  proof
    assume "settle_call f call route usage st ec now db = Inr db1"
    then obtain d1 d2 d3 d4 d5
      where q: "(if K_ID (C_Key call) \<noteq> [] then settle_quota f call usage (if C_StartedAt call = zero_time then now else C_StartedAt call) db
          else Inr db) = Inr d1"
        and u: "record_usage f call usage now d1 = Inr d2" and l: "record_log f call route st ec now d2 = Inr d3"
        and ob: "record_observations f route usage st ec now d3 = Inr d4" and sh: "settleMeteringShadow f call d4 = Inr d5"
        and r: "release_request f (C_RequestID call) d5 = Inr db1"
      unfolding settle_call_def rbind_eq_Inr_iff by blast
    have "gd_entries d1 = gd_entries db" using q settle_quota_entries by (auto split: if_splits)
    moreover have "gd_entries d2 = gd_entries d1" using u by (auto simp: record_usage_def rbind_eq_Inr_iff split: if_splits)
    moreover have "gd_entries d3 = gd_entries d2" using l by (auto simp: record_log_def rbind_eq_Inr_iff)
    moreover have "gd_entries d4 = gd_entries d3" using record_observations_keeps [OF ob] by simp
    ultimately have "map_of (gd_entries d4) i = Some e" using assms(2) by simp
    then have "map_of (gd_entries d5) i = Some e"
      using sh by (auto simp: settleMeteringShadow_def saveMeteringEntry_def rbind_eq_Inr_iff map_add_def
          split: option.splits metering_payload.splits if_splits)
    then show ?thesis using rel [OF r] by simp
  qed (use rel assms(2) in simp)
qed

lemma recovered_counts:
  assumes "failImageJobsWhere f scope code message now db = Inr (js, db2)" and "\<forall>j \<in> set (im_jobs db). IJ_Status j \<noteq> ''failing''"
    and "claimed scope db = [job]" and "IJ_AdmittedAt job = Some t" and "job_ok job" and "IJ_RequestID job \<noteq> []"
    and "map_of (gd_entries (im_gateway db)) (IJ_RequestID job @ '':admission'') = Some (Admission (Some periods))"
    and "attribution k \<noteq> []" and "fst (snd k) \<noteq> ''minute''"
  shows "count_of (gd_quota (im_gateway db2)) k = rollback_spec job periods (gd_quota (im_gateway db)) k"
proof -
  have "recover_job f code now job (im_gateway db) = Inr (im_gateway db2)"
    using failImageJobsWhere_law(1) [OF assms(1,2)] assms(3) by (auto simp: rbind_eq_Inr_iff)
  then show ?thesis
  proof (rule recover_job_law [OF _ assms(4,5)])
    fix p
    assume p: "admittedQuotaPeriods f (IJ_RequestID job) t (im_gateway db) = Inr p"
      and law: "\<And>k. attribution k \<noteq> [] \<Longrightarrow> fst (snd k) \<noteq> ''minute'' \<Longrightarrow>
       count_of (gd_quota (im_gateway db2)) k = rollback_spec job p (gd_quota (im_gateway db)) k"
    from p have "p = periods" using assms(6,7) by (auto simp: admittedQuotaPeriods_def Let_def rbind_eq_Inr_iff)
    with law [OF assms(8,9)] show ?thesis by simp
  qed
qed

text \<open>What recovery finds of the admission of a job.\<close>

lemma created_context:
  assumes "CreateImageJobWithAdmission f env ck keyID name r job0 rid jid db = Inr ((job, call), db1)"
    and "authorize_call f (ck_host ck) keyID name (im_gateway db) = Inr (key, project)"
    and "call_limits env key project (im_gateway db) = (effective, scopes, policy)" and "Enabled policy"
    and "currentQuotaPeriods f env (ck_db ck) (im_gateway db) = Inr periods"
    and "rid \<noteq> []" and "IJ_APIKeyID job0 = keyID" and "ck_db ck \<noteq> zero_time"
  shows "IJ_AdmittedAt job = Some (ck_db ck)" and "job_ok job" and "IJ_RequestID job = rid" and "IJ_APIKeyID job = K_ID key"
    and "IJ_UserQuotaEnabled job" and "job_user job = UP_UserID policy" and "IJ_ReservedTokens job = max r 0"
    and "map_of (gd_entries (im_gateway db1)) (rid @ '':admission'') = Some (Admission (Some periods))"
proof -
  note c = created_job [OF assms(1)]
  note ctx = admitted_context [OF c(1) assms(2-6)] and u = call_limits_user [OF assms(3,4)]
  note fl = admitted_fields [OF c(1) assms(2)]
  have user: "job_user job = UP_UserID policy" using u(1) by (simp add: job_user_def c(4) fl)
  then show "job_user job = UP_UserID policy" .
  show "IJ_AdmittedAt job = Some (ck_db ck)" using c(8) fl(1) assms(8) by simp
  have "UP_UserID policy \<noteq> []" using assms(4) by (auto simp: Enabled_def)
  then show "job_ok job" using u user by (simp add: job_ok_def)
  show "IJ_RequestID job = rid" "IJ_APIKeyID job = K_ID key" "IJ_UserQuotaEnabled job" "IJ_ReservedTokens job = max r 0"
    "map_of (gd_entries (im_gateway db1)) (rid @ '':admission'') = Some (Admission (Some periods))"
    using c ctx assms(7) by simp_all
qed

lemma dropped_plus: "0 \<le> N_Requests c \<Longrightarrow> N_Requests c < max_int64 \<Longrightarrow> dropped (plus_request c) = c"
proof -
  assume "0 \<le> N_Requests c" "N_Requests c < max_int64"
  then have "wrap64 (N_Requests c + 1) = N_Requests c + 1" by (intro wrap64_id) (simp add: int64_bounds)
  with \<open>0 \<le> N_Requests c\<close> show ?thesis by (simp add: dropped_def plus_request_def)
qed

lemma dropped_total: "dropped (c\<lparr>N_TotalTokens := t\<rparr>) = (dropped c)\<lparr>N_TotalTokens := t\<rparr>"
  by (simp add: dropped_def)

lemma refund_dropped_reserved:
  assumes "in_int64 r" and "0 \<le> N_TotalTokens c" and "N_TotalTokens c + max r 0 \<le> max_int64"
    and "0 \<le> N_Requests c" and "N_Requests c < max_int64"
  shows "refundQuotaReservation (dropped (c\<lparr>N_Requests := wrap64 (N_Requests c + 1),
      N_TotalTokens := saturatingAddNonNegative (N_TotalTokens c) (max r 0)\<rparr>)) (max r 0) = c"
proof -
  have "dropped (c\<lparr>N_Requests := wrap64 (N_Requests c + 1), N_TotalTokens := saturatingAddNonNegative (N_TotalTokens c) (max r 0)\<rparr>) =
      c\<lparr>N_TotalTokens := saturatingAddNonNegative (N_TotalTokens c) (max r 0)\<rparr>"
    using dropped_plus [OF assms(4,5)] dropped_total [where c = "plus_request c"] by (simp add: plus_request_def)
  moreover have "refundQuotaReservation x (max r 0) = refundQuotaReservation x r" for x
    by (simp add: refundQuotaReservation_def Let_def)
  ultimately show ?thesis using refund_reserve [OF assms(1-3)] by simp
qed

lemma recovery_law:
  assumes create: "CreateImageJobWithAdmission f env ck keyID name r job0 rid jid db = Inr ((job, call), db1)"
    and auth: "authorize_call f (ck_host ck) keyID name (im_gateway db) = Inr (key, project)"
    and lim: "call_limits env key project (im_gateway db) = (effective, scopes, policy)" "Enabled policy"
    and per: "currentQuotaPeriods f env (ck_db ck) (im_gateway db) = Inr periods"
    and shape: "rid \<noteq> []" "IJ_APIKeyID job0 = keyID" "ck_db ck \<noteq> zero_time"
    and fail: "failImageJobsWhere f' scope code message now (db1\<lparr>im_gateway := g\<rparr>) = Inr (js, db2)"
    and jobs: "\<forall>j \<in> set (im_jobs db1). IJ_Status j \<noteq> ''failing''" "claimed scope db1 = [job]"
    and entry: "map_of (gd_entries g) (rid @ '':admission'') = Some (Admission (Some periods))"
    and k: "attribution k \<noteq> []" "fst (snd k) \<noteq> ''minute''"
  shows "count_of (gd_quota (im_gateway db2)) k =
    (if k = fst (key_period key periods) \<or> k = snd (key_period key periods) then dropped (count_of (gd_quota g) k)
     else if k = fst (user_period policy periods) \<or> k = snd (user_period policy periods)
     then refundQuotaReservation (dropped (count_of (gd_quota g) k)) (max r 0)
     else count_of (gd_quota g) k)"
proof -
  note ctx = created_context [OF create auth lim per shape]
  have "count_of (gd_quota (im_gateway db2)) k = rollback_spec job periods (gd_quota g) k"
    using recovered_counts [OF fail, of job "ck_db ck" periods k] jobs ctx shape(1) entry k by (simp add: claimed_def)
  then show ?thesis by (simp add: rollback_spec_def Let_def ctx(4-7))
qed

lemma undo_admission:
  assumes adm: "count_of q1 k = admission_spec key policy r periods q0 k" and "Enabled policy"
    and rec: "count_of q2 k =
      (if k = fst (key_period key periods) \<or> k = snd (key_period key periods) then dropped (count_of q1 k)
       else if k = fst (user_period policy periods) \<or> k = snd (user_period policy periods)
       then refundQuotaReservation (dropped (count_of q1 k)) (max r 0)
       else count_of q1 k)"
    and before: "c = (if k = fst (key_period key periods) \<or> k = snd (key_period key periods)
      then count_of q0 k else user_count (UP_UserID policy) q0 k)"
    and k: "k = fst (key_period key periods) \<or> k = snd (key_period key periods) \<or>
      k = fst (user_period policy periods) \<or> k = snd (user_period policy periods)"
    and bounds: "0 \<le> N_Requests c" "N_Requests c < max_int64" "in_int64 r" "0 \<le> N_TotalTokens c" "N_TotalTokens c + max r 0 \<le> max_int64"
  shows "count_of q2 k = c"
proof (cases "k = fst (key_period key periods) \<or> k = snd (key_period key periods)")
  case True
  then have "count_of q1 k = plus_request c" using adm before by (auto simp: admission_spec_def plus_request_def)
  then show ?thesis using rec True dropped_plus [OF bounds(1,2)] by auto
next
  case False
  then show ?thesis
    using rec adm before assms(2) k refund_dropped_reserved [OF bounds(3-5,1,2)] by (auto simp: admission_spec_def)
qed

section \<open>Properties\<close>

text \<open>(C17) Recovery gives an admission back: after a job whose worker stopped before the call was settled
  has been failed, the day and month counters of the key are what they were before the job was
  created, and those of its user are the user's history as of then.\<close>

theorem recovery_restores:
  assumes "CreateImageJobWithAdmission f env ck keyID name r job0 rid jid db = Inr ((job, call), db1)"
    and "authorize_call f (ck_host ck) keyID name (im_gateway db) = Inr (key, project)"
    and "call_limits env key project (im_gateway db) = (effective, scopes, policy)" and "Enabled policy"
    and "currentQuotaPeriods f env (ck_db ck) (im_gateway db) = Inr periods"
    and "rid \<noteq> []" and "IJ_APIKeyID job0 = keyID" and "ck_db ck \<noteq> zero_time"
    and "failImageJobsWhere f' scope code message now db1 = Inr (js, db2)"
    and "\<forall>j \<in> set (im_jobs db1). IJ_Status j \<noteq> ''failing''" and "claimed scope db1 = [job]"
    and before: "c = (if k = fst (key_period key periods) \<or> k = snd (key_period key periods)
      then count_of (gd_quota (im_gateway db)) k else user_count (UP_UserID policy) (gd_quota (im_gateway db)) k)"
    and "k = fst (key_period key periods) \<or> k = snd (key_period key periods) \<or>
      k = fst (user_period policy periods) \<or> k = snd (user_period policy periods)"
    and "0 \<le> N_Requests c" and "N_Requests c < max_int64" and "in_int64 r"
    and "0 \<le> N_TotalTokens c" and "N_TotalTokens c + max r 0 \<le> max_int64"
  shows "count_of (gd_quota (im_gateway db2)) k = c"
proof -
  have k: "attribution k \<noteq> []" "fst (snd k) \<noteq> ''minute''" using assms(13) by (auto simp: period_keys_def)
  note adm = admission_law [OF created_job(1) [OF assms(1)] assms(2,3,5) k(2,1)]
  have same: "db1\<lparr>im_gateway := im_gateway db1\<rparr> = db1" by simp
  note rec = recovery_law [OF assms(1-8), where g = "im_gateway db1", unfolded same, OF assms(9-11) created_context(8) [OF assms(1-8)] k]
  show ?thesis by (rule undo_admission [OF adm assms(4) rec before assms(13-18)])
qed

text \<open>(C18) Recovery does not look whether the call was settled already: when a worker settles the call of
  a failed job and stops before the job is marked, the next sweep undoes the admission once more. The
  settled request, which its log row shows, is not counted any more, and the user's counters lose the
  reservation a second time.\<close>

theorem recovery_uncounts_settled:
  assumes "CreateImageJobWithAdmission f env ck keyID name r job0 rid jid db = Inr ((job, call), db1)"
    and "authorize_call f (ck_host ck) keyID name (im_gateway db) = Inr (key, project)"
    and "call_limits env key project (im_gateway db) = (effective, scopes, policy)" and "Enabled policy"
    and "currentQuotaPeriods f env (ck_db ck) (im_gateway db) = Inr periods"
    and "rid \<noteq> []" and "IJ_APIKeyID job0 = keyID" and "ck_db ck \<noteq> zero_time"
    and "finishCallTransaction f2 call route usage st ec t (im_gateway db1) = Inr g"
    and "failImageJobsWhere f' scope code message now (db1\<lparr>im_gateway := g\<rparr>) = Inr (js, db2)"
    and "\<forall>j \<in> set (im_jobs db1). IJ_Status j \<noteq> ''failing''" and "claimed scope db1 = [job]"
    and "k = fst (key_period key periods)" and "u = fst (user_period policy periods)"
    and "keyID \<noteq> []" and "\<not> list_ex (\<lambda>l. RL_RequestID l = rid) (gd_logs (im_gateway db))"
    and n: "n = N_Requests (count_of (gd_quota (im_gateway db)) k)" "0 \<le> n" "n < max_int64"
  shows "list_ex (\<lambda>l. RL_RequestID l = rid) (gd_logs g) \<and>
    N_Requests (count_of (gd_quota g) k) = n + 1 \<and> N_Requests (count_of (gd_quota (im_gateway db2)) k) = n \<and>
    count_of (gd_quota (im_gateway db2)) u = refundQuotaReservation (dropped (count_of (gd_quota g) u)) (max r 0)"
proof -
  note c = created_job [OF assms(1)]
  note ctx = admitted_context [OF c(1) assms(2-6)]
  have log: "list_ex (\<lambda>l. RL_RequestID l = rid) (gd_logs g)"
    using finishCallTransaction_settled [OF assms(9)] ctx(1) assms(6) by (simp add: settled_def)
  have entry: "map_of (gd_entries g) (rid @ '':admission'') = Some (Admission (Some periods))"
    by (rule finish_entries [OF assms(9) ctx(10)])
  have ne: "u \<noteq> fst (key_period key periods)" "u \<noteq> snd (key_period key periods)"
    using assms(14) call_limits_user [OF assms(3,4)] assms(4)
    by (auto simp: period_keys_def quotaAttributionKey_def Enabled_def)
  have k: "attribution k \<noteq> []" "fst (snd k) \<noteq> ''minute''" "attribution u \<noteq> []" "fst (snd u) \<noteq> ''minute''"
    using assms(13,14) by (auto simp: period_keys_def)
  have nolog: "\<not> list_ex (\<lambda>l. RL_RequestID l = C_RequestID call) (gd_logs (im_gateway db1))" using assms(16) ctx by simp
  have "K_ID (C_Key call) \<noteq> []" using ctx assms(15) by simp
  then obtain p where "admittedQuotaPeriods f2 rid (if C_StartedAt call = zero_time then t else C_StartedAt call) (im_gateway db1) = Inr p"
    and "count_of (gd_quota g) k = settlement_spec call usage p (gd_quota (im_gateway db1)) k"
    using settlement_law [OF assms(9) nolog _ ctx(8)] k by (metis ctx(1))
  then have "count_of (gd_quota g) k = settlement_spec call usage periods (gd_quota (im_gateway db1)) k"
    using ctx(10) assms(6) by (auto simp: admittedQuotaPeriods_def Let_def rbind_eq_Inr_iff)
  then have "N_Requests (count_of (gd_quota g) k) = N_Requests (count_of (gd_quota (im_gateway db1)) k)"
    by (simp add: settlement_spec_def Let_def assms(13) ctx(2) charge_def addUsage_def)
  moreover have "N_Requests (count_of (gd_quota (im_gateway db1)) k) = n + 1"
  proof -
    have "wrap64 (n + 1) = n + 1" using n(2,3) by (intro wrap64_id) (simp add: int64_bounds)
    then show ?thesis
      using admission_law [OF c(1) assms(2,3,5) k(2,1)] assms(13) n(1) by (simp add: admission_spec_def)
  qed
  ultimately have "N_Requests (count_of (gd_quota g) k) = n + 1"
    by simp
  then show ?thesis
    using log ne k recovery_law [OF assms(1-8,10-12) entry, of k] recovery_law [OF assms(1-8,10-12) entry, of u] assms(13,14) n
    by (simp add: dropped_def)
qed

lemma drop_minute_total: "\<exists>q1. drop_minute_request (\<lambda>_. None) ident t user q = Inr q1"
proof -
  obtain row qm where "quotaBucketForUpdate (\<lambda>_. None) ident ''minute'' (minuteBucket t) user q = Inr (row, qm)" using open_total by blast
  then show ?thesis using save_total by (simp add: drop_minute_request_def)
qed

lemma rollback_period_total: "\<exists>q1. rollback_period (\<lambda>_. None) job period bucket q = Inr q1"
proof -
  obtain row q1 where o: "quotaBucketForUpdate (\<lambda>_. None) (IJ_APIKeyID job) period bucket [] q = Inr (row, q1)" using open_total by blast
  obtain q2 where s: "save_bucket (\<lambda>_. None) (drop_request row) q1 = Inr q2" using save_total by blast
  obtain urow q3 where "quotaBucketForUpdate (\<lambda>_. None) (userQuotaBucketKey (TrimSpace (IJ_AttributedUserID job))) period bucket
      (TrimSpace (IJ_AttributedUserID job)) q2 = Inr (urow, q3)" using open_total by blast
  then show ?thesis using o s save_total by (simp add: rollback_period_def Let_def)
qed

lemma rollback_user_minute_total: "\<exists>q1. rollback_user_minute (\<lambda>_. None) job t q = Inr q1"
  using drop_minute_total reconcile_total
  by (cases "IJ_UserMinuteRequestHeld job") (simp_all add: rollback_user_minute_def Let_def, metis rbind.simps(2))

lemma rollback_total:
  assumes "admittedQuotaPeriods (\<lambda>_. None) (IJ_RequestID job) t g = Inr periods" and "IJ_AdmittedAt job = Some t"
  shows "\<exists>g1. rollbackImageJobAdmission (\<lambda>_. None) job g = Inr g1"
proof -
  have "\<exists>q1. (if IJ_MinuteRequestHeld job then drop_minute_request (\<lambda>_. None) (IJ_APIKeyID job) t [] (gd_quota g) else Inr (gd_quota g)) = Inr q1"
    using drop_minute_total by simp
  then obtain q1 where "(if IJ_MinuteRequestHeld job then drop_minute_request (\<lambda>_. None) (IJ_APIKeyID job) t [] (gd_quota g)
    else Inr (gd_quota g)) = Inr q1" ..
  moreover obtain q2 where "reconcileQuotaMinuteTokens (\<lambda>_. None) (IJ_APIKeyID job) (IJ_TokenLimitBucket job) (IJ_ReservedTokens job) 0 [] q1 = Inr q2"
    using reconcile_total by blast
  moreover obtain q3 where "rollback_user_minute (\<lambda>_. None) job t q2 = Inr q3" using rollback_user_minute_total by blast
  moreover obtain q4 where "rollback_period (\<lambda>_. None) job ''day'' (QP_Day periods) q3 = Inr q4" using rollback_period_total by blast
  moreover obtain q5 where "rollback_period (\<lambda>_. None) job ''month'' (QP_Month periods) q4 = Inr q5" using rollback_period_total by blast
  ultimately show ?thesis using assms by (simp add: rollbackImageJobAdmission_def)
qed

lemma recover_total:
  assumes "admittedQuotaPeriods (\<lambda>_. None) (IJ_RequestID job) t g = Inr periods" and "IJ_AdmittedAt job = Some t"
  shows "\<exists>g1. recover_job (\<lambda>_. None) code now job g = Inr g1"
proof -
  obtain g1 where "rollbackImageJobAdmission (\<lambda>_. None) job g = Inr g1" using rollback_total [OF assms] by blast
  then show ?thesis
    by (simp add: recover_job_def release_request_def deleteRequestConcurrencyLeases_def Let_def recovery_log_def)
qed

section \<open>Witnesses of recovery\<close>

definition blank_job :: ImageJob where
  "blank_job = \<lparr>IJ_ID = [], IJ_ProjectID = ''p'', IJ_APIKeyID = ''k'', IJ_AttributedUserID = [], IJ_RequestID = [],
     IJ_UserQuotaEnabled = False, IJ_UserMinuteRequestHeld = False, IJ_UserTokenLimitBucket = [], IJ_TokenLimitBucket = [],
     IJ_MinuteRequestHeld = False, IJ_ReservedTokens = 0, IJ_AdmittedAt = None, IJ_Status = [], IJ_Model = ''m'', IJ_WorkerInstance = ''w'',
     IJ_ErrorCode = [], IJ_ErrorMessage = [], IJ_CreatedAt = zero_time, IJ_StartedAt = None, IJ_CompletedAt = None\<rparr>"

definition image_tables :: image_db where
  "image_tables = \<lparr>im_gateway = admission_db, im_jobs = [], im_assets = [], im_heartbeats = []\<rparr>"

abbreviation sample_creation :: "store_error + ((ImageJob \<times> CallContext) \<times> image_db)" where
  "sample_creation \<equiv> CreateImageJobWithAdmission (\<lambda>_. None) plain_env plain_clock ''k'' ''m'' 7 blank_job ''r'' ''j'' image_tables"

abbreviation sample_sweep :: "image_db \<Rightarrow> store_error + (ImageJob list \<times> image_db)" where
  "sample_sweep db \<equiv> failImageJobsWhere (\<lambda>_. None) (\<lambda>_. True) ''stopped'' [] 0 db"

lemma sample_created:
  obtains job call db1 key project effective scopes policy where "sample_creation = Inr ((job, call), db1)"
    "authorize_call (\<lambda>_. None) (ck_host plain_clock) ''k'' ''m'' (im_gateway image_tables) = Inr (key, project)"
    "call_limits plain_env key project (im_gateway image_tables) = (effective, scopes, policy)" "Enabled policy"
    "currentQuotaPeriods (\<lambda>_. None) plain_env (ck_db plain_clock) (im_gateway image_tables) = Inr \<lparr>QP_Day = ''1970-01-01'', QP_Month = ''1970-01''\<rparr>"
    "\<forall>j \<in> set (im_jobs db1). IJ_Status j \<noteq> ''failing''" "claimed (\<lambda>_. True) db1 = [job]" "UP_UserID policy = ''u''" "K_ID key = ''k''"
    "sample_admission = Inr (call, im_gateway db1)"
proof -
  obtain call g where a: "sample_admission = Inr (call, g)" by (rule sample_admission_cases)
  define job where "job = (imageJobWithAdmission (blank_job\<lparr>IJ_RequestID := C_RequestID call, IJ_AttributedUserID := C_AttributedUserID call\<rparr>) call)
    \<lparr>IJ_ID := ''j'', IJ_Status := ''queued'', IJ_CreatedAt := 0\<rparr>"
  have cr: "sample_creation = Inr ((job, call), image_tables\<lparr>im_gateway := g, im_jobs := [job]\<rparr>)"
    using a by (simp add: CreateImageJobWithAdmission_def image_tables_def createImageJob_def Let_def job_def blank_job_def
        imageJobWithAdmission_def db_call_def plain_clock_def)
  have st: "IJ_Status job = ''queued''" by (simp add: job_def)
  obtain key project effective scopes policy
    where "authorize_call (\<lambda>_. None) (ck_host plain_clock) ''k'' ''m'' admission_db = Inr (key, project)"
      "call_limits plain_env key project admission_db = (effective, scopes, policy)"
      "K_ID key = ''k''" "Enabled policy" "UP_UserID policy = ''u''"
      "currentQuotaPeriods (\<lambda>_. None) plain_env (ck_db plain_clock) admission_db = Inr \<lparr>QP_Day = ''1970-01-01'', QP_Month = ''1970-01''\<rparr>"
    by (rule sample_context)
  then show thesis by (intro that [OF cr]) (use st a in \<open>simp_all add: image_tables_def claimed_def\<close>)
qed

lemma sweep_total:
  assumes "claimed (\<lambda>_. True) db = [job]" and "\<forall>j \<in> set (im_jobs db). IJ_Status j \<noteq> ''failing''"
    and "recover_job (\<lambda>_. None) ''stopped'' 0 job (im_gateway db) = Inr g"
  shows "\<exists>js db2. sample_sweep db = Inr (js, db2)"
proof -
  let ?sel = "\<lambda>j. True \<and> (IJ_Status j = ''queued'' \<or> IJ_Status j = ''running'')"
  have "filter (\<lambda>j. IJ_Status j = ''failing'') (map (\<lambda>j. if ?sel j then j\<lparr>IJ_Status := ''failing''\<rparr> else j) (im_jobs db)) =
      [job\<lparr>IJ_Status := ''failing''\<rparr>]"
    using marked_jobs [OF assms(2), of ?sel] assms(1) by (simp add: claimed_def)
  then show ?thesis using assms(3) by (simp add: failImageJobsWhere_def Let_def in_gateway_def)
qed

lemma plain_clock_db: "ck_db plain_clock \<noteq> zero_time"
  by (simp add: plain_clock_def zero_time_def)

lemma sample_count: "count_of (gd_quota (im_gateway image_tables)) k = zero_QuotaCounter"
  "user_count u (gd_quota (im_gateway image_tables)) k = zero_QuotaCounter"
  by (simp_all add: image_tables_def admission_db_def count_of_def user_count_def history_rows_def total_counter_def
      mergeQuotaCounterMax_def zero_QuotaCounter_def)

theorem recovery_restores_witness:
  "\<exists>job call db1 js db2. sample_creation = Inr ((job, call), db1) \<and> sample_sweep db1 = Inr (js, db2) \<and>
     count_of (gd_quota (im_gateway db2)) (''k'', ''day'', ''1970-01-01'', unattributedQuotaUserID) = zero_QuotaCounter"
proof -
  obtain job call db1 key project effective scopes policy where cr: "sample_creation = Inr ((job, call), db1)"
    and au: "authorize_call (\<lambda>_. None) (ck_host plain_clock) ''k'' ''m'' (im_gateway image_tables) = Inr (key, project)"
    and cl: "call_limits plain_env key project (im_gateway image_tables) = (effective, scopes, policy)" and en: "Enabled policy"
    and per: "currentQuotaPeriods (\<lambda>_. None) plain_env (ck_db plain_clock) (im_gateway image_tables) = Inr \<lparr>QP_Day = ''1970-01-01'', QP_Month = ''1970-01''\<rparr>"
    and j: "\<forall>j \<in> set (im_jobs db1). IJ_Status j \<noteq> ''failing''" "claimed (\<lambda>_. True) db1 = [job]" and k: "K_ID key = ''k''"
    by (rule sample_created)
  let ?p = "\<lparr>QP_Day = ''1970-01-01'', QP_Month = ''1970-01''\<rparr>"
  have rid: "''r'' \<noteq> []" and kid: "IJ_APIKeyID blank_job = ''k''" by (simp_all add: blank_job_def)
  note ctx = created_context [OF cr au cl en per rid kid plain_clock_db]
  have "admittedQuotaPeriods (\<lambda>_. None) (IJ_RequestID job) 0 (im_gateway db1) = Inr ?p"
    using ctx(3,8) by (simp add: admittedQuotaPeriods_def)
  moreover have "IJ_AdmittedAt job = Some 0" using ctx(1) by (simp add: plain_clock_def)
  ultimately obtain js db2 where sw: "sample_sweep db1 = Inr (js, db2)"
    using recover_total sweep_total [OF j(2,1)] by blast
  have key: "fst (key_period key ?p) = (''k'', ''day'', ''1970-01-01'', unattributedQuotaUserID)"
    by (simp add: period_keys_def k quotaAttributionKey_def)
  have "count_of (gd_quota (im_gateway db2)) (fst (key_period key ?p)) = zero_QuotaCounter"
    by (rule recovery_restores [OF cr au cl en per rid kid plain_clock_db sw j, where c = zero_QuotaCounter])
      (simp_all add: sample_count zero_QuotaCounter_def int64_bounds)
  then show ?thesis using cr sw key by auto
qed

theorem recovery_uncounts_settled_witness:
  "\<exists>job call db1 g js db2. sample_creation = Inr ((job, call), db1) \<and> sample_finish call (im_gateway db1) = Inr g \<and>
     sample_sweep (db1\<lparr>im_gateway := g\<rparr>) = Inr (js, db2) \<and>
     N_Requests (count_of (gd_quota g) (''k'', ''day'', ''1970-01-01'', unattributedQuotaUserID)) = 1 \<and>
     N_Requests (count_of (gd_quota (im_gateway db2)) (''k'', ''day'', ''1970-01-01'', unattributedQuotaUserID)) = 0"
proof -
  obtain job call db1 key project effective scopes policy where cr: "sample_creation = Inr ((job, call), db1)"
    and au: "authorize_call (\<lambda>_. None) (ck_host plain_clock) ''k'' ''m'' (im_gateway image_tables) = Inr (key, project)"
    and cl: "call_limits plain_env key project (im_gateway image_tables) = (effective, scopes, policy)" and en: "Enabled policy"
    and per: "currentQuotaPeriods (\<lambda>_. None) plain_env (ck_db plain_clock) (im_gateway image_tables) = Inr \<lparr>QP_Day = ''1970-01-01'', QP_Month = ''1970-01''\<rparr>"
    and j: "\<forall>j \<in> set (im_jobs db1). IJ_Status j \<noteq> ''failing''" "claimed (\<lambda>_. True) db1 = [job]" and k: "K_ID key = ''k''"
    by (rule sample_created)
  let ?p = "\<lparr>QP_Day = ''1970-01-01'', QP_Month = ''1970-01''\<rparr>"
  have rid: "''r'' \<noteq> []" and kid: "IJ_APIKeyID blank_job = ''k''" by (simp_all add: blank_job_def)
  note ctx = created_context [OF cr au cl en per rid kid plain_clock_db]
  note adm = admitted_context [OF created_job(1) [OF cr] au cl en per rid]
  have "gd_entries (im_gateway db1) = [(''r:admission'', Admission (Some ?p))]" using adm(9) by (simp add: image_tables_def admission_db_def)
  with adm(1) obtain g where fin: "sample_finish call (im_gateway db1) = Inr g" by (rule sample_finish_total)
  have "admittedQuotaPeriods (\<lambda>_. None) (IJ_RequestID job) 0 g = Inr ?p"
    using ctx(3) finish_entries [OF fin adm(10)] by (simp add: admittedQuotaPeriods_def)
  moreover have "IJ_AdmittedAt job = Some 0" using ctx(1) by (simp add: plain_clock_def)
  ultimately obtain g1 where "recover_job (\<lambda>_. None) ''stopped'' 0 job g = Inr g1" using recover_total by blast
  then obtain js db2 where sw: "sample_sweep (db1\<lparr>im_gateway := g\<rparr>) = Inr (js, db2)"
    using sweep_total [of "db1\<lparr>im_gateway := g\<rparr>" job] j by (auto simp: claimed_def)
  have key: "fst (key_period key ?p) = (''k'', ''day'', ''1970-01-01'', unattributedQuotaUserID)"
    by (simp add: period_keys_def k quotaAttributionKey_def)
  have nolog: "\<not> list_ex (\<lambda>l. RL_RequestID l = ''r'') (gd_logs (im_gateway image_tables))"
    by (simp add: image_tables_def admission_db_def)
  have "N_Requests (count_of (gd_quota g) (fst (key_period key ?p))) = 0 + 1 \<and>
      N_Requests (count_of (gd_quota (im_gateway db2)) (fst (key_period key ?p))) = 0"
    using recovery_uncounts_settled [OF cr au cl en per rid kid plain_clock_db fin sw j refl refl _ nolog, where n = 0]
    by (simp add: sample_count zero_QuotaCounter_def int64_bounds)
  then show ?thesis using cr fin sw key by auto
qed

section \<open>The life of a job\<close>

text \<open>Everything that changes the status or the call of a job, in any order: creations, claims, completions and
  failures by workers, sweeps, and any other traffic, which only adds log rows. A worker completes or
  fails the job its call was admitted for.\<close>

definition own_call :: "ImageJob \<Rightarrow> CallContext \<Rightarrow> image_db \<Rightarrow> bool" where
  "own_call job call db \<longleftrightarrow> (\<forall>j \<in> set (im_jobs db). IJ_ID j = IJ_ID job \<longrightarrow> IJ_RequestID j = C_RequestID call)"

inductive image_step :: "image_db \<Rightarrow> image_db \<Rightarrow> bool" where
  create:
    "CreateImageJobWithAdmission f env ck keyID name r job0 rid jid db = Inr (x, db1) \<Longrightarrow>
     IJ_Status job0 = [] \<or> IJ_Status job0 = ''queued'' \<Longrightarrow> image_step db db1"
| claim: "ClaimImageJob f now ident db = (res, db1) \<Longrightarrow> image_step db db1"
| complete:
    "CompleteImageJob f retry call job asset route usage now db = (res, db1) \<Longrightarrow> own_call job call db \<Longrightarrow> image_step db db1"
| failure: "image_step db (finishImageJobFailure f retry call job route usage st code message now db)"
| sweep: "failImageJobsWhere f scope code message now db = Inr (js, db1) \<Longrightarrow> image_step db db1"
| traffic: "set (gd_logs (im_gateway db)) \<subseteq> set (gd_logs g) \<Longrightarrow> image_step db (db\<lparr>im_gateway := g\<rparr>)"

definition image_inv :: "image_db \<Rightarrow> bool" where
  "image_inv db \<longleftrightarrow> (\<forall>j \<in> set (im_jobs db).
     IJ_Status j \<in> {''queued'', ''running'', ''completed'', ''failed''} \<and>
     (IJ_Status j = ''completed'' \<longrightarrow> IJ_RequestID j \<noteq> [] \<longrightarrow>
        (\<exists>l \<in> set (gd_logs (im_gateway db)). RL_RequestID l = IJ_RequestID j)))"

lemma release_logs: "release_request f rid g = Inr g1 \<Longrightarrow> gd_logs g1 = gd_logs g"
  by (rule release_request_law(1))

lemma raise_alerts_logs: "raise_alerts f ev checks db = Inr db1 \<Longrightarrow> gd_logs db1 = gd_logs db"
  by (induction f ev checks db rule: raise_alerts.induct) (auto simp: rbind_eq_Inr_iff split: if_splits)

lemma settle_quota_logs: "settle_quota f call usage t db = Inr db1 \<Longrightarrow> gd_logs db1 = gd_logs db"
  by (fastforce simp: settle_quota_def Let_def rbind_eq_Inr_iff alert_key_def settle_user_def raiseQuotaAlerts_def
      raiseUserQuotaAlerts_def dest: raise_alerts_logs split: option.splits if_splits)

lemma finish_logs:
  assumes "finishCallTransaction f call route usage st ec now db = Inr db1"
  shows "set (gd_logs db) \<subseteq> set (gd_logs db1)"
proof -
  have "release_request f (C_RequestID call) db = Inr db1 \<or> settle_call f call route usage st ec now db = Inr db1"
    using assms by (auto simp: finishCallTransaction_def rbind_eq_Inr_iff split: if_splits)
  then show ?thesis
  proof
    assume "settle_call f call route usage st ec now db = Inr db1"
    then obtain d1 d2 d3 d4 d5
      where q: "(if K_ID (C_Key call) \<noteq> [] then settle_quota f call usage (if C_StartedAt call = zero_time then now else C_StartedAt call) db
          else Inr db) = Inr d1"
        and u: "record_usage f call usage now d1 = Inr d2" and l: "record_log f call route st ec now d2 = Inr d3"
        and ob: "record_observations f route usage st ec now d3 = Inr d4" and sh: "settleMeteringShadow f call d4 = Inr d5"
        and r: "release_request f (C_RequestID call) d5 = Inr db1"
      unfolding settle_call_def rbind_eq_Inr_iff by blast
    have "gd_logs d1 = gd_logs db" using q settle_quota_logs by (auto split: if_splits)
    moreover have "gd_logs d2 = gd_logs d1" using u by (auto simp: record_usage_def rbind_eq_Inr_iff split: if_splits)
    moreover have "set (gd_logs d2) \<subseteq> set (gd_logs d3)" using l by (auto simp: record_log_def rbind_eq_Inr_iff)
    ultimately show ?thesis
      using record_observations_keeps [OF ob] settleMeteringShadow_keeps [OF sh] release_logs [OF r] by simp
  qed (simp add: release_logs)
qed

lemma FinishCall_logs: "set (gd_logs g) \<subseteq> set (gd_logs (FinishCall f retry call route usage st ec now g))"
  using finish_logs [of f call route usage st ec now g] release_logs [of retry "C_RequestID call" g]
  by (auto simp: FinishCall_def split: sum.split)

lemma image_invI:
  "(\<And>j. j \<in> set (im_jobs db') \<Longrightarrow> IJ_Status j \<in> {''queued'', ''running'', ''failed''} \<or> j \<in> set (im_jobs db)) \<Longrightarrow> image_inv db \<Longrightarrow>
   set (gd_logs (im_gateway db)) \<subseteq> set (gd_logs (im_gateway db')) \<Longrightarrow> image_inv db'"
  unfolding image_inv_def by (fastforce)

lemma capture_logs: "captureMeteringRequest f call periods g = Inr g1 \<Longrightarrow> gd_logs g1 = gd_logs g"
  by (auto simp: captureMeteringRequest_def saveMeteringEntry_def rbind_eq_Inr_iff split: if_splits)

lemma recover_logs: "recover_jobs f code now jobs g = Inr g1 \<Longrightarrow> set (gd_logs g) \<subseteq> set (gd_logs g1)"
proof (induction jobs arbitrary: g)
  case (Cons job jobs)
  from Cons.prems obtain ga where r: "recover_job f code now job g = Inr ga" and rest: "recover_jobs f code now jobs ga = Inr g1"
    by (auto simp: rbind_eq_Inr_iff)
  have roll: "rollbackImageJobAdmission f job g = Inr gb \<Longrightarrow> gd_logs gb = gd_logs g" for gb
    by (auto simp: rollbackImageJobAdmission_def rbind_eq_Inr_iff split: option.splits)
  obtain gb where b: "rollbackImageJobAdmission f job g = Inr gb"
    and tail: "ga = gb \<or> (\<exists>gc. release_request f (IJ_RequestID job) gb = Inr gc \<and> recovery_log f code now job gc = Inr ga)"
    using r by (auto simp: recover_job_def rbind_eq_Inr_iff split: if_splits)
  have logs: "set (gd_logs gc) \<subseteq> set (gd_logs ga)" if "recovery_log f code now job gc = Inr ga" for gc
    using that by (auto simp: recovery_log_def rbind_eq_Inr_iff split: if_splits)
  from tail have "set (gd_logs g) \<subseteq> set (gd_logs ga)"
  proof (elim disjE exE conjE)
    fix gc
    assume c: "release_request f (IJ_RequestID job) gb = Inr gc" and d: "recovery_log f code now job gc = Inr ga"
    show ?thesis using logs [OF d] release_logs [OF c] roll [OF b] by simp
  qed (simp add: roll [OF b])
  then show ?case using Cons.IH [OF rest] by blast
qed simp

lemma ClaimImageJob_jobs:
  assumes "ClaimImageJob f now ident db = (res, db1)"
  shows "im_gateway db1 = im_gateway db" and "j \<in> set (im_jobs db1) \<Longrightarrow> IJ_Status j = ''running'' \<or> j \<in> set (im_jobs db)"
  using assms by (auto simp: ClaimImageJob_def Let_def split: sum.splits option.splits if_splits)

lemma complete_transaction_law:
  assumes "complete_transaction f call job asset route usage now db = Inr db1" and "own_call job call db" and "image_inv db"
  shows "image_inv db1"
proof -
  let ?sel = "\<lambda>j. IJ_ID j = IJ_ID job \<and> IJ_Status j = ''running''"
  from assms(1) obtain g where fin: "finishCallTransaction f call route usage 200 [] now (im_gateway db) = Inr g"
    and db1: "im_gateway db1 = g" and jobs: "\<And>j. j \<in> set (im_jobs db1) \<Longrightarrow> j \<in> set (im_jobs db) \<or>
      (\<exists>i \<in> set (im_jobs db). ?sel i \<and> IJ_Status j = ''completed'' \<and> IJ_RequestID j = IJ_RequestID i)"
    by (fastforce simp: complete_transaction_def in_gateway_def rbind_eq_Inr_iff Let_def split: if_splits)
  have log: "\<exists>l \<in> set (gd_logs g). RL_RequestID l = C_RequestID call" if "C_RequestID call \<noteq> []"
    using finishCallTransaction_settled [OF fin that] by (auto simp: settled_def list_ex_iff)
  show ?thesis
    unfolding image_inv_def
  proof
    fix j
    assume "j \<in> set (im_jobs db1)"
    then consider "j \<in> set (im_jobs db)" | i where "i \<in> set (im_jobs db)" "?sel i" "IJ_Status j = ''completed''" "IJ_RequestID j = IJ_RequestID i"
      using jobs by blast
    then show "IJ_Status j \<in> {''queued'', ''running'', ''completed'', ''failed''} \<and>
      (IJ_Status j = ''completed'' \<longrightarrow> IJ_RequestID j \<noteq> [] \<longrightarrow> (\<exists>l \<in> set (gd_logs (im_gateway db1)). RL_RequestID l = IJ_RequestID j))"
    proof cases
      case 1
      then show ?thesis using assms(3) finish_logs [OF fin] unfolding image_inv_def db1 by blast
    next
      case 2
      then have "IJ_RequestID j = C_RequestID call" using assms(2) by (simp add: own_call_def)
      then show ?thesis using log 2(3) db1 by auto
    qed
  qed
qed

lemma failImageJob_jobs:
  "im_gateway (failImageJob f job code message now db) = im_gateway db"
  "j \<in> set (im_jobs (failImageJob f job code message now db)) \<Longrightarrow> IJ_Status j = ''failed'' \<or> j \<in> set (im_jobs db)"
  by (auto simp: failImageJob_def UpdateImageJob_def rbind_eq_Inr_iff db_call_def split: sum.splits option.splits if_splits)

text \<open>A sweep on tables without the transient status; only jobs in it change.\<close>

lemma sweep_inv:
  assumes "failImageJobsWhere f scope code message now db = Inr (js, db1)" and "image_inv db"
  shows "image_inv db1"
proof -
  have st: "\<forall>j \<in> set (im_jobs db). IJ_Status j \<noteq> ''failing''" using assms(2) by (auto simp: image_inv_def)
  note law = failImageJobsWhere_law [OF assms(1) st]
  show ?thesis
    by (rule image_invI [OF _ assms(2) recover_logs [OF law(1)]]) (auto simp: law(2) failed_job_def split: if_splits)
qed

lemma image_step_inv: "image_step db db1 \<Longrightarrow> image_inv db \<Longrightarrow> image_inv db1"
proof (induction rule: image_step.induct)
  case (create f env ck keyID name r job0 rid jid db x db1)
  obtain job call where x: "x = (job, call)" by (cases x)
  note c = created_job [OF create(1) [unfolded x]]
  have "IJ_Status job = ''queued''"
    using create(1,2) by (auto simp: x CreateImageJobWithAdmission_def createImageJob_def imageJobWithAdmission_def Let_def
        rbind_eq_Inr_iff split: if_splits)
  moreover have "gd_logs (im_gateway db1) = gd_logs (im_gateway db)"
    using c(1) by (elim admitCallTransaction_cases) (auto dest: capture_logs)
  ultimately show ?case by (intro image_invI [OF _ create(3)]) (auto simp: c(2))
next
  case (claim f now ident db res db1)
  then show ?case using ClaimImageJob_jobs [OF claim(1)] by (intro image_invI [OF _ claim(2)]) auto
next
  case (complete f retry call job asset route usage now db res db1)
  show ?case
  proof (cases "complete_transaction f call job asset route usage now db")
    case (Inl e)
    then have "db1 = (case in_gateway (release_request retry (C_RequestID call)) db of Inr db1 \<Rightarrow> db1 | Inl _ \<Rightarrow> db)"
      using complete(1) by (simp add: CompleteImageJob_def)
    then have "im_jobs db1 = im_jobs db \<and> gd_logs (im_gateway db1) = gd_logs (im_gateway db)"
      using release_logs by (auto simp: in_gateway_def rbind_eq_Inr_iff split: sum.splits)
    then show ?thesis using complete(3) by (simp add: image_inv_def)
  next
    case (Inr db')
    then show ?thesis using complete complete_transaction_law by (auto simp: CompleteImageJob_def)
  qed
next
  case (failure db f retry call job route usage st code message now)
  then show ?case
    unfolding finishImageJobFailure_def
    by (intro image_invI [OF _ failure]) (use failImageJob_jobs(2) FinishCall_logs in \<open>fastforce simp: finish_image_call_def failImageJob_jobs(1)\<close>)+
next
  case (sweep f scope code message now db js db1)
  then show ?case by (rule sweep_inv)
next
  case (traffic db g)
  then show ?case by (intro image_invI [OF _ traffic(2)]) auto
qed

text \<open>(C16) However creations, claims, completions, failures, sweeps and other traffic interleave, every job
  is queued, running, completed or failed, the status a sweep uses inside its transaction never shows,
  and the call of every completed job has been settled.\<close>

theorem image_jobs_invariant:
  assumes "image_step\<^sup>*\<^sup>* db db'" and "im_jobs db = []"
  shows "image_inv db'"
  using assms(1)
proof (induction rule: rtranclp_induct)
  case base
  show ?case by (simp add: image_inv_def assms(2))
next
  case (step y z)
  then show ?case using image_step_inv by blast
qed

theorem image_jobs_invariant_witness:
  "\<exists>job call db1. sample_creation = Inr ((job, call), db1) \<and> im_jobs db1 = [job] \<and> image_inv db1"
proof -
  obtain job call db1 where cr: "sample_creation = Inr ((job, call), db1)" by (rule sample_created)
  have "image_step image_tables db1" by (rule image_step.create [OF cr]) (simp add: blank_job_def)
  then have st: "image_step\<^sup>*\<^sup>* image_tables db1" by (rule r_into_rtranclp)
  have "image_inv db1" by (rule image_jobs_invariant [OF st]) (simp add: image_tables_def)
  then show ?thesis using cr created_job(2) [OF cr] by (auto simp: image_tables_def)
qed

end
