(* ===== verification/ResponseJobs.thy ===== *)
theory ResponseJobs imports ImageJobs
begin

text \<open>
  Background responses (\<open>response_jobs_store.go\<close> and the finalisation in \<open>response_jobs.go\<close>): a durable
  queue of jobs shared by the workers of all instances. A worker claims a job under a lease with an
  epoch, admits its call, records that it is about to send the request to a provider, and finalises the
  job; a client may cancel it, a stopping server hands it back, and recovery takes over jobs whose lease
  ran out. Every change of a row is fenced by the owner and the epoch and leaves an event.

  The tables of the gateway are extended with the jobs, their events and the route attempts. The audit row written with each
  event repeats it and is left out, as are the columns that describe the provider's answer, the metrics
  and the Redis variant of the reservation. \<open>encryptSecret\<close> and \<open>decryptSecret\<close> are arguments. Rows that
  another transaction holds (\<open>SKIP LOCKED\<close>) are an argument too.
\<close>

section \<open>Data\<close>

record ResponseJob =
  RJ_ID :: string
  RJ_ProjectID :: string
  RJ_APIKeyID :: string
  RJ_AttributedUserID :: string
  RJ_UserQuotaEnabled :: bool
  RJ_UserMinuteRequestHeld :: bool
  RJ_UserTokenLimitBucket :: string
  RJ_RequestID :: string
  RJ_TokenLimitBucket :: string
  RJ_MinuteRequestHeld :: bool
  RJ_ReservedTokens :: int64
  RJ_AdmittedAt :: "instant option"
  RJ_Status :: string
  RJ_Phase :: string
  RJ_Model :: string
  RJ_RequestCiphertext :: string
  RJ_ResultCiphertext :: string
  RJ_LeaseOwner :: string
  RJ_LeaseEpoch :: int
  RJ_LeaseExpiresAt :: "instant option"
  RJ_CancelRequestedAt :: "instant option"
  RJ_ErrorCode :: string
  RJ_ErrorMessage :: string
  RJ_CreatedAt :: instant
  RJ_StartedAt :: "instant option"
  RJ_CompletedAt :: "instant option"
  RJ_ExpiresAt :: "instant option"
  RJ_UpdatedAt :: instant

record ResponseJobEvent =
  EV_JobID :: string
  EV_FromStatus :: string
  EV_ToStatus :: string
  EV_ReasonCode :: string
  EV_Actor :: string
  EV_CreatedAt :: instant

text \<open>What happened at one candidate of a call, and the row that records it; the row repeats the columns of
  the attempt, kept here as the attempt itself.\<close>

record RouteAttempt =
  RA_Selection :: RouteSelection
  RA_Status :: int
  RA_UpstreamStatus :: int
  RA_ErrorCode :: string
  RA_Error :: string
  RA_Invoked :: bool
  RA_LatencyMS :: int64
  RA_Usage :: reported_usage
  RA_StartedAt :: instant
  RA_EndedAt :: instant

record RouteAttemptLog =
  AL_ID :: string
  AL_RequestID :: string
  AL_AttemptIndex :: nat
  AL_Attempt :: RouteAttempt
  AL_CreatedAt :: instant

record response_db =
  rs_gateway :: gateway_db
  rs_jobs :: "ResponseJob list"
  rs_events :: "ResponseJobEvent list"
  rs_attempts :: "RouteAttemptLog list"

definition ErrRowNotFound :: store_error where
  "ErrRowNotFound = Db ''record not found''"

definition responseJobTerminal :: "string \<Rightarrow> bool" where
  "responseJobTerminal status \<longleftrightarrow> status \<in> set [''succeeded'', ''failed'', ''cancelled'', ''expired'']"

definition on_gateway :: "(gateway_db \<Rightarrow> store_error + gateway_db) \<Rightarrow> response_db \<Rightarrow> store_error + response_db" where
  "on_gateway step db = rbind (step (rs_gateway db)) (\<lambda>g. Inr (db\<lparr>rs_gateway := g\<rparr>))"

text \<open>An update statement: the number of rows it affected and the table afterwards.\<close>

definition update_where :: "(ResponseJob \<Rightarrow> bool) \<Rightarrow> (ResponseJob \<Rightarrow> ResponseJob) \<Rightarrow> response_db \<Rightarrow> nat \<times> response_db" where
  "update_where sel upd db =
     (length (filter sel (rs_jobs db)), db\<lparr>rs_jobs := map (\<lambda>j. if sel j then upd j else j) (rs_jobs db)\<rparr>)"

section \<open>Payloads\<close>

definition encryptResponseJobPayload :: "(string \<Rightarrow> string) \<Rightarrow> string \<Rightarrow> store_error + string" where
  "encryptResponseJobPayload encryptSecret payload =
     (if payload = [] then Inr []
      else let encoded = encryptSecret payload
           in if prefix ''enc:v1:'' encoded then Inr encoded else Inl (Db ''response job payload encryption failed''))"

definition decryptResponseJobPayload :: "(string \<Rightarrow> string) \<Rightarrow> string \<Rightarrow> store_error + string" where
  "decryptResponseJobPayload decryptSecret ciphertext =
     (if ciphertext = [] then Inr []
      else if \<not> prefix ''enc:v1:'' ciphertext then Inl (Db ''response job payload is not encrypted'')
      else let plaintext = decryptSecret ciphertext
           in if plaintext = [] then Inl (Db ''response job payload decryption failed'') else Inr plaintext)"

definition hydrateResponseJob :: "(string \<Rightarrow> string) \<Rightarrow> ResponseJob \<Rightarrow> store_error + (string \<times> string)" where
  "hydrateResponseJob decryptSecret job =
     rbind (decryptResponseJobPayload decryptSecret (RJ_RequestCiphertext job)) (\<lambda>requestJSON.
     rbind (decryptResponseJobPayload decryptSecret (RJ_ResultCiphertext job)) (\<lambda>resultJSON.
       Inr (requestJSON, resultJSON)))"

definition LoadResponseJobPayload ::
  "store_faults \<Rightarrow> (string \<Rightarrow> string) \<Rightarrow> string \<Rightarrow> response_db \<Rightarrow> store_error + (string \<times> string)" where
  "LoadResponseJobPayload fault decryptSecret ident db =
     rbind (db_call fault ''response_job.first'') (\<lambda>_.
       case find (\<lambda>j. RJ_ID j = ident) (rs_jobs db) of
         None \<Rightarrow> Inl ErrRowNotFound
       | Some job \<Rightarrow> hydrateResponseJob decryptSecret job)"

section \<open>Events and creation\<close>

definition appendResponseJobEvent ::
  "store_faults \<Rightarrow> string \<Rightarrow> string \<Rightarrow> string \<Rightarrow> string \<Rightarrow> string \<Rightarrow> instant \<Rightarrow> response_db \<Rightarrow> store_error + response_db" where
  "appendResponseJobEvent fault jobID from to reason actor now db =
     rbind (db_call fault ''response_event.create'') (\<lambda>_.
     rbind (db_call fault ''audit.create'') (\<lambda>_.
       Inr (db\<lparr>rs_events := rs_events db @
         [\<lparr>EV_JobID = jobID, EV_FromStatus = from, EV_ToStatus = to, EV_ReasonCode = reason, EV_Actor = actor, EV_CreatedAt = now\<rparr>]\<rparr>)))"

definition CreateResponseJob ::
  "store_faults \<Rightarrow> (string \<Rightarrow> string) \<Rightarrow> string \<Rightarrow> instant \<Rightarrow> ResponseJob \<Rightarrow> string \<Rightarrow> response_db \<Rightarrow>
   store_error + (ResponseJob \<times> response_db)" where
  "CreateResponseJob fault encryptSecret newID now job0 requestJSON db =
     rbind (encryptResponseJobPayload encryptSecret requestJSON) (\<lambda>ciphertext.
     let job1 = (if TrimSpace (RJ_ID job0) = [] then job0\<lparr>RJ_ID := newID\<rparr> else job0);
         job2 = (if RJ_Status job1 = [] then job1\<lparr>RJ_Status := ''queued''\<rparr> else job1);
         job3 = (if RJ_Phase job2 = [] then job2\<lparr>RJ_Phase := ''queued''\<rparr> else job2);
         job4 = job3\<lparr>RJ_RequestCiphertext := ciphertext\<rparr>
     in rbind (db_call fault ''db.now'') (\<lambda>_.
        let job = (if RJ_CreatedAt job4 = zero_time then job4\<lparr>RJ_CreatedAt := now\<rparr> else job4)\<lparr>RJ_UpdatedAt := now\<rparr>
        in rbind (db_call fault ''response_job.create'') (\<lambda>_.
           if list_ex (\<lambda>j. RJ_ID j = RJ_ID job) (rs_jobs db) then Inl (Db ''unique constraint'')
           else rbind (appendResponseJobEvent fault (RJ_ID job) [] (RJ_Status job) ''response_submitted'' ''client'' now
                  (db\<lparr>rs_jobs := rs_jobs db @ [job]\<rparr>)) (\<lambda>db1. Inr (job, db1)))))"

text \<open>The row a submission asks for (\<open>submitResponseJob\<close>).\<close>

definition submitted_job :: "string \<Rightarrow> Project \<Rightarrow> APIKey \<Rightarrow> string \<Rightarrow> ResponseJob" where
  "submitted_job ident project key model =
     \<lparr>RJ_ID = ident, RJ_ProjectID = Pr_ID project, RJ_APIKeyID = K_ID key,
      RJ_AttributedUserID = usageAttributionUserID key project, RJ_UserQuotaEnabled = False, RJ_UserMinuteRequestHeld = False,
      RJ_UserTokenLimitBucket = [], RJ_RequestID = [], RJ_TokenLimitBucket = [], RJ_MinuteRequestHeld = False, RJ_ReservedTokens = 0,
      RJ_AdmittedAt = None, RJ_Status = ''queued'', RJ_Phase = ''queued'', RJ_Model = model, RJ_RequestCiphertext = [],
      RJ_ResultCiphertext = [], RJ_LeaseOwner = [], RJ_LeaseEpoch = 0, RJ_LeaseExpiresAt = None, RJ_CancelRequestedAt = None,
      RJ_ErrorCode = [], RJ_ErrorMessage = [], RJ_CreatedAt = zero_time, RJ_StartedAt = None, RJ_CompletedAt = None,
      RJ_ExpiresAt = None, RJ_UpdatedAt = zero_time\<rparr>"

definition GetResponseJob :: "store_faults \<Rightarrow> string \<Rightarrow> response_db \<Rightarrow> store_error + ResponseJob option" where
  "GetResponseJob fault ident db =
     rbind (db_call fault ''response_job.first'') (\<lambda>_. Inr (find (\<lambda>j. RJ_ID j = ident) (rs_jobs db)))"

definition CountQueuedResponseJobs :: "response_db \<Rightarrow> nat" where
  "CountQueuedResponseJobs db = length (filter (\<lambda>j. RJ_Status j = ''queued'') (rs_jobs db))"

definition CountRetainedResponseJobs :: "response_db \<Rightarrow> nat" where
  "CountRetainedResponseJobs db = length (filter (\<lambda>j. RJ_Status j \<in> set [''succeeded'', ''failed'', ''cancelled'']) (rs_jobs db))"

definition CountOutstandingResponseJobs :: "response_db \<Rightarrow> nat" where
  "CountOutstandingResponseJobs db = length (filter (\<lambda>j. RJ_Status j \<in> set [''queued'', ''running'']) (rs_jobs db))"

section \<open>Claims\<close>

text \<open>The first row by time of creation, then by primary key.\<close>

fun oldest :: "ResponseJob list \<Rightarrow> ResponseJob option" where
  "oldest [] = None"
| "oldest (j # js) =
     (case oldest js of
        None \<Rightarrow> Some j
      | Some k \<Rightarrow> Some (if RJ_CreatedAt j < RJ_CreatedAt k \<or> RJ_CreatedAt j = RJ_CreatedAt k \<and> RJ_ID j \<le> RJ_ID k then j else k))"

definition claimed_row :: "string \<Rightarrow> instant \<Rightarrow> instant \<Rightarrow> ResponseJob \<Rightarrow> ResponseJob" where
  "claimed_row owner expiresAt now job =
     job\<lparr>RJ_Status := ''running'', RJ_Phase := ''claimed'', RJ_LeaseOwner := owner, RJ_LeaseEpoch := RJ_LeaseEpoch job + 1,
         RJ_LeaseExpiresAt := Some expiresAt, RJ_StartedAt := Some now, RJ_UpdatedAt := now\<rparr>"

definition claim_row ::
  "store_faults \<Rightarrow> string \<Rightarrow> instant \<Rightarrow> instant \<Rightarrow> ResponseJob \<Rightarrow> response_db \<Rightarrow> store_error + (ResponseJob \<times> response_db)" where
  "claim_row fault owner expiresAt now job db =
     rbind (db_call fault ''response_job.claim'') (\<lambda>_.
       case update_where (\<lambda>j. RJ_ID j = RJ_ID job \<and> RJ_Status j = ''queued'') (claimed_row owner expiresAt now) db of (n, db1) \<Rightarrow>
         if n \<noteq> 1 then Inl ErrRowNotFound
         else rbind (appendResponseJobEvent fault (RJ_ID job) ''queued'' ''running'' ''response_claimed'' owner now db1) (\<lambda>db2.
                Inr (claimed_row owner expiresAt now job, db2)))"

definition claim_transaction ::
  "store_faults \<Rightarrow> (ResponseJob \<Rightarrow> bool) \<Rightarrow> string \<Rightarrow> duration \<Rightarrow> instant \<Rightarrow> response_db \<Rightarrow> store_error + (ResponseJob \<times> response_db)" where
  "claim_transaction fault locked owner leaseTTL now db =
     rbind (db_call fault ''db.now'') (\<lambda>_.
     rbind (db_call fault ''response_job.first'') (\<lambda>_.
       case oldest (filter (\<lambda>j. RJ_Status j = ''queued'' \<and> \<not> locked j) (rs_jobs db)) of
         None \<Rightarrow> Inl ErrRowNotFound
       | Some job \<Rightarrow> claim_row fault owner (now + leaseTTL) now job db))"

text \<open>SQLite: one statement with a subquery, at the host's time.\<close>

definition claim_sqlite_transaction ::
  "store_faults \<Rightarrow> string \<Rightarrow> duration \<Rightarrow> instant \<Rightarrow> response_db \<Rightarrow> store_error + (ResponseJob \<times> response_db)" where
  "claim_sqlite_transaction fault owner leaseTTL now db =
     (case oldest (filter (\<lambda>j. RJ_Status j = ''queued'') (rs_jobs db)) of
        None \<Rightarrow> rbind (db_call fault ''response_job.claim'') (\<lambda>_. Inl ErrRowNotFound)
      | Some job \<Rightarrow> claim_row fault owner (now + leaseTTL) now job db)"

definition failUnreadableResponseJob ::
  "store_faults \<Rightarrow> string \<Rightarrow> string \<Rightarrow> int \<Rightarrow> duration \<Rightarrow> instant \<Rightarrow> response_db \<Rightarrow> store_error + response_db" where
  "failUnreadableResponseJob fault ident owner epoch resultTTL now db =
     rbind (db_call fault ''db.now'') (\<lambda>_.
     rbind (db_call fault ''response_job.unreadable'') (\<lambda>_.
       case update_where (\<lambda>j. RJ_ID j = ident \<and> RJ_Status j = ''running'' \<and> RJ_LeaseOwner j = owner \<and> RJ_LeaseEpoch j = epoch)
         (\<lambda>j. j\<lparr>RJ_Status := ''failed'', RJ_ErrorCode := ''response_payload_unreadable'',
            RJ_ErrorMessage := ''Encrypted response job payload could not be read'', RJ_RequestCiphertext := [], RJ_ResultCiphertext := [],
            RJ_LeaseOwner := [], RJ_LeaseExpiresAt := None, RJ_CompletedAt := Some now, RJ_ExpiresAt := Some (now + resultTTL),
            RJ_UpdatedAt := now\<rparr>) db of (n, db1) \<Rightarrow>
         if n \<noteq> 1 then Inr db1
         else appendResponseJobEvent fault ident ''running'' ''failed'' ''response_payload_unreadable'' owner now db1))"

text \<open>The result of a claim: the job with its plaintext, or nothing to do. A job that cannot be read is
  failed in a second transaction, whose own error is ignored.\<close>

definition claim_result ::
  "store_faults \<Rightarrow> (string \<Rightarrow> string) \<Rightarrow> string \<Rightarrow> duration \<Rightarrow> instant \<Rightarrow> response_db \<Rightarrow> store_error + (ResponseJob \<times> response_db) \<Rightarrow>
   (store_error + (ResponseJob \<times> string \<times> string) option) \<times> response_db" where
  "claim_result fault decryptSecret owner resultTTL now db claim =
     (case claim of
        Inl e \<Rightarrow> ((if e = ErrRowNotFound then Inr None else Inl e), db)
      | Inr (job, db1) \<Rightarrow>
          (case hydrateResponseJob decryptSecret job of
             Inr payload \<Rightarrow> (Inr (Some (job, payload)), db1)
           | Inl e \<Rightarrow>
               (Inl e, case failUnreadableResponseJob fault (RJ_ID job) owner (RJ_LeaseEpoch job) resultTTL now db1 of
                         Inl _ \<Rightarrow> db1 | Inr db2 \<Rightarrow> db2)))"

definition claimSQLiteResponseJob ::
  "store_faults \<Rightarrow> store_faults \<Rightarrow> (string \<Rightarrow> string) \<Rightarrow> string \<Rightarrow> duration \<Rightarrow> duration \<Rightarrow> instant \<Rightarrow> instant \<Rightarrow> response_db \<Rightarrow>
   (store_error + (ResponseJob \<times> string \<times> string) option) \<times> response_db" where
  "claimSQLiteResponseJob fault fault2 decryptSecret owner leaseTTL resultTTL now later db =
     claim_result fault2 decryptSecret owner resultTTL later db (claim_sqlite_transaction fault owner leaseTTL now db)"

definition ClaimResponseJob ::
  "bool \<Rightarrow> (ResponseJob \<Rightarrow> bool) \<Rightarrow> store_faults \<Rightarrow> store_faults \<Rightarrow> (string \<Rightarrow> string) \<Rightarrow> string \<Rightarrow> duration \<Rightarrow> duration \<Rightarrow> instant \<Rightarrow> instant \<Rightarrow>
   response_db \<Rightarrow> (store_error + (ResponseJob \<times> string \<times> string) option) \<times> response_db" where
  "ClaimResponseJob sqlite locked fault fault2 decryptSecret owner leaseTTL resultTTL now later db =
     (if TrimSpace owner = [] \<or> leaseTTL \<le> 0 then (Inl (Db ''response job lease owner and TTL are required''), db)
      else if sqlite then claimSQLiteResponseJob fault fault2 decryptSecret owner leaseTTL resultTTL now later db
      else claim_result fault2 decryptSecret owner resultTTL later db (claim_transaction fault locked owner leaseTTL now db))"

section \<open>Leases, admission and dispatch\<close>

definition held_by :: "string \<Rightarrow> string \<Rightarrow> int \<Rightarrow> ResponseJob \<Rightarrow> bool" where
  "held_by ident owner epoch job \<longleftrightarrow>
     RJ_ID job = ident \<and> RJ_Status job = ''running'' \<and> RJ_LeaseOwner job = owner \<and> RJ_LeaseEpoch job = epoch"

definition lease_live :: "instant \<Rightarrow> ResponseJob \<Rightarrow> bool" where
  "lease_live now job = (case RJ_LeaseExpiresAt job of None \<Rightarrow> False | Some t \<Rightarrow> now < t)"

text \<open>The renewal commits; the remaining time is read afterwards.\<close>

definition RenewResponseJobLease ::
  "store_faults \<Rightarrow> store_faults \<Rightarrow> string \<Rightarrow> string \<Rightarrow> int \<Rightarrow> duration \<Rightarrow> instant \<Rightarrow> instant \<Rightarrow> response_db \<Rightarrow>
   (store_error + duration option) \<times> response_db" where
  "RenewResponseJobLease fault fault2 ident owner epoch leaseTTL now later db =
     (case rbind (db_call fault ''db.now'') (\<lambda>_.
           rbind (db_call fault ''response_job.renew'') (\<lambda>_.
             case update_where (held_by ident owner epoch) (\<lambda>j. j\<lparr>RJ_LeaseExpiresAt := Some (now + leaseTTL), RJ_UpdatedAt := now\<rparr>) db of
               (n, db1) \<Rightarrow> if n \<noteq> 1 then Inl ErrRowNotFound else Inr db1)) of
        Inl e \<Rightarrow> ((if e = ErrRowNotFound then Inr None else Inl e), db)
      | Inr db1 \<Rightarrow>
          (case db_call fault2 ''db.now'' of
             Inl e \<Rightarrow> (Inl e, db1)
           | Inr _ \<Rightarrow> (Inr (Some (persistedLeaseConfirmation (now + leaseTTL) later)), db1)))"

definition admitted_columns :: "CallContext \<Rightarrow> ResponseJob \<Rightarrow> ResponseJob" where
  "admitted_columns call job =
     job\<lparr>RJ_TokenLimitBucket := C_TokenLimitBucket call, RJ_MinuteRequestHeld := C_MinuteRequestHeld call,
         RJ_UserTokenLimitBucket := C_UserTokenLimitBucket call, RJ_ReservedTokens := C_ReservedTokens call,
         RJ_AdmittedAt := Some (C_StartedAt call), RJ_UserQuotaEnabled := C_UserQuotaEnabled call,
         RJ_UserMinuteRequestHeld := C_UserMinuteRequestHeld call, RJ_AttributedUserID := C_AttributedUserID call\<rparr>"

definition AdmitResponseJob ::
  "store_faults \<Rightarrow> environment \<Rightarrow> admission_clock \<Rightarrow> string \<Rightarrow> string \<Rightarrow> int \<Rightarrow> string \<Rightarrow> string \<Rightarrow> int64 \<Rightarrow> string \<Rightarrow> instant \<Rightarrow> response_db \<Rightarrow>
   store_error + (CallContext option \<times> response_db)" where
  "AdmitResponseJob fault env ck ident owner epoch keyID modelName reservation requestID now db =
     (let attempt =
        rbind (db_call fault ''db.now'') (\<lambda>_.
        rbind (db_call fault ''response_job.admit'') (\<lambda>_.
          case update_where (\<lambda>j. held_by ident owner epoch j \<and> RJ_Phase j = ''claimed'' \<and> lease_live now j \<and> RJ_CancelRequestedAt j = None)
                 (\<lambda>j. j\<lparr>RJ_Phase := ''admitted'', RJ_RequestID := requestID, RJ_UpdatedAt := now\<rparr>) db of (n, db1) \<Rightarrow>
            if n \<noteq> 1 then Inl ErrRowNotFound
            else rbind (appendResponseJobEvent fault ident ''running'' ''running'' ''response_admitted'' owner now db1) (\<lambda>db2.
                 rbind (admitCallTransaction fault env ck keyID modelName reservation requestID (rs_gateway db2)) (\<lambda>(call, g).
                 rbind (db_call fault ''response_job.reserve'') (\<lambda>_.
                   Inr (Some call, snd (update_where (\<lambda>j. held_by ident owner epoch j \<and> RJ_Phase j = ''admitted'' \<and> RJ_RequestID j = requestID)
                          (admitted_columns call) (db2\<lparr>rs_gateway := g\<rparr>))))))))
      in case attempt of
           Inl e \<Rightarrow> if e = ErrRowNotFound then Inr (None, db) else Inl e
         | Inr r \<Rightarrow> Inr r)"

definition ReleaseResponseJobAdmission :: "store_faults \<Rightarrow> string \<Rightarrow> response_db \<Rightarrow> response_db" where
  "ReleaseResponseJobAdmission fault requestID db =
     (case on_gateway (release_request fault requestID) db of Inl _ \<Rightarrow> db | Inr db1 \<Rightarrow> db1)"

definition MarkResponseJobPhase ::
  "store_faults \<Rightarrow> string \<Rightarrow> string \<Rightarrow> int \<Rightarrow> string \<Rightarrow> string \<Rightarrow> instant \<Rightarrow> response_db \<Rightarrow> store_error + (bool \<times> response_db)" where
  "MarkResponseJobPhase fault ident owner epoch phase requestID now db =
     (if phase \<noteq> ''dispatched'' \<or> TrimSpace requestID = [] then Inl (Db ''unsupported response job phase'')
      else rbind (db_call fault ''db.now'') (\<lambda>_.
           rbind (db_call fault ''response_job.phase'') (\<lambda>_.
             case update_where (\<lambda>j. held_by ident owner epoch j \<and> RJ_Phase j = ''admitted'' \<and> RJ_RequestID j = requestID \<and>
                    lease_live now j \<and> RJ_CancelRequestedAt j = None) (\<lambda>j. j\<lparr>RJ_Phase := ''dispatched'', RJ_UpdatedAt := now\<rparr>) db of
               (n, db1) \<Rightarrow>
                 if n \<noteq> 1 then Inr (False, db1)
                 else rbind (appendResponseJobEvent fault ident ''running'' ''running'' (''response_'' @ phase) owner now db1) (\<lambda>db2.
                        Inr (True, db2)))))"

section \<open>Undoing an admission\<close>

definition rollback_response_period ::
  "store_faults \<Rightarrow> ResponseJob \<Rightarrow> string \<Rightarrow> string \<Rightarrow> quota_db \<Rightarrow> store_error + quota_db" where
  "rollback_response_period fault job scope bucket q =
     rbind (quotaBucketForUpdate fault (RJ_APIKeyID job) scope bucket [] q) (\<lambda>(row, q1).
     rbind (save_bucket fault (drop_request row) q1) (\<lambda>q2.
     if RJ_UserQuotaEnabled job
     then let user = RJ_AttributedUserID job in
          rbind (quotaBucketForUpdate fault (userQuotaBucketKey user) scope bucket user q2) (\<lambda>(userRow, q3).
            save_bucket fault (refund_row (RJ_ReservedTokens job) (drop_request userRow)) q3)
     else Inr q2))"

definition rollback_response_user_minute :: "store_faults \<Rightarrow> ResponseJob \<Rightarrow> instant \<Rightarrow> quota_db \<Rightarrow> store_error + quota_db" where
  "rollback_response_user_minute fault job admittedAt q =
     (let user = RJ_AttributedUserID job; qid = userQuotaBucketKey user in
      if \<not> RJ_UserQuotaEnabled job then Inr q
      else rbind (db_call fault ''lock.user_quota'') (\<lambda>_.
           rbind (if RJ_UserMinuteRequestHeld job then drop_minute_request fault qid admittedAt user q else Inr q) (\<lambda>q1.
             reconcileQuotaMinuteTokens fault qid (RJ_UserTokenLimitBucket job) (RJ_ReservedTokens job) 0 user q1)))"

definition rollbackResponseJobAdmission :: "store_faults \<Rightarrow> ResponseJob \<Rightarrow> gateway_db \<Rightarrow> store_error + gateway_db" where
  "rollbackResponseJobAdmission fault job db =
     (case RJ_AdmittedAt job of
        None \<Rightarrow> Inl (Db (''response job '' @ RJ_ID job @ '' has no admission timestamp''))
      | Some admittedAt \<Rightarrow>
          rbind (admittedQuotaPeriods fault (RJ_RequestID job) admittedAt db) (\<lambda>periods.
          rbind (db_call fault ''lock.api_key'') (\<lambda>_.
          rbind (if RJ_MinuteRequestHeld job then drop_minute_request fault (RJ_APIKeyID job) admittedAt [] (gd_quota db)
                 else Inr (gd_quota db)) (\<lambda>q1.
          rbind (reconcileQuotaMinuteTokens fault (RJ_APIKeyID job) (RJ_TokenLimitBucket job) (RJ_ReservedTokens job) 0 [] q1) (\<lambda>q2.
          rbind (rollback_response_user_minute fault job admittedAt q2) (\<lambda>q3.
          rbind (rollback_response_period fault job ''day'' (QP_Day periods) q3) (\<lambda>q4.
          rbind (rollback_response_period fault job ''month'' (QP_Month periods) q4) (\<lambda>q5.
            release_request fault (RJ_RequestID job) (db\<lparr>gd_quota := q5\<rparr>)))))))))"

definition refund_response_period ::
  "store_faults \<Rightarrow> ResponseJob \<Rightarrow> string \<Rightarrow> string \<Rightarrow> quota_db \<Rightarrow> store_error + quota_db" where
  "refund_response_period fault job scope bucket q =
     (let user = RJ_AttributedUserID job in
      rbind (quotaBucketForUpdate fault (userQuotaBucketKey user) scope bucket user q) (\<lambda>(counter, q1).
        save_bucket fault (refund_row (RJ_ReservedTokens job) counter) q1))"

definition refundUndispatchedResponseJobReservation :: "store_faults \<Rightarrow> ResponseJob \<Rightarrow> gateway_db \<Rightarrow> store_error + gateway_db" where
  "refundUndispatchedResponseJobReservation fault job db =
     (if RJ_Phase job \<noteq> ''admitted'' \<or> RJ_ReservedTokens job \<le> 0 then Inr db
      else rbind (reconcileQuotaMinuteTokens fault (RJ_APIKeyID job) (RJ_TokenLimitBucket job) (RJ_ReservedTokens job) 0 [] (gd_quota db)) (\<lambda>q1.
           if \<not> RJ_UserQuotaEnabled job then Inr (db\<lparr>gd_quota := q1\<rparr>)
           else let user = RJ_AttributedUserID job in
             rbind (db_call fault ''lock.user_quota'') (\<lambda>_.
             rbind (reconcileQuotaMinuteTokens fault (userQuotaBucketKey user) (RJ_UserTokenLimitBucket job) (RJ_ReservedTokens job) 0 user q1) (\<lambda>q2.
             case RJ_AdmittedAt job of
               None \<Rightarrow> Inr (db\<lparr>gd_quota := q2\<rparr>)
             | Some admittedAt \<Rightarrow>
                 rbind (admittedQuotaPeriods fault (RJ_RequestID job) admittedAt db) (\<lambda>periods.
                 rbind (refund_response_period fault job ''day'' (QP_Day periods) q2) (\<lambda>q3.
                 rbind (refund_response_period fault job ''month'' (QP_Month periods) q3) (\<lambda>q4.
                   Inr (db\<lparr>gd_quota := q4\<rparr>))))))))"

definition recordLostResponseJobRequest ::
  "store_faults \<Rightarrow> ResponseJob \<Rightarrow> int \<Rightarrow> string \<Rightarrow> instant \<Rightarrow> gateway_db \<Rightarrow> store_error + gateway_db" where
  "recordLostResponseJobRequest fault job statusCode errorCode now g =
     (if RJ_RequestID job = [] then Inr g
      else rbind (db_call fault ''log.count'') (\<lambda>_.
           if list_ex (\<lambda>r. RL_RequestID r = RJ_RequestID job) (gd_logs g) then Inr g
           else rbind (db_call fault ''log.create'') (\<lambda>_.
             Inr (g\<lparr>gd_logs := gd_logs g @
               [\<lparr>RL_RequestID = RJ_RequestID job, RL_ProjectID = RJ_ProjectID job, RL_APIKeyID = RJ_APIKeyID job,
                 RL_AttributedUserID = RJ_AttributedUserID job, RL_ModelName = RJ_Model job, RL_ProviderID = [],
                 RL_ProviderResourceID = [], RL_StatusCode = statusCode, RL_ErrorCode = errorCode, RL_CreatedAt = now\<rparr>]\<rparr>))))"

text \<open>What is left of the call of a lost job: its leases and its log row.\<close>

definition close_lost_request ::
  "store_faults \<Rightarrow> ResponseJob \<Rightarrow> int \<Rightarrow> string \<Rightarrow> instant \<Rightarrow> gateway_db \<Rightarrow> store_error + gateway_db" where
  "close_lost_request fault job statusCode errorCode now g =
     rbind (if RJ_RequestID job \<noteq> [] then release_request fault (RJ_RequestID job) g else Inr g) (\<lambda>g1.
       recordLostResponseJobRequest fault job statusCode errorCode now g1)"

definition settle_lost_request ::
  "store_faults \<Rightarrow> ResponseJob \<Rightarrow> int \<Rightarrow> string \<Rightarrow> instant \<Rightarrow> gateway_db \<Rightarrow> store_error + gateway_db" where
  "settle_lost_request fault job statusCode errorCode now g =
     rbind (refundUndispatchedResponseJobReservation fault job g) (close_lost_request fault job statusCode errorCode now)"

definition cleared_admission :: "ResponseJob \<Rightarrow> ResponseJob" where
  "cleared_admission job =
     job\<lparr>RJ_TokenLimitBucket := [], RJ_MinuteRequestHeld := False, RJ_UserQuotaEnabled := False, RJ_UserMinuteRequestHeld := False,
         RJ_UserTokenLimitBucket := [], RJ_ReservedTokens := 0, RJ_AdmittedAt := None, RJ_LeaseOwner := [], RJ_LeaseExpiresAt := None\<rparr>"

definition lost_row :: "string \<Rightarrow> string \<Rightarrow> string \<Rightarrow> instant \<Rightarrow> instant \<Rightarrow> ResponseJob \<Rightarrow> ResponseJob" where
  "lost_row status code message expiresAt now job =
     (cleared_admission job)\<lparr>RJ_Status := status, RJ_ErrorCode := code, RJ_ErrorMessage := message, RJ_CompletedAt := Some now,
        RJ_ExpiresAt := Some expiresAt, RJ_UpdatedAt := now\<rparr>"

definition requeued_row :: "instant \<Rightarrow> ResponseJob \<Rightarrow> ResponseJob" where
  "requeued_row now job =
     (cleared_admission job)\<lparr>RJ_Status := ''queued'', RJ_Phase := ''queued'', RJ_RequestID := [], RJ_StartedAt := None, RJ_UpdatedAt := now\<rparr>"

section \<open>Shutdown\<close>

definition shutdown_cancelled ::
  "store_faults \<Rightarrow> string \<Rightarrow> string \<Rightarrow> int \<Rightarrow> duration \<Rightarrow> instant \<Rightarrow> ResponseJob \<Rightarrow> response_db \<Rightarrow> store_error + ((string \<times> bool) \<times> response_db)" where
  "shutdown_cancelled fault ident owner epoch resultTTL now job db =
     rbind (db_call fault ''response_job.shutdown'') (\<lambda>_.
       case update_where (\<lambda>j. held_by ident owner epoch j \<and> RJ_CancelRequestedAt j \<noteq> None)
              (lost_row ''cancelled'' ''response_cancelled_worker_lost'' ''Response cancellation was retained while the server stopped''
                 (now + resultTTL) now) db of (n, db1) \<Rightarrow>
         if n \<noteq> 1 then Inr (([], False), db1)
         else rbind (on_gateway (settle_lost_request fault job 499 ''response_cancelled_worker_lost'' now) db1) (\<lambda>db2.
              rbind (appendResponseJobEvent fault ident ''running'' ''cancelled'' ''response_cancelled_worker_lost'' owner now db2) (\<lambda>db3.
                Inr ((''cancelled'', True), db3))))"

definition shutdown_dispatched ::
  "store_faults \<Rightarrow> string \<Rightarrow> string \<Rightarrow> int \<Rightarrow> duration \<Rightarrow> instant \<Rightarrow> ResponseJob \<Rightarrow> response_db \<Rightarrow> store_error + ((string \<times> bool) \<times> response_db)" where
  "shutdown_dispatched fault ident owner epoch resultTTL now job db =
     rbind (db_call fault ''response_job.shutdown'') (\<lambda>_.
       case update_where (\<lambda>j. held_by ident owner epoch j \<and> RJ_Phase j = ''dispatched'')
              (lost_row ''failed'' ''response_execution_lost'' ''Server stopped after provider dispatch; the request was not retried''
                 (now + resultTTL) now) db of (n, db1) \<Rightarrow>
         if n \<noteq> 1 then Inr (([], False), db1)
         else rbind (on_gateway (close_lost_request fault job 500 ''response_execution_lost'' now) db1) (\<lambda>db2.
              rbind (appendResponseJobEvent fault ident ''running'' ''failed'' ''response_execution_lost'' owner now db2) (\<lambda>db3.
                Inr ((''failed'', True), db3))))"

definition shutdown_requeue ::
  "store_faults \<Rightarrow> string \<Rightarrow> string \<Rightarrow> int \<Rightarrow> instant \<Rightarrow> ResponseJob \<Rightarrow> response_db \<Rightarrow> store_error + ((string \<times> bool) \<times> response_db)" where
  "shutdown_requeue fault ident owner epoch now job db =
     rbind (db_call fault ''response_job.shutdown'') (\<lambda>_.
       case update_where (\<lambda>j. held_by ident owner epoch j \<and> RJ_Phase j = RJ_Phase job) (requeued_row now) db of (n, db1) \<Rightarrow>
         if n \<noteq> 1 then Inr (([], False), db1)
         else rbind (if RJ_Phase job = ''admitted'' then on_gateway (rollbackResponseJobAdmission fault job) db1 else Inr db1) (\<lambda>db2.
              rbind (appendResponseJobEvent fault ident ''running'' ''queued'' ''response_shutdown_requeued'' owner now db2) (\<lambda>db3.
                Inr ((''queued'', True), db3))))"

definition ShutdownResponseJob ::
  "store_faults \<Rightarrow> string \<Rightarrow> string \<Rightarrow> int \<Rightarrow> duration \<Rightarrow> instant \<Rightarrow> response_db \<Rightarrow> store_error + ((string \<times> bool) \<times> response_db)" where
  "ShutdownResponseJob fault ident owner epoch resultTTL now db =
     rbind (db_call fault ''response_job.first'') (\<lambda>_.
       case find (\<lambda>j. RJ_ID j = ident) (rs_jobs db) of
         None \<Rightarrow> Inl ErrRowNotFound
       | Some job \<Rightarrow>
           if RJ_Status job \<noteq> ''running'' \<or> RJ_LeaseOwner job \<noteq> owner \<or> RJ_LeaseEpoch job \<noteq> epoch then Inr (([], False), db)
           else rbind (db_call fault ''db.now'') (\<lambda>_.
             if RJ_CancelRequestedAt job \<noteq> None then shutdown_cancelled fault ident owner epoch resultTTL now job db
             else if RJ_Phase job = ''dispatched'' then shutdown_dispatched fault ident owner epoch resultTTL now job db
             else if RJ_Phase job = ''admitted'' \<and> (RJ_RequestID job = [] \<or> RJ_AdmittedAt job = None)
             then Inl (Db (''cannot safely roll back admitted response job '' @ ident @ '' during shutdown''))
             else if RJ_Phase job \<noteq> ''claimed'' \<and> RJ_Phase job \<noteq> ''admitted'' then Inl (Db ''unsupported response job shutdown phase'')
             else shutdown_requeue fault ident owner epoch now job db))"

section \<open>Cancellation\<close>

definition cancelled_row :: "instant \<Rightarrow> instant \<Rightarrow> ResponseJob \<Rightarrow> ResponseJob" where
  "cancelled_row expiresAt now job =
     job\<lparr>RJ_Status := ''cancelled'', RJ_ErrorCode := ''response_cancelled'', RJ_ErrorMessage := ''Response job was cancelled'',
         RJ_LeaseOwner := [], RJ_LeaseExpiresAt := None, RJ_CompletedAt := Some now, RJ_ExpiresAt := Some expiresAt, RJ_UpdatedAt := now\<rparr>"

definition cancel_transaction ::
  "store_faults \<Rightarrow> string \<Rightarrow> string \<Rightarrow> duration \<Rightarrow> instant \<Rightarrow> response_db \<Rightarrow> store_error + (ResponseJob \<times> response_db)" where
  "cancel_transaction fault ident actor resultTTL now db =
     rbind (db_call fault ''response_job.first'') (\<lambda>_.
       case find (\<lambda>j. RJ_ID j = ident) (rs_jobs db) of
         None \<Rightarrow> Inl ErrRowNotFound
       | Some job \<Rightarrow>
           if responseJobTerminal (RJ_Status job) then Inr (job, db)
           else if RJ_Status job = ''running'' \<and> RJ_CancelRequestedAt job \<noteq> None then Inr (job, db)
           else rbind (db_call fault ''db.now'') (\<lambda>_.
                rbind (db_call fault ''response_job.cancel'') (\<lambda>_.
                if RJ_Status job = ''running''
                then let mark = (\<lambda>j. j\<lparr>RJ_CancelRequestedAt := Some now, RJ_UpdatedAt := now\<rparr>) in
                     (case update_where (\<lambda>j. RJ_ID j = ident \<and> RJ_Status j = ''running'') mark db of (n, db1) \<Rightarrow>
                        if n \<noteq> 1 then Inl ErrRowNotFound
                        else rbind (appendResponseJobEvent fault ident (RJ_Status job) (RJ_Status job) ''response_cancel_requested'' actor now db1) (\<lambda>db2.
                               Inr (mark job, db2)))
                else (case update_where (\<lambda>j. RJ_ID j = ident \<and> RJ_Status j = ''queued'') (cancelled_row (now + resultTTL) now) db of (n, db1) \<Rightarrow>
                        if n \<noteq> 1 then Inl ErrRowNotFound
                        else rbind (appendResponseJobEvent fault ident (RJ_Status job) ''cancelled'' ''response_cancelled'' actor now db1) (\<lambda>db2.
                               Inr (cancelled_row (now + resultTTL) now job, db2))))))"

definition CancelResponseJob ::
  "store_faults \<Rightarrow> string \<Rightarrow> string \<Rightarrow> duration \<Rightarrow> instant \<Rightarrow> response_db \<Rightarrow> store_error + (ResponseJob option \<times> response_db)" where
  "CancelResponseJob fault ident actor resultTTL now db =
     (case cancel_transaction fault ident actor resultTTL now db of
        Inl e \<Rightarrow> if e = ErrRowNotFound then Inr (None, db) else Inl e
      | Inr (job, db1) \<Rightarrow> Inr (Some job, db1))"

section \<open>Finalisation\<close>

definition final_row :: "CallContext \<Rightarrow> string \<Rightarrow> string \<Rightarrow> string \<Rightarrow> string \<Rightarrow> instant \<Rightarrow> instant \<Rightarrow> ResponseJob \<Rightarrow> ResponseJob" where
  "final_row call status resultCiphertext errorCode errorMessage expiresAt now job =
     (cleared_admission job)\<lparr>RJ_Status := status, RJ_ResultCiphertext := resultCiphertext, RJ_ErrorCode := errorCode,
        RJ_ErrorMessage := errorMessage, RJ_CompletedAt := Some now, RJ_ExpiresAt := Some expiresAt, RJ_UpdatedAt := now,
        RJ_RequestID := (if C_RequestID call \<noteq> [] then C_RequestID call else RJ_RequestID job)\<rparr>"

definition finalize_call ::
  "store_faults \<Rightarrow> CallContext \<Rightarrow> RouteSelection \<Rightarrow> reported_usage \<Rightarrow> int \<Rightarrow> string \<Rightarrow> instant \<Rightarrow> gateway_db \<Rightarrow> store_error + gateway_db" where
  "finalize_call fault call route usage statusCode errorCode now g =
     (if C_RequestID call = [] then Inr g
      else rbind (db_call fault ''log.count'') (\<lambda>_.
           if list_ex (\<lambda>r. RL_RequestID r = C_RequestID call) (gd_logs g) then Inr g
           else finishCallTransaction fault call route usage statusCode errorCode now g))"

text \<open>The update of the row; a binding to keep with a successful answer may fail to be saved.\<close>

definition finalize_held ::
  "store_faults \<Rightarrow> bool \<Rightarrow> CallContext \<Rightarrow> string \<Rightarrow> string \<Rightarrow> int \<Rightarrow> string \<Rightarrow> string \<Rightarrow> string \<Rightarrow> string \<Rightarrow> instant \<Rightarrow> instant \<Rightarrow>
   response_db \<Rightarrow> store_error + response_db" where
  "finalize_held fault binding call ident owner epoch status resultCiphertext errorCode errorMessage expiresAt now db =
     rbind (db_call fault ''response_job.finalize'') (\<lambda>_.
       case update_where (held_by ident owner epoch) (final_row call status resultCiphertext errorCode errorMessage expiresAt now) db of (n, db1) \<Rightarrow>
         if n \<noteq> 1 then Inl ErrRowNotFound
         else rbind (if status = ''succeeded'' \<and> binding then db_call fault ''jev_binding.save'' else Inr ()) (\<lambda>_.
                appendResponseJobEvent fault ident ''running'' status errorCode owner now db1))"

definition finalize_transaction ::
  "store_faults \<Rightarrow> bool \<Rightarrow> CallContext \<Rightarrow> string \<Rightarrow> string \<Rightarrow> int \<Rightarrow> string \<Rightarrow> string \<Rightarrow> RouteSelection \<Rightarrow> reported_usage \<Rightarrow> int \<Rightarrow> string \<Rightarrow> string \<Rightarrow>
   duration \<Rightarrow> instant \<Rightarrow> response_db \<Rightarrow> store_error + response_db" where
  "finalize_transaction fault binding call ident owner epoch status resultCiphertext route usage statusCode errorCode errorMessage resultTTL now db =
     rbind (db_call fault ''response_job.first'') (\<lambda>_.
       case find (\<lambda>j. RJ_ID j = ident) (rs_jobs db) of
         None \<Rightarrow> Inl ErrRowNotFound
       | Some job \<Rightarrow>
           rbind (db_call fault ''db.now'') (\<lambda>_.
           if RJ_Status job = ''running'' \<and> RJ_LeaseOwner job = owner \<and> RJ_LeaseEpoch job = epoch
           then let cancelled = (RJ_CancelRequestedAt job \<noteq> None);
                    statusCode1 = (if cancelled then 499 else statusCode);
                    errorCode1 = (if cancelled then ''response_cancelled'' else errorCode)
                in rbind (if cancelled
                          then finalize_held fault binding call ident owner epoch ''cancelled'' [] errorCode1 ''Response job was cancelled'' (now + resultTTL) now db
                          else finalize_held fault binding call ident owner epoch status resultCiphertext errorCode1 errorMessage (now + resultTTL) now db) (\<lambda>db1.
                     on_gateway (finalize_call fault call route usage statusCode1 errorCode1 now) db1)
           else if RJ_Status job = ''cancelled'' \<and> RJ_RequestID job = C_RequestID call
           then on_gateway (finalize_call fault call route usage 499 ''response_cancelled'' now) db
           else Inl ErrRowNotFound))"

definition FinalizeResponseJob ::
  "store_faults \<Rightarrow> (string \<Rightarrow> string) \<Rightarrow> bool \<Rightarrow> CallContext \<Rightarrow> string \<Rightarrow> string \<Rightarrow> int \<Rightarrow> string \<Rightarrow> string \<Rightarrow> RouteSelection \<Rightarrow> reported_usage \<Rightarrow> int \<Rightarrow>
   string \<Rightarrow> string \<Rightarrow> duration \<Rightarrow> instant \<Rightarrow> response_db \<Rightarrow> store_error + (bool \<times> response_db)" where
  "FinalizeResponseJob fault encryptSecret binding call ident owner epoch status resultJSON route usage statusCode errorCode errorMessage resultTTL now db =
     rbind (encryptResponseJobPayload encryptSecret resultJSON) (\<lambda>resultCiphertext.
       case finalize_transaction fault binding call ident owner epoch status resultCiphertext route usage statusCode errorCode errorMessage resultTTL now db of
         Inl e \<Rightarrow> if e = ErrRowNotFound then Inr (False, db) else Inl e
       | Inr db1 \<Rightarrow> Inr (True, db1))"

definition responseJobSafeErrorMessage :: "string \<Rightarrow> string \<Rightarrow> string" where
  "responseJobSafeErrorMessage code message =
     (if code = [] then []
      else if code \<in> set [''response_cancelled'', ''response_job_timeout'', ''response_payload_invalid'', ''response_result_invalid'',
        ''response_authorization_lost'', ''provider_capability_not_supported'', ''response_execution_lost'', ''response_cancelled_worker_lost'',
        ''rate_limit_exceeded'', ''quota_exceeded'', ''budget_exceeded'', ''model_not_allowed'']
      then message else ''Background response execution failed'')"

definition final_status :: "int \<Rightarrow> string \<Rightarrow> string" where
  "final_status statusCode errorCode =
     (if statusCode = 499 \<or> errorCode = ''response_cancelled'' then ''cancelled''
      else if statusCode < 200 \<or> statusCode \<ge> 300 \<or> errorCode \<noteq> [] then ''failed'' else ''succeeded'')"

definition attemptsWithoutErrorText :: "RouteAttempt list \<Rightarrow> RouteAttempt list" where
  "attemptsWithoutErrorText attempts = map (\<lambda>attempt. attempt\<lparr>RA_Error := []\<rparr>) attempts"

definition newRouteAttemptLog :: "string \<Rightarrow> string \<Rightarrow> nat \<Rightarrow> RouteAttempt \<Rightarrow> instant \<Rightarrow> RouteAttemptLog" where
  "newRouteAttemptLog newID requestID index attempt now =
     \<lparr>AL_ID = newID, AL_RequestID = requestID, AL_AttemptIndex = index + 1, AL_Attempt = attempt, AL_CreatedAt = now\<rparr>"

definition attempt_rows :: "(nat \<Rightarrow> string) \<Rightarrow> string \<Rightarrow> RouteAttempt list \<Rightarrow> instant \<Rightarrow> RouteAttemptLog list" where
  "attempt_rows newID requestID attempts now =
     map (\<lambda>(index, attempt). newRouteAttemptLog (newID index) requestID index attempt now) (enumerate 0 attempts)"

text \<open>One insert for all rows, whose error is dropped; an identifier in use is such an error.\<close>

definition RecordRouteAttempts ::
  "store_faults \<Rightarrow> (nat \<Rightarrow> string) \<Rightarrow> string \<Rightarrow> RouteAttempt list \<Rightarrow> instant \<Rightarrow> response_db \<Rightarrow> response_db" where
  "RecordRouteAttempts fault newID requestID attempts now db =
     (if requestID = [] \<or> attempts = [] then db
      else let items = attempt_rows newID requestID attempts now
           in case db_call fault ''route_attempt.create'' of
                Inl _ \<Rightarrow> db
              | Inr _ \<Rightarrow> if distinct (map AL_ID (rs_attempts db @ items)) then db\<lparr>rs_attempts := rs_attempts db @ items\<rparr> else db)"

text \<open>The worker's side: an error is logged and the tables stay as they are. Once the job is settled, by
  this worker or by the cancellation that beat it, the attempts of the call are recorded.\<close>

definition finalizeResponseJob ::
  "store_faults \<Rightarrow> (string \<Rightarrow> string) \<Rightarrow> (nat \<Rightarrow> string) \<Rightarrow> bool \<Rightarrow> CallContext \<Rightarrow> string \<Rightarrow> string \<Rightarrow> int \<Rightarrow> string \<Rightarrow> RouteSelection \<Rightarrow>
   reported_usage \<Rightarrow> RouteAttempt list \<Rightarrow> int \<Rightarrow> string \<Rightarrow> string \<Rightarrow> duration \<Rightarrow> instant \<Rightarrow> instant \<Rightarrow> response_db \<Rightarrow> bool \<times> response_db" where
  "finalizeResponseJob fault encryptSecret newID binding call ident owner epoch resultJSON route usage attempts statusCode errorCode errorMessage
     resultTTL now host db =
     (case FinalizeResponseJob fault encryptSecret binding call ident owner epoch (final_status statusCode errorCode) resultJSON route usage
             statusCode errorCode (responseJobSafeErrorMessage errorCode errorMessage) resultTTL now db of
        Inl _ \<Rightarrow> (False, db)
      | Inr (finished, db1) \<Rightarrow>
          if \<not> finished then (False, db1)
          else if C_RequestID call = [] then (True, db1)
          else (True, RecordRouteAttempts fault newID (C_RequestID call) (attemptsWithoutErrorText attempts) host db1))"

section \<open>Recovery\<close>

record recovery_counts =
  rc_requeued :: nat
  rc_failed :: nat
  rc_cancelled :: nat

definition lease_over :: "instant \<Rightarrow> ResponseJob \<Rightarrow> bool" where
  "lease_over now job = (case RJ_LeaseExpiresAt job of None \<Rightarrow> False | Some t \<Rightarrow> t \<le> now)"

definition lapsed :: "string \<Rightarrow> int \<Rightarrow> instant \<Rightarrow> ResponseJob \<Rightarrow> bool" where
  "lapsed ident epoch now j \<longleftrightarrow> RJ_ID j = ident \<and> RJ_Status j = ''running'' \<and> RJ_LeaseEpoch j = epoch \<and> lease_over now j"

definition recover_cancelled ::
  "store_faults \<Rightarrow> duration \<Rightarrow> instant \<Rightarrow> ResponseJob \<Rightarrow> recovery_counts \<times> response_db \<Rightarrow> store_error + (recovery_counts \<times> response_db)" where
  "recover_cancelled fault resultTTL now job = (\<lambda>(counts, db).
     rbind (db_call fault ''response_job.recover'') (\<lambda>_.
       case update_where (\<lambda>j. lapsed (RJ_ID job) (RJ_LeaseEpoch job) now j \<and> RJ_CancelRequestedAt j \<noteq> None)
              (lost_row ''cancelled'' ''response_cancelled_worker_lost'' ''Response cancellation was retained after worker ownership was lost''
                 (now + resultTTL) now) db of (n, db1) \<Rightarrow>
         if n \<noteq> 1 then Inr (counts, db1)
         else rbind (on_gateway (settle_lost_request fault job 499 ''response_cancelled_worker_lost'' now) db1) (\<lambda>db2.
              rbind (appendResponseJobEvent fault (RJ_ID job) ''running'' ''cancelled'' ''response_cancelled_worker_lost'' ''recovery'' now db2) (\<lambda>db3.
                Inr (counts\<lparr>rc_cancelled := rc_cancelled counts + 1\<rparr>, db3)))))"

definition still_there :: "ResponseJob \<Rightarrow> instant \<Rightarrow> ResponseJob \<Rightarrow> bool" where
  "still_there job now j \<longleftrightarrow> lapsed (RJ_ID job) (RJ_LeaseEpoch job) now j \<and> RJ_Phase j = RJ_Phase job \<and> RJ_RequestID j = RJ_RequestID job \<and>
     RJ_CancelRequestedAt j = None"

definition recover_requeue ::
  "store_faults \<Rightarrow> instant \<Rightarrow> ResponseJob \<Rightarrow> bool \<Rightarrow> recovery_counts \<times> response_db \<Rightarrow> store_error + (recovery_counts \<times> response_db)" where
  "recover_requeue fault now job recoverableAdmission = (\<lambda>(counts, db).
     rbind (db_call fault ''response_job.recover'') (\<lambda>_.
       case update_where (still_there job now) (requeued_row now) db of (n, db1) \<Rightarrow>
         if n \<noteq> 1 then Inr (counts, db1)
         else rbind (if recoverableAdmission then on_gateway (rollbackResponseJobAdmission fault job) db1 else Inr db1) (\<lambda>db2.
              rbind (appendResponseJobEvent fault (RJ_ID job) ''running'' ''queued'' ''response_worker_recovered'' ''recovery'' now db2) (\<lambda>db3.
                Inr (counts\<lparr>rc_requeued := rc_requeued counts + 1\<rparr>, db3)))))"

definition recover_failed ::
  "store_faults \<Rightarrow> duration \<Rightarrow> instant \<Rightarrow> ResponseJob \<Rightarrow> recovery_counts \<times> response_db \<Rightarrow> store_error + (recovery_counts \<times> response_db)" where
  "recover_failed fault resultTTL now job = (\<lambda>(counts, db).
     rbind (db_call fault ''response_job.recover'') (\<lambda>_.
       case update_where (still_there job now)
              (lost_row ''failed'' ''response_execution_lost'' ''Worker ownership was lost after admission; the request was not retried''
                 (now + resultTTL) now) db of (n, db1) \<Rightarrow>
         if n \<noteq> 1 then Inr (counts, db1)
         else rbind (on_gateway (settle_lost_request fault job 500 ''response_execution_lost'' now) db1) (\<lambda>db2.
              rbind (appendResponseJobEvent fault (RJ_ID job) ''running'' ''failed'' ''response_execution_lost'' ''recovery'' now db2) (\<lambda>db3.
                Inr (counts\<lparr>rc_failed := rc_failed counts + 1\<rparr>, db3)))))"

definition recover_response_job ::
  "store_faults \<Rightarrow> duration \<Rightarrow> instant \<Rightarrow> ResponseJob \<Rightarrow> recovery_counts \<times> response_db \<Rightarrow> store_error + (recovery_counts \<times> response_db)" where
  "recover_response_job fault resultTTL now job s =
     (let recoverableClaim = (RJ_Phase job = ''claimed'' \<and> RJ_RequestID job = []);
          recoverableAdmission = (RJ_Phase job = ''admitted'' \<and> RJ_RequestID job \<noteq> [] \<and> RJ_AdmittedAt job \<noteq> None)
      in if RJ_CancelRequestedAt job \<noteq> None then recover_cancelled fault resultTTL now job s
         else if recoverableClaim \<or> recoverableAdmission then recover_requeue fault now job recoverableAdmission s
         else recover_failed fault resultTTL now job s)"

fun recover_response_jobs ::
  "store_faults \<Rightarrow> duration \<Rightarrow> instant \<Rightarrow> ResponseJob list \<Rightarrow> recovery_counts \<times> response_db \<Rightarrow> store_error + (recovery_counts \<times> response_db)" where
  "recover_response_jobs fault resultTTL now [] s = Inr s"
| "recover_response_jobs fault resultTTL now (job # rest) s =
     rbind (recover_response_job fault resultTTL now job s) (recover_response_jobs fault resultTTL now rest)"

definition RecoverResponseJobs ::
  "store_faults \<Rightarrow> (ResponseJob \<Rightarrow> bool) \<Rightarrow> duration \<Rightarrow> instant \<Rightarrow> response_db \<Rightarrow> store_error + (recovery_counts \<times> response_db)" where
  "RecoverResponseJobs fault locked resultTTL now db =
     rbind (db_call fault ''db.now'') (\<lambda>_.
     rbind (db_call fault ''response_job.find'') (\<lambda>_.
       recover_response_jobs fault resultTTL now (filter (\<lambda>j. RJ_Status j = ''running'' \<and> lease_over now j \<and> \<not> locked j) (rs_jobs db))
         (\<lparr>rc_requeued = 0, rc_failed = 0, rc_cancelled = 0\<rparr>, db)))"

section \<open>Retention\<close>

definition retention_over :: "instant \<Rightarrow> ResponseJob \<Rightarrow> bool" where
  "retention_over now job = (case RJ_ExpiresAt job of None \<Rightarrow> False | Some t \<Rightarrow> t \<le> now)"

fun expire_jobs :: "store_faults \<Rightarrow> instant \<Rightarrow> ResponseJob list \<Rightarrow> nat \<times> response_db \<Rightarrow> store_error + (nat \<times> response_db)" where
  "expire_jobs fault now [] s = Inr s"
| "expire_jobs fault now (job # rest) (expired, db) =
     rbind (rbind (db_call fault ''response_job.expire'') (\<lambda>_.
       case update_where (\<lambda>j. RJ_ID j = RJ_ID job \<and> RJ_Status j = RJ_Status job)
              (\<lambda>j. j\<lparr>RJ_Status := ''expired'', RJ_RequestCiphertext := [], RJ_ResultCiphertext := [], RJ_ErrorCode := ''response_expired'',
                 RJ_ErrorMessage := ''Response job content expired'', RJ_UpdatedAt := now\<rparr>) db of (n, db1) \<Rightarrow>
         if n \<noteq> 1 then Inr (expired, db1)
         else rbind (appendResponseJobEvent fault (RJ_ID job) (RJ_Status job) ''expired'' ''response_expired'' ''retention'' now db1) (\<lambda>db2.
                Inr (expired + 1, db2)))) (expire_jobs fault now rest)"

definition ExpireResponseJobs :: "store_faults \<Rightarrow> instant \<Rightarrow> response_db \<Rightarrow> store_error + (nat \<times> response_db)" where
  "ExpireResponseJobs fault now db =
     rbind (db_call fault ''db.now'') (\<lambda>_.
     rbind (db_call fault ''response_job.find'') (\<lambda>_.
       expire_jobs fault now
         (filter (\<lambda>j. RJ_Status j \<in> set [''succeeded'', ''failed'', ''cancelled''] \<and> retention_over now j) (rs_jobs db)) (0, db)))"

section \<open>What holds of a row and its events\<close>

fun chain :: "string \<Rightarrow> ResponseJobEvent list \<Rightarrow> string \<Rightarrow> bool" where
  "chain s [] t \<longleftrightarrow> s = t"
| "chain s (e # es) t \<longleftrightarrow> EV_FromStatus e = s \<and> chain (EV_ToStatus e) es t"

lemma chain_snoc: "chain s (es @ [e]) t \<longleftrightarrow> chain s es (EV_FromStatus e) \<and> EV_ToStatus e = t"
  by (induction es arbitrary: s) auto

definition events_of :: "string \<Rightarrow> response_db \<Rightarrow> ResponseJobEvent list" where
  "events_of ident db = filter (\<lambda>e. EV_JobID e = ident) (rs_events db)"

definition claim_event :: "ResponseJobEvent \<Rightarrow> bool" where
  "claim_event e \<longleftrightarrow> EV_FromStatus e = ''queued'' \<and> EV_ToStatus e = ''running''"

definition dispatch_event :: "ResponseJobEvent \<Rightarrow> bool" where
  "dispatch_event e \<longleftrightarrow> EV_ReasonCode e = ''response_dispatched'' \<and> EV_ToStatus e = ''running''"

definition job_shape :: "ResponseJob \<Rightarrow> bool" where
  "job_shape j \<longleftrightarrow>
     RJ_Status j \<in> set [''queued'', ''running'', ''succeeded'', ''failed'', ''cancelled'', ''expired''] \<and>
     (RJ_Status j = ''running'' \<longleftrightarrow> RJ_LeaseOwner j \<noteq> []) \<and> (RJ_Status j = ''running'' \<longleftrightarrow> RJ_LeaseExpiresAt j \<noteq> None) \<and>
     (RJ_Status j = ''running'' \<longrightarrow> RJ_Phase j \<in> set [''claimed'', ''admitted'', ''dispatched'']) \<and>
     (RJ_Status j = ''queued'' \<longrightarrow> RJ_Phase j = ''queued'' \<and> RJ_RequestID j = [] \<and> RJ_CancelRequestedAt j = None) \<and>
     (RJ_Status j = ''running'' \<longrightarrow> (RJ_Phase j = ''claimed'' \<longleftrightarrow> RJ_RequestID j = [])) \<and>
     (RJ_AdmittedAt j \<noteq> None \<longleftrightarrow> RJ_Status j = ''running'' \<and> RJ_Phase j \<noteq> ''claimed'') \<and>
     (RJ_AdmittedAt j = None \<longrightarrow> RJ_ReservedTokens j = 0) \<and>
     (RJ_Status j = ''expired'' \<longrightarrow> RJ_RequestCiphertext j = [] \<and> RJ_ResultCiphertext j = [])"

definition logged :: "ResponseJob \<Rightarrow> gateway_db \<Rightarrow> bool" where
  "logged j g \<longleftrightarrow> (responseJobTerminal (RJ_Status j) \<and> RJ_RequestID j \<noteq> [] \<longrightarrow> (\<exists>l \<in> set (gd_logs g). RL_RequestID l = RJ_RequestID j))"

definition row_inv :: "gateway_db \<Rightarrow> ResponseJobEvent list \<Rightarrow> ResponseJob \<Rightarrow> bool" where
  "row_inv g es j \<longleftrightarrow> chain [] es (RJ_Status j) \<and> job_shape j \<and> int (length (filter claim_event es)) = RJ_LeaseEpoch j \<and>
     length (filter dispatch_event es) \<le> (if RJ_Phase j = ''dispatched'' then 1 else 0) \<and> logged j g"

definition response_inv :: "response_db \<Rightarrow> bool" where
  "response_inv db \<longleftrightarrow> distinct (map RJ_ID (rs_jobs db)) \<and>
     (\<forall>j \<in> set (rs_jobs db). row_inv (rs_gateway db) (events_of (RJ_ID j) db) j) \<and>
     (\<forall>e \<in> set (rs_events db). EV_JobID e \<in> RJ_ID ` set (rs_jobs db))"

definition more_logs :: "gateway_db \<Rightarrow> gateway_db \<Rightarrow> bool" where
  "more_logs g g' \<longleftrightarrow> set (gd_logs g) \<subseteq> set (gd_logs g')"

lemma more_logs_refl [simp, intro]: "more_logs g g"
  by (simp add: more_logs_def)

lemma more_logs_trans [trans]: "more_logs a b \<Longrightarrow> more_logs b c \<Longrightarrow> more_logs a c"
  by (auto simp: more_logs_def)

lemma logged_mono: "logged j g \<Longrightarrow> more_logs g g' \<Longrightarrow> logged j g'"
  by (auto simp: logged_def more_logs_def)

lemma row_inv_mono: "row_inv g es j \<Longrightarrow> more_logs g g' \<Longrightarrow> row_inv g' es j"
  by (auto simp: row_inv_def dest: logged_mono)

lemma row_advance:
  assumes "row_inv g es j" and "EV_FromStatus e = RJ_Status j" and "EV_ToStatus e = RJ_Status j'" and "job_shape j'"
    and "RJ_LeaseEpoch j' = RJ_LeaseEpoch j + (if claim_event e then 1 else 0)"
    and "if dispatch_event e then RJ_Phase j \<noteq> ''dispatched'' \<and> RJ_Phase j' = ''dispatched''
      else RJ_Phase j = ''dispatched'' \<longrightarrow> RJ_Phase j' = ''dispatched''"
    and "logged j' g'"
  shows "row_inv g' (es @ [e]) j'"
  using assms by (auto simp: row_inv_def chain_snoc split: if_splits)

section \<open>Updates of one row\<close>

lemma update_where_eq:
  "update_where sel upd db = (n, db1) \<longleftrightarrow>
     n = length (filter sel (rs_jobs db)) \<and> db1 = db\<lparr>rs_jobs := map (\<lambda>j. if sel j then upd j else j) (rs_jobs db)\<rparr>"
  by (auto simp: update_where_def)

lemma one_row:
  assumes "distinct (map RJ_ID js)" and "\<And>j. sel j \<Longrightarrow> RJ_ID j = i"
  shows "length (filter sel js) \<le> 1"
  using assms(1)
proof (induction js)
  case (Cons a js)
  show ?case
  proof (cases "sel a")
    case True
    then have "RJ_ID a = i" by (rule assms(2))
    moreover have "RJ_ID a \<notin> RJ_ID ` set js" using Cons.prems by simp
    ultimately have "\<forall>j \<in> set js. \<not> sel j" using assms(2) by (metis image_eqI)
    then have "filter sel js = []" by (simp add: filter_empty_conv)
    then show ?thesis by simp
  qed (use Cons in auto)
qed simp

lemma untouched:
  assumes "distinct (map RJ_ID (rs_jobs db))" and "\<And>j. sel j \<Longrightarrow> RJ_ID j = i" and "length (filter sel (rs_jobs db)) \<noteq> 1"
  shows "map (\<lambda>j. if sel j then upd j else j) (rs_jobs db) = rs_jobs db"
proof -
  have "length (filter sel (rs_jobs db)) \<le> 1" by (rule one_row [OF assms(1,2)])
  with assms(3) have "length (filter sel (rs_jobs db)) = 0" by linarith
  then have "\<forall>j \<in> set (rs_jobs db). \<not> sel j" by (simp add: filter_empty_conv)
  then show ?thesis by (simp add: map_idI)
qed

lemma update_missed:
  assumes "response_inv db" and "\<And>j. sel j \<Longrightarrow> RJ_ID j = i" and "update_where sel upd db = (n, db1)" and "n \<noteq> 1"
  shows "db1 = db"
  using untouched [of db sel i upd] assms by (simp add: update_where_eq response_inv_def)

lemma touch_inv:
  assumes "response_inv db" and "update_where sel upd db = (n, db1)" and "\<And>j. RJ_ID (upd j) = RJ_ID j"
    and "\<And>g es j. j \<in> set (rs_jobs db) \<Longrightarrow> sel j \<Longrightarrow> row_inv g es j \<Longrightarrow> row_inv g es (upd j)"
  shows "response_inv db1"
proof -
  have jobs: "rs_jobs db1 = map (\<lambda>j. if sel j then upd j else j) (rs_jobs db)" using assms(2) by (simp add: update_where_eq)
  then have ids: "map RJ_ID (rs_jobs db1) = map RJ_ID (rs_jobs db)" using assms(3) by auto
  then have img: "RJ_ID ` set (rs_jobs db1) = RJ_ID ` set (rs_jobs db)" by (metis list.set_map)
  have same: "events_of i db1 = events_of i db" "rs_events db1 = rs_events db" "rs_gateway db1 = rs_gateway db" for i
    using assms(2) by (auto simp: events_of_def update_where_eq)
  have "\<forall>j \<in> set (rs_jobs db1). row_inv (rs_gateway db) (events_of (RJ_ID j) db) j"
    using assms(1,3,4) by (auto simp: response_inv_def jobs)
  then show ?thesis using assms(1) by (simp add: response_inv_def ids img same)
qed

lemma advance_inv:
  assumes inv: "response_inv db" and u: "update_where sel upd db = (1, db1)" and ids: "\<And>j. sel j \<Longrightarrow> RJ_ID j = i"
    and keep: "\<And>j. RJ_ID (upd j) = RJ_ID j"
    and jobs: "rs_jobs db' = rs_jobs db1" and ev: "rs_events db' = rs_events db @ [e]" and e: "EV_JobID e = i"
    and logs: "more_logs (rs_gateway db) (rs_gateway db')"
    and step: "\<And>es j. j \<in> set (rs_jobs db) \<Longrightarrow> sel j \<Longrightarrow> row_inv (rs_gateway db) es j \<Longrightarrow> row_inv (rs_gateway db') (es @ [e]) (upd j)"
  shows "response_inv db'"
proof -
  have jobs': "rs_jobs db' = map (\<lambda>j. if sel j then upd j else j) (rs_jobs db)" using u jobs by (simp add: update_where_eq)
  have "filter sel (rs_jobs db) \<noteq> []" using u by (auto simp: update_where_eq)
  then obtain j0 where j0: "j0 \<in> set (rs_jobs db)" "sel j0" by (auto simp: filter_empty_conv)
  have d: "distinct (map RJ_ID (rs_jobs db))" using inv by (simp add: response_inv_def)
  have all: "sel j" if "j \<in> set (rs_jobs db)" "RJ_ID j = i" for j
    using that j0 ids [OF j0(2)] d by (metis distinct_map inj_onD)
  have id': "map RJ_ID (rs_jobs db') = map RJ_ID (rs_jobs db)" using keep by (auto simp: jobs')
  have evs: "events_of k db' = events_of k db @ (if k = i then [e] else [])" for k using ev e by (auto simp: events_of_def)
  have "row_inv (rs_gateway db') (events_of (RJ_ID j') db') j'" if "j' \<in> set (rs_jobs db')" for j'
  proof -
    from that obtain j where j: "j \<in> set (rs_jobs db)" "j' = (if sel j then upd j else j)" by (auto simp: jobs')
    have r: "row_inv (rs_gateway db) (events_of (RJ_ID j) db) j" using inv j(1) by (simp add: response_inv_def)
    show ?thesis
    proof (cases "sel j")
      case True
      then show ?thesis using step [OF j(1) True r] j(2) ids [OF True] keep by (simp add: evs)
    next
      case False
      then have "RJ_ID j \<noteq> i" using all j(1) by blast
      then show ?thesis using row_inv_mono [OF r logs] j(2) False by (simp add: evs)
    qed
  qed
  moreover have "RJ_ID ` set (rs_jobs db') = RJ_ID ` set (rs_jobs db)" using id' by (metis list.set_map)
  moreover have "i \<in> RJ_ID ` set (rs_jobs db)" using j0 ids by force
  ultimately show ?thesis using inv id' d ev e by (auto simp: response_inv_def)
qed

lemma gateway_inv: "response_inv db \<Longrightarrow> more_logs (rs_gateway db) g \<Longrightarrow> response_inv (db\<lparr>rs_gateway := g\<rparr>)"
  by (auto simp: response_inv_def events_of_def intro: row_inv_mono)

lemma appendEvent_eq:
  "appendResponseJobEvent f i from to reason actor now db = Inr db1 \<Longrightarrow>
   db1 = db\<lparr>rs_events := rs_events db @ [\<lparr>EV_JobID = i, EV_FromStatus = from, EV_ToStatus = to, EV_ReasonCode = reason, EV_Actor = actor,
     EV_CreatedAt = now\<rparr>]\<rparr>"
  by (auto simp: appendResponseJobEvent_def rbind_eq_Inr_iff)

lemma on_gateway_eq: "on_gateway step db = Inr db1 \<longleftrightarrow> (\<exists>g. step (rs_gateway db) = Inr g \<and> db1 = db\<lparr>rs_gateway := g\<rparr>)"
  by (auto simp: on_gateway_def rbind_eq_Inr_iff)

section \<open>Every operation keeps the invariant\<close>

lemmas row_defs = claimed_row_def cleared_admission_def lost_row_def requeued_row_def cancelled_row_def final_row_def admitted_columns_def

lemma CreateResponseJob_inv:
  assumes "CreateResponseJob f enc newID now (submitted_job ident project key model) json db = Inr (job, db1)" and "response_inv db"
  shows "response_inv db1"
proof -
  from assms(1) have new: "RJ_ID job \<notin> RJ_ID ` set (rs_jobs db)" and st: "RJ_Status job = ''queued''"
    and jobs: "rs_jobs db1 = rs_jobs db @ [job]" and g: "rs_gateway db1 = rs_gateway db"
    and ev: "\<exists>e. rs_events db1 = rs_events db @ [e] \<and> EV_JobID e = RJ_ID job \<and> EV_FromStatus e = [] \<and> EV_ToStatus e = ''queued''"
    and shape: "job_shape job" "RJ_LeaseEpoch job = 0" "RJ_Phase job = ''queued''" "RJ_RequestID job = []"
    by (auto simp: CreateResponseJob_def submitted_job_def Let_def rbind_eq_Inr_iff list_ex_iff job_shape_def dest!: appendEvent_eq
        split: if_splits)
  from ev obtain e where e: "rs_events db1 = rs_events db @ [e]" "EV_JobID e = RJ_ID job" "EV_FromStatus e = []" "EV_ToStatus e = ''queued''"
    by blast
  have none: "events_of (RJ_ID job) db = []" using assms(2) new unfolding response_inv_def events_of_def filter_empty_conv by metis
  have "row_inv (rs_gateway db) [e] job"
    using e st shape by (simp add: row_inv_def claim_event_def dispatch_event_def logged_def)
  moreover have "events_of k db1 = events_of k db @ (if k = RJ_ID job then [e] else [])" for k using e by (auto simp: events_of_def)
  moreover have "RJ_ID j \<noteq> RJ_ID job" if "j \<in> set (rs_jobs db)" for j using new that by (metis image_eqI)
  ultimately show ?thesis using assms(2) new none by (auto simp: response_inv_def jobs g e)
qed

text \<open>A transaction that updates one row and appends its event.\<close>

lemma transition_core:
  assumes inv: "response_inv db" and u: "update_where sel upd db = (1, dbu)" and ids: "\<And>j. sel j \<Longrightarrow> RJ_ID j = i"
    and keep: "\<And>j. RJ_ID (upd j) = RJ_ID j"
    and mid: "rs_jobs db1 = rs_jobs dbu" "rs_events db1 = rs_events db @ [e]" "more_logs (rs_gateway db) (rs_gateway db1)" "EV_JobID e = i"
    and row: "\<And>j. j \<in> set (rs_jobs db) \<Longrightarrow> sel j \<Longrightarrow> job_shape j \<Longrightarrow>
      RJ_Status j = EV_FromStatus e \<and> RJ_Status (upd j) = EV_ToStatus e \<and> job_shape (upd j) \<and>
      RJ_LeaseEpoch (upd j) = RJ_LeaseEpoch j + (if EV_FromStatus e = ''queued'' \<and> EV_ToStatus e = ''running'' then 1 else 0) \<and>
      (if EV_ReasonCode e = ''response_dispatched'' \<and> EV_ToStatus e = ''running'' then RJ_Phase j \<noteq> ''dispatched'' \<and> RJ_Phase (upd j) = ''dispatched''
       else RJ_Phase j = ''dispatched'' \<longrightarrow> RJ_Phase (upd j) = ''dispatched'')"
    and log: "\<And>j. j \<in> set (rs_jobs db) \<Longrightarrow> sel j \<Longrightarrow> job_shape j \<Longrightarrow> logged j (rs_gateway db) \<Longrightarrow> logged (upd j) (rs_gateway db1)"
  shows "response_inv db1"
proof (rule advance_inv [OF inv u ids keep mid(1,2,4,3)])
  fix es j
  assume that: "j \<in> set (rs_jobs db)" "sel j" "row_inv (rs_gateway db) es j"
  have sh: "job_shape j" "logged j (rs_gateway db)" using that(3) by (simp_all add: row_inv_def)
  show "row_inv (rs_gateway db1) (es @ [e]) (upd j)"
    by (rule row_advance [OF that(3)]) (use row [OF that(1,2) sh(1)] log [OF that(1,2) sh] in \<open>auto simp: claim_event_def dispatch_event_def\<close>)
qed

lemma transition_inv:
  assumes inv: "response_inv db" and u: "update_where sel upd db = (1, dbu)" and ids: "\<And>j. sel j \<Longrightarrow> RJ_ID j = i"
    and keep: "\<And>j. RJ_ID (upd j) = RJ_ID j"
    and mid: "rs_jobs dbm = rs_jobs dbu" "rs_events dbm = rs_events db" "more_logs (rs_gateway db) (rs_gateway dbm)"
    and a: "appendResponseJobEvent f i from to reason actor now dbm = Inr db1"
    and row: "\<And>j. j \<in> set (rs_jobs db) \<Longrightarrow> sel j \<Longrightarrow> job_shape j \<Longrightarrow> RJ_Status j = from \<and> RJ_Status (upd j) = to \<and> job_shape (upd j) \<and>
      RJ_LeaseEpoch (upd j) = RJ_LeaseEpoch j + (if from = ''queued'' \<and> to = ''running'' then 1 else 0) \<and>
      (if reason = ''response_dispatched'' \<and> to = ''running'' then RJ_Phase j \<noteq> ''dispatched'' \<and> RJ_Phase (upd j) = ''dispatched''
       else RJ_Phase j = ''dispatched'' \<longrightarrow> RJ_Phase (upd j) = ''dispatched'')"
    and log: "\<And>j. j \<in> set (rs_jobs db) \<Longrightarrow> sel j \<Longrightarrow> job_shape j \<Longrightarrow> logged j (rs_gateway db) \<Longrightarrow> logged (upd j) (rs_gateway dbm)"
  shows "response_inv db1"
proof -
  note ap = appendEvent_eq [OF a]
  show ?thesis by (rule transition_core [OF inv u ids keep]) (use mid row log in \<open>auto simp: ap\<close>)
qed

lemma update_frame [dest]: "update_where sel upd db = (n, db1) \<Longrightarrow> rs_events db1 = rs_events db \<and> rs_gateway db1 = rs_gateway db"
  by (auto simp: update_where_eq)

lemma claim_row_inv:
  assumes "claim_row f owner expiresAt now job db = Inr (job1, db1)" and "response_inv db" and "TrimSpace owner \<noteq> []"
  shows "response_inv db1"
proof -
  let ?sel = "\<lambda>j. RJ_ID j = RJ_ID job \<and> RJ_Status j = ''queued''"
  have o: "owner \<noteq> []" using assms(3) by auto
  from assms(1) obtain dbu where u: "update_where ?sel (claimed_row owner expiresAt now) db = (1, dbu)"
    and a: "appendResponseJobEvent f (RJ_ID job) ''queued'' ''running'' ''response_claimed'' owner now dbu = Inr db1"
    by (auto simp: claim_row_def rbind_eq_Inr_iff split: prod.splits if_splits)
  show ?thesis
    by (rule transition_inv [OF assms(2) u _ _ _ _ _ a])
      (use o update_frame [OF u] in \<open>auto simp: row_defs job_shape_def logged_def responseJobTerminal_def\<close>)
qed

lemma claim_transaction_inv:
  "claim_transaction f locked owner ttl now db = Inr (job, db1) \<Longrightarrow> response_inv db \<Longrightarrow> TrimSpace owner \<noteq> [] \<Longrightarrow> response_inv db1"
  by (auto simp: claim_transaction_def rbind_eq_Inr_iff split: option.splits intro: claim_row_inv)

lemma claim_sqlite_transaction_inv:
  "claim_sqlite_transaction f owner ttl now db = Inr (job, db1) \<Longrightarrow> response_inv db \<Longrightarrow> TrimSpace owner \<noteq> [] \<Longrightarrow> response_inv db1"
  by (auto simp: claim_sqlite_transaction_def rbind_eq_Inr_iff split: option.splits intro: claim_row_inv)

lemma failUnreadable_inv:
  assumes "failUnreadableResponseJob f ident owner epoch ttl now db = Inr db1" and "response_inv db"
    and "\<forall>j \<in> set (rs_jobs db). held_by ident owner epoch j \<longrightarrow> RJ_Phase j = ''claimed''"
  shows "response_inv db1"
proof -
  let ?sel = "\<lambda>j. RJ_ID j = ident \<and> RJ_Status j = ''running'' \<and> RJ_LeaseOwner j = owner \<and> RJ_LeaseEpoch j = epoch"
  from assms(1) obtain n dbu upd where u: "update_where ?sel upd db = (n, dbu)"
    and upd: "upd = (\<lambda>j. j\<lparr>RJ_Status := ''failed'', RJ_ErrorCode := ''response_payload_unreadable'',
            RJ_ErrorMessage := ''Encrypted response job payload could not be read'', RJ_RequestCiphertext := [], RJ_ResultCiphertext := [],
            RJ_LeaseOwner := [], RJ_LeaseExpiresAt := None, RJ_CompletedAt := Some now, RJ_ExpiresAt := Some (now + ttl), RJ_UpdatedAt := now\<rparr>)"
    and r: "(if n \<noteq> 1 then Inr dbu else appendResponseJobEvent f ident ''running'' ''failed'' ''response_payload_unreadable'' owner now dbu) = Inr db1"
    by (auto simp: failUnreadableResponseJob_def rbind_eq_Inr_iff split: prod.splits)
  show ?thesis
  proof (cases "n = 1")
    case True
    with u r have u1: "update_where ?sel upd db = (1, dbu)"
      and a: "appendResponseJobEvent f ident ''running'' ''failed'' ''response_payload_unreadable'' owner now dbu = Inr db1" by simp_all
    show ?thesis
      by (rule transition_inv [OF assms(2) u1 _ _ _ _ _ a])
        (use assms(3) update_frame [OF u] in \<open>auto simp: upd job_shape_def logged_def responseJobTerminal_def held_by_def\<close>)
  next
    case False
    then show ?thesis using update_missed [OF assms(2) _ u False, of ident] r assms(2) by auto
  qed
qed

lemma renew_inv:
  assumes "RenewResponseJobLease f f2 ident owner epoch ttl now later db = (res, db1)" and "response_inv db"
  shows "response_inv db1"
proof -
  have "response_inv db2" if "update_where (held_by ident owner epoch) (\<lambda>j. j\<lparr>RJ_LeaseExpiresAt := Some (now + ttl), RJ_UpdatedAt := now\<rparr>) db = (n, db2)"
    for n db2
    by (rule touch_inv [OF assms(2) that]) (auto simp: row_inv_def job_shape_def logged_def held_by_def)
  then show ?thesis
    using assms by (auto simp: RenewResponseJobLease_def rbind_eq_Inr_iff split: sum.splits prod.splits if_splits)
qed

lemma same_row: "response_inv db \<Longrightarrow> j \<in> set (rs_jobs db) \<Longrightarrow> k \<in> set (rs_jobs db) \<Longrightarrow> RJ_ID j = RJ_ID k \<Longrightarrow> j = k"
  by (auto simp: response_inv_def distinct_map dest: inj_onD)

lemma admit_logs: "admitCallTransaction f env ck keyID m r rid g = Inr (call, g1) \<Longrightarrow> gd_logs g1 = gd_logs g"
  by (elim admitCallTransaction_cases) (auto dest: capture_logs)

definition admissible :: "string \<Rightarrow> string \<Rightarrow> int \<Rightarrow> instant \<Rightarrow> ResponseJob \<Rightarrow> bool" where
  "admissible ident owner epoch now j \<longleftrightarrow>
     held_by ident owner epoch j \<and> RJ_Phase j = ''claimed'' \<and> lease_live now j \<and> RJ_CancelRequestedAt j = None"

definition admitted_row :: "CallContext \<Rightarrow> string \<Rightarrow> instant \<Rightarrow> ResponseJob \<Rightarrow> ResponseJob" where
  "admitted_row call rid now j = admitted_columns call (j\<lparr>RJ_Phase := ''admitted'', RJ_RequestID := rid, RJ_UpdatedAt := now\<rparr>)"

text \<open>The two updates of an admission are one.\<close>

lemma admit_law:
  assumes "AdmitResponseJob f env ck ident owner epoch keyID m r rid now db = Inr (Some call, db1)" and inv: "response_inv db"
  shows "\<exists>dbu. update_where (admissible ident owner epoch now) (admitted_row call rid now) db = (1, dbu) \<and> rs_jobs db1 = rs_jobs dbu"
    and "\<exists>j \<in> set (rs_jobs db). admissible ident owner epoch now j"
    and "rs_events db1 = rs_events db @ [\<lparr>EV_JobID = ident, EV_FromStatus = ''running'', EV_ToStatus = ''running'',
      EV_ReasonCode = ''response_admitted'', EV_Actor = owner, EV_CreatedAt = now\<rparr>]"
    and "admitCallTransaction f env ck keyID m r rid (rs_gateway db) = Inr (call, rs_gateway db1)"
proof -
  let ?sel = "admissible ident owner epoch now"
  let ?sel2 = "\<lambda>j. held_by ident owner epoch j \<and> RJ_Phase j = ''admitted'' \<and> RJ_RequestID j = rid"
  let ?upd = "\<lambda>j. j\<lparr>RJ_Phase := ''admitted'', RJ_RequestID := rid, RJ_UpdatedAt := now\<rparr>"
  from assms(1) obtain dbu dbe g where u: "update_where ?sel ?upd db = (1, dbu)"
    and a: "appendResponseJobEvent f ident ''running'' ''running'' ''response_admitted'' owner now dbu = Inr dbe"
    and c: "admitCallTransaction f env ck keyID m r rid (rs_gateway dbe) = Inr (call, g)"
    and d: "db1 = snd (update_where ?sel2 (admitted_columns call) (dbe\<lparr>rs_gateway := g\<rparr>))"
    unfolding admissible_def by (auto simp: AdmitResponseJob_def Let_def rbind_eq_Inr_iff split: sum.splits if_splits prod.splits)
  note ap = appendEvent_eq [OF a]
  have dbu: "dbu = db\<lparr>rs_jobs := map (\<lambda>j. if ?sel j then ?upd j else j) (rs_jobs db)\<rparr>" and one: "length (filter ?sel (rs_jobs db)) = 1"
    using u by (simp_all add: update_where_eq)
  from one have "filter ?sel (rs_jobs db) \<noteq> []" by auto
  then show ex: "\<exists>j \<in> set (rs_jobs db). ?sel j" unfolding filter_empty_conv by blast
  then obtain j0 where j0: "j0 \<in> set (rs_jobs db)" "?sel j0" ..
  have point: "(if ?sel2 (if ?sel j then ?upd j else j) then admitted_columns call (if ?sel j then ?upd j else j) else (if ?sel j then ?upd j else j)) =
      (if ?sel j then admitted_row call rid now j else j)" if "j \<in> set (rs_jobs db)" for j
  proof (cases "?sel j")
    case True
    then show ?thesis by (simp add: admitted_row_def admissible_def held_by_def)
  next
    case False
    then have "\<not> ?sel2 j" using same_row [OF inv that j0(1)] j0(2) by (auto simp: held_by_def admissible_def)
    then show ?thesis using False by (simp only: if_False)
  qed
  have "rs_jobs db1 = map (\<lambda>k. if ?sel2 k then admitted_columns call k else k) (rs_jobs dbu)" by (simp add: d ap update_where_def)
  then show "\<exists>dbu. update_where ?sel (admitted_row call rid now) db = (1, dbu) \<and> rs_jobs db1 = rs_jobs dbu"
    using one point by (auto simp: update_where_eq dbu)
  show "admitCallTransaction f env ck keyID m r rid (rs_gateway db) = Inr (call, rs_gateway db1)" using c by (simp add: d ap dbu update_where_def)
  show "rs_events db1 = rs_events db @ [\<lparr>EV_JobID = ident, EV_FromStatus = ''running'', EV_ToStatus = ''running'',
      EV_ReasonCode = ''response_admitted'', EV_Actor = owner, EV_CreatedAt = now\<rparr>]"
    by (simp add: d ap dbu update_where_def)
qed

lemma admit_inv:
  assumes "AdmitResponseJob f env ck ident owner epoch keyID m r rid now db = Inr (res, db1)" and "response_inv db" and "rid \<noteq> []"
  shows "response_inv db1"
proof (cases res)
  case None
  then have "db1 = db"
    using assms(1) by (auto simp: AdmitResponseJob_def Let_def rbind_eq_Inr_iff split: sum.splits if_splits prod.splits)
  then show ?thesis using assms(2) by simp
next
  case (Some call)
  note law = admit_law [OF assms(1) [unfolded Some] assms(2)]
  from law(1) obtain dbu where u: "update_where (admissible ident owner epoch now) (admitted_row call rid now) db = (1, dbu)" "rs_jobs db1 = rs_jobs dbu"
    by blast
  show ?thesis
    by (rule transition_core [OF assms(2) u(1) _ _ u(2) law(3)])
      (use admit_logs [OF law(4)] assms(3) in \<open>auto simp: more_logs_def admissible_def admitted_row_def held_by_def job_shape_def row_defs
        logged_def responseJobTerminal_def\<close>)
qed

lemma mark_inv:
  assumes "MarkResponseJobPhase f ident owner epoch phase rid now db = Inr (res, db1)" and "response_inv db"
  shows "response_inv db1"
proof -
  let ?sel = "\<lambda>j. held_by ident owner epoch j \<and> RJ_Phase j = ''admitted'' \<and> RJ_RequestID j = rid \<and> lease_live now j \<and> RJ_CancelRequestedAt j = None"
  let ?upd = "\<lambda>j. j\<lparr>RJ_Phase := ''dispatched'', RJ_UpdatedAt := now\<rparr>"
  from assms(1) obtain n dbu where u: "update_where ?sel ?upd db = (n, dbu)" and
    r: "if n \<noteq> 1 then db1 = dbu else appendResponseJobEvent f ident ''running'' ''running'' ''response_dispatched'' owner now dbu = Inr db1"
    by (auto simp: MarkResponseJobPhase_def rbind_eq_Inr_iff split: if_splits prod.splits)
  show ?thesis
  proof (cases "n = 1")
    case True
    with u r have u1: "update_where ?sel ?upd db = (1, dbu)"
      and a: "appendResponseJobEvent f ident ''running'' ''running'' ''response_dispatched'' owner now dbu = Inr db1" by simp_all
    show ?thesis
      by (rule transition_inv [OF assms(2) u1 _ _ _ _ _ a])
        (use update_frame [OF u] in \<open>auto simp: job_shape_def logged_def responseJobTerminal_def held_by_def\<close>)
  next
    case False
    then show ?thesis using update_missed [OF assms(2) _ u False, of ident] r assms(2) by (auto simp: held_by_def)
  qed
qed

lemma find_row: "find (\<lambda>j. RJ_ID j = ident) js = Some job \<Longrightarrow> job \<in> set js \<and> RJ_ID job = ident"
  by (auto simp: find_Some_iff)

lemma cancel_transaction_inv:
  assumes "cancel_transaction f ident actor ttl now db = Inr (res, db1)" and "response_inv db"
  shows "response_inv db1"
proof -
  from assms(1) obtain job where fd: "find (\<lambda>j. RJ_ID j = ident) (rs_jobs db) = Some job"
    by (auto simp: cancel_transaction_def rbind_eq_Inr_iff split: option.splits)
  note job = find_row [OF fd]
  show ?thesis
  proof (cases "responseJobTerminal (RJ_Status job) \<or> RJ_Status job = ''running'' \<and> RJ_CancelRequestedAt job \<noteq> None")
    case True
    then have "db1 = db" using assms(1) by (auto simp: cancel_transaction_def rbind_eq_Inr_iff fd split: if_splits)
    then show ?thesis using assms(2) by simp
  next
    case open_job: False
    show ?thesis
    proof (cases "RJ_Status job = ''running''")
      case True
      let ?sel = "\<lambda>j. RJ_ID j = ident \<and> RJ_Status j = ''running''"
      let ?upd = "\<lambda>j. j\<lparr>RJ_CancelRequestedAt := Some now, RJ_UpdatedAt := now\<rparr>"
      from assms(1) open_job True obtain dbu where u: "update_where ?sel ?upd db = (1, dbu)"
        and a: "appendResponseJobEvent f ident ''running'' ''running'' ''response_cancel_requested'' actor now dbu = Inr db1"
        by (auto simp: cancel_transaction_def rbind_eq_Inr_iff fd Let_def split: if_splits prod.splits)
      show ?thesis
        by (rule transition_inv [OF assms(2) u _ _ _ _ _ a])
          (use update_frame [OF u] in \<open>auto simp: job_shape_def logged_def responseJobTerminal_def\<close>)
    next
      case False
      let ?sel = "\<lambda>j. RJ_ID j = ident \<and> RJ_Status j = ''queued''"
      from assms(1) open_job False obtain dbu where u: "update_where ?sel (cancelled_row (now + ttl) now) db = (1, dbu)"
        and a: "appendResponseJobEvent f ident (RJ_Status job) ''cancelled'' ''response_cancelled'' actor now dbu = Inr db1"
        by (auto simp: cancel_transaction_def rbind_eq_Inr_iff fd Let_def split: if_splits prod.splits)
      show ?thesis
        by (rule transition_inv [OF assms(2) u _ _ _ _ _ a])
          (use update_frame [OF u] job same_row [OF assms(2) _ conjunct1 [OF job]] in
            \<open>auto simp: job_shape_def logged_def responseJobTerminal_def row_defs\<close>)
    qed
  qed
qed

lemma cancel_inv: "CancelResponseJob f ident actor ttl now db = Inr (res, db1) \<Longrightarrow> response_inv db \<Longrightarrow> response_inv db1"
  by (auto simp: CancelResponseJob_def split: sum.splits if_splits intro: cancel_transaction_inv)

definition has_log :: "string \<Rightarrow> gateway_db \<Rightarrow> bool" where
  "has_log rid g \<longleftrightarrow> (\<exists>l \<in> set (gd_logs g). RL_RequestID l = rid)"

lemma release_more: "release_request f rid g = Inr g1 \<Longrightarrow> more_logs g g1"
  by (simp add: more_logs_def release_logs)

lemma refund_more: "refundUndispatchedResponseJobReservation f job g = Inr g1 \<Longrightarrow> more_logs g g1"
  by (auto simp: refundUndispatchedResponseJobReservation_def more_logs_def Let_def rbind_eq_Inr_iff split: if_splits option.splits)

lemma rollback_more: "rollbackResponseJobAdmission f job g = Inr g1 \<Longrightarrow> more_logs g g1"
  by (auto simp: rollbackResponseJobAdmission_def more_logs_def rbind_eq_Inr_iff dest!: release_logs split: option.splits)

lemma recordLost_logs:
  "recordLostResponseJobRequest f job st code now g = Inr g1 \<Longrightarrow> more_logs g g1 \<and> (RJ_RequestID job \<noteq> [] \<longrightarrow> has_log (RJ_RequestID job) g1)"
  by (auto simp: recordLostResponseJobRequest_def more_logs_def has_log_def list_ex_iff rbind_eq_Inr_iff split: if_splits)

lemma close_lost_logs:
  "close_lost_request f job st code now g = Inr g1 \<Longrightarrow> more_logs g g1 \<and> (RJ_RequestID job \<noteq> [] \<longrightarrow> has_log (RJ_RequestID job) g1)"
  using recordLost_logs release_more by (fastforce simp: close_lost_request_def rbind_eq_Inr_iff intro: more_logs_trans split: if_splits)

lemma settle_lost_logs:
  "settle_lost_request f job st code now g = Inr g1 \<Longrightarrow> more_logs g g1 \<and> (RJ_RequestID job \<noteq> [] \<longrightarrow> has_log (RJ_RequestID job) g1)"
  using close_lost_logs refund_more by (fastforce simp: settle_lost_request_def rbind_eq_Inr_iff intro: more_logs_trans)

lemma finalize_call_logs:
  assumes "finalize_call f call route usage st ec now g = Inr g1"
  shows "more_logs g g1 \<and> (C_RequestID call \<noteq> [] \<longrightarrow> has_log (C_RequestID call) g1)"
proof (cases "C_RequestID call = [] \<or> g1 = g \<and> list_ex (\<lambda>r. RL_RequestID r = C_RequestID call) (gd_logs g)")
  case True
  then show ?thesis using assms by (auto simp: finalize_call_def has_log_def list_ex_iff)
next
  case False
  with assms have "finishCallTransaction f call route usage st ec now g = Inr g1"
    by (auto simp: finalize_call_def rbind_eq_Inr_iff split: if_splits)
  then show ?thesis
    using finish_logs finishCallTransaction_settled by (auto simp: more_logs_def has_log_def settled_def list_ex_iff)
qed

text \<open>A transaction that updates one row, works on the gateway's tables and appends the event; a row that
  was not there is no change.\<close>

lemma lost_inv:
  assumes "response_inv db" and u: "update_where sel (lost_row status code message expires now) db = (1, dbu)"
    and "\<And>j. sel j \<Longrightarrow> RJ_ID j = ident \<and> RJ_Status j = ''running''"
    and "on_gateway work dbu = Inr dbm" and "appendResponseJobEvent f ident ''running'' status reason actor now dbm = Inr db1"
    and "status = ''failed'' \<or> status = ''cancelled''"
    and "\<And>g1. work (rs_gateway db) = Inr g1 \<Longrightarrow> more_logs (rs_gateway db) g1"
    and "\<And>j g1. j \<in> set (rs_jobs db) \<Longrightarrow> sel j \<Longrightarrow> work (rs_gateway db) = Inr g1 \<Longrightarrow> RJ_RequestID j \<noteq> [] \<Longrightarrow> has_log (RJ_RequestID j) g1"
  shows "response_inv db1"
proof -
  from assms(4) update_frame [OF u] obtain g where g: "work (rs_gateway db) = Inr g" "dbm = dbu\<lparr>rs_gateway := g\<rparr>"
    by (auto simp: on_gateway_eq)
  show ?thesis
  proof (rule transition_inv [OF assms(1) u _ _ _ _ _ assms(5)])
    show "logged (lost_row status code message expires now j) (rs_gateway dbm)" if "j \<in> set (rs_jobs db)" "sel j" for j
      using assms(8) [OF that g(1)] by (auto simp: logged_def row_defs g(2) has_log_def)
  qed (use assms(3,6,7) g update_frame [OF u] in \<open>auto simp: job_shape_def row_defs\<close>)
qed

lemma requeue_inv:
  assumes "response_inv db" and u: "update_where sel (requeued_row now) db = (1, dbu)"
    and "\<And>j. sel j \<Longrightarrow> RJ_ID j = ident \<and> RJ_Status j = ''running'' \<and> RJ_Phase j \<noteq> ''dispatched''"
    and cancel: "\<And>j. j \<in> set (rs_jobs db) \<Longrightarrow> sel j \<Longrightarrow> RJ_CancelRequestedAt j = None"
    and "(if rollback then on_gateway (rollbackResponseJobAdmission f job) dbu else Inr dbu) = Inr dbm"
    and "appendResponseJobEvent f ident ''running'' ''queued'' reason actor now dbm = Inr db1"
  shows "response_inv db1"
proof -
  have g: "rs_jobs dbm = rs_jobs dbu" "rs_events dbm = rs_events db" "more_logs (rs_gateway db) (rs_gateway dbm)"
    using assms(5) update_frame [OF u] rollback_more by (auto simp: on_gateway_eq split: if_splits)
  show ?thesis
    by (rule transition_inv [OF assms(1) u _ _ g assms(6)])
      (use assms(3) cancel in \<open>auto simp: job_shape_def row_defs logged_def responseJobTerminal_def\<close>)
qed

lemma lost_branch:
  assumes inv: "response_inv db"
    and op: "(case update_where sel (lost_row status code message expires now) db of (n, dbu) \<Rightarrow>
      if n \<noteq> 1 then Inr (a, dbu)
      else rbind (on_gateway work dbu) (\<lambda>dbm. rbind (appendResponseJobEvent f ident ''running'' status reason actor now dbm) (\<lambda>db3. Inr (b, db3)))) =
      Inr (res, db1)"
    and ids: "\<And>j. sel j \<Longrightarrow> RJ_ID j = ident \<and> RJ_Status j = ''running''" and st: "status = ''failed'' \<or> status = ''cancelled''"
    and logs: "\<And>g g1. work g = Inr g1 \<Longrightarrow> more_logs g g1 \<and> (RJ_RequestID job \<noteq> [] \<longrightarrow> has_log (RJ_RequestID job) g1)"
    and rid: "\<And>j. j \<in> set (rs_jobs db) \<Longrightarrow> sel j \<Longrightarrow> RJ_RequestID j = RJ_RequestID job"
  shows "response_inv db1"
proof -
  obtain n dbu where u: "update_where sel (lost_row status code message expires now) db = (n, dbu)" by fastforce
  show ?thesis
  proof (cases "n = 1")
    case True
    with op u obtain dbm where w: "on_gateway work dbu = Inr dbm"
      and a: "appendResponseJobEvent f ident ''running'' status reason actor now dbm = Inr db1" by (auto simp: rbind_eq_Inr_iff)
    show ?thesis
    proof (rule lost_inv [OF inv u [unfolded True] ids w a st])
      show "more_logs (rs_gateway db) g1" if "work (rs_gateway db) = Inr g1" for g1 using logs [OF that] by blast
      show "has_log (RJ_RequestID j) g1" if "j \<in> set (rs_jobs db)" "sel j" "work (rs_gateway db) = Inr g1" "RJ_RequestID j \<noteq> []" for j g1
        using logs [OF that(3)] rid [OF that(1,2)] that(4) by simp
    qed
  next
    case False
    moreover have "sel j \<Longrightarrow> RJ_ID j = ident" for j using ids by blast
    ultimately show ?thesis using update_missed [OF inv _ u False, of ident] op u inv by auto
  qed
qed

lemma requeue_branch:
  assumes inv: "response_inv db"
    and op: "(case update_where sel (requeued_row now) db of (n, dbu) \<Rightarrow>
      if n \<noteq> 1 then Inr (a, dbu)
      else rbind (if rollback then on_gateway (rollbackResponseJobAdmission f job) dbu else Inr dbu) (\<lambda>dbm.
        rbind (appendResponseJobEvent f ident ''running'' ''queued'' reason actor now dbm) (\<lambda>db3. Inr (b, db3)))) = Inr (res, db1)"
    and ids: "\<And>j. sel j \<Longrightarrow> RJ_ID j = ident \<and> RJ_Status j = ''running'' \<and> RJ_Phase j \<noteq> ''dispatched''"
    and cancel: "\<And>j. j \<in> set (rs_jobs db) \<Longrightarrow> sel j \<Longrightarrow> RJ_CancelRequestedAt j = None"
  shows "response_inv db1"
proof -
  obtain n dbu where u: "update_where sel (requeued_row now) db = (n, dbu)" by fastforce
  show ?thesis
  proof (cases "n = 1")
    case True
    with op u obtain dbm where w: "(if rollback then on_gateway (rollbackResponseJobAdmission f job) dbu else Inr dbu) = Inr dbm"
      and a: "appendResponseJobEvent f ident ''running'' ''queued'' reason actor now dbm = Inr db1" by (auto simp: rbind_eq_Inr_iff)
    show ?thesis by (rule requeue_inv [OF inv u [unfolded True] _ _ w a]) (use ids cancel in blast)+
  next
    case False
    moreover have "sel j \<Longrightarrow> RJ_ID j = ident" for j using ids by blast
    ultimately show ?thesis using update_missed [OF inv _ u False, of ident] op u inv by auto
  qed
qed

lemma after_call: "rbind (db_call f site) (\<lambda>_. r) = Inr x \<Longrightarrow> r = Inr x"
  by (auto simp: rbind_eq_Inr_iff)

lemma shutdown_inv:
  assumes "ShutdownResponseJob f ident owner epoch ttl now db = Inr (res, db1)" and inv: "response_inv db"
  shows "response_inv db1"
proof -
  from assms(1) obtain job where fd: "find (\<lambda>j. RJ_ID j = ident) (rs_jobs db) = Some job"
    by (auto simp: ShutdownResponseJob_def rbind_eq_Inr_iff split: option.splits)
  note job = find_row [OF fd]
  have same: "j = job" if "j \<in> set (rs_jobs db)" "held_by ident owner epoch j" for j
    using same_row [OF inv that(1) conjunct1 [OF job]] that(2) job by (simp add: held_by_def)
  consider "db1 = db"
    | "shutdown_cancelled f ident owner epoch ttl now job db = Inr (res, db1)"
    | "shutdown_dispatched f ident owner epoch ttl now job db = Inr (res, db1)"
    | "shutdown_requeue f ident owner epoch now job db = Inr (res, db1)" "RJ_Phase job \<noteq> ''dispatched''" "RJ_CancelRequestedAt job = None"
    using assms(1) by (auto simp: ShutdownResponseJob_def rbind_eq_Inr_iff fd split: if_splits)
  then show ?thesis
  proof cases
    case 2
    show ?thesis
      by (rule lost_branch [OF inv after_call [OF 2 [unfolded shutdown_cancelled_def]], where job = job])
        (use same in \<open>auto simp: held_by_def dest: settle_lost_logs\<close>)
  next
    case 3
    show ?thesis
      by (rule lost_branch [OF inv after_call [OF 3 [unfolded shutdown_dispatched_def]], where job = job])
        (use same in \<open>auto simp: held_by_def dest: close_lost_logs\<close>)
  next
    case 4
    show ?thesis
    proof (rule requeue_branch [OF inv after_call [OF 4(1) [unfolded shutdown_requeue_def]]])
      show "RJ_ID j = ident \<and> RJ_Status j = ''running'' \<and> RJ_Phase j \<noteq> ''dispatched''"
        if "held_by ident owner epoch j \<and> RJ_Phase j = RJ_Phase job" for j
        using that 4(2) by (simp add: held_by_def)
      show "RJ_CancelRequestedAt j = None" if "j \<in> set (rs_jobs db)" "held_by ident owner epoch j \<and> RJ_Phase j = RJ_Phase job" for j
        using same [OF that(1) conjunct1 [OF that(2)]] 4(3) by simp
    qed
  qed (use inv in simp)
qed

lemma finalize_held_inv:
  assumes "finalize_held f binding call ident owner epoch status cipher code message expires now db = Inr dbm"
    and w: "on_gateway (finalize_call f' call route usage st ec now') dbm = Inr db1"
    and inv: "response_inv db" and st: "status \<in> set [''succeeded'', ''failed'', ''cancelled'']"
    and own: "\<forall>j \<in> set (rs_jobs db). held_by ident owner epoch j \<longrightarrow> C_RequestID call = [] \<longrightarrow> RJ_RequestID j = []"
  shows "response_inv db1"
proof -
  from assms(1) obtain dbu where u: "update_where (held_by ident owner epoch) (final_row call status cipher code message expires now) db = (1, dbu)"
    and a: "appendResponseJobEvent f ident ''running'' status code owner now dbu = Inr dbm"
    by (auto simp: finalize_held_def rbind_eq_Inr_iff split: prod.splits if_splits)
  note ap = appendEvent_eq [OF a]
  from w obtain g where g: "finalize_call f' call route usage st ec now' (rs_gateway db) = Inr g" "db1 = dbm\<lparr>rs_gateway := g\<rparr>"
    using update_frame [OF u] by (auto simp: on_gateway_eq ap)
  note lg = finalize_call_logs [OF g(1)]
  show ?thesis
  proof (rule transition_core [OF inv u])
    show "logged (final_row call status cipher code message expires now j) (rs_gateway db1)"
      if "j \<in> set (rs_jobs db)" "held_by ident owner epoch j" for j
      using lg own that by (auto simp: logged_def row_defs g(2) has_log_def)
    show "rs_events db1 = rs_events db @ [\<lparr>EV_JobID = ident, EV_FromStatus = ''running'', EV_ToStatus = status, EV_ReasonCode = code,
        EV_Actor = owner, EV_CreatedAt = now\<rparr>]"
      using update_frame [OF u] by (simp add: g(2) ap)
  qed (use lg st in \<open>auto simp: g(2) ap held_by_def job_shape_def row_defs\<close>)
qed

lemma finalize_transaction_inv:
  assumes "finalize_transaction f binding call ident owner epoch status cipher route usage st ec message ttl now db = Inr db1"
    and inv: "response_inv db" and st: "status \<in> set [''succeeded'', ''failed'', ''cancelled'']"
    and own: "\<forall>j \<in> set (rs_jobs db). held_by ident owner epoch j \<longrightarrow> C_RequestID call = [] \<longrightarrow> RJ_RequestID j = []"
  shows "response_inv db1"
proof -
  have settled: "response_inv db1" if "on_gateway (finalize_call f call route usage c e now) db = Inr db1" for c e
    using that finalize_call_logs gateway_inv [OF inv] by (auto simp: on_gateway_eq)
  have held: "response_inv db1"
    if "finalize_held f binding call ident owner epoch s k e m x now db = Inr dbm" "on_gateway (finalize_call f call route usage c e' now) dbm = Inr db1"
      "s \<in> set [''succeeded'', ''failed'', ''cancelled'']" for s k e m x dbm c e'
    by (rule finalize_held_inv [OF that(1,2) inv that(3) own])
  show ?thesis
    using assms(1) st settled
    by (auto simp: finalize_transaction_def rbind_eq_Inr_iff Let_def split: option.splits if_splits intro: held)
qed

lemma final_status_terminal: "final_status st ec \<in> set [''succeeded'', ''failed'', ''cancelled'']"
  by (simp add: final_status_def)

text \<open>Rows of attempts are only added, and only for the call that is settled; they carry no error text.\<close>

definition safe_row :: "string \<Rightarrow> RouteAttemptLog \<Rightarrow> bool" where
  "safe_row requestID row \<longleftrightarrow> AL_RequestID row = requestID \<and> RA_Error (AL_Attempt row) = []"

lemma attempt_rows_safe: "row \<in> set (attempt_rows newID requestID (attemptsWithoutErrorText attempts) now) \<Longrightarrow> safe_row requestID row"
  by (auto simp: attempt_rows_def attemptsWithoutErrorText_def newRouteAttemptLog_def safe_row_def in_set_enumerate_eq)

lemma RecordRouteAttempts_cases:
  obtains rows where "RecordRouteAttempts f newID rid (attemptsWithoutErrorText attempts) host db = db\<lparr>rs_attempts := rs_attempts db @ rows\<rparr>"
    and "\<forall>row \<in> set rows. safe_row rid row"
proof (cases "RecordRouteAttempts f newID rid (attemptsWithoutErrorText attempts) host db = db")
  case True
  then show thesis by (intro that [of "[]"]) simp_all
next
  case False
  then have "RecordRouteAttempts f newID rid (attemptsWithoutErrorText attempts) host db =
      db\<lparr>rs_attempts := rs_attempts db @ attempt_rows newID rid (attemptsWithoutErrorText attempts) host\<rparr>"
    by (auto simp: RecordRouteAttempts_def Let_def split: if_splits sum.splits)
  then show thesis using that attempt_rows_safe by blast
qed

lemma finalizeResponseJob_cases:
  assumes "finalizeResponseJob f enc newID binding call ident owner epoch json route usage attempts st ec message ttl now host db = (res, db1)"
  obtains "db1 = db"
    | cipher db2 rows where "finalize_transaction f binding call ident owner epoch (final_status st ec) cipher route usage st ec
        (responseJobSafeErrorMessage ec message) ttl now db = Inr db2"
      and "db1 = db2\<lparr>rs_attempts := rs_attempts db2 @ rows\<rparr>" and "\<forall>row \<in> set rows. safe_row (C_RequestID call) row"
proof (cases "encryptResponseJobPayload enc json")
  case (Inr cipher)
  show thesis
  proof (cases "finalize_transaction f binding call ident owner epoch (final_status st ec) cipher route usage st ec
      (responseJobSafeErrorMessage ec message) ttl now db")
    case t: (Inr db2)
    obtain rows where "RecordRouteAttempts f newID (C_RequestID call) (attemptsWithoutErrorText attempts) host db2 =
        db2\<lparr>rs_attempts := rs_attempts db2 @ rows\<rparr>" "\<forall>row \<in> set rows. safe_row (C_RequestID call) row"
      by (rule RecordRouteAttempts_cases)
    then have "db1 = db2\<lparr>rs_attempts := rs_attempts db2 @ (if C_RequestID call = [] then [] else rows)\<rparr>"
      using assms Inr t by (auto simp: finalizeResponseJob_def FinalizeResponseJob_def split: if_splits)
    moreover have "\<forall>row \<in> set (if C_RequestID call = [] then [] else rows). safe_row (C_RequestID call) row"
      using \<open>\<forall>row \<in> set rows. safe_row (C_RequestID call) row\<close> by simp
    ultimately show thesis using t that(2) by blast
  qed (use assms Inr that(1) in \<open>auto simp: finalizeResponseJob_def FinalizeResponseJob_def split: if_splits\<close>)
qed (use assms that(1) in \<open>auto simp: finalizeResponseJob_def FinalizeResponseJob_def\<close>)

lemma attempts_inv [simp]: "response_inv (db\<lparr>rs_attempts := rows\<rparr>) = response_inv db"
  by (simp add: response_inv_def events_of_def)

lemma finalize_inv:
  assumes "finalizeResponseJob f enc newID binding call ident owner epoch json route usage attempts st ec message ttl now host db = (res, db1)"
    and "response_inv db" and "\<forall>j \<in> set (rs_jobs db). held_by ident owner epoch j \<longrightarrow> C_RequestID call = [] \<longrightarrow> RJ_RequestID j = []"
  shows "response_inv db1"
  using assms(1)
proof (cases rule: finalizeResponseJob_cases)
  case (2 cipher db2 rows)
  have "response_inv db2" by (rule finalize_transaction_inv [OF 2(1) assms(2) final_status_terminal assms(3)])
  then show ?thesis by (simp add: 2(2))
qed (use assms(2) in simp)

section \<open>Sweeps\<close>

lemma update_others:
  "update_where sel upd db = (n, db1) \<Longrightarrow> (\<And>j. sel j \<Longrightarrow> RJ_ID j = i) \<Longrightarrow> j \<in> set (rs_jobs db) \<Longrightarrow> RJ_ID j \<noteq> i \<Longrightarrow> j \<in> set (rs_jobs db1)"
  by (force simp: update_where_eq)

lemma recover_one_cases:
  assumes "recover_response_job f ttl now job s = Inr t"
  obtains (cancelled) "recover_cancelled f ttl now job s = Inr t"
    | (requeue) rec where "recover_requeue f now job rec s = Inr t" "RJ_Phase job \<noteq> ''dispatched''"
    | (failed) "recover_failed f ttl now job s = Inr t"
proof (cases "RJ_CancelRequestedAt job \<noteq> None")
  case True
  then show thesis using assms cancelled by (simp add: recover_response_job_def)
next
  case False
  show thesis
  proof (cases "RJ_Phase job = ''claimed'' \<and> RJ_RequestID job = [] \<or> RJ_Phase job = ''admitted'' \<and> RJ_RequestID job \<noteq> [] \<and> RJ_AdmittedAt job \<noteq> None")
    case True
    then have "RJ_Phase job \<noteq> ''dispatched''" by auto
    with True False show thesis using assms requeue by (simp add: recover_response_job_def Let_def)
  next
    case no: False
    then show thesis using assms failed False by (auto simp: recover_response_job_def Let_def split: if_splits)
  qed
qed

lemma recover_one_inv:
  assumes "recover_response_job f ttl now job (c, db) = Inr (c1, db1)" and inv: "response_inv db" and job: "job \<in> set (rs_jobs db)"
  shows "response_inv db1"
proof -
  have same: "j = job" if "j \<in> set (rs_jobs db)" "lapsed (RJ_ID job) (RJ_LeaseEpoch job) now j" for j
    using same_row [OF inv that(1) job] that(2) by (simp add: lapsed_def)
  from assms(1) show ?thesis
  proof (cases rule: recover_one_cases)
    case cancelled
    show ?thesis
      by (rule lost_branch [OF inv after_call [OF cancelled [unfolded recover_cancelled_def prod.case]], where job = job])
        (use same in \<open>auto simp: lapsed_def dest: settle_lost_logs\<close>)
  next
    case (requeue rec)
    show ?thesis
      by (rule requeue_branch [OF inv after_call [OF requeue(1) [unfolded recover_requeue_def prod.case]]])
        (use requeue(2) in \<open>simp_all add: still_there_def lapsed_def\<close>)
  next
    case failed
    show ?thesis
      by (rule lost_branch [OF inv after_call [OF failed [unfolded recover_failed_def prod.case]], where job = job])
        (auto simp: still_there_def lapsed_def dest: settle_lost_logs)
  qed
qed

lemma branch_others:
  assumes "(case update_where sel upd db of (n, dbu) \<Rightarrow>
      if n \<noteq> 1 then Inr (a, dbu)
      else rbind (work dbu) (\<lambda>dbm. rbind (appendResponseJobEvent f i from to reason actor now dbm) (\<lambda>db3. Inr (b, db3)))) = Inr (res, db1)"
    and "\<And>d d1. work d = Inr d1 \<Longrightarrow> rs_jobs d1 = rs_jobs d" and "\<And>j. sel j \<Longrightarrow> RJ_ID j = k"
    and "j \<in> set (rs_jobs db)" and "RJ_ID j \<noteq> k"
  shows "j \<in> set (rs_jobs db1)"
proof -
  obtain n dbu where u: "update_where sel upd db = (n, dbu)" by fastforce
  have "rs_jobs db1 = rs_jobs dbu"
    using assms(1,2) u by (fastforce simp: rbind_eq_Inr_iff dest!: appendEvent_eq split: if_splits)
  moreover have "j \<in> set (rs_jobs dbu)" by (rule update_others [OF u assms(3-5)])
  ultimately show ?thesis by simp
qed

lemma recover_one_others:
  assumes "recover_response_job f ttl now job (c, db) = Inr (c1, db1)" and "j \<in> set (rs_jobs db)" and "RJ_ID j \<noteq> RJ_ID job"
  shows "j \<in> set (rs_jobs db1)"
  using assms(1)
proof (cases rule: recover_one_cases)
  case cancelled
  show ?thesis
    by (rule branch_others [OF after_call [OF cancelled [unfolded recover_cancelled_def prod.case]] _ _ assms(2,3)])
      (auto simp: on_gateway_eq lapsed_def)
next
  case (requeue rec)
  show ?thesis
    by (rule branch_others [OF after_call [OF requeue(1) [unfolded recover_requeue_def prod.case]] _ _ assms(2,3)])
      (auto simp: on_gateway_eq still_there_def lapsed_def split: if_splits)
next
  case failed
  show ?thesis
    by (rule branch_others [OF after_call [OF failed [unfolded recover_failed_def prod.case]] _ _ assms(2,3)])
      (auto simp: on_gateway_eq still_there_def lapsed_def)
qed

lemma recover_all_inv:
  "recover_response_jobs f ttl now jobs (c, db) = Inr (c1, db1) \<Longrightarrow> response_inv db \<Longrightarrow> distinct (map RJ_ID jobs) \<Longrightarrow>
   set jobs \<subseteq> set (rs_jobs db) \<Longrightarrow> response_inv db1"
proof (induction jobs arbitrary: c db)
  case (Cons job jobs)
  from Cons.prems(1) obtain ca dba where r: "recover_response_job f ttl now job (c, db) = Inr (ca, dba)"
    and rest: "recover_response_jobs f ttl now jobs (ca, dba) = Inr (c1, db1)"
    by (auto simp: rbind_eq_Inr_iff)
  have "response_inv dba" using recover_one_inv [OF r] Cons.prems by simp
  moreover have "set jobs \<subseteq> set (rs_jobs dba)"
  proof
    fix j
    assume "j \<in> set jobs"
    then have "RJ_ID j \<noteq> RJ_ID job" "j \<in> set (rs_jobs db)" using Cons.prems(3,4) by (auto simp: rev_image_eqI)
    then show "j \<in> set (rs_jobs dba)" using recover_one_others [OF r] by blast
  qed
  ultimately show ?case using Cons.IH [OF rest] Cons.prems(3) by simp
qed simp

lemma recover_inv:
  assumes "RecoverResponseJobs f locked ttl now db = Inr (c, db1)" and "response_inv db"
  shows "response_inv db1"
proof -
  have "distinct (map RJ_ID (filter P (rs_jobs db)))" for P using assms(2) by (simp add: response_inv_def distinct_map_filter)
  then show ?thesis using assms by (auto simp: RecoverResponseJobs_def rbind_eq_Inr_iff intro: recover_all_inv)
qed

lemma expire_all_inv:
  "expire_jobs f now jobs (n, db) = Inr (n1, db1) \<Longrightarrow> response_inv db \<Longrightarrow>
   \<forall>j \<in> set jobs. RJ_Status j \<in> set [''succeeded'', ''failed'', ''cancelled''] \<Longrightarrow> response_inv db1"
proof (induction jobs arbitrary: n db)
  case (Cons job jobs)
  let ?sel = "\<lambda>j. RJ_ID j = RJ_ID job \<and> RJ_Status j = RJ_Status job"
  let ?upd = "\<lambda>j. j\<lparr>RJ_Status := ''expired'', RJ_RequestCiphertext := [], RJ_ResultCiphertext := [], RJ_ErrorCode := ''response_expired'',
    RJ_ErrorMessage := ''Response job content expired'', RJ_UpdatedAt := now\<rparr>"
  obtain k dbu where u: "update_where ?sel ?upd db = (k, dbu)" by fastforce
  from Cons.prems(1) u obtain na dba where rest: "expire_jobs f now jobs (na, dba) = Inr (n1, db1)"
    and r: "if k \<noteq> 1 then dba = dbu else appendResponseJobEvent f (RJ_ID job) (RJ_Status job) ''expired'' ''response_expired'' ''retention'' now dbu = Inr dba"
    by (auto simp: rbind_eq_Inr_iff split: if_splits)
  have "response_inv dba"
  proof (cases "k = 1")
    case True
    with r have a: "appendResponseJobEvent f (RJ_ID job) (RJ_Status job) ''expired'' ''response_expired'' ''retention'' now dbu = Inr dba" by simp
    have st: "RJ_Status job = ''succeeded'' \<or> RJ_Status job = ''failed'' \<or> RJ_Status job = ''cancelled''" using Cons.prems(3) by simp
    have shape: "job_shape (?upd j)" if "job_shape j" "RJ_Status j = RJ_Status job" for j
      using st that by (elim disjE) (simp_all add: job_shape_def)
    have log: "logged (?upd j) g" if "logged j g" "RJ_Status j = RJ_Status job" for j g
      using st that by (elim disjE) (simp_all add: logged_def responseJobTerminal_def)
    show ?thesis
      by (rule transition_inv [OF Cons.prems(2) u [unfolded True] _ _ _ _ _ a])
        (use update_frame [OF u] shape log in \<open>simp_all\<close>)
  next
    case False
    then show ?thesis using update_missed [OF Cons.prems(2) _ u False, of "RJ_ID job"] r Cons.prems(2) by auto
  qed
  then show ?case using Cons.IH [OF rest] Cons.prems(3) by simp
qed simp

lemma expire_inv: "ExpireResponseJobs f now db = Inr (n, db1) \<Longrightarrow> response_inv db \<Longrightarrow> response_inv db1"
  by (auto simp: ExpireResponseJobs_def rbind_eq_Inr_iff intro: expire_all_inv)

section \<open>All that happens to the jobs\<close>

text \<open>Each transaction is a step, so the workers of all instances, clients, recovery and retention may
  interleave in any order, with any clock readings and any failing statement. The conditions are what a
  caller knows: a submission asks for a fresh queued row, a worker names itself, request identifiers are
  not empty, a worker that cannot read a job has not admitted it, and one that admitted a call passes it
  on. Other traffic adds log rows and rows of route attempts.\<close>

inductive response_step :: "response_db \<Rightarrow> response_db \<Rightarrow> bool" where
  create: "CreateResponseJob f enc newID now (submitted_job ident project key model) json db = Inr (job, db1) \<Longrightarrow> response_step db db1"
| claim: "claim_transaction f locked owner ttl now db = Inr (job, db1) \<Longrightarrow> TrimSpace owner \<noteq> [] \<Longrightarrow> response_step db db1"
| claim_sqlite: "claim_sqlite_transaction f owner ttl now db = Inr (job, db1) \<Longrightarrow> TrimSpace owner \<noteq> [] \<Longrightarrow> response_step db db1"
| unreadable:
    "failUnreadableResponseJob f ident owner epoch ttl now db = Inr db1 \<Longrightarrow>
     \<forall>j \<in> set (rs_jobs db). held_by ident owner epoch j \<longrightarrow> RJ_Phase j = ''claimed'' \<Longrightarrow> response_step db db1"
| renew: "RenewResponseJobLease f f2 ident owner epoch ttl now later db = (res, db1) \<Longrightarrow> response_step db db1"
| admit: "AdmitResponseJob f env ck ident owner epoch keyID m r rid now db = Inr (call, db1) \<Longrightarrow> rid \<noteq> [] \<Longrightarrow> response_step db db1"
| release: "response_step db (ReleaseResponseJobAdmission f rid db)"
| dispatch: "MarkResponseJobPhase f ident owner epoch phase rid now db = Inr (retained, db1) \<Longrightarrow> response_step db db1"
| shutdown: "ShutdownResponseJob f ident owner epoch ttl now db = Inr (r2, db1) \<Longrightarrow> response_step db db1"
| cancel: "CancelResponseJob f ident actor ttl now db = Inr (cancelled, db1) \<Longrightarrow> response_step db db1"
| finalize:
    "finalizeResponseJob f enc newID binding call ident owner epoch json route usage attempts st ec message ttl now host db = (finished, db1) \<Longrightarrow>
     \<forall>j \<in> set (rs_jobs db). held_by ident owner epoch j \<longrightarrow> C_RequestID call = [] \<longrightarrow> RJ_RequestID j = [] \<Longrightarrow> response_step db db1"
| recover: "RecoverResponseJobs f locked ttl now db = Inr (counts, db1) \<Longrightarrow> response_step db db1"
| expire: "ExpireResponseJobs f now db = Inr (n, db1) \<Longrightarrow> response_step db db1"
| traffic: "more_logs (rs_gateway db) g \<Longrightarrow> response_step db (db\<lparr>rs_gateway := g, rs_attempts := rs_attempts db @ rows\<rparr>)"

lemma release_inv: "response_inv db \<Longrightarrow> response_inv (ReleaseResponseJobAdmission f rid db)"
  by (auto simp: ReleaseResponseJobAdmission_def on_gateway_eq split: sum.splits intro!: gateway_inv dest!: release_more)

lemma traffic_inv: "response_inv db \<Longrightarrow> more_logs (rs_gateway db) g \<Longrightarrow> response_inv (db\<lparr>rs_gateway := g, rs_attempts := rows\<rparr>)"
  using gateway_inv by (simp only: attempts_inv)

lemma response_step_inv: "response_step db db1 \<Longrightarrow> response_inv db \<Longrightarrow> response_inv db1"
  by (induction rule: response_step.induct)
    (blast intro: CreateResponseJob_inv claim_transaction_inv claim_sqlite_transaction_inv failUnreadable_inv renew_inv admit_inv release_inv
      mark_inv shutdown_inv cancel_inv finalize_inv recover_inv expire_inv traffic_inv)+

lemma response_reachable_inv:
  assumes "response_step\<^sup>*\<^sup>* db db'" and "rs_jobs db = []" and "rs_events db = []"
  shows "response_inv db'"
  using assms(1)
proof (induction rule: rtranclp_induct)
  case base
  show ?case by (simp add: response_inv_def assms(2,3))
next
  case (step y z)
  then show ?case using response_step_inv by blast
qed

text \<open>A claim is such a step, or two.\<close>

lemma claim_row_phase:
  assumes "claim_row f owner e now job0 db = Inr (job, dbc)" and inv: "response_inv db" and "j \<in> set (rs_jobs dbc)" and "RJ_ID j = RJ_ID job"
  shows "RJ_Phase j = ''claimed''"
proof -
  let ?sel = "\<lambda>j. RJ_ID j = RJ_ID job0 \<and> RJ_Status j = ''queued''"
  from assms(1) obtain dbu where u: "update_where ?sel (claimed_row owner e now) db = (1, dbu)" and job: "RJ_ID job = RJ_ID job0"
    and a: "appendResponseJobEvent f (RJ_ID job0) ''queued'' ''running'' ''response_claimed'' owner now dbu = Inr dbc"
    by (auto simp: claim_row_def rbind_eq_Inr_iff claimed_row_def split: prod.splits if_splits)
  have "filter ?sel (rs_jobs db) \<noteq> []" using u by (auto simp: update_where_eq)
  then obtain j0 where j0: "j0 \<in> set (rs_jobs db)" "?sel j0" unfolding filter_empty_conv by blast
  from assms(3) u appendEvent_eq [OF a] obtain k where k: "k \<in> set (rs_jobs db)" "j = (if ?sel k then claimed_row owner e now k else k)"
    by (auto simp: update_where_eq)
  then have "RJ_ID k = RJ_ID job0" using assms(4) job by (auto simp: claimed_row_def split: if_splits)
  then have "k = j0" using same_row [OF inv k(1) j0(1)] j0(2) by simp
  then show ?thesis using k(2) j0(2) by (simp add: claimed_row_def)
qed

lemma claim_steps:
  assumes "ClaimResponseJob sqlite locked f f2 dec owner ttl rttl now later db = (res, db1)" and inv: "response_inv db"
  shows "response_step\<^sup>*\<^sup>* db db1"
proof (cases "TrimSpace owner = [] \<or> ttl \<le> 0")
  case False
  define claim where "claim = (if sqlite then claim_sqlite_transaction f owner ttl now db else claim_transaction f locked owner ttl now db)"
  have c: "claim_result f2 dec owner rttl later db claim = (res, db1)"
    using assms(1) False by (simp add: ClaimResponseJob_def claimSQLiteResponseJob_def claim_def split: if_splits)
  show ?thesis
  proof (cases claim)
    case (Inr p)
    obtain job dbc where p: "claim = Inr (job, dbc)" using Inr by (cases p) simp
    have s: "response_step db dbc"
      using p False by (auto simp: claim_def split: if_splits intro: response_step.claim response_step.claim_sqlite)
    from p obtain e job0 where "claim_row f owner e now job0 db = Inr (job, dbc)"
      by (auto simp: claim_def claim_sqlite_transaction_def claim_transaction_def rbind_eq_Inr_iff split: if_splits option.splits)
    then have ph: "\<forall>j \<in> set (rs_jobs dbc). held_by (RJ_ID job) owner (RJ_LeaseEpoch job) j \<longrightarrow> RJ_Phase j = ''claimed''"
      using claim_row_phase [OF _ inv] by (auto simp: held_by_def)
    have "db1 = dbc \<or> failUnreadableResponseJob f2 (RJ_ID job) owner (RJ_LeaseEpoch job) rttl later dbc = Inr db1"
      using c by (auto simp: claim_result_def p split: sum.splits)
    then show ?thesis
    proof
      assume "failUnreadableResponseJob f2 (RJ_ID job) owner (RJ_LeaseEpoch job) rttl later dbc = Inr db1"
      from response_step.unreadable [OF this ph] s show ?thesis by (meson rtranclp.rtrancl_into_rtrancl r_into_rtranclp)
    qed (use s in blast)
  qed (use c in \<open>simp add: claim_result_def\<close>)
qed (use assms(1) in \<open>simp add: ClaimResponseJob_def\<close>)

section \<open>Properties\<close>

text \<open>(C8) Whatever the order of submissions, claims, admissions, dispatches, cancellations, shutdowns,
  finalisations, recoveries and expirations, and whichever statement fails: every job has a lease exactly
  while it runs, a reservation exactly while its call is admitted, its events form an unbroken trail from
  submission to its current status, its epoch is the number of claims, the call of a finished job is in
  the request log, and the content of an expired job is gone.\<close>

theorem response_jobs_invariant:
  assumes "response_step\<^sup>*\<^sup>* db db'" and "rs_jobs db = []" and "rs_events db = []"
  shows "response_inv db'"
  by (rule response_reachable_inv [OF assms])

text \<open>(C6) A background response is sent to a provider at most once: no interleaving of workers, expired
  leases, recoveries, shutdowns and cancellations records a second dispatch of the same job.\<close>

theorem dispatched_at_most_once:
  assumes "response_step\<^sup>*\<^sup>* db db'" and "rs_jobs db = []" and "rs_events db = []"
  shows "length (filter dispatch_event (events_of ident db')) \<le> 1"
proof (cases "ident \<in> RJ_ID ` set (rs_jobs db')")
  case True
  then obtain j where "j \<in> set (rs_jobs db')" "RJ_ID j = ident" by auto
  then have "row_inv (rs_gateway db') (events_of ident db') j"
    using response_reachable_inv [OF assms] by (auto simp: response_inv_def)
  then show ?thesis by (auto simp: row_inv_def split: if_splits)
next
  case False
  then have "events_of ident db' = []"
    using response_reachable_inv [OF assms] unfolding response_inv_def events_of_def filter_empty_conv by blast
  then show ?thesis by simp
qed

lemma stale_finalize:
  assumes inv: "response_inv db" and stale: "\<forall>j \<in> set (rs_jobs db). \<not> held_by ident owner epoch j"
    and "finalize_transaction f binding call ident owner epoch status cipher route usage st ec message ttl now db = Inr db1"
  shows "db1 = db \<and> (\<exists>j \<in> set (rs_jobs db). RJ_ID j = ident \<and> RJ_Status j = ''cancelled'' \<and> RJ_RequestID j = C_RequestID call)"
proof -
  from assms(3) obtain job where fd: "find (\<lambda>j. RJ_ID j = ident) (rs_jobs db) = Some job"
    by (auto simp: finalize_transaction_def rbind_eq_Inr_iff split: option.splits)
  note job = find_row [OF fd]
  then have "\<not> (RJ_Status job = ''running'' \<and> RJ_LeaseOwner job = owner \<and> RJ_LeaseEpoch job = epoch)" using stale by (auto simp: held_by_def)
  with assms(3) have c: "RJ_Status job = ''cancelled''" "RJ_RequestID job = C_RequestID call"
    and g: "on_gateway (finalize_call f call route usage 499 ''response_cancelled'' now) db = Inr db1"
    by (auto simp: finalize_transaction_def rbind_eq_Inr_iff fd split: if_splits)
  have "logged job (rs_gateway db)" using inv job by (auto simp: response_inv_def row_inv_def)
  then have "C_RequestID call = [] \<or> list_ex (\<lambda>r. RL_RequestID r = C_RequestID call) (gd_logs (rs_gateway db))"
    using c by (auto simp: logged_def responseJobTerminal_def list_ex_iff)
  then have "db1 = db" using g by (auto simp: on_gateway_eq finalize_call_def rbind_eq_Inr_iff split: if_splits)
  then show ?thesis using job c by blast
qed

text \<open>(C7) A worker that lost its lease can do no harm: when the row of the job is not running under its
  owner and epoch, a renewal, admission, dispatch or shutdown by that worker leaves every table as it is,
  and a finalisation leaves the jobs, their events and the tables of the gateway as they are. All it may
  do is add rows of route attempts to its own request, without error texts, and only when the job was
  cancelled while that request ran.\<close>

theorem stale_worker_harmless:
  assumes "response_step\<^sup>*\<^sup>* db0 db" and "rs_jobs db0 = []" and "rs_events db0 = []"
    and stale: "\<forall>j \<in> set (rs_jobs db). \<not> held_by ident owner epoch j"
  shows "snd (RenewResponseJobLease f f2 ident owner epoch ttl now later db) = db \<and>
    (AdmitResponseJob f env ck ident owner epoch keyID m r rid now db = Inr (call, db1) \<longrightarrow> call = None \<and> db1 = db) \<and>
    (MarkResponseJobPhase f ident owner epoch phase rid now db = Inr (retained, db2) \<longrightarrow> \<not> retained \<and> db2 = db) \<and>
    (ShutdownResponseJob f ident owner epoch ttl now db = Inr (status, db3) \<longrightarrow> status = ([], False) \<and> db3 = db) \<and>
    (\<exists>rows. snd (finalizeResponseJob f enc newID binding call2 ident owner epoch json route usage attempts st ec message ttl now host db) =
        db\<lparr>rs_attempts := rs_attempts db @ rows\<rparr> \<and> (\<forall>row \<in> set rows. safe_row (C_RequestID call2) row) \<and>
      (rows \<noteq> [] \<longrightarrow> (\<exists>j \<in> set (rs_jobs db). RJ_ID j = ident \<and> RJ_Status j = ''cancelled'' \<and> RJ_RequestID j = C_RequestID call2)))"
proof (intro conjI impI)
  have inv: "response_inv db" by (rule response_reachable_inv [OF assms(1-3)])
  have none: "filter (\<lambda>j. held_by ident owner epoch j \<and> P j) (rs_jobs db) = []" "filter (held_by ident owner epoch) (rs_jobs db) = []" for P
    using stale by (auto simp: filter_empty_conv)
  have n: "fst (update_where (\<lambda>j. held_by ident owner epoch j \<and> P j) upd db) = 0" "fst (update_where (held_by ident owner epoch) upd db) = 0"
    for P upd by (simp_all add: update_where_def none)
  have same: "snd (update_where (\<lambda>j. held_by ident owner epoch j \<and> P j) upd db) = db" for P upd
    using stale by (simp add: update_where_def map_idI)
  show "snd (RenewResponseJobLease f f2 ident owner epoch ttl now later db) = db"
    using n(2) by (auto simp: RenewResponseJobLease_def update_where_def rbind_eq_Inr_iff split: sum.splits)
  show "call = None" "db1 = db" if "AdmitResponseJob f env ck ident owner epoch keyID m r rid now db = Inr (call, db1)"
    using that by (auto simp: AdmitResponseJob_def Let_def update_where_def none rbind_eq_Inr_iff split: sum.splits if_splits)
  show "\<not> retained" "db2 = db" if "MarkResponseJobPhase f ident owner epoch phase rid now db = Inr (retained, db2)"
    using that same by (auto simp: MarkResponseJobPhase_def update_where_def none rbind_eq_Inr_iff split: if_splits)
  show "status = ([], False)" "db3 = db" if "ShutdownResponseJob f ident owner epoch ttl now db = Inr (status, db3)"
    using that stale by (auto simp: ShutdownResponseJob_def rbind_eq_Inr_iff held_by_def dest!: find_row split: option.splits if_splits)
  obtain res db4 where r: "finalizeResponseJob f enc newID binding call2 ident owner epoch json route usage attempts st ec message ttl now host db =
      (res, db4)" by fastforce
  from r show "\<exists>rows. snd (finalizeResponseJob f enc newID binding call2 ident owner epoch json route usage attempts st ec message ttl now host db) =
        db\<lparr>rs_attempts := rs_attempts db @ rows\<rparr> \<and> (\<forall>row \<in> set rows. safe_row (C_RequestID call2) row) \<and>
      (rows \<noteq> [] \<longrightarrow> (\<exists>j \<in> set (rs_jobs db). RJ_ID j = ident \<and> RJ_Status j = ''cancelled'' \<and> RJ_RequestID j = C_RequestID call2))"
  proof (cases rule: finalizeResponseJob_cases)
    case 1
    then show ?thesis using r by (intro exI [of _ "[]"]) simp
  next
    case (2 cipher db2 rows)
    then show ?thesis using r stale_finalize [OF inv stale 2(1)] by (intro exI [of _ rows]) simp
  qed
qed

section \<open>Requeueing gives an admission back\<close>

text \<open>The rollback of a response job is that of an image job with the same admission, followed by the
  release of the leases.\<close>

definition admission_view :: "ResponseJob \<Rightarrow> ImageJob" where
  "admission_view job =
     \<lparr>IJ_ID = RJ_ID job, IJ_ProjectID = RJ_ProjectID job, IJ_APIKeyID = RJ_APIKeyID job, IJ_AttributedUserID = RJ_AttributedUserID job,
      IJ_RequestID = RJ_RequestID job, IJ_UserQuotaEnabled = RJ_UserQuotaEnabled job, IJ_UserMinuteRequestHeld = RJ_UserMinuteRequestHeld job,
      IJ_UserTokenLimitBucket = RJ_UserTokenLimitBucket job, IJ_TokenLimitBucket = RJ_TokenLimitBucket job,
      IJ_MinuteRequestHeld = RJ_MinuteRequestHeld job, IJ_ReservedTokens = RJ_ReservedTokens job, IJ_AdmittedAt = RJ_AdmittedAt job,
      IJ_Status = RJ_Status job, IJ_Model = RJ_Model job, IJ_WorkerInstance = [], IJ_ErrorCode = [], IJ_ErrorMessage = [],
      IJ_CreatedAt = RJ_CreatedAt job, IJ_StartedAt = RJ_StartedAt job, IJ_CompletedAt = RJ_CompletedAt job\<rparr>"

lemma rollback_agree:
  assumes "TrimSpace (RJ_AttributedUserID job) = RJ_AttributedUserID job" and "RJ_AdmittedAt job = Some t"
  shows "rollbackResponseJobAdmission f job g = Inr g1 \<longleftrightarrow>
    (\<exists>ga. rollbackImageJobAdmission f (admission_view job) g = Inr ga \<and> release_request f (RJ_RequestID job) ga = Inr g1)"
proof -
  have p: "rollback_response_period f job = rollback_period f (admission_view job)"
    by (intro ext, cases "RJ_UserQuotaEnabled job") (simp_all add: rollback_response_period_def rollback_period_def admission_view_def assms(1))
  have m: "rollback_response_user_minute f job = rollback_user_minute f (admission_view job)"
    by (intro ext) (simp add: rollback_response_user_minute_def rollback_user_minute_def admission_view_def assms(1) Let_def cong: if_cong)
  show ?thesis
    unfolding rollbackResponseJobAdmission_def rollbackImageJobAdmission_def p m
    by (auto simp: rbind_eq_Inr_iff admission_view_def assms(2))
qed

lemma rollback_counts:
  assumes "rollbackResponseJobAdmission f job g = Inr g1" and "RJ_AdmittedAt job = Some t" and "RJ_RequestID job \<noteq> []"
    and "map_of (gd_entries g) (RJ_RequestID job @ '':admission'') = Some (Admission (Some periods))"
    and user: "RJ_UserQuotaEnabled job" "RJ_AttributedUserID job = UP_UserID policy" "TrimSpace (UP_UserID policy) = UP_UserID policy"
      "UP_UserID policy \<noteq> []" "UP_UserID policy \<noteq> unattributedQuotaUserID"
    and key: "RJ_APIKeyID job = K_ID key" and res: "RJ_ReservedTokens job = max r 0"
    and k: "attribution k \<noteq> []" "fst (snd k) \<noteq> ''minute''"
  shows "count_of (gd_quota g1) k =
    (if k = fst (key_period key periods) \<or> k = snd (key_period key periods) then dropped (count_of (gd_quota g) k)
     else if k = fst (user_period policy periods) \<or> k = snd (user_period policy periods)
     then refundQuotaReservation (dropped (count_of (gd_quota g) k)) (max r 0)
     else count_of (gd_quota g) k)"
proof -
  have trim: "TrimSpace (RJ_AttributedUserID job) = RJ_AttributedUserID job" using user by simp
  obtain ga where r: "rollbackImageJobAdmission f (admission_view job) g = Inr ga" and rel: "release_request f (RJ_RequestID job) ga = Inr g1"
    using rollback_agree [OF trim assms(2)] assms(1) by blast
  have view: "IJ_AdmittedAt (admission_view job) = Some t" "job_ok (admission_view job)" "job_user (admission_view job) = UP_UserID policy"
    "IJ_RequestID (admission_view job) = RJ_RequestID job"
    using assms(2) user by (simp_all add: admission_view_def job_ok_def job_user_def)
  show ?thesis
  proof (rule rollback_law [OF r view(1,2)])
    fix p
    assume p: "admittedQuotaPeriods f (IJ_RequestID (admission_view job)) t g = Inr p"
      and law: "\<And>k. attribution k \<noteq> [] \<Longrightarrow> fst (snd k) \<noteq> ''minute'' \<Longrightarrow>
        count_of (gd_quota ga) k = rollback_spec (admission_view job) p (gd_quota g) k"
    have "p = periods" using p assms(3,4) by (auto simp: view(4) admittedQuotaPeriods_def Let_def rbind_eq_Inr_iff)
    moreover have "count_of (gd_quota g1) k = count_of (gd_quota ga) k"
      using count_of_buckets [OF release_request_law(2) [OF rel]] by simp
    moreover have view': "IJ_APIKeyID (admission_view job) = K_ID key" "IJ_UserQuotaEnabled (admission_view job)"
      "IJ_ReservedTokens (admission_view job) = max r 0"
      using user(1) key res by (simp_all add: admission_view_def)
    ultimately show ?thesis using law [OF k] by (simp only: rollback_spec_def Let_def view(3) view' simp_thms)
  qed
qed

text \<open>A stopping server that holds an admitted job puts it back in the queue and undoes the admission.\<close>

lemma shutdown_admitted:
  assumes "AdmitResponseJob f env ck ident owner epoch keyID m r rid now db = Inr (Some call, db1)" and inv: "response_inv db" and "rid \<noteq> []"
    and "ShutdownResponseJob f' ident owner epoch ttl now' db1 = Inr (res, db2)"
  obtains j where "j \<in> set (rs_jobs db)" and "RJ_ID j = ident" and "res = (''queued'', True)"
    and "rollbackResponseJobAdmission f' (admitted_row call rid now j) (rs_gateway db1) = Inr (rs_gateway db2)"
proof -
  note law = admit_law [OF assms(1) inv]
  have inv1: "response_inv db1" by (rule admit_inv [OF assms(1-3)])
  from law(2) obtain j where j: "j \<in> set (rs_jobs db)" "admissible ident owner epoch now j" ..
  define job where "job = admitted_row call rid now j"
  have job: "job \<in> set (rs_jobs db1)" using law(1) j by (auto simp: update_where_eq job_def)
  have h: "RJ_ID job = ident" "held_by ident owner epoch job" "RJ_Phase job = ''admitted''" "RJ_CancelRequestedAt job = None"
    "RJ_RequestID job = rid" "RJ_AdmittedAt job \<noteq> None"
    using j(2) by (auto simp: job_def admitted_row_def admitted_columns_def admissible_def held_by_def)
  obtain job' where fd: "find (\<lambda>j. RJ_ID j = ident) (rs_jobs db1) = Some job'"
    using job h(1) by (metis (mono_tags, lifting) find_None_iff option.exhaust)
  have "job' = job" using find_row [OF fd] same_row [OF inv1 _ job] h(1) by auto
  then have sh: "shutdown_requeue f' ident owner epoch now' job db1 = Inr (res, db2)"
    using assms(3,4) fd h by (auto simp: ShutdownResponseJob_def rbind_eq_Inr_iff held_by_def split: if_splits)
  let ?sel = "\<lambda>j. held_by ident owner epoch j \<and> RJ_Phase j = RJ_Phase job"
  have "job \<in> set (filter ?sel (rs_jobs db1))" using job h(2) by simp
  then have "0 < length (filter ?sel (rs_jobs db1))" by (rule length_pos_if_in_set)
  moreover have "length (filter ?sel (rs_jobs db1)) \<le> 1"
    using inv1 by (intro one_row [of _ _ ident]) (auto simp: response_inv_def held_by_def)
  ultimately have "length (filter ?sel (rs_jobs db1)) = 1" by linarith
  then have "fst (update_where ?sel (requeued_row now') db1) = 1" by (simp add: update_where_def)
  then obtain dbu where u: "update_where ?sel (requeued_row now') db1 = (1, dbu)" by (metis prod.collapse)
  have "res = (''queued'', True)" "rollbackResponseJobAdmission f' job (rs_gateway db1) = Inr (rs_gateway db2)"
    using sh update_frame [OF u] by (auto simp: shutdown_requeue_def u [unfolded h(3)] h(3) rbind_eq_Inr_iff on_gateway_eq dest!: appendEvent_eq)
  then show thesis using that j by (auto simp: job_def admissible_def held_by_def)
qed

section \<open>Round trip of the counters\<close>

text \<open>(C9) A shutdown hands an admitted job back and takes nothing: the job is queued again, and the day and
  month counters of its key are what they were before the admission, and those of its user the user's
  history as of then, when the call is under a user policy, so that the retry by another worker is not
  counted twice.\<close>

theorem shutdown_restores:
  assumes "response_step\<^sup>*\<^sup>* db0 db" and "rs_jobs db0 = []" and "rs_events db0 = []"
    and "AdmitResponseJob f env ck ident owner epoch keyID name r rid now db = Inr (Some call, db1)"
    and "\<forall>j \<in> set (rs_jobs db). RJ_ID j = ident \<longrightarrow> RJ_APIKeyID j = keyID"
    and "authorize_call f (ck_host ck) keyID name (rs_gateway db) = Inr (key, project)"
    and "call_limits env key project (rs_gateway db) = (effective, scopes, policy)" and "Enabled policy"
    and "currentQuotaPeriods f env (ck_db ck) (rs_gateway db) = Inr periods" and "rid \<noteq> []"
    and "ShutdownResponseJob f' ident owner epoch ttl now' db1 = Inr (res, db2)"
    and before: "c = (if k = fst (key_period key periods) \<or> k = snd (key_period key periods)
      then count_of (gd_quota (rs_gateway db)) k else user_count (UP_UserID policy) (gd_quota (rs_gateway db)) k)"
    and which: "k = fst (key_period key periods) \<or> k = snd (key_period key periods) \<or>
      k = fst (user_period policy periods) \<or> k = snd (user_period policy periods)"
    and "0 \<le> N_Requests c" and "N_Requests c < max_int64" and "in_int64 r"
    and "0 \<le> N_TotalTokens c" and "N_TotalTokens c + max r 0 \<le> max_int64"
  shows "res = (''queued'', True) \<and> count_of (gd_quota (rs_gateway db2)) k = c"
proof -
  have inv: "response_inv db" by (rule response_reachable_inv [OF assms(1-3)])
  obtain j where j: "j \<in> set (rs_jobs db)" "RJ_ID j = ident" and res: "res = (''queued'', True)"
    and roll: "rollbackResponseJobAdmission f' (admitted_row call rid now j) (rs_gateway db1) = Inr (rs_gateway db2)"
    by (rule shutdown_admitted [OF assms(4) inv assms(10,11)])
  note law = admit_law(4) [OF assms(4) inv]
  note ctx = admitted_context [OF law assms(6-10)] and u = call_limits_user [OF assms(7,8)] and fl = admitted_fields [OF law assms(6)]
  have user: "UP_UserID policy \<noteq> []" "TrimSpace (UP_UserID policy) = UP_UserID policy" using assms(8) u(1) by (auto simp: Enabled_def)
  have k: "attribution k \<noteq> []" "fst (snd k) \<noteq> ''minute''" using which by (auto simp: period_keys_def)
  note adm = admission_law [OF law assms(6,7,9) k(2,1)]
  have "count_of (gd_quota (rs_gateway db2)) k =
    (if k = fst (key_period key periods) \<or> k = snd (key_period key periods) then dropped (count_of (gd_quota (rs_gateway db1)) k)
     else if k = fst (user_period policy periods) \<or> k = snd (user_period policy periods)
     then refundQuotaReservation (dropped (count_of (gd_quota (rs_gateway db1)) k)) (max r 0)
     else count_of (gd_quota (rs_gateway db1)) k)"
    by (rule rollback_counts [OF roll _ _ _ _ _ user(2,1) _ _ _ k])
      (use assms(5,10) j ctx fl u user in \<open>auto simp: admitted_row_def admitted_columns_def\<close>)
  from undo_admission [OF adm assms(8) this before which assms(14-18)] res show ?thesis by simp
qed

section \<open>Witnesses\<close>

definition response_tables :: response_db where
  "response_tables = \<lparr>rs_gateway = admission_db, rs_jobs = [], rs_events = [], rs_attempts = []\<rparr>"

definition waiting_job :: ResponseJob where
  "waiting_job = (submitted_job ''j'' quiet_project plain_key ''m'')\<lparr>RJ_CreatedAt := 0, RJ_UpdatedAt := 0\<rparr>"

definition running_job :: ResponseJob where
  "running_job = claimed_row ''w'' 60 0 waiting_job"

definition submitted_event :: ResponseJobEvent where
  "submitted_event = \<lparr>EV_JobID = ''j'', EV_FromStatus = [], EV_ToStatus = ''queued'', EV_ReasonCode = ''response_submitted'', EV_Actor = ''client'',
     EV_CreatedAt = 0\<rparr>"

definition claimed_event :: ResponseJobEvent where
  "claimed_event = \<lparr>EV_JobID = ''j'', EV_FromStatus = ''queued'', EV_ToStatus = ''running'', EV_ReasonCode = ''response_claimed'', EV_Actor = ''w'',
     EV_CreatedAt = 0\<rparr>"

definition running_db :: response_db where
  "running_db = \<lparr>rs_gateway = admission_db, rs_jobs = [running_job], rs_events = [submitted_event, claimed_event], rs_attempts = []\<rparr>"

lemma sample_names: "TrimSpace ''j'' = ''j''" "TrimSpace ''w'' = ''w''" "TrimSpace ''r'' = ''r''"
  by code_simp+

lemma sample_running: "response_step\<^sup>*\<^sup>* response_tables running_db"
proof -
  let ?db = "response_tables\<lparr>rs_jobs := [waiting_job], rs_events := [submitted_event]\<rparr>"
  have "CreateResponseJob (\<lambda>_. None) id [] 0 (submitted_job ''j'' quiet_project plain_key ''m'') [] response_tables = Inr (waiting_job, ?db)"
    by (simp add: CreateResponseJob_def encryptResponseJobPayload_def appendResponseJobEvent_def response_tables_def submitted_job_def
        waiting_job_def submitted_event_def zero_time_def sample_names Let_def)
  then have "response_step response_tables ?db" by (rule response_step.create)
  moreover have "claim_transaction (\<lambda>_. None) (\<lambda>_. False) ''w'' 60 0 ?db = Inr (running_job, running_db)"
    by (simp add: claim_transaction_def claim_row_def update_where_def appendResponseJobEvent_def response_tables_def running_db_def
        running_job_def waiting_job_def submitted_job_def claimed_event_def)
  then have "response_step ?db running_db" by (rule response_step.claim) (simp add: sample_names)
  ultimately show ?thesis by (meson r_into_rtranclp rtranclp.rtrancl_into_rtrancl)
qed

lemma sample_empty: "rs_jobs response_tables = []" "rs_events response_tables = []"
  by (simp_all add: response_tables_def)

abbreviation sample_admit :: "store_error + (CallContext option \<times> response_db)" where
  "sample_admit \<equiv> AdmitResponseJob (\<lambda>_. None) plain_env plain_clock ''j'' ''w'' 1 ''k'' ''m'' 7 ''r'' 0 running_db"

lemma sample_admitted_job: obtains call db1 where "sample_admit = Inr (Some call, db1)"
proof -
  obtain call g where "sample_admission = Inr (call, g)" by (rule sample_admission_cases)
  then show thesis
    by (intro that) (simp add: AdmitResponseJob_def update_where_def running_db_def held_by_def running_job_def claimed_row_def lease_live_def
        waiting_job_def submitted_job_def appendResponseJobEvent_def Let_def)
qed

lemma sample_inv: "response_inv running_db"
  by (rule response_reachable_inv [OF sample_running sample_empty])

lemmas sample_row = admitted_row_def admitted_columns_def running_job_def claimed_row_def waiting_job_def submitted_job_def

lemma sample_admitted_row:
  assumes "sample_admit = Inr (Some call, db1)"
  shows "rs_jobs db1 = [admitted_row call ''r'' 0 running_job]"
proof -
  have "admissible ''j'' ''w'' 1 0 running_job" by (simp add: admissible_def held_by_def lease_live_def sample_row)
  then show ?thesis using admit_law(1) [OF assms sample_inv] by (auto simp: update_where_eq running_db_def)
qed

theorem response_jobs_invariant_witness: "response_inv running_db \<and> rs_jobs running_db = [running_job] \<and> RJ_LeaseEpoch running_job = 1"
  using response_jobs_invariant [OF sample_running sample_empty]
  by (simp add: running_db_def running_job_def claimed_row_def waiting_job_def submitted_job_def)

theorem dispatched_at_most_once_witness:
  "\<exists>call db1 db2. sample_admit = Inr (Some call, db1) \<and> MarkResponseJobPhase (\<lambda>_. None) ''j'' ''w'' 1 ''dispatched'' ''r'' 0 db1 = Inr (True, db2) \<and>
     length (filter dispatch_event (events_of ''j'' db2)) = 1"
proof -
  obtain call db1 where a: "sample_admit = Inr (Some call, db1)" by (rule sample_admitted_job)
  then have s1: "response_step running_db db1" by (rule response_step.admit) simp
  let ?e = "\<lparr>EV_JobID = ''j'', EV_FromStatus = ''running'', EV_ToStatus = ''running'', EV_ReasonCode = ''response_dispatched'', EV_Actor = ''w'',
    EV_CreatedAt = 0\<rparr>"
  define db2 where "db2 = db1\<lparr>rs_jobs := [(admitted_row call ''r'' 0 running_job)\<lparr>RJ_Phase := ''dispatched'', RJ_UpdatedAt := 0\<rparr>],
    rs_events := rs_events db1 @ [?e]\<rparr>"
  have row: "held_by ''j'' ''w'' 1 (admitted_row call ''r'' 0 running_job)" "lease_live 0 (admitted_row call ''r'' 0 running_job)"
    "RJ_Phase (admitted_row call ''r'' 0 running_job) = ''admitted''" "RJ_RequestID (admitted_row call ''r'' 0 running_job) = ''r''"
    "RJ_CancelRequestedAt (admitted_row call ''r'' 0 running_job) = None"
    by (simp_all add: held_by_def lease_live_def sample_row)
  have m: "MarkResponseJobPhase (\<lambda>_. None) ''j'' ''w'' 1 ''dispatched'' ''r'' 0 db1 = Inr (True, db2)"
    using row by (simp add: MarkResponseJobPhase_def sample_names update_where_def sample_admitted_row [OF a] appendResponseJobEvent_def db2_def)
  then have s2: "response_step db1 db2" by (rule response_step.dispatch)
  from sample_running s1 s2 have st: "response_step\<^sup>*\<^sup>* response_tables db2" by (meson rtranclp.rtrancl_into_rtrancl)
  have "\<exists>e \<in> set (events_of ''j'' db2). dispatch_event e"
    by (simp add: db2_def events_of_def dispatch_event_def)
  then have "filter dispatch_event (events_of ''j'' db2) \<noteq> []" by (auto simp: filter_empty_conv)
  moreover have "length (filter dispatch_event (events_of ''j'' db2)) \<le> 1" by (rule dispatched_at_most_once [OF st sample_empty])
  ultimately have "length (filter dispatch_event (events_of ''j'' db2)) = 1" by (cases "filter dispatch_event (events_of ''j'' db2)") auto
  then show ?thesis using a m by blast
qed

theorem stale_worker_harmless_witness:
  "snd (RenewResponseJobLease (\<lambda>_. None) (\<lambda>_. None) ''j'' ''x'' 1 60 0 0 running_db) = running_db \<and>
   snd (RenewResponseJobLease (\<lambda>_. None) (\<lambda>_. None) ''j'' ''w'' 1 60 5 5 running_db) \<noteq> running_db"
proof -
  have "\<forall>j \<in> set (rs_jobs running_db). \<not> held_by ''j'' ''x'' 1 j" by (simp add: running_db_def held_by_def sample_row)
  then have "snd (RenewResponseJobLease (\<lambda>_. None) (\<lambda>_. None) ''j'' ''x'' 1 60 0 0 running_db) = running_db"
    by (rule conjunct1 [OF stale_worker_harmless [OF sample_running sample_empty]])
  moreover have "snd (RenewResponseJobLease (\<lambda>_. None) (\<lambda>_. None) ''j'' ''w'' 1 60 5 5 running_db) \<noteq> running_db"
    by (simp add: RenewResponseJobLease_def update_where_def running_db_def held_by_def sample_row)
  ultimately show ?thesis by blast
qed

abbreviation sample_shutdown :: "response_db \<Rightarrow> store_error + ((string \<times> bool) \<times> response_db)" where
  "sample_shutdown db \<equiv> ShutdownResponseJob (\<lambda>_. None) ''j'' ''w'' 1 60 0 db"

lemma sample_shutdown_total:
  assumes a: "sample_admit = Inr (Some call, db1)" and "sample_admission = Inr (call, rs_gateway db1)"
  obtains res db2 where "sample_shutdown db1 = Inr (res, db2)"
proof -
  let ?job = "admitted_row call ''r'' 0 running_job" and ?p = "\<lparr>QP_Day = ''1970-01-01'', QP_Month = ''1970-01''\<rparr>"
  obtain key project effective scopes policy
    where "authorize_call (\<lambda>_. None) (ck_host plain_clock) ''k'' ''m'' admission_db = Inr (key, project)"
      "call_limits plain_env key project admission_db = (effective, scopes, policy)" "Enabled policy"
      "currentQuotaPeriods (\<lambda>_. None) plain_env (ck_db plain_clock) admission_db = Inr ?p"
    by (rule sample_context)
  note c = this
  have rid: "''r'' \<noteq> []" by simp
  note ctx = admitted_context [OF assms(2) c(1-4) rid] and fl = admitted_fields [OF assms(2) c(1)]
  have p: "admittedQuotaPeriods (\<lambda>_. None) (IJ_RequestID (admission_view ?job)) (C_StartedAt call) (rs_gateway db1) = Inr ?p"
    using ctx(10) by (simp add: admittedQuotaPeriods_def admission_view_def sample_row)
  have "IJ_AdmittedAt (admission_view ?job) = Some (C_StartedAt call)" by (simp add: admission_view_def sample_row)
  from rollback_total [OF p this] obtain ga where ga: "rollbackImageJobAdmission (\<lambda>_. None) (admission_view ?job) (rs_gateway db1) = Inr ga" by blast
  have "\<exists>gb. release_request (\<lambda>_. None) (RJ_RequestID ?job) ga = Inr gb"
    by (simp add: release_request_def deleteRequestConcurrencyLeases_def Let_def)
  then obtain gb where "release_request (\<lambda>_. None) (RJ_RequestID ?job) ga = Inr gb" ..
  moreover have "TrimSpace (RJ_AttributedUserID ?job) = RJ_AttributedUserID ?job" using fl by (simp add: sample_row)
  moreover have "RJ_AdmittedAt ?job = Some (C_StartedAt call)" by (simp add: sample_row)
  ultimately have roll: "rollbackResponseJobAdmission (\<lambda>_. None) ?job (rs_gateway db1) = Inr gb" using rollback_agree ga by blast
  have row: "RJ_ID ?job = ''j''" "RJ_Status ?job = ''running''" "RJ_LeaseOwner ?job = ''w''" "RJ_LeaseEpoch ?job = 1" "RJ_Phase ?job = ''admitted''"
    "RJ_CancelRequestedAt ?job = None" "RJ_RequestID ?job = ''r''" "RJ_AdmittedAt ?job \<noteq> None" by (simp_all add: sample_row)
  show thesis
    by (rule that) (use row in \<open>simp add: ShutdownResponseJob_def sample_admitted_row [OF a] shutdown_requeue_def update_where_def held_by_def
        on_gateway_def roll appendResponseJobEvent_def\<close>)
qed

theorem shutdown_restores_witness:
  "\<exists>call db1 db2. sample_admit = Inr (Some call, db1) \<and> sample_shutdown db1 = Inr ((''queued'', True), db2) \<and>
     count_of (gd_quota (rs_gateway db2)) (''k'', ''day'', ''1970-01-01'', unattributedQuotaUserID) = zero_QuotaCounter"
proof -
  let ?p = "\<lparr>QP_Day = ''1970-01-01'', QP_Month = ''1970-01''\<rparr>"
  obtain call db1 where a: "sample_admit = Inr (Some call, db1)" by (rule sample_admitted_job)
  have g: "rs_gateway running_db = admission_db" by (simp add: running_db_def)
  have adm: "sample_admission = Inr (call, rs_gateway db1)" using admit_law(4) [OF a sample_inv] by (simp add: g)
  obtain res db2 where sh: "sample_shutdown db1 = Inr (res, db2)" by (rule sample_shutdown_total [OF a adm])
  obtain key project effective scopes policy
    where c: "authorize_call (\<lambda>_. None) (ck_host plain_clock) ''k'' ''m'' admission_db = Inr (key, project)"
      "call_limits plain_env key project admission_db = (effective, scopes, policy)" "Enabled policy"
      "currentQuotaPeriods (\<lambda>_. None) plain_env (ck_db plain_clock) admission_db = Inr ?p" and k: "K_ID key = ''k''"
    by (rule sample_context)
  have ids: "\<forall>j \<in> set (rs_jobs running_db). RJ_ID j = ''j'' \<longrightarrow> RJ_APIKeyID j = ''k''" by (simp add: running_db_def sample_row plain_key_def)
  have rid: "''r'' \<noteq> []" by simp
  have key: "fst (key_period key ?p) = (''k'', ''day'', ''1970-01-01'', unattributedQuotaUserID)"
    by (simp add: period_keys_def k quotaAttributionKey_def)
  have "res = (''queued'', True) \<and> count_of (gd_quota (rs_gateway db2)) (fst (key_period key ?p)) = zero_QuotaCounter"
    by (rule shutdown_restores [OF sample_running sample_empty a ids c(1,2) [folded g] c(3) c(4) [folded g] rid sh])
      (use sample_count [unfolded image_tables_def image_db.simps] in \<open>simp_all add: g zero_QuotaCounter_def int64_bounds\<close>)
  then show ?thesis using a sh key by auto
qed

end
