(* ===== verification/HookOrdering.thy ===== *)
theory HookOrdering
  imports GoStrings
begin

text \<open>
  The order in which the gateway runs the plugin hooks of a stage (\<open>gateway_ordering.go\<close>,
  \<open>gateway_execution.go\<close> and the descriptor of \<open>gateway_chain.go\<close> in the plugin package).
  Hooks name others they must run before or after; the code builds the graph of these references
  and sorts it topologically.

  A stage, data class or failure policy is a string, as in Go. The edges out of a node are a Go map:
  \<open>iter\<close> is the order of one iteration over them. \<open>srt\<close> is the effect of \<open>sort.Slice\<close> with the
  comparison \<open>hook_less\<close>; that comparison is no order when hooks of both plugin interfaces are mixed, so
  nothing is assumed of \<open>srt\<close> but that it permutes. The loop takes one unit of fuel per hook, and
  that is shown to be enough.
\<close>

section \<open>Data\<close>

record GatewayHookScope =
  ProjectIDs :: "string list"
  APIKeyIDs :: "string list"
  ProviderTypes :: "string list"
  ProviderIDs :: "string list"
  ResourceIDs :: "string list"
  ResourceTypes :: "string list"
  RouteProtocols :: "string list"
  Operations :: "string list"

record GatewayHookDescriptor =
  H_PluginID :: string
  H_HookID :: string
  H_Stage :: string
  H_Priority :: int
  H_Before :: "string list"
  H_After :: "string list"
  H_PluginAPI :: string
  H_Subject :: string
  H_Metadata :: "(string \<times> string) list"
  H_Scope :: GatewayHookScope
  H_Reads :: "string list"
  H_Writes :: "string list"
  H_FailurePolicy :: string
  H_TimeoutMillis :: int
  H_Mandatory :: bool

datatype hook_error =
    MixedStages
  | DuplicateHook string
  | ExclusiveStage string
  | UnorderedWrites string string
  | DependencyCycle string
  | InvalidHook string

definition PluginAPIV2 :: string where
  "PluginAPIV2 = ''v2''"

definition GatewayStageExecutionModeFor :: "string \<Rightarrow> string \<times> bool" where
  "GatewayStageExecutionModeFor stage =
     (if stage \<in> set [''decode_normalize'', ''cache_lookup'', ''provider_call''] then (''first_match'', True)
      else if stage = ''route_rank'' then (''exclusive'', True)
      else if stage \<in> set [''settlement'', ''trace_export''] then (''observer'', True)
      else if stage \<in> set [''auth_context'', ''admission'', ''privacy_pre'', ''guardrail_pre'', ''context_optimize'',
             ''route_candidates'', ''request_transform'', ''stream_transform'', ''response_post'', ''guardrail_post'',
             ''usage_attribution'', ''cache_write''] then (''pipeline'', True)
      else ([], False))"

section \<open>References\<close>

definition gatewayHookOrderingKey :: "GatewayHookDescriptor \<Rightarrow> string" where
  "gatewayHookOrderingKey hook = TrimSpace (H_PluginID hook) @ ''/'' @ TrimSpace (H_HookID hook)"

definition indices_where :: "('a \<Rightarrow> bool) \<Rightarrow> 'a list \<Rightarrow> nat list" where
  "indices_where P xs = filter (\<lambda>i. P (xs ! i)) [0..<length xs]"

definition resolveGatewayHookReference :: "GatewayHookDescriptor list \<Rightarrow> string \<Rightarrow> nat option" where
  "resolveGatewayHookReference hooks reference0 =
     (let reference = TrimSpace reference0 in
      case indices_where (\<lambda>h. gatewayHookOrderingKey h = reference) hooks of
        i # _ \<Rightarrow> Some i
      | [] \<Rightarrow> (case indices_where (\<lambda>h. H_HookID h = reference) hooks of [i] \<Rightarrow> Some i | _ \<Rightarrow> None))"

type_synonym edges = "(nat \<times> nat) list"

definition addEdge :: "nat \<Rightarrow> nat \<Rightarrow> edges \<times> int list \<Rightarrow> edges \<times> int list" where
  "addEdge from to g =
     (case g of (es, indegree) \<Rightarrow>
        if from = to then g
        else if (from, to) \<in> set es then g
        else (es @ [(from, to)], indegree[to := indegree ! to + 1]))"

definition hook_edges :: "GatewayHookDescriptor list \<Rightarrow> nat \<Rightarrow> (nat \<times> nat) list" where
  "hook_edges hooks index =
     List.map_filter (\<lambda>reference. map_option (\<lambda>target. (index, target)) (resolveGatewayHookReference hooks reference))
       (H_Before (hooks ! index)) @
     List.map_filter (\<lambda>reference. map_option (\<lambda>target. (target, index)) (resolveGatewayHookReference hooks reference))
       (H_After (hooks ! index))"

definition build_graph :: "GatewayHookDescriptor list \<Rightarrow> edges \<times> int list" where
  "build_graph hooks =
     foldl (\<lambda>g (from, to). addEdge from to g) ([], replicate (length hooks) 0)
       (concat (map (hook_edges hooks) [0..<length hooks]))"

section \<open>Write conflicts\<close>

definition gatewayHooksShareWrite :: "GatewayHookDescriptor \<Rightarrow> GatewayHookDescriptor \<Rightarrow> bool" where
  "gatewayHooksShareWrite left right = list_ex (\<lambda>c. c \<in> set (H_Writes left)) (H_Writes right)"

definition succs :: "edges \<Rightarrow> nat \<Rightarrow> nat list" where
  "succs es i = map snd (filter (\<lambda>e. fst e = i) es)"

text \<open>The recursive search \<open>gatewayHookReachable\<close> with its shared set of visited nodes, as a search
  with a stack of the calls still to be made.\<close>

function reach :: "edges \<Rightarrow> nat \<Rightarrow> nat list \<Rightarrow> nat list \<Rightarrow> bool" where
  "reach es target [] seen = False"
| "reach es target (x # rest) seen =
     (if x = target then True
      else if x \<in> set seen then reach es target rest seen
      else reach es target (succs es x @ rest) (x # seen))"
  by pat_completeness auto
termination
proof (relation "measures [\<lambda>(es, target, stack, seen). card ((set stack \<union> snd ` set es) - set seen),
                           \<lambda>(es, target, stack, seen). length stack]", goal_cases)
  case 1
  then show ?case by simp
next
  case (2 es target x rest seen)
  have "(set rest \<union> snd ` set es) - set seen \<subseteq> (set (x # rest) \<union> snd ` set es) - set seen" by auto
  then have "card ((set rest \<union> snd ` set es) - set seen) \<le> card ((set (x # rest) \<union> snd ` set es) - set seen)"
    by (intro card_mono) auto
  then show ?case by auto
next
  case (3 es target x rest seen)
  have "set (succs es x) \<subseteq> snd ` set es" by (auto simp: succs_def)
  then have "(set (succs es x @ rest) \<union> snd ` set es) - set (x # seen) \<subset> (set (x # rest) \<union> snd ` set es) - set seen"
    using 3(2) by auto
  then have "card ((set (succs es x @ rest) \<union> snd ` set es) - set (x # seen)) < card ((set (x # rest) \<union> snd ` set es) - set seen)"
    by (intro psubset_card_mono) auto
  then show ?case by auto
qed

definition gatewayHookReachable :: "nat \<Rightarrow> nat \<Rightarrow> edges \<Rightarrow> bool" where
  "gatewayHookReachable from target es = reach es target [from] []"

definition write_conflict :: "GatewayHookDescriptor list \<Rightarrow> edges \<Rightarrow> nat \<Rightarrow> nat \<Rightarrow> bool" where
  "write_conflict hooks es left right \<longleftrightarrow>
     H_PluginAPI (hooks ! left) = PluginAPIV2 \<and> H_PluginAPI (hooks ! right) = PluginAPIV2 \<and>
     gatewayHooksShareWrite (hooks ! left) (hooks ! right) \<and>
     \<not> gatewayHookReachable left right es \<and> \<not> gatewayHookReachable right left es"

definition validateGatewayWriteOrdering :: "GatewayHookDescriptor list \<Rightarrow> edges \<Rightarrow> hook_error + unit" where
  "validateGatewayWriteOrdering hooks es =
     (case find (\<lambda>(left, right). write_conflict hooks es left right)
            [(left, right). left \<leftarrow> [0..<length hooks], right \<leftarrow> [Suc left..<length hooks]] of
        Some (left, right) \<Rightarrow>
          Inl (UnorderedWrites (gatewayHookOrderingKey (hooks ! left)) (gatewayHookOrderingKey (hooks ! right)))
      | None \<Rightarrow> Inr ())"

section \<open>Topological order\<close>

definition hook_less :: "GatewayHookDescriptor \<Rightarrow> GatewayHookDescriptor \<Rightarrow> bool" where
  "hook_less left right =
     (if H_PluginAPI left \<noteq> PluginAPIV2 \<and> H_PluginAPI right \<noteq> PluginAPIV2 \<and> H_Priority left \<noteq> H_Priority right
      then H_Priority left < H_Priority right
      else gatewayHookOrderingKey left < gatewayHookOrderingKey right)"

text \<open>\<open>sort.Slice\<close> on at most twelve elements is an insertion sort.\<close>

fun insert_by :: "('a \<Rightarrow> 'a \<Rightarrow> bool) \<Rightarrow> 'a \<Rightarrow> 'a list \<Rightarrow> 'a list" where
  "insert_by stop x [] = [x]"
| "insert_by stop x (y # ys) = (if stop x y then x # y # ys else y # insert_by stop x ys)"

definition sortGatewayHookIndexes :: "GatewayHookDescriptor list \<Rightarrow> nat list \<Rightarrow> nat list" where
  "sortGatewayHookIndexes hooks indexes =
     rev (foldl (\<lambda>acc x. insert_by (\<lambda>a b. \<not> hook_less (hooks ! a) (hooks ! b)) x acc) [] indexes)"

definition release :: "(nat list \<Rightarrow> nat list) \<Rightarrow> nat list \<times> int list \<Rightarrow> nat \<Rightarrow> nat list \<times> int list" where
  "release srt st target =
     (case st of (ready, indegree) \<Rightarrow>
        let d = indegree ! target - 1
        in (if d = 0 then srt (ready @ [target]) else ready, indegree[target := d]))"

fun kahn :: "(nat list \<Rightarrow> nat list) \<Rightarrow> (nat list \<Rightarrow> nat list) \<Rightarrow> edges \<Rightarrow> nat \<Rightarrow> nat list \<Rightarrow> int list \<Rightarrow> nat list \<Rightarrow> nat list option" where
  "kahn srt iter es fuel [] indegree ordered = Some ordered"
| "kahn srt iter es 0 (current # ready) indegree ordered = None"
| "kahn srt iter es (Suc fuel) (current # ready) indegree ordered =
     (case foldl (release srt) (ready, indegree) (iter (succs es current)) of
        (ready1, indegree1) \<Rightarrow> kahn srt iter es fuel ready1 indegree1 (ordered @ [current]))"

definition precheck :: "GatewayHookDescriptor list \<Rightarrow> hook_error + unit" where
  "precheck hooks =
     (let stage = H_Stage (hd hooks) in
      case find (\<lambda>i. H_Stage (hooks ! i) \<noteq> stage \<or>
             gatewayHookOrderingKey (hooks ! i) \<in> gatewayHookOrderingKey ` set (take i hooks)) [0..<length hooks] of
        Some i \<Rightarrow> if H_Stage (hooks ! i) \<noteq> stage then Inl MixedStages
                  else Inl (DuplicateHook (gatewayHookOrderingKey (hooks ! i)))
      | None \<Rightarrow>
          if fst (GatewayStageExecutionModeFor stage) = ''exclusive'' \<and>
             length (filter (\<lambda>h. H_PluginAPI h = PluginAPIV2) hooks) > 1
          then Inl (ExclusiveStage stage) else Inr ())"

definition orderAndValidateGatewayHooks ::
  "(nat list \<Rightarrow> nat list) \<Rightarrow> (nat list \<Rightarrow> nat list) \<Rightarrow> GatewayHookDescriptor list \<Rightarrow> hook_error + GatewayHookDescriptor list" where
  "orderAndValidateGatewayHooks srt iter hooks =
     (if length hooks < 2 then Inr hooks
      else let stage = H_Stage (hd hooks) in
      rbind (precheck hooks) (\<lambda>_.
      case build_graph hooks of (es, indegree) \<Rightarrow>
      rbind (if fst (GatewayStageExecutionModeFor stage) = ''pipeline''
             then validateGatewayWriteOrdering hooks es else Inr ()) (\<lambda>_.
      let ready = srt (filter (\<lambda>i. indegree ! i = 0) [0..<length hooks])
      in case kahn srt iter es (length hooks) ready indegree [] of
           None \<Rightarrow> Inl (DependencyCycle stage)
         | Some ordered \<Rightarrow>
             if length ordered \<noteq> length hooks then Inl (DependencyCycle stage)
             else Inr (map (\<lambda>i. hooks ! i) ordered))))"

section \<open>Reachability\<close>

definition from_unseen :: "edges \<Rightarrow> nat list \<Rightarrow> (nat \<times> nat) set" where
  "from_unseen es seen = {e \<in> set es. fst e \<notin> set seen}"

lemma set_succs: "z \<in> set (succs es x) \<longleftrightarrow> (x, z) \<in> set es"
  by (auto simp: succs_def intro: image_eqI [where x = "(x, z)"])

lemma last_visit:
  assumes "(y, t) \<in> (from_unseen es seen)\<^sup>*"
  shows "(y, t) \<in> (from_unseen es (x # seen))\<^sup>* \<or> (\<exists>z. (x, z) \<in> set es \<and> (z, t) \<in> (from_unseen es (x # seen))\<^sup>*)"
  using assms
proof (induction rule: converse_rtrancl_induct)
  case (step y z)
  then show ?case
  proof (cases "y = x")
    case True
    then have "(x, z) \<in> set es" using step(1) by (simp add: from_unseen_def)
    then show ?thesis using step.IH by blast
  next
    case False
    then have "(y, z) \<in> from_unseen es (x # seen)" using step(1) by (simp add: from_unseen_def)
    then show ?thesis using step.IH by (meson converse_rtrancl_into_rtrancl)
  qed
qed simp

lemma reach_iff: "reach es t stack seen \<longleftrightarrow> (\<exists>x \<in> set stack. (x, t) \<in> (from_unseen es seen)\<^sup>*)"
proof (induction es t stack seen rule: reach.induct)
  case (1 es t seen)
  then show ?case by simp
next
  case (2 es t x rest seen)
  consider "x = t" | "x \<noteq> t" "x \<in> set seen" | "x \<noteq> t" "x \<notin> set seen" by blast
  then show ?case
  proof cases
    case 1
    then show ?thesis by simp
  next
    case 2
    then have "(x, t) \<notin> (from_unseen es seen)\<^sup>*"
      by (auto simp: from_unseen_def elim: converse_rtranclE)
    with 2 "2.IH"(1) show ?thesis by simp
  next
    case 3
    have mono: "(from_unseen es (x # seen))\<^sup>* \<subseteq> (from_unseen es seen)\<^sup>*"
      by (intro rtrancl_mono) (auto simp: from_unseen_def)
    have first: "(x, z) \<in> from_unseen es seen" if "(x, z) \<in> set es" for z
      using that 3 by (simp add: from_unseen_def)
    have "reach es t (x # rest) seen \<longleftrightarrow>
        (\<exists>y \<in> set (succs es x) \<union> set rest. (y, t) \<in> (from_unseen es (x # seen))\<^sup>*)"
      using 3 "2.IH"(2) by simp
    also have "\<dots> \<longleftrightarrow> (\<exists>y \<in> set (x # rest). (y, t) \<in> (from_unseen es seen)\<^sup>*)" (is "?L \<longleftrightarrow> ?R")
    proof
      assume ?L
      then obtain y where y: "y \<in> set (succs es x) \<union> set rest" "(y, t) \<in> (from_unseen es seen)\<^sup>*" using mono by blast
      then have "(x, t) \<in> (from_unseen es seen)\<^sup>*" if "y \<in> set (succs es x)"
        using converse_rtrancl_into_rtrancl [OF first y(2)] that by (simp add: set_succs)
      then show ?R using y by auto
    next
      assume ?R
      then obtain y where y: "y \<in> set (x # rest)" "(y, t) \<in> (from_unseen es seen)\<^sup>*" by blast
      show ?L
      proof (cases "\<exists>z. (x, z) \<in> set es \<and> (z, t) \<in> (from_unseen es (x # seen))\<^sup>*")
        case True
        then show ?thesis by (auto simp: set_succs)
      next
        case False
        with last_visit [OF y(2), of x] have yt: "(y, t) \<in> (from_unseen es (x # seen))\<^sup>*" by blast
        then have "y \<noteq> x" using 3 by (auto simp: from_unseen_def elim: converse_rtranclE)
        with y(1) yt show ?thesis by auto
      qed
    qed
    finally show ?thesis .
  qed
qed

lemma gatewayHookReachable_iff: "gatewayHookReachable i j es \<longleftrightarrow> (i, j) \<in> (set es)\<^sup>*"
  by (simp add: gatewayHookReachable_def reach_iff from_unseen_def)

section \<open>The graph\<close>

text \<open>Edges are distinct, join different hooks in range, and the in-degrees count them.\<close>

definition graph_ok :: "nat \<Rightarrow> edges \<times> int list \<Rightarrow> bool" where
  "graph_ok n g \<longleftrightarrow>
     distinct (fst g) \<and> length (snd g) = n \<and> (\<forall>(i, j) \<in> set (fst g). i < n \<and> j < n \<and> i \<noteq> j) \<and>
     (\<forall>j < n. snd g ! j = int (length (filter (\<lambda>e. snd e = j) (fst g))))"

lemma addEdge_ok:
  assumes "graph_ok n g" and "i < n" and "j < n"
  shows "graph_ok n (addEdge i j g)"
    and "set (fst (addEdge i j g)) = set (fst g) \<union> {e. e = (i, j) \<and> i \<noteq> j}"
  using assms by (auto simp: graph_ok_def addEdge_def nth_list_update split: prod.split)

lemma foldl_addEdge_ok:
  assumes "graph_ok n g" and "\<forall>(i, j) \<in> set ps. i < n \<and> j < n"
  shows "graph_ok n (foldl (\<lambda>g (i, j). addEdge i j g) g ps) \<and>
    set (fst (foldl (\<lambda>g (i, j). addEdge i j g) g ps)) = set (fst g) \<union> {(i, j). (i, j) \<in> set ps \<and> i \<noteq> j}"
  using assms
proof (induction ps arbitrary: g)
  case (Cons p ps)
  obtain i j where p: "p = (i, j)" by (cases p)
  have ok: "graph_ok n (addEdge i j g)"
    and st: "set (fst (addEdge i j g)) = set (fst g) \<union> {e. e = (i, j) \<and> i \<noteq> j}"
    using addEdge_ok Cons.prems p by auto
  have "\<forall>(i, j) \<in> set ps. i < n \<and> j < n" using Cons.prems(2) by simp
  from Cons.IH [OF ok this] show ?case by (auto simp: p st)
qed simp

text \<open>Hook \<open>i\<close> must run before hook \<open>j\<close>: one of them says so, with a reference that resolves.\<close>

definition must_precede :: "GatewayHookDescriptor list \<Rightarrow> nat \<Rightarrow> nat \<Rightarrow> bool" where
  "must_precede hooks i j \<longleftrightarrow> i < length hooks \<and> j < length hooks \<and> i \<noteq> j \<and>
     ((\<exists>r \<in> set (H_Before (hooks ! i)). resolveGatewayHookReference hooks r = Some j) \<or>
      (\<exists>r \<in> set (H_After (hooks ! j)). resolveGatewayHookReference hooks r = Some i))"

lemma indices_where_less: "i \<in> set (indices_where P xs) \<Longrightarrow> i < length xs"
  by (auto simp: indices_where_def)

lemma resolve_less: "resolveGatewayHookReference hooks r = Some i \<Longrightarrow> i < length hooks"
  by (auto simp: resolveGatewayHookReference_def Let_def split: list.splits
      intro: indices_where_less [where P = "\<lambda>h. gatewayHookOrderingKey h = TrimSpace r"]
        indices_where_less [where P = "\<lambda>h. H_HookID h = TrimSpace r"])

lemma set_hook_edges:
  "(a, b) \<in> set (hook_edges hooks k) \<longleftrightarrow>
     (a = k \<and> (\<exists>r \<in> set (H_Before (hooks ! k)). resolveGatewayHookReference hooks r = Some b)) \<or>
     (b = k \<and> (\<exists>r \<in> set (H_After (hooks ! k)). resolveGatewayHookReference hooks r = Some a))"
  by (auto simp: hook_edges_def List.map_filter_def image_iff; force)

lemma build_graph_ok:
  "graph_ok (length hooks) (build_graph hooks)"
  "set (fst (build_graph hooks)) = {(i, j). must_precede hooks i j}"
proof -
  let ?ps = "concat (map (hook_edges hooks) [0..<length hooks])"
  have init: "graph_ok (length hooks) ([], replicate (length hooks) 0)" by (simp add: graph_ok_def)
  have rng: "\<forall>(i, j) \<in> set ?ps. i < length hooks \<and> j < length hooks"
    by (auto simp: set_hook_edges dest: resolve_less)
  note fold = foldl_addEdge_ok [OF init rng]
  show "graph_ok (length hooks) (build_graph hooks)" using fold by (simp add: build_graph_def)
  show "set (fst (build_graph hooks)) = {(i, j). must_precede hooks i j}"
    using fold unfolding build_graph_def
    by (auto simp: set_hook_edges must_precede_def dest: resolve_less)
qed

section \<open>The topological sort\<close>

text \<open>Edges into a node from nodes not yet emitted.\<close>

definition pending :: "edges \<Rightarrow> nat list \<Rightarrow> nat \<Rightarrow> nat" where
  "pending es out j = length (filter (\<lambda>e. snd e = j \<and> fst e \<notin> set out) es)"

definition kahn_inv :: "nat \<Rightarrow> edges \<Rightarrow> nat list \<Rightarrow> int list \<Rightarrow> nat list \<Rightarrow> bool" where
  "kahn_inv n es ready indeg out \<longleftrightarrow>
     distinct (ready @ out) \<and> length indeg = n \<and> set (ready @ out) = {j. j < n \<and> indeg ! j = 0} \<and>
     (\<forall>j < n. indeg ! j = int (pending es out j)) \<and>
     (\<forall>k < length out. \<forall>i. (i, out ! k) \<in> set es \<longrightarrow> i \<in> set (take k out))"

definition permutes_lists :: "(nat list \<Rightarrow> nat list) \<Rightarrow> bool" where
  "permutes_lists f \<longleftrightarrow> (\<forall>xs. mset (f xs) = mset xs)"

lemma permutes_lists_set: "permutes_lists f \<Longrightarrow> set (f xs) = set xs"
  unfolding permutes_lists_def by (metis set_mset_mset)

lemma permutes_lists_distinct: "permutes_lists f \<Longrightarrow> distinct (f xs) \<longleftrightarrow> distinct xs"
  unfolding permutes_lists_def by (metis mset_eq_imp_distinct_iff)

lemma distinct_succs: "distinct es \<Longrightarrow> distinct (succs es c)"
  unfolding succs_def by (auto simp: distinct_map inj_on_def)

lemma pending_snoc:
  assumes "distinct es" and "c \<notin> set out"
  shows "int (pending es (out @ [c]) j) = int (pending es out j) - (if (c, j) \<in> set es then 1 else 0)"
  using assms(1)
proof (induction es)
  case (Cons e es)
  then show ?case using assms(2) by (cases e) (auto simp: pending_def)
qed (simp add: pending_def)

lemma pending_pos_iff: "0 < pending es out j \<longleftrightarrow> (\<exists>i. (i, j) \<in> set es \<and> i \<notin> set out)"
  by (force simp: pending_def length_greater_0_conv filter_empty_conv)

lemma foldl_release:
  assumes "permutes_lists srt" and "distinct ts" and "\<forall>t \<in> set ts. t < length indeg"
    and "foldl (release srt) (ready, indeg) ts = (ready1, indeg1)"
  shows "mset ready1 = mset ready + mset (filter (\<lambda>t. indeg ! t = 1) ts) \<and> length indeg1 = length indeg \<and>
    (\<forall>j < length indeg. indeg1 ! j = indeg ! j - (if j \<in> set ts then 1 else 0))"
  using assms(2-)
proof (induction ts arbitrary: ready indeg)
  case (Cons t ts)
  obtain r d where st: "release srt (ready, indeg) t = (r, d)" by fastforce
  have d: "d = indeg[t := indeg ! t - 1]"
    and r: "mset r = mset ready + mset (filter (\<lambda>t. indeg ! t = 1) [t])"
    using st assms(1) by (auto simp: release_def Let_def permutes_lists_def split: if_splits)
  have same: "filter (\<lambda>t. d ! t = 1) ts = filter (\<lambda>t. indeg ! t = 1) ts"
    using Cons.prems(1) by (intro filter_cong refl) (metis d distinct.simps(2) nth_list_update_neq)
  have IH: "mset ready1 = mset r + mset (filter (\<lambda>t. d ! t = 1) ts) \<and> length indeg1 = length d \<and>
      (\<forall>j < length d. indeg1 ! j = d ! j - (if j \<in> set ts then 1 else 0))"
    using Cons.prems by (intro Cons.IH) (auto simp: d st [unfolded d])
  have "indeg1 ! j = indeg ! j - (if j \<in> set (t # ts) then 1 else 0)" if "j < length indeg" for j
    using IH that Cons.prems(1) by (cases "j = t") (auto simp: d)
  moreover have "mset ready1 = mset ready + mset (filter (\<lambda>t. indeg ! t = 1) (t # ts))"
    using IH r by (simp add: same)
  ultimately show ?case using IH by (simp add: d)
qed simp

lemma kahn_step:
  assumes srt: "permutes_lists srt" and iter: "permutes_lists iter"
    and ok: "distinct es" "\<forall>(i, j) \<in> set es. i < n \<and> j < n \<and> i \<noteq> j"
    and inv: "kahn_inv n es (c # ready) indeg out"
    and st: "foldl (release srt) (ready, indeg) (iter (succs es c)) = (ready1, indeg1)"
  shows "kahn_inv n es ready1 indeg1 (out @ [c])"
proof -
  note i = inv [unfolded kahn_inv_def]
  let ?ts = "iter (succs es c)"
  have ts: "distinct ?ts" "set ?ts = {z. (c, z) \<in> set es}"
    using permutes_lists_distinct [OF iter] distinct_succs [OF ok(1)] permutes_lists_set [OF iter]
    by (auto simp: set_succs)
  have tn: "\<forall>t \<in> set ?ts. t < length indeg" using ok(2) i ts(2) by auto
  have c: "c \<notin> set out" "c < n" "indeg ! c = 0" using i by auto
  have pos: "1 \<le> indeg ! t" if "t \<in> set ?ts" for t
  proof -
    have "0 < pending es out t" using that ts(2) c(1) by (auto simp: pending_pos_iff)
    then show ?thesis using i tn that by auto
  qed
  note f = foldl_release [OF srt ts(1) tn st]
  have len: "length indeg1 = n" using f i by simp
  have deg: "indeg1 ! j = int (pending es (out @ [c]) j)" if "j < n" for j
    using f i that ts(2) pending_snoc [OF ok(1) c(1)] by simp
  have zero: "indeg1 ! j = 0 \<longleftrightarrow> indeg ! j = 0 \<or> j \<in> set ?ts \<and> indeg ! j = 1" if "j < n" for j
  proof -
    have "indeg1 ! j = indeg ! j - (if j \<in> set ?ts then 1 else 0)" using f i that by simp
    then show ?thesis using pos [of j] by auto
  qed
  have sets: "set ready1 = set ready \<union> {t \<in> set ?ts. indeg ! t = 1}"
    using f by (metis set_mset_mset set_mset_union set_filter)
  have dis: "distinct ready1"
  proof -
    have "distinct (ready @ filter (\<lambda>t. indeg ! t = 1) ?ts)" using i ts(1) by auto
    moreover have "mset ready1 = mset (ready @ filter (\<lambda>t. indeg ! t = 1) ?ts)" using f by simp
    ultimately show ?thesis by (metis mset_eq_imp_distinct_iff)
  qed
  have order: "i \<in> set (take k (out @ [c]))" if "k < length (out @ [c])" "(i, (out @ [c]) ! k) \<in> set es" for k i
  proof (cases "k < length out")
    case True
    then show ?thesis using that i by (simp add: nth_append)
  next
    case False
    then have "k = length out" using that(1) by simp
    moreover have "pending es out c = 0" using c i by simp
    then have "i \<in> set out" if "(i, c) \<in> set es" for i using that pending_pos_iff [of es out c] by auto
    ultimately show ?thesis using that(2) by simp
  qed
  have all: "set (ready1 @ out @ [c]) = {j. j < n \<and> indeg1 ! j = 0}"
  proof -
    have old: "insert c (set ready \<union> set out) = {j. j < n \<and> indeg ! j = 0}" using i by simp
    have "set (ready1 @ out @ [c]) = {j. j < n \<and> indeg ! j = 0} \<union> {t \<in> set ?ts. indeg ! t = 1}"
      unfolding old [symmetric] using sets by auto
    also have "\<dots> = {j. j < n \<and> indeg1 ! j = 0}" using zero tn i by blast
    finally show ?thesis .
  qed
  have "distinct (ready1 @ out @ [c])" using dis i sets c by auto
  then show ?thesis using len all deg order by (simp add: kahn_inv_def del: split_paired_All)
qed

lemma kahn_total:
  assumes srt: "permutes_lists srt" and iter: "permutes_lists iter"
    and ok: "distinct es" "\<forall>(i, j) \<in> set es. i < n \<and> j < n \<and> i \<noteq> j"
    and inv: "kahn_inv n es ready indeg out" and "n \<le> fuel + length out"
  shows "\<exists>out1 indeg1. kahn srt iter es fuel ready indeg out = Some out1 \<and> kahn_inv n es [] indeg1 out1"
  using inv assms(6)
proof (induction fuel arbitrary: ready indeg out)
  case 0
  have "length (ready @ out) = card (set (ready @ out))"
    using 0(1) distinct_card unfolding kahn_inv_def by metis
  also have "\<dots> \<le> card {..<n}" using 0(1) by (intro card_mono) (auto simp: kahn_inv_def)
  finally have "length ready + length out \<le> n" by simp
  then have "length ready = 0" using 0(2) by linarith
  then have "ready = []" by simp
  then show ?case using 0(1) by auto
next
  case (Suc fuel)
  show ?case
  proof (cases ready)
    case Nil
    then show ?thesis using Suc.prems(1) by auto
  next
    case (Cons c rest)
    obtain r d where st: "foldl (release srt) (rest, indeg) (iter (succs es c)) = (r, d)" by fastforce
    have "kahn_inv n es r d (out @ [c])"
      using kahn_step [OF srt iter ok _ st] Suc.prems(1) Cons by simp
    from Suc.IH [OF this] Suc.prems(2) show ?thesis by (simp add: Cons st)
  qed
qed

lemma kahn_complete:
  assumes "kahn_inv n es [] indeg out" and "acyclic (set es)" and "\<forall>(i, j) \<in> set es. i < n \<and> j < n \<and> i \<noteq> j"
  shows "length out = n"
proof -
  note i = assms(1) [unfolded kahn_inv_def]
  have "{..<n} - set out = {}"
  proof (rule ccontr)
    assume ne: "{..<n} - set out \<noteq> {}"
    have "wf (set es)" using assms(2) by (intro finite_acyclic_wf) auto
    then obtain z where z: "z \<in> {..<n} - set out" and least: "\<And>y. (y, z) \<in> set es \<Longrightarrow> y \<notin> {..<n} - set out"
      using ne by (metis wfE_min ex_in_conv)
    have "indeg ! z \<noteq> 0" using z i by auto
    then have "0 < pending es out z" using z i by auto
    then obtain y where "(y, z) \<in> set es" "y \<notin> set out" by (auto simp: pending_pos_iff)
    moreover from this have "y < n" using assms(3) by auto
    ultimately show False using least by auto
  qed
  moreover have "set out \<subseteq> {..<n}" using i by auto
  ultimately have "set out = {..<n}" by auto
  then have "card (set out) = n" by simp
  then show ?thesis using i distinct_card [of out] by simp
qed

text \<open>Emitting every node after its predecessors is possible only in a graph without cycles.\<close>

lemma ordered_acyclic:
  assumes "distinct out" and "set out = {..<n}" and "\<forall>(i, j) \<in> set es. i < n \<and> j < n \<and> i \<noteq> j"
    and "\<forall>k < length out. \<forall>i. (i, out ! k) \<in> set es \<longrightarrow> i \<in> set (take k out)"
  shows "acyclic (set es)"
proof -
  have "set es \<subseteq> measure (\<lambda>i. THE k. k < length out \<and> out ! k = i)"
  proof
    fix e assume e: "e \<in> set es"
    obtain a b where ab: "e = (a, b)" by (cases e)
    have pos: "(THE k. k < length out \<and> out ! k = out ! m) = m" if "m < length out" for m
      using that assms(1) by (intro the_equality) (auto simp: nth_eq_iff_index_eq)
    have "b < n" using assms(3) e ab by auto
    then obtain k where k: "k < length out" "out ! k = b" using assms(2) by (metis in_set_conv_nth lessThan_iff)
    with assms(4) e ab have "a \<in> set (take k out)" by auto
    then obtain m where m: "m < k" "m < length out" "out ! m = a" by (auto simp: in_set_conv_nth)
    show "e \<in> measure (\<lambda>i. THE k. k < length out \<and> out ! k = i)"
      using pos [OF k(1)] pos [OF m(2)] k m ab by simp
  qed
  then have "wf (set es)" by (rule wf_subset [rotated]) simp
  then show ?thesis by (rule wf_acyclic)
qed

section \<open>What is accepted\<close>

lemma distinct_take_iff:
  "(\<forall>i < length xs. f (xs ! i) \<notin> f ` set (take i xs)) \<longleftrightarrow> distinct (map f xs)"
proof (induction xs rule: rev_induct)
  case (snoc x xs)
  have "(\<forall>i < length (xs @ [x]). f ((xs @ [x]) ! i) \<notin> f ` set (take i (xs @ [x]))) \<longleftrightarrow>
      (\<forall>i < length xs. f (xs ! i) \<notin> f ` set (take i xs)) \<and> f x \<notin> f ` set xs"
    by (auto simp: nth_append less_Suc_eq)
  then show ?case using snoc by simp
qed simp

lemma precheck_iff:
  "precheck hooks = Inr () \<longleftrightarrow>
     (\<forall>h \<in> set hooks. H_Stage h = H_Stage (hd hooks)) \<and> distinct (map gatewayHookOrderingKey hooks) \<and>
     (fst (GatewayStageExecutionModeFor (H_Stage (hd hooks))) = ''exclusive'' \<longrightarrow>
        length (filter (\<lambda>h. H_PluginAPI h = PluginAPIV2) hooks) \<le> 1)"
  (is "_ \<longleftrightarrow> ?stages \<and> ?keys \<and> ?one")
proof -
  let ?bad = "\<lambda>i. H_Stage (hooks ! i) \<noteq> H_Stage (hd hooks) \<or>
    gatewayHookOrderingKey (hooks ! i) \<in> gatewayHookOrderingKey ` set (take i hooks)"
  have "find ?bad [0..<length hooks] = None \<longleftrightarrow> ?stages \<and> ?keys"
    unfolding distinct_take_iff [symmetric, where xs = hooks] all_set_conv_all_nth [of hooks]
    by (auto simp: find_None_iff)
  moreover have "precheck hooks = Inr () \<longleftrightarrow> find ?bad [0..<length hooks] = None \<and> ?one"
    unfolding precheck_def Let_def by (auto split: option.split)
  ultimately show ?thesis by simp
qed

lemma validateGatewayWriteOrdering_iff:
  "validateGatewayWriteOrdering hooks es = Inr () \<longleftrightarrow>
     (\<forall>i j. i < j \<and> j < length hooks \<longrightarrow> \<not> write_conflict hooks es i j)"
proof -
  let ?pairs = "[(left, right). left \<leftarrow> [0..<length hooks], right \<leftarrow> [Suc left..<length hooks]]"
  have "validateGatewayWriteOrdering hooks es = Inr () \<longleftrightarrow>
      find (\<lambda>(left, right). write_conflict hooks es left right) ?pairs = None"
    by (simp add: validateGatewayWriteOrdering_def split: option.split prod.split)
  also have "\<dots> \<longleftrightarrow> (\<forall>p \<in> set ?pairs. \<not> write_conflict hooks es (fst p) (snd p))"
    by (auto simp: find_None_iff)
  also have "set ?pairs = {(i, j). i < j \<and> j < length hooks}" by force
  finally show ?thesis by auto
qed

text \<open>The contract of the ordering: what a list of hooks must satisfy, and what an order of it is.\<close>

definition well_ordered :: "GatewayHookDescriptor list \<Rightarrow> nat list \<Rightarrow> bool" where
  "well_ordered hooks idx \<longleftrightarrow>
     mset idx = mset [0..<length hooks] \<and>
     (\<forall>k < length idx. \<forall>i. must_precede hooks i (idx ! k) \<longrightarrow> i \<in> set (take k idx))"

definition writers_ordered :: "GatewayHookDescriptor list \<Rightarrow> bool" where
  "writers_ordered hooks \<longleftrightarrow>
     (\<forall>i j. i < j \<and> j < length hooks \<and> H_PluginAPI (hooks ! i) = PluginAPIV2 \<and> H_PluginAPI (hooks ! j) = PluginAPIV2 \<and>
        gatewayHooksShareWrite (hooks ! i) (hooks ! j) \<longrightarrow>
        (i, j) \<in> {(i, j). must_precede hooks i j}\<^sup>* \<or> (j, i) \<in> {(i, j). must_precede hooks i j}\<^sup>*)"

definition orderable :: "GatewayHookDescriptor list \<Rightarrow> bool" where
  "orderable hooks \<longleftrightarrow>
     (\<forall>h \<in> set hooks. H_Stage h = H_Stage (hd hooks)) \<and> distinct (map gatewayHookOrderingKey hooks) \<and>
     (fst (GatewayStageExecutionModeFor (H_Stage (hd hooks))) = ''exclusive'' \<longrightarrow>
        length (filter (\<lambda>h. H_PluginAPI h = PluginAPIV2) hooks) \<le> 1) \<and>
     (fst (GatewayStageExecutionModeFor (H_Stage (hd hooks))) = ''pipeline'' \<longrightarrow> writers_ordered hooks) \<and>
     acyclic {(i, j). must_precede hooks i j}"

lemma write_check_iff:
  "validateGatewayWriteOrdering hooks (fst (build_graph hooks)) = Inr () \<longleftrightarrow> writers_ordered hooks"
  unfolding validateGatewayWriteOrdering_iff writers_ordered_def write_conflict_def gatewayHookReachable_iff
    build_graph_ok(2) by blast

lemma kahn_initial:
  assumes "permutes_lists srt" and "graph_ok n (es, indeg)"
  shows "kahn_inv n es (srt (filter (\<lambda>i. indeg ! i = 0) [0..<n])) indeg []"
  using assms permutes_lists_set [OF assms(1)] permutes_lists_distinct [OF assms(1)]
  by (auto simp: kahn_inv_def graph_ok_def pending_def)

text \<open>The loop never runs out of fuel, and it emits every hook exactly when the graph is acyclic.\<close>

lemma kahn_run:
  assumes "permutes_lists srt" and "permutes_lists iter" and g: "build_graph hooks = (es, indeg)"
  obtains out where
    "kahn srt iter es (length hooks) (srt (filter (\<lambda>i. indeg ! i = 0) [0..<length hooks])) indeg [] = Some out"
    "length out = length hooks \<longleftrightarrow> acyclic {(i, j). must_precede hooks i j}"
    "length out = length hooks \<Longrightarrow> well_ordered hooks out"
proof -
  let ?n = "length hooks"
  have ok: "graph_ok ?n (es, indeg)" and es: "set es = {(i, j). must_precede hooks i j}"
    using build_graph_ok [of hooks] by (simp_all add: g)
  have e: "distinct es" "\<forall>(i, j) \<in> set es. i < ?n \<and> j < ?n \<and> i \<noteq> j" using ok by (auto simp: graph_ok_def)
  from kahn_total [OF assms(1,2) e kahn_initial [OF assms(1) ok], of ?n] obtain out indeg1
    where run: "kahn srt iter es ?n (srt (filter (\<lambda>i. indeg ! i = 0) [0..<?n])) indeg [] = Some out"
      and inv: "kahn_inv ?n es [] indeg1 out" by auto
  note i = inv [unfolded kahn_inv_def]
  have full: "set out = {..<?n}" if "length out = ?n"
    using i that card_subset_eq [of "{..<?n}" "set out"] distinct_card [of out] by auto
  have "well_ordered hooks out" if "length out = ?n"
  proof -
    have "mset out = mset [0..<?n]"
      using i full [OF that] by (intro set_eq_iff_mset_eq_distinct [THEN iffD1]) (auto simp: atLeast0LessThan)
    then show ?thesis using i by (simp add: well_ordered_def es)
  qed
  moreover have "length out = ?n \<longleftrightarrow> acyclic (set es)"
    using kahn_complete [OF inv _ e(2)] ordered_acyclic [OF _ full e(2)] i by auto
  ultimately show thesis using that run by (simp add: es)
qed

lemma order_result:
  assumes "permutes_lists srt" and "permutes_lists iter" and "2 \<le> length hooks"
  shows "if orderable hooks
    then \<exists>idx. orderAndValidateGatewayHooks srt iter hooks = Inr (map (\<lambda>i. hooks ! i) idx) \<and> well_ordered hooks idx
    else \<exists>e. orderAndValidateGatewayHooks srt iter hooks = Inl e"
proof -
  obtain es indeg where g: "build_graph hooks = (es, indeg)" by fastforce
  from kahn_run [OF assms(1,2) g] obtain out where
    run: "kahn srt iter es (length hooks) (srt (filter (\<lambda>i. indeg ! i = 0) [0..<length hooks])) indeg [] = Some out"
    and acy: "length out = length hooks \<longleftrightarrow> acyclic {(i, j). must_precede hooks i j}"
    and ord: "length out = length hooks \<Longrightarrow> well_ordered hooks out" by blast
  let ?pipe = "fst (GatewayStageExecutionModeFor (H_Stage (hd hooks))) = ''pipeline''"
  let ?w = "if ?pipe then validateGatewayWriteOrdering hooks es else Inr ()"
  have w: "?w = Inr () \<longleftrightarrow> (?pipe \<longrightarrow> writers_ordered hooks)"
    using write_check_iff [of hooks] by (simp add: g)
  have eq: "orderAndValidateGatewayHooks srt iter hooks =
      rbind (precheck hooks) (\<lambda>_. rbind ?w (\<lambda>_.
        if length out \<noteq> length hooks then Inl (DependencyCycle (H_Stage (hd hooks)))
        else Inr (map (\<lambda>i. hooks ! i) out)))"
    using assms(3) run by (simp add: orderAndValidateGatewayHooks_def g Let_def)
  have orderable: "orderable hooks \<longleftrightarrow> precheck hooks = Inr () \<and> ?w = Inr () \<and> length out = length hooks"
    unfolding orderable_def precheck_iff w acy by blast
  show ?thesis
  proof (cases "orderable hooks")
    case True
    with orderable have "orderAndValidateGatewayHooks srt iter hooks = Inr (map (\<lambda>i. hooks ! i) out)"
      and "well_ordered hooks out" using eq ord by simp_all
    with True show ?thesis by auto
  next
    case False
    then have "\<exists>e. orderAndValidateGatewayHooks srt iter hooks = Inl e"
      unfolding eq orderable by (cases "precheck hooks"; cases "?w") (auto split: if_splits)
    with False show ?thesis by simp
  qed
qed

section \<open>Properties\<close>

text \<open>(C5) The order the gateway computes is a permutation of the hooks in which every hook comes after
  all hooks that must run before it, whatever the ties are broken by.\<close>

theorem ordering_sound:
  assumes "permutes_lists srt" and "permutes_lists iter"
    and "orderAndValidateGatewayHooks srt iter hooks = Inr ordered"
  shows "\<exists>idx. ordered = map (\<lambda>i. hooks ! i) idx \<and> well_ordered hooks idx"
proof (cases "2 \<le> length hooks")
  case True
  then show ?thesis
    using order_result [OF assms(1,2) True] assms(3) by (auto split: if_splits)
next
  case False
  then have "ordered = hooks" using assms(3) by (simp add: orderAndValidateGatewayHooks_def)
  moreover have "well_ordered hooks [0..<length hooks]"
    using False by (auto simp: well_ordered_def must_precede_def)
  ultimately show ?thesis by (intro exI [of _ "[0..<length hooks]"]) (simp add: map_nth)
qed

text \<open>(C32) Ordering terminates and decides exactly: two or more hooks are ordered if and only if they
  share a stage, have distinct keys and acyclic dependencies, at most one of them has plugin interface v2
  when the stage is exclusive, and, when the stage is a pipeline, any two of interface v2 that write a
  common data class are ordered by a chain of references. Any other list is refused. In first-match and
  observer stages unordered writers of a common class are accepted.\<close>

theorem ordering_decides:
  assumes "permutes_lists srt" and "permutes_lists iter" and "2 \<le> length hooks"
  shows "(\<exists>ordered. orderAndValidateGatewayHooks srt iter hooks = Inr ordered) \<longleftrightarrow> orderable hooks"
  using order_result [OF assms] by (auto split: if_splits)

text \<open>Hooks of the stage \<open>settlement\<close>, for the witnesses.\<close>

definition sample_hook :: "string \<Rightarrow> string \<Rightarrow> int \<Rightarrow> GatewayHookDescriptor" where
  "sample_hook name api priority =
     \<lparr>H_PluginID = name, H_HookID = ''h'', H_Stage = ''settlement'', H_Priority = priority, H_Before = [], H_After = [],
      H_PluginAPI = api, H_Subject = [], H_Metadata = [],
      H_Scope = \<lparr>ProjectIDs = [], APIKeyIDs = [], ProviderTypes = [], ProviderIDs = [], ResourceIDs = [],
                 ResourceTypes = [], RouteProtocols = [], Operations = []\<rparr>,
      H_Reads = [], H_Writes = [], H_FailurePolicy = ''observe_only'', H_TimeoutMillis = 5000, H_Mandatory = False\<rparr>"

lemma sample_keys:
  "gatewayHookOrderingKey (sample_hook ''a'' api p) = ''a/h''"
  "gatewayHookOrderingKey (sample_hook ''b'' api p) = ''b/h''"
  "gatewayHookOrderingKey (sample_hook ''c'' api p) = ''c/h''"
  by (simp_all add: gatewayHookOrderingKey_def sample_hook_def TrimSpace_graph_all is_graph_def code_of_def)

lemma id_permutes [simp]: "permutes_lists (\<lambda>xs. xs)"
  by (simp add: permutes_lists_def)

lemma sample_pair_ordered:
  "orderAndValidateGatewayHooks (\<lambda>xs. xs) (\<lambda>xs. xs)
     [sample_hook ''a'' ''v1'' 1, (sample_hook ''b'' ''v1'' 1)\<lparr>H_Before := [''a/h'']\<rparr>] =
   Inr [(sample_hook ''b'' ''v1'' 1)\<lparr>H_Before := [''a/h'']\<rparr>, sample_hook ''a'' ''v1'' 1]"
proof -
  let ?a = "sample_hook ''a'' ''v1'' 1" and ?b = "(sample_hook ''b'' ''v1'' 1)\<lparr>H_Before := [''a/h'']\<rparr>"
  have kb: "gatewayHookOrderingKey ?b = ''b/h''"
    using sample_keys(2) [of "''v1''" 1] by (simp add: gatewayHookOrderingKey_def sample_hook_def)
  have t: "TrimSpace ''a/h'' = ''a/h''" by (rule TrimSpace_graph_all) (simp add: is_graph_def code_of_def)
  have two: "[0..<length [?a, ?b]] = [0, 1]" by simp
  have res: "resolveGatewayHookReference [?a, ?b] ''a/h'' = Some 0"
    by (simp add: resolveGatewayHookReference_def indices_where_def t sample_keys kb)
  have "hook_edges [?a, ?b] 0 = []" "hook_edges [?a, ?b] 1 = [(1, 0)]"
    using res by (simp_all add: hook_edges_def List.map_filter_def sample_hook_def)
  then have g: "build_graph [?a, ?b] = ([(1, 0)], [1, 0])" by (simp add: build_graph_def addEdge_def)
  have pre: "precheck [?a, ?b] = Inr ()"
    unfolding precheck_iff by (simp add: sample_keys kb) (simp add: sample_hook_def GatewayStageExecutionModeFor_def)
  have mode: "fst (GatewayStageExecutionModeFor (H_Stage ?a)) \<noteq> ''pipeline''"
    by (simp add: sample_hook_def GatewayStageExecutionModeFor_def)
  show ?thesis using mode
    by (simp add: orderAndValidateGatewayHooks_def pre g Let_def numeral_2_eq_2 succs_def release_def)
qed

theorem ordering_sound_witness:
  "\<exists>idx. [(sample_hook ''b'' ''v1'' 1)\<lparr>H_Before := [''a/h'']\<rparr>, sample_hook ''a'' ''v1'' 1] =
     map (\<lambda>i. [sample_hook ''a'' ''v1'' 1, (sample_hook ''b'' ''v1'' 1)\<lparr>H_Before := [''a/h'']\<rparr>] ! i) idx \<and>
     well_ordered [sample_hook ''a'' ''v1'' 1, (sample_hook ''b'' ''v1'' 1)\<lparr>H_Before := [''a/h'']\<rparr>] idx"
  using ordering_sound [OF id_permutes id_permutes sample_pair_ordered] .

text \<open>Two hooks of a first-match stage that write the same class, with no order between them.\<close>

definition lookup_writer :: "string \<Rightarrow> GatewayHookDescriptor" where
  "lookup_writer name = (sample_hook name PluginAPIV2 0)\<lparr>H_Stage := ''cache_lookup'', H_Writes := [''cache_value'']\<rparr>"

lemma lookup_writers_orderable: "orderable [lookup_writer ''a'', lookup_writer ''b'']"
proof -
  have keys: "gatewayHookOrderingKey (lookup_writer ''a'') = ''a/h''" "gatewayHookOrderingKey (lookup_writer ''b'') = ''b/h''"
    using sample_keys by (simp_all add: gatewayHookOrderingKey_def lookup_writer_def sample_hook_def)
  have "\<not> must_precede [lookup_writer ''a'', lookup_writer ''b''] i j" for i j
    by (auto simp: must_precede_def lookup_writer_def sample_hook_def nth_Cons split: nat.splits)
  then show ?thesis
    by (simp add: orderable_def keys acyclic_def) (simp add: lookup_writer_def GatewayStageExecutionModeFor_def)
qed

theorem ordering_decides_witness:
  "orderable [sample_hook ''a'' ''v1'' 1, (sample_hook ''b'' ''v1'' 1)\<lparr>H_Before := [''a/h'']\<rparr>] \<and>
   gatewayHooksShareWrite (lookup_writer ''a'') (lookup_writer ''b'') \<and>
   (\<exists>ordered. orderAndValidateGatewayHooks (\<lambda>xs. xs) (\<lambda>xs. xs) [lookup_writer ''a'', lookup_writer ''b''] = Inr ordered)"
  using ordering_decides [OF id_permutes id_permutes, of "[sample_hook ''a'' ''v1'' 1, (sample_hook ''b'' ''v1'' 1)\<lparr>H_Before := [''a/h'']\<rparr>]"]
    ordering_decides [OF id_permutes id_permutes, of "[lookup_writer ''a'', lookup_writer ''b'']"]
    sample_pair_ordered lookup_writers_orderable
  by (auto simp: gatewayHooksShareWrite_def lookup_writer_def)

lemma sample_less:
  "hook_less (sample_hook ''a'' ''v1'' 2) (sample_hook ''b'' ''v2'' 0)"
  "hook_less (sample_hook ''b'' ''v2'' 0) (sample_hook ''c'' ''v1'' 1)"
  "hook_less (sample_hook ''c'' ''v1'' 1) (sample_hook ''a'' ''v1'' 2)"
  "\<not> hook_less (sample_hook ''b'' ''v2'' 0) (sample_hook ''a'' ''v1'' 2)"
  "\<not> hook_less (sample_hook ''c'' ''v1'' 1) (sample_hook ''b'' ''v2'' 0)"
  "\<not> hook_less (sample_hook ''a'' ''v1'' 2) (sample_hook ''c'' ''v1'' 1)"
  unfolding hook_less_def sample_keys by (simp_all add: sample_hook_def PluginAPIV2_def)

text \<open>The comparison by which ready hooks are sorted is not an order: when hooks of both plugin
  interfaces meet, three of them can each come before the next in a circle, and sorting them keeps
  the order in which they were registered, whichever of the three is first.\<close>

theorem hook_less_circular:
  "hook_less (sample_hook ''a'' ''v1'' 2) (sample_hook ''b'' ''v2'' 0) \<and>
   hook_less (sample_hook ''b'' ''v2'' 0) (sample_hook ''c'' ''v1'' 1) \<and>
   hook_less (sample_hook ''c'' ''v1'' 1) (sample_hook ''a'' ''v1'' 2) \<and>
   sortGatewayHookIndexes [sample_hook ''a'' ''v1'' 2, sample_hook ''b'' ''v2'' 0, sample_hook ''c'' ''v1'' 1] [0, 1, 2] = [0, 1, 2] \<and>
   sortGatewayHookIndexes [sample_hook ''c'' ''v1'' 1, sample_hook ''a'' ''v1'' 2, sample_hook ''b'' ''v2'' 0] [0, 1, 2] = [0, 1, 2]"
  by (simp add: sample_less sortGatewayHookIndexes_def numeral_2_eq_2)

end
