(* ===== verification/HookChain.thy ===== *)
theory HookChain
  imports HookOrdering "HOL-Library.AList"
begin

text \<open>
  The registry of gateway hooks (\<open>gateway_chain.go\<close>, \<open>gateway_list_scope.go\<close> of the plugin package,
  with \<open>normalizeStrings\<close> of \<open>admin_ui.go\<close>, \<open>normalizeStringMap\<close> and \<open>validateGatewayDataClasses\<close> of
  \<open>manifest.go\<close>): the stages of a call in order, what each stage allows a hook to read, write and do
  on failure, the normalisation of a descriptor, registration, and the plan of the whole chain.

  A registry is a function from stages to lists of hooks, \<open>None\<close> standing for a nil receiver. A
  metadata map is an association list in an order of iteration. \<open>srt\<close> and \<open>iter\<close> are those of the
  ordering.
\<close>

section \<open>Stages\<close>

definition canonicalGatewayStages :: "string list" where
  "canonicalGatewayStages =
     [''auth_context'', ''decode_normalize'', ''admission'', ''privacy_pre'', ''guardrail_pre'', ''context_optimize'',
      ''cache_lookup'', ''route_candidates'', ''route_rank'', ''request_transform'', ''provider_call'',
      ''stream_transform'', ''response_post'', ''guardrail_post'', ''usage_attribution'', ''cache_write'',
      ''settlement'', ''trace_export'']"

record GatewayHookStagePolicy =
  DefaultFailurePolicy :: string
  AllowedFailurePolicy :: "string list"
  PolicyReads :: "string list"
  PolicyWrites :: "string list"
  AllowsDeny :: bool
  AllowsShortCircuit :: bool

definition stage_policy :: "string list \<Rightarrow> string list \<Rightarrow> string list \<Rightarrow> bool \<Rightarrow> bool \<Rightarrow> GatewayHookStagePolicy" where
  "stage_policy failures reads writes deny short =
     \<lparr>DefaultFailurePolicy = hd failures, AllowedFailurePolicy = failures, PolicyReads = reads, PolicyWrites = writes,
      AllowsDeny = deny, AllowsShortCircuit = short\<rparr>"

definition GatewayStagePolicies :: "(string \<times> GatewayHookStagePolicy) list" where
  "GatewayStagePolicies =
     [(''auth_context'', stage_policy [''fail_open'', ''fail_closed'']
         [''auth_context'', ''project_metadata'', ''api_key_metadata'', ''request_headers'']
         [''auth_context'', ''audit''] False False),
      (''decode_normalize'', stage_policy [''fail_closed'']
         [''request_headers'', ''request_body'']
         [''request_body'', ''normalized_text'', ''file_metadata'', ''image_metadata'', ''tool_schema'', ''audit''] True False),
      (''admission'', stage_policy [''fail_closed'', ''fail_open'']
         [''auth_context'', ''project_metadata'', ''api_key_metadata'', ''request_headers'', ''request_body'', ''normalized_text'', ''usage'']
         [''usage'', ''audit''] True False),
      (''privacy_pre'', stage_policy [''fail_closed'', ''fail_open'']
         [''request_headers'', ''request_body'', ''normalized_text'', ''file_metadata'', ''file_content'', ''image_metadata'', ''image_content'', ''tool_schema'']
         [''request_body'', ''normalized_text'', ''file_content'', ''image_content'', ''cache_key'', ''audit''] True False),
      (''guardrail_pre'', stage_policy [''fail_closed'', ''fail_open'']
         [''auth_context'', ''project_metadata'', ''api_key_metadata'', ''request_body'', ''normalized_text'', ''file_metadata'', ''file_content'', ''image_metadata'', ''image_content'', ''tool_schema'']
         [''request_body'', ''normalized_text'', ''audit''] True False),
      (''context_optimize'', stage_policy [''fail_open'', ''fail_closed'']
         [''project_metadata'', ''request_body'', ''normalized_text'', ''file_metadata'', ''file_content'', ''image_metadata'', ''image_content'', ''tool_schema'', ''route_candidates'']
         [''request_body'', ''normalized_text'', ''file_content'', ''image_content'', ''tool_schema'', ''audit''] True False),
      (''cache_lookup'', stage_policy [''fail_open'', ''return_fallback'']
         [''auth_context'', ''project_metadata'', ''api_key_metadata'', ''request_body'', ''normalized_text'', ''cache_key'']
         [''cache_key'', ''cache_value'', ''provider_response'', ''usage'', ''audit''] False True),
      (''route_candidates'', stage_policy [''fail_open'', ''fail_closed'']
         [''auth_context'', ''project_metadata'', ''api_key_metadata'', ''request_body'', ''normalized_text'', ''route_candidates'', ''usage'']
         [''route_candidates'', ''audit''] True False),
      (''route_rank'', stage_policy [''fail_open'', ''observe_only'']
         [''auth_context'', ''project_metadata'', ''api_key_metadata'', ''normalized_text'', ''route_candidates'', ''usage'']
         [''route_candidates'', ''audit''] False False),
      (''request_transform'', stage_policy [''skip_route'', ''fail_closed'', ''fail_open'']
         [''auth_context'', ''project_metadata'', ''provider_credentials'', ''provider_request'', ''route_candidates'']
         [''provider_request'', ''audit''] True False),
      (''provider_call'', stage_policy [''skip_route'', ''fail_closed'']
         [''auth_context'', ''project_metadata'', ''provider_credentials'', ''provider_request'', ''route_candidates'']
         [''provider_response'', ''stream_events'', ''usage'', ''audit''] True True),
      (''stream_transform'', stage_policy [''fail_open'', ''fail_closed'']
         [''auth_context'', ''project_metadata'', ''api_key_metadata'', ''provider_credentials'', ''stream_events'']
         [''stream_events'', ''audit''] True False),
      (''response_post'', stage_policy [''fail_open'', ''fail_closed'']
         [''provider_response'', ''stream_events'']
         [''provider_response'', ''stream_events'', ''audit''] True False),
      (''guardrail_post'', stage_policy [''fail_closed'', ''fail_open'']
         [''auth_context'', ''project_metadata'', ''api_key_metadata'', ''provider_response'', ''stream_events'', ''usage'']
         [''provider_response'', ''audit''] True False),
      (''cache_write'', stage_policy [''fail_open'', ''observe_only'']
         [''auth_context'', ''project_metadata'', ''api_key_metadata'', ''request_body'', ''normalized_text'', ''provider_response'', ''usage'', ''cache_key'', ''cache_value'']
         [''cache_key'', ''cache_value'', ''audit''] False False),
      (''usage_attribution'', stage_policy [''fail_open'', ''fail_closed'']
         [''auth_context'', ''project_metadata'', ''api_key_metadata'', ''provider_response'', ''usage'']
         [''usage'', ''audit''] False False),
      (''settlement'', stage_policy [''observe_only'', ''fail_open'']
         [''auth_context'', ''project_metadata'', ''api_key_metadata'', ''provider_response'', ''usage'', ''audit''] [] False False),
      (''trace_export'', stage_policy [''observe_only'', ''fail_open''] [''audit'', ''usage''] [] False False)]"

definition GatewayStagePolicy :: "string \<Rightarrow> GatewayHookStagePolicy option" where
  "GatewayStagePolicy stage = map_of GatewayStagePolicies stage"

section \<open>Normalisation\<close>

text \<open>Drop empty items, keep the first of equal ones, sort.\<close>

fun dedup_nonempty :: "string list \<Rightarrow> string list \<Rightarrow> string list" where
  "dedup_nonempty seen [] = []"
| "dedup_nonempty seen (item # rest) =
     (if item = [] \<or> item \<in> set seen then dedup_nonempty seen rest
      else item # dedup_nonempty (item # seen) rest)"

definition normalizeStrings :: "string list \<Rightarrow> string list" where
  "normalizeStrings items = sort (dedup_nonempty [] (map TrimSpace items))"

definition normalizeLowerStrings :: "string list \<Rightarrow> string list" where
  "normalizeLowerStrings items = sort (dedup_nonempty [] (map (\<lambda>item. ToLower (TrimSpace item)) items))"

definition normalizeDataClasses :: "string list \<Rightarrow> string list" where
  "normalizeDataClasses items = sort (dedup_nonempty [] items)"

definition normalizeStringMap :: "(string \<times> string) list \<Rightarrow> (string \<times> string) list" where
  "normalizeStringMap items =
     foldl (\<lambda>normalized (key, value).
        let k = TrimSpace key in if k = [] then normalized else AList.update k (TrimSpace value) normalized) [] items"

function fields_func :: "(char \<Rightarrow> bool) \<Rightarrow> string \<Rightarrow> string list" where
  "fields_func sep s =
     (case dropWhile sep s of
        [] \<Rightarrow> []
      | c # cs \<Rightarrow> (c # takeWhile (\<lambda>d. \<not> sep d) cs) # fields_func sep (dropWhile (\<lambda>d. \<not> sep d) cs))"
  by pat_completeness auto
termination
proof (relation "measure (\<lambda>(sep, s). length s)", goal_cases)
  case (2 sep s c cs)
  have "length (dropWhile (\<lambda>d. \<not> sep d) cs) \<le> length cs" by (rule length_dropWhile_le)
  also have "\<dots> < length (dropWhile sep s)" using 2 by simp
  also have "\<dots> \<le> length s" by (rule length_dropWhile_le)
  finally show ?case by simp
qed simp

declare fields_func.simps [simp del]

definition splitGatewayScopeMetadata :: "string \<Rightarrow> string list" where
  "splitGatewayScopeMetadata value =
     filter (\<lambda>item. item \<noteq> [])
       (map TrimSpace (fields_func (\<lambda>r. r \<in> {CHR '','', CHR '' '', CHR 0x0A, CHR 0x09, CHR '';''}) value))"

definition meta :: "(string \<times> string) list \<Rightarrow> string \<Rightarrow> string" where
  "meta metadata key = (case map_of metadata key of None \<Rightarrow> [] | Some v \<Rightarrow> v)"

definition legacy_items :: "(string \<times> string) list \<Rightarrow> string list \<Rightarrow> string \<Rightarrow> string \<Rightarrow> string list" where
  "legacy_items metadata items key1 key2 =
     (if items = [] then splitGatewayScopeMetadata (meta metadata key1) @ splitGatewayScopeMetadata (meta metadata key2)
      else items)"

definition mergeLegacyGatewayHookScope :: "GatewayHookScope \<Rightarrow> string \<Rightarrow> (string \<times> string) list \<Rightarrow> GatewayHookScope" where
  "mergeLegacyGatewayHookScope scope0 subject metadata =
     (let scope = (if TrimSpace subject \<noteq> [] \<and> ProviderTypes scope0 = []
                   then scope0\<lparr>ProviderTypes := [subject]\<rparr> else scope0)
      in if metadata = [] then scope
         else \<lparr>ProjectIDs = legacy_items metadata (ProjectIDs scope) ''project_id'' ''project_ids'',
               APIKeyIDs = legacy_items metadata (APIKeyIDs scope) ''api_key_id'' ''api_key_ids'',
               ProviderTypes = legacy_items metadata (ProviderTypes scope) ''provider_type'' ''provider_types'',
               ProviderIDs = legacy_items metadata (ProviderIDs scope) ''provider_id'' ''provider_ids'',
               ResourceIDs = legacy_items metadata (ResourceIDs scope) ''resource_id'' ''resource_ids'',
               ResourceTypes = legacy_items metadata (ResourceTypes scope) ''resource_type'' ''resource_types'',
               RouteProtocols = legacy_items metadata (RouteProtocols scope) ''protocol'' ''route_protocol'',
               Operations = legacy_items metadata (Operations scope) ''operation'' ''operations''\<rparr>)"

definition normalizeGatewayHookScope :: "GatewayHookScope \<Rightarrow> GatewayHookScope" where
  "normalizeGatewayHookScope scope =
     \<lparr>ProjectIDs = normalizeStrings (ProjectIDs scope),
      APIKeyIDs = normalizeStrings (APIKeyIDs scope),
      ProviderTypes = normalizeLowerStrings (ProviderTypes scope),
      ProviderIDs = normalizeStrings (ProviderIDs scope),
      ResourceIDs = normalizeStrings (ResourceIDs scope),
      ResourceTypes = normalizeLowerStrings (ResourceTypes scope),
      RouteProtocols = normalizeLowerStrings (RouteProtocols scope),
      Operations = normalizeLowerStrings (Operations scope)\<rparr>"

definition DefaultGatewayHookTimeoutMillis :: int where
  "DefaultGatewayHookTimeoutMillis = 5000"

definition MaxGatewayHookTimeoutMillis :: int where
  "MaxGatewayHookTimeoutMillis = 60000"

definition default_failure :: "GatewayHookDescriptor \<Rightarrow> string" where
  "default_failure d =
     (if H_FailurePolicy d \<noteq> [] then H_FailurePolicy d
      else case GatewayStagePolicy (H_Stage d) of Some policy \<Rightarrow> DefaultFailurePolicy policy | None \<Rightarrow> [])"

definition NormalizeGatewayHookDescriptor :: "GatewayHookDescriptor \<Rightarrow> GatewayHookDescriptor" where
  "NormalizeGatewayHookDescriptor d =
     (let subject = TrimSpace (H_Subject d);
          metadata = normalizeStringMap (H_Metadata d);
          failure = default_failure d
      in d\<lparr>H_PluginID := TrimSpace (H_PluginID d),
           H_HookID := TrimSpace (H_HookID d),
           H_Subject := subject,
           H_Metadata := metadata,
           H_Before := normalizeStrings (H_Before d),
           H_After := normalizeStrings (H_After d),
           H_PluginAPI := TrimSpace (H_PluginAPI d),
           H_FailurePolicy := failure,
           H_TimeoutMillis := (if H_TimeoutMillis d = 0 then DefaultGatewayHookTimeoutMillis else H_TimeoutMillis d),
           H_Reads := normalizeDataClasses (H_Reads d),
           H_Writes := (if failure = ''observe_only'' then [] else normalizeDataClasses (H_Writes d)),
           H_Scope := normalizeGatewayHookScope (mergeLegacyGatewayHookScope (H_Scope d) subject metadata)\<rparr>)"

section \<open>Checks\<close>

definition allGatewayDataClasses :: "string list" where
  "allGatewayDataClasses =
     [''api_key_metadata'', ''audit'', ''auth_context'', ''cache_key'', ''cache_value'', ''file_content'',
      ''file_metadata'', ''image_content'', ''image_metadata'', ''normalized_text'', ''project_metadata'',
      ''provider_credentials'', ''provider_request'', ''provider_response'', ''request_body'', ''request_headers'',
      ''route_candidates'', ''stream_events'', ''tool_schema'', ''usage'']"

definition validGatewayDataClass :: "string \<Rightarrow> bool" where
  "validGatewayDataClass dataClass \<longleftrightarrow> dataClass \<in> set allGatewayDataClasses"

definition validateGatewayDataClasses :: "string list \<Rightarrow> hook_error + unit" where
  "validateGatewayDataClasses classes =
     (case find (\<lambda>c. \<not> validGatewayDataClass c) classes of
        Some c \<Rightarrow> Inl (InvalidHook (''unsupported data class '' @ c)) | None \<Rightarrow> Inr ())"

definition gatewayFailurePolicyAllowed :: "string \<Rightarrow> string list \<Rightarrow> bool" where
  "gatewayFailurePolicyAllowed policy allowed = list_ex (\<lambda>candidate. candidate = policy) allowed"

definition validateGatewayStageDataClasses :: "string \<Rightarrow> string \<Rightarrow> string list \<Rightarrow> string list \<Rightarrow> hook_error + unit" where
  "validateGatewayStageDataClasses stage direction requested allowed =
     (case find (\<lambda>c. c \<notin> set allowed) requested of
        Some c \<Rightarrow> Inl (InvalidHook (stage @ '' cannot '' @ direction @ '' '' @ c)) | None \<Rightarrow> Inr ())"

definition validateGatewayListStageScope :: "GatewayHookDescriptor \<Rightarrow> hook_error + unit" where
  "validateGatewayListStageScope hook =
     (if H_Stage hook \<noteq> ''route_candidates'' \<and> H_Stage hook \<noteq> ''route_rank'' then Inr ()
      else let scope = H_Scope hook in
        if length (ProviderIDs scope) + length (ProviderTypes scope) + length (ResourceIDs scope) + length (ResourceTypes scope) \<noteq> 0
        then Inl (InvalidHook (H_Stage hook @ '' cannot use provider or resource scopes before route selection''))
        else Inr ())"

definition preservedGatewayDataClasses :: "string list \<Rightarrow> string list \<Rightarrow> string list" where
  "preservedGatewayDataClasses reads writes = filter (\<lambda>c. c \<notin> set writes) reads"

definition gatewayScopeListMatches :: "string list \<Rightarrow> string \<Rightarrow> bool \<Rightarrow> bool" where
  "gatewayScopeListMatches allowed value0 caseInsensitive =
     (if allowed = [] then True
      else let value = (if caseInsensitive then ToLower (TrimSpace value0) else TrimSpace value0)
           in if value = [] then False else list_ex (\<lambda>candidate. candidate = value) allowed)"

record GatewayHookScopeTarget =
  T_ProjectID :: string
  T_APIKeyID :: string
  T_ProviderType :: string
  T_ProviderID :: string
  T_ResourceID :: string
  T_ResourceType :: string
  T_RouteProtocol :: string
  T_Operation :: string

definition GatewayHookScopeMatches :: "GatewayHookDescriptor \<Rightarrow> GatewayHookScopeTarget \<Rightarrow> bool" where
  "GatewayHookScopeMatches hook target =
     (let scope = H_Scope (NormalizeGatewayHookDescriptor hook) in
      gatewayScopeListMatches (ProjectIDs scope) (T_ProjectID target) False \<and>
      gatewayScopeListMatches (APIKeyIDs scope) (T_APIKeyID target) False \<and>
      gatewayScopeListMatches (ProviderTypes scope) (T_ProviderType target) True \<and>
      gatewayScopeListMatches (ProviderIDs scope) (T_ProviderID target) False \<and>
      gatewayScopeListMatches (ResourceIDs scope) (T_ResourceID target) False \<and>
      gatewayScopeListMatches (ResourceTypes scope) (T_ResourceType target) True \<and>
      gatewayScopeListMatches (RouteProtocols scope) (T_RouteProtocol target) True \<and>
      gatewayScopeListMatches (Operations scope) (T_Operation target) True)"

section \<open>The registry\<close>

type_synonym GatewayChainRegistry = "string \<Rightarrow> GatewayHookDescriptor list"
type_synonym sorter = "GatewayHookDescriptor list \<Rightarrow> nat list \<Rightarrow> nat list"

definition NewGatewayChainRegistry :: "GatewayChainRegistry option" where
  "NewGatewayChainRegistry = Some (\<lambda>_. [])"

definition check_descriptor :: "GatewayHookDescriptor \<Rightarrow> hook_error + unit" where
  "check_descriptor d =
     (if H_PluginID d = [] then Inl (InvalidHook ''gateway hook plugin id is required'')
      else if H_HookID d = [] then Inl (InvalidHook ''gateway hook id is required'')
      else if H_Stage d = [] then Inl (InvalidHook ''gateway hook stage is required'')
      else case GatewayStagePolicy (H_Stage d) of
        None \<Rightarrow> Inl (InvalidHook (''unsupported gateway hook stage '' @ H_Stage d))
      | Some policy \<Rightarrow>
          if \<not> gatewayFailurePolicyAllowed (H_FailurePolicy d) (AllowedFailurePolicy policy)
          then Inl (InvalidHook (H_Stage d @ '' does not allow failure policy '' @ H_FailurePolicy d))
          else rbind (validateGatewayDataClasses (H_Reads d)) (\<lambda>_.
            rbind (validateGatewayDataClasses (H_Writes d)) (\<lambda>_.
            rbind (validateGatewayStageDataClasses (H_Stage d) ''read'' (H_Reads d) (PolicyReads policy)) (\<lambda>_.
            rbind (validateGatewayStageDataClasses (H_Stage d) ''write'' (H_Writes d) (PolicyWrites policy)) (\<lambda>_.
            rbind (validateGatewayListStageScope d) (\<lambda>_.
              if H_TimeoutMillis d < 0 then Inl (InvalidHook ''timeout_millis cannot be negative'')
              else if H_TimeoutMillis d > MaxGatewayHookTimeoutMillis
              then Inl (InvalidHook ''timeout_millis cannot exceed the maximum'')
              else Inr ()))))))"

definition RegisterHook ::
  "sorter \<Rightarrow> (nat list \<Rightarrow> nat list) \<Rightarrow> GatewayHookDescriptor \<Rightarrow> GatewayChainRegistry option \<Rightarrow> hook_error + GatewayChainRegistry option" where
  "RegisterHook srt iter descriptor0 r =
     (case r of
        None \<Rightarrow> Inl (InvalidHook ''gateway chain registry is not configured'')
      | Some hooks \<Rightarrow>
          let d = NormalizeGatewayHookDescriptor descriptor0 in
          rbind (check_descriptor d) (\<lambda>_.
          let candidate = hooks (H_Stage d) @ [d] in
          rbind (orderAndValidateGatewayHooks (srt candidate) iter candidate) (\<lambda>ordered.
            Inr (Some (hooks(H_Stage d := ordered))))))"

definition Hooks :: "GatewayChainRegistry option \<Rightarrow> string \<Rightarrow> GatewayHookDescriptor list" where
  "Hooks r stage = (case r of None \<Rightarrow> [] | Some hooks \<Rightarrow> hooks stage)"

record GatewayStageEnvelopeContract =
  C_Stage :: string
  C_ExecutionMode :: string
  C_Reads :: "string list"
  C_Writes :: "string list"
  C_Preserves :: "string list"
  C_AllowsDeny :: bool
  C_AllowsShortCircuit :: bool
  C_DefaultFailure :: string
  C_AllowedFailures :: "string list"
  C_DefaultTimeoutMS :: int
  C_MaxTimeoutMS :: int

definition GatewayStageEnvelopeContractFor :: "string \<Rightarrow> GatewayStageEnvelopeContract option" where
  "GatewayStageEnvelopeContractFor stage =
     (case GatewayStagePolicy stage of
        None \<Rightarrow> None
      | Some policy \<Rightarrow>
          (case GatewayStageExecutionModeFor stage of
             (mode, ok) \<Rightarrow>
               if \<not> ok then None
               else Some \<lparr>C_Stage = stage, C_ExecutionMode = mode, C_Reads = PolicyReads policy,
                          C_Writes = PolicyWrites policy,
                          C_Preserves = preservedGatewayDataClasses (PolicyReads policy) (PolicyWrites policy),
                          C_AllowsDeny = AllowsDeny policy, C_AllowsShortCircuit = AllowsShortCircuit policy,
                          C_DefaultFailure = DefaultFailurePolicy policy, C_AllowedFailures = AllowedFailurePolicy policy,
                          C_DefaultTimeoutMS = DefaultGatewayHookTimeoutMillis,
                          C_MaxTimeoutMS = MaxGatewayHookTimeoutMillis\<rparr>))"

definition GatewayStageEnvelopeContracts :: "GatewayStageEnvelopeContract list" where
  "GatewayStageEnvelopeContracts = List.map_filter GatewayStageEnvelopeContractFor canonicalGatewayStages"

record GatewayChainPlan =
  Plan_Stages :: "string list"
  Plan_Envelopes :: "GatewayStageEnvelopeContract list"
  Plan_Hooks :: "GatewayHookDescriptor list"

definition Plan :: "GatewayChainRegistry option \<Rightarrow> GatewayChainPlan" where
  "Plan r =
     \<lparr>Plan_Stages = canonicalGatewayStages, Plan_Envelopes = GatewayStageEnvelopeContracts,
      Plan_Hooks = (case r of None \<Rightarrow> [] | Some _ \<Rightarrow> concat (map (Hooks r) canonicalGatewayStages))\<rparr>"

section \<open>Reordering keeps the dependencies\<close>

text \<open>Under distinct keys a reference denotes a hook and not a position.\<close>

lemma distinct_singleton: "distinct xs \<Longrightarrow> xs = [x] \<longleftrightarrow> set xs = {x}"
  by (cases xs) (auto simp: subset_singleton_iff)

definition positions :: "('a \<Rightarrow> bool) \<Rightarrow> 'a list \<Rightarrow> nat set" where
  "positions P xs = {i. i < length xs \<and> P (xs ! i)}"

lemma set_indices_where [simp]: "set (indices_where P xs) = positions P xs"
  by (auto simp: indices_where_def positions_def)

lemma distinct_indices_where [simp]: "distinct (indices_where P xs)"
  by (simp add: indices_where_def)

lemma resolve_iff:
  assumes "distinct (map gatewayHookOrderingKey hooks)"
  shows "resolveGatewayHookReference hooks r = Some i \<longleftrightarrow>
    positions (\<lambda>h. gatewayHookOrderingKey h = TrimSpace r) hooks = {i} \<or>
    positions (\<lambda>h. gatewayHookOrderingKey h = TrimSpace r) hooks = {} \<and>
    positions (\<lambda>h. H_HookID h = TrimSpace r) hooks = {i}"
proof -
  let ?K = "indices_where (\<lambda>h. gatewayHookOrderingKey h = TrimSpace r) hooks"
  let ?H = "indices_where (\<lambda>h. H_HookID h = TrimSpace r) hooks"
  have uniq: "a = b" if "a \<in> set ?K" "b \<in> set ?K" for a b
    using that nth_eq_iff_index_eq [OF assms, of a b] by (simp add: positions_def)
  have short: "?K = [a]" if "?K = a # as" for a as
  proof -
    have "a \<in> set ?K" using that by (metis list.set_intros(1))
    then have "set ?K = {a}" using uniq by blast
    then show ?thesis by (subst distinct_singleton) simp_all
  qed
  have "resolveGatewayHookReference hooks r = Some i \<longleftrightarrow> ?K = [i] \<or> ?K = [] \<and> ?H = [i]"
    using short by (auto simp: resolveGatewayHookReference_def Let_def split: list.splits)
  then show ?thesis by (simp add: distinct_singleton flip: set_empty)
qed

lemma positions_permuted:
  assumes "mset idx = mset [0..<length xs]"
  shows "positions P xs = (!) idx ` positions P (map (\<lambda>i. xs ! i) idx)"
proof -
  have st: "set idx = {0..<length xs}" using mset_eq_setD [OF assms] by simp
  have "\<exists>k < length idx. i = idx ! k" if "i < length xs" for i
    using st that by (metis atLeastLessThan_iff in_set_conv_nth zero_le)
  moreover have "idx ! k < length xs" if "k < length idx" for k
    using st nth_mem [OF that] by simp
  ultimately show ?thesis by (fastforce simp: positions_def)
qed

lemma must_precede_permuted:
  assumes "mset idx = mset [0..<length hooks]" and "distinct (map gatewayHookOrderingKey hooks)"
  shows "must_precede (map (\<lambda>i. hooks ! i) idx) a b \<longleftrightarrow>
    a < length idx \<and> b < length idx \<and> must_precede hooks (idx ! a) (idx ! b)"
proof -
  let ?ord = "map (\<lambda>i. hooks ! i) idx"
  have len: "length idx = length hooks" using assms(1) by (metis length_upt minus_nat.diff_0 size_mset)
  have dist: "distinct idx" using assms(1) by (metis distinct_upt mset_eq_imp_distinct_iff)
  have rng: "idx ! k < length hooks" if "k < length idx" for k
    using mset_eq_setD [OF assms(1)] nth_mem [OF that] by simp
  have "mset ?ord = mset hooks"
    by (metis assms(1) map_nth mset_map)
  then have keys: "distinct (map gatewayHookOrderingKey ?ord)"
    using assms(2) by (metis mset_eq_imp_distinct_iff mset_map)
  have inj: "inj_on ((!) idx) {..<length idx}" using dist by (simp add: inj_on_nth)
  have single: "(!) idx ` S = {idx ! k} \<longleftrightarrow> S = {k}" if "S \<subseteq> {..<length idx}" "k < length idx" for S k
    using inj_on_image_eq_iff [OF inj that(1), of "{k}"] that(2) by auto
  have sub: "positions P ?ord \<subseteq> {..<length idx}" for P by (auto simp: positions_def)
  have "resolveGatewayHookReference ?ord r = Some k \<longleftrightarrow> resolveGatewayHookReference hooks r = Some (idx ! k)"
    if "k < length idx" for r k
    unfolding resolve_iff [OF keys] resolve_iff [OF assms(2)] positions_permuted [OF assms(1)]
    by (simp add: single [OF sub that])
  moreover have "idx ! a = idx ! b \<longleftrightarrow> a = b" if "a < length idx" "b < length idx"
    using nth_eq_iff_index_eq [OF dist that] .
  ultimately show ?thesis using rng len by (auto simp: must_precede_def)
qed

text \<open>What a stage of the registry satisfies: the dependencies point forward and the conflicting
  writers are joined by them.\<close>

definition runs_in_order :: "GatewayHookDescriptor list \<Rightarrow> bool" where
  "runs_in_order hooks \<longleftrightarrow> (\<forall>a b. must_precede hooks a b \<longrightarrow> a < b)"

lemma well_ordered_runs:
  assumes "well_ordered hooks idx" and "distinct (map gatewayHookOrderingKey hooks)"
  shows "runs_in_order (map (\<lambda>i. hooks ! i) idx)"
proof -
  have perm: "mset idx = mset [0..<length hooks]"
    and dep: "\<And>k i. k < length idx \<Longrightarrow> must_precede hooks i (idx ! k) \<Longrightarrow> i \<in> set (take k idx)"
    using assms(1) by (auto simp: well_ordered_def)
  have dist: "distinct idx" using perm by (metis distinct_upt mset_eq_imp_distinct_iff)
  show ?thesis unfolding runs_in_order_def must_precede_permuted [OF perm assms(2)]
  proof (intro allI impI)
    fix a b assume ab: "a < length idx \<and> b < length idx \<and> must_precede hooks (idx ! a) (idx ! b)"
    then obtain c where "c < b" "c < length idx" "idx ! c = idx ! a" using dep [of b "idx ! a"]
      by (auto simp: in_set_conv_nth)
    then show "a < b" using nth_eq_iff_index_eq [OF dist, of c a] ab by simp
  qed
qed

lemma gatewayHooksShareWrite_sym: "gatewayHooksShareWrite a b \<longleftrightarrow> gatewayHooksShareWrite b a"
  by (auto simp: gatewayHooksShareWrite_def list_ex_iff)

lemma writers_ordered_iff:
  "writers_ordered hooks \<longleftrightarrow>
     (\<forall>i < length hooks. \<forall>j < length hooks. i \<noteq> j \<and> H_PluginAPI (hooks ! i) = PluginAPIV2 \<and>
        H_PluginAPI (hooks ! j) = PluginAPIV2 \<and> gatewayHooksShareWrite (hooks ! i) (hooks ! j) \<longrightarrow>
        (i, j) \<in> {(i, j). must_precede hooks i j}\<^sup>* \<or> (j, i) \<in> {(i, j). must_precede hooks i j}\<^sup>*)"
  (is "_ \<longleftrightarrow> ?both")
proof
  assume w: "writers_ordered hooks"
  show ?both
  proof (intro allI impI, goal_cases)
    case (1 i j)
    then show ?case
      using w [unfolded writers_ordered_def, rule_format, of i j] w [unfolded writers_ordered_def, rule_format, of j i]
        gatewayHooksShareWrite_sym [of "hooks ! i" "hooks ! j"]
      by (cases "i < j") (simp_all, blast)
  qed
next
  assume ?both
  then show "writers_ordered hooks" unfolding writers_ordered_def by simp
qed

lemma reachable_permuted:
  assumes "mset idx = mset [0..<length hooks]" and "distinct (map gatewayHookOrderingKey hooks)"
    and "(x, y) \<in> {(i, j). must_precede hooks i j}\<^sup>*" and "x = idx ! a" and "a < length idx"
  shows "\<exists>b < length idx. y = idx ! b \<and> (a, b) \<in> {(i, j). must_precede (map (\<lambda>i. hooks ! i) idx) i j}\<^sup>*"
  using assms(3)
proof (induction rule: rtrancl_induct)
  case base
  then show ?case using assms(4,5) by blast
next
  case (step y z)
  then obtain b where b: "b < length idx" "y = idx ! b"
    "(a, b) \<in> {(i, j). must_precede (map (\<lambda>i. hooks ! i) idx) i j}\<^sup>*" by blast
  have "z \<in> set idx" using step(2) mset_eq_setD [OF assms(1)] by (simp add: must_precede_def)
  then obtain c where c: "c < length idx" "z = idx ! c" by (auto simp: in_set_conv_nth)
  have "must_precede (map (\<lambda>i. hooks ! i) idx) b c"
    using step(2) b(1,2) c by (simp add: must_precede_permuted [OF assms(1,2)])
  then show ?case using b(3) c by (auto intro: rtrancl_into_rtrancl)
qed

lemma writers_permuted:
  assumes "mset idx = mset [0..<length hooks]" and "distinct (map gatewayHookOrderingKey hooks)"
    and "writers_ordered hooks"
  shows "writers_ordered (map (\<lambda>i. hooks ! i) idx)"
  unfolding writers_ordered_iff
proof (intro allI impI, goal_cases)
  case (1 a b)
  let ?R = "{(i, j). must_precede hooks i j}" and ?S = "{(i, j). must_precede (map (\<lambda>i. hooks ! i) idx) i j}"
  have ab: "a < length idx" "b < length idx" using 1 by simp_all
  have dist: "distinct idx" using assms(1) by (metis distinct_upt mset_eq_imp_distinct_iff)
  have rng: "idx ! k < length hooks" if "k < length idx" for k
    using mset_eq_setD [OF assms(1)] nth_mem [OF that] by simp
  have "(idx ! a, idx ! b) \<in> ?R\<^sup>* \<or> (idx ! b, idx ! a) \<in> ?R\<^sup>*"
    using assms(3) [unfolded writers_ordered_iff] 1(3) ab rng nth_eq_iff_index_eq [OF dist ab] by simp
  moreover have "(c, d) \<in> ?S\<^sup>*" if "(idx ! c, idx ! d) \<in> ?R\<^sup>*" "c < length idx" "d < length idx" for c d
  proof -
    from reachable_permuted [OF assms(1,2) that(1) refl that(2)] obtain e
      where e: "e < length idx" "idx ! d = idx ! e" "(c, e) \<in> ?S\<^sup>*" by (elim exE conjE)
    then show ?thesis using nth_eq_iff_index_eq [OF dist that(3) e(1)] by simp
  qed
  ultimately show ?case using ab by blast
qed

section \<open>The invariant of the registry\<close>

definition hook_ok :: "string \<Rightarrow> GatewayHookDescriptor \<Rightarrow> bool" where
  "hook_ok stage h \<longleftrightarrow>
     H_Stage h = stage \<and> H_PluginID h \<noteq> [] \<and> H_HookID h \<noteq> [] \<and>
     0 < H_TimeoutMillis h \<and> H_TimeoutMillis h \<le> MaxGatewayHookTimeoutMillis \<and>
     (H_FailurePolicy h = ''observe_only'' \<longrightarrow> H_Writes h = []) \<and>
     (stage \<in> {''route_candidates'', ''route_rank''} \<longrightarrow>
        ProviderIDs (H_Scope h) = [] \<and> ProviderTypes (H_Scope h) = [] \<and>
        ResourceIDs (H_Scope h) = [] \<and> ResourceTypes (H_Scope h) = []) \<and>
     (case GatewayStagePolicy stage of
        None \<Rightarrow> False
      | Some policy \<Rightarrow> H_FailurePolicy h \<in> set (AllowedFailurePolicy policy) \<and>
          set (H_Reads h) \<subseteq> set (PolicyReads policy) \<and> set (H_Writes h) \<subseteq> set (PolicyWrites policy))"

definition stage_ok :: "string \<Rightarrow> GatewayHookDescriptor list \<Rightarrow> bool" where
  "stage_ok stage hooks \<longleftrightarrow>
     (\<forall>h \<in> set hooks. hook_ok stage h) \<and> distinct (map gatewayHookOrderingKey hooks) \<and> runs_in_order hooks \<and>
     (fst (GatewayStageExecutionModeFor stage) = ''exclusive'' \<longrightarrow>
        length (filter (\<lambda>h. H_PluginAPI h = PluginAPIV2) hooks) \<le> 1) \<and>
     (fst (GatewayStageExecutionModeFor stage) = ''pipeline'' \<longrightarrow> writers_ordered hooks)"

lemma validateGatewayStageDataClasses_iff:
  "validateGatewayStageDataClasses stage direction requested allowed = Inr () \<longleftrightarrow> set requested \<subseteq> set allowed"
  by (auto simp: validateGatewayStageDataClasses_def find_None_iff find_Some_iff in_set_conv_nth subset_iff split: option.split)

lemma validateGatewayListStageScope_iff:
  "validateGatewayListStageScope h = Inr () \<longleftrightarrow>
     (H_Stage h \<in> {''route_candidates'', ''route_rank''} \<longrightarrow>
        ProviderIDs (H_Scope h) = [] \<and> ProviderTypes (H_Scope h) = [] \<and>
        ResourceIDs (H_Scope h) = [] \<and> ResourceTypes (H_Scope h) = [])"
  by (auto simp: validateGatewayListStageScope_def Let_def)

lemma hook_ok_normalized:
  assumes "check_descriptor (NormalizeGatewayHookDescriptor d) = Inr ()"
  shows "hook_ok (H_Stage d) (NormalizeGatewayHookDescriptor d)"
proof -
  let ?d = "NormalizeGatewayHookDescriptor d"
  have same: "H_Stage ?d = H_Stage d" and t: "H_TimeoutMillis ?d \<noteq> 0"
    and w: "H_FailurePolicy ?d = ''observe_only'' \<longrightarrow> H_Writes ?d = []"
    by (simp_all add: NormalizeGatewayHookDescriptor_def Let_def DefaultGatewayHookTimeoutMillis_def)
  from assms obtain policy where "GatewayStagePolicy (H_Stage ?d) = Some policy"
    "gatewayFailurePolicyAllowed (H_FailurePolicy ?d) (AllowedFailurePolicy policy)"
    "validateGatewayStageDataClasses (H_Stage ?d) ''read'' (H_Reads ?d) (PolicyReads policy) = Inr ()"
    "validateGatewayStageDataClasses (H_Stage ?d) ''write'' (H_Writes ?d) (PolicyWrites policy) = Inr ()"
    "validateGatewayListStageScope ?d = Inr ()" "H_PluginID ?d \<noteq> []" "H_HookID ?d \<noteq> []"
    "0 \<le> H_TimeoutMillis ?d" "H_TimeoutMillis ?d \<le> MaxGatewayHookTimeoutMillis"
    by (auto simp: check_descriptor_def rbind_eq_Inr_iff split: if_splits option.splits)
  with t w show ?thesis
    unfolding hook_ok_def same [symmetric] validateGatewayStageDataClasses_iff validateGatewayListStageScope_iff
    by (auto simp: gatewayFailurePolicyAllowed_def list_ex_iff)
qed

lemma hook_ok_failure:
  assumes "hook_ok stage h"
  shows "H_FailurePolicy h \<noteq> []" and "default_failure h = H_FailurePolicy h" and "H_Stage h = stage"
proof -
  have "\<forall>(s, policy) \<in> set GatewayStagePolicies. [] \<notin> set (AllowedFailurePolicy policy)"
    by (simp add: GatewayStagePolicies_def stage_policy_def)
  then show "H_FailurePolicy h \<noteq> []" using assms
    by (auto simp: hook_ok_def GatewayStagePolicy_def split: option.splits dest!: map_of_SomeD)
  then show "default_failure h = H_FailurePolicy h" by (simp add: default_failure_def)
  show "H_Stage h = stage" using assms by (simp add: hook_ok_def)
qed

lemma orderable_singleton:
  assumes "length hooks < 2"
  shows "orderable hooks"
proof -
  have "{(i, j). must_precede hooks i j} = {}" using assms by (auto simp: must_precede_def)
  then show ?thesis using assms
    by (cases hooks) (auto simp: orderable_def writers_ordered_def acyclic_def)
qed

lemma ordered_stage:
  assumes "permutes_lists srt" and "permutes_lists iter"
    and "orderAndValidateGatewayHooks srt iter hooks = Inr ordered"
    and "hooks \<noteq> []" and "\<forall>h \<in> set hooks. hook_ok stage h"
  shows "stage_ok stage ordered \<and> mset ordered = mset hooks"
proof -
  have "\<exists>idx. ordered = map (\<lambda>i. hooks ! i) idx \<and> well_ordered hooks idx \<and> orderable hooks"
  proof (cases "2 \<le> length hooks")
    case True
    then show ?thesis using order_result [OF assms(1,2) True] assms(3) by (auto split: if_splits)
  next
    case False
    then have "ordered = map (\<lambda>i. hooks ! i) [0..<length hooks]"
      using assms(3) by (simp add: orderAndValidateGatewayHooks_def map_nth)
    moreover have "well_ordered hooks [0..<length hooks]"
      using False by (auto simp: well_ordered_def must_precede_def)
    ultimately show ?thesis using False orderable_singleton [of hooks] by auto
  qed
  then obtain idx where idx: "ordered = map (\<lambda>i. hooks ! i) idx" "well_ordered hooks idx" and o: "orderable hooks"
    by blast
  have perm: "mset idx = mset [0..<length hooks]" using idx(2) by (simp add: well_ordered_def)
  have ms: "mset ordered = mset hooks" unfolding idx(1) by (metis perm map_nth mset_map)
  have keys: "distinct (map gatewayHookOrderingKey hooks)" using o by (simp add: orderable_def)
  have stage: "H_Stage (hd hooks) = stage" using assms(4,5) by (simp add: hook_ok_def)
  have v2: "length (filter P ordered) = length (filter P hooks)" for P
    using ms by (metis mset_filter size_mset)
  have "distinct (map gatewayHookOrderingKey ordered)"
    using keys ms by (metis mset_eq_imp_distinct_iff mset_map)
  moreover have "runs_in_order ordered" unfolding idx(1) by (rule well_ordered_runs [OF idx(2) keys])
  moreover have "writers_ordered ordered" if "writers_ordered hooks"
    unfolding idx(1) by (rule writers_permuted [OF perm keys that])
  ultimately show ?thesis
    using o assms(5) ms mset_eq_setD [OF ms] by (simp add: stage_ok_def orderable_def stage v2)
qed

text \<open>The registries that calls of \<open>RegisterHook\<close> can build, each call with its own order of the ready
  hooks and of the map.\<close>

inductive registered :: "GatewayChainRegistry option \<Rightarrow> bool" where
  new: "registered NewGatewayChainRegistry"
| register: "registered r \<Longrightarrow> \<forall>c. permutes_lists (srt c) \<Longrightarrow> permutes_lists iter \<Longrightarrow>
     RegisterHook srt iter d r = Inr r' \<Longrightarrow> registered r'"

lemma RegisterHook_cases:
  assumes "RegisterHook srt iter d r = Inr r'"
  obtains hooks ordered where "r = Some hooks"
    "check_descriptor (NormalizeGatewayHookDescriptor d) = Inr ()"
    "orderAndValidateGatewayHooks (srt (hooks (H_Stage d) @ [NormalizeGatewayHookDescriptor d])) iter
       (hooks (H_Stage d) @ [NormalizeGatewayHookDescriptor d]) = Inr ordered"
    "r' = Some (hooks(H_Stage d := ordered))"
proof -
  have "H_Stage (NormalizeGatewayHookDescriptor d) = H_Stage d"
    by (simp add: NormalizeGatewayHookDescriptor_def Let_def)
  then show thesis using assms that
    by (auto simp: RegisterHook_def Let_def rbind_eq_Inr_iff split: option.splits)
qed

lemma RegisterHook_stage:
  assumes "\<forall>c. permutes_lists (srt c)" and "permutes_lists iter" and "RegisterHook srt iter d r = Inr r'"
    and "\<forall>stage. stage_ok stage (Hooks r stage)"
  shows "stage_ok stage (Hooks r' stage)"
    and "mset (Hooks r' (H_Stage d)) = add_mset (NormalizeGatewayHookDescriptor d) (mset (Hooks r (H_Stage d)))"
    and "stage \<noteq> H_Stage d \<Longrightarrow> Hooks r' stage = Hooks r stage"
proof -
  obtain hooks ordered where r: "r = Some hooks" "r' = Some (hooks(H_Stage d := ordered))"
    and c: "check_descriptor (NormalizeGatewayHookDescriptor d) = Inr ()"
    and o: "orderAndValidateGatewayHooks (srt (hooks (H_Stage d) @ [NormalizeGatewayHookDescriptor d])) iter
       (hooks (H_Stage d) @ [NormalizeGatewayHookDescriptor d]) = Inr ordered"
    using RegisterHook_cases [OF assms(3)] by blast
  have "\<forall>h \<in> set (hooks (H_Stage d) @ [NormalizeGatewayHookDescriptor d]). hook_ok (H_Stage d) h"
    using hook_ok_normalized [OF c] assms(4) r(1) by (auto simp: Hooks_def stage_ok_def)
  with ordered_stage [OF _ assms(2) o] assms(1)
  have s: "stage_ok (H_Stage d) ordered"
    "mset ordered = mset (hooks (H_Stage d) @ [NormalizeGatewayHookDescriptor d])" by blast+
  show "stage_ok stage (Hooks r' stage)" using s(1) assms(4) r by (simp add: Hooks_def)
  show "mset (Hooks r' (H_Stage d)) = add_mset (NormalizeGatewayHookDescriptor d) (mset (Hooks r (H_Stage d)))"
    using s(2) r by (simp add: Hooks_def)
  show "stage \<noteq> H_Stage d \<Longrightarrow> Hooks r' stage = Hooks r stage" using r by (simp add: Hooks_def)
qed

lemma registered_stage_ok: "registered r \<Longrightarrow> stage_ok stage (Hooks r stage)"
proof (induction arbitrary: stage rule: registered.induct)
  case new
  show ?case by (simp add: NewGatewayChainRegistry_def Hooks_def stage_ok_def runs_in_order_def must_precede_def writers_ordered_def)
next
  case (register r srt iter d r')
  then show ?case using RegisterHook_stage(1) by blast
qed

section \<open>Properties\<close>

text \<open>(C19) Whatever descriptors are registered and however ties are broken, every stage of the registry
  holds hooks that stay within the policy of the stage (allowed failure policy, declared reads and
  writes, a positive bounded timeout, no writes when only observing, no route scope before routing),
  with distinct keys, at most one hook of interface v2 in an exclusive stage, conflicting v2 writers of a
  pipeline stage joined by dependencies, and in an order in which every dependency points forward.\<close>

theorem registry_invariant:
  assumes "registered r"
  shows "stage_ok stage (Hooks r stage)"
  using assms by (rule registered_stage_ok)

text \<open>A successful registration adds exactly the normalised descriptor to its own stage and leaves
  every other stage as it was.\<close>

theorem RegisterHook_effect:
  assumes "registered r" and "\<forall>c. permutes_lists (srt c)" and "permutes_lists iter"
    and "RegisterHook srt iter d r = Inr r'"
  shows "mset (Hooks r' (H_Stage d)) = add_mset (NormalizeGatewayHookDescriptor d) (mset (Hooks r (H_Stage d))) \<and>
    (\<forall>stage. stage \<noteq> H_Stage d \<longrightarrow> Hooks r' stage = Hooks r stage)"
  using RegisterHook_stage [OF assms(2-4)] registered_stage_ok [OF assms(1)] by blast

definition sample_second :: GatewayHookDescriptor where
  "sample_second = (sample_hook ''b'' ''v1'' 1)\<lparr>H_Before := [''a/h'']\<rparr>"

lemma sample_trims:
  "TrimSpace ''a'' = ''a''" "TrimSpace ''b'' = ''b''" "TrimSpace ''h'' = ''h''" "TrimSpace ''v1'' = ''v1''"
  "TrimSpace ''a/h'' = ''a/h''"
  by (rule TrimSpace_graph_all, simp add: is_graph_def code_of_def)+

lemmas normalize_defs = NormalizeGatewayHookDescriptor_def Let_def normalizeStrings_def normalizeLowerStrings_def
  normalizeDataClasses_def normalizeStringMap_def normalizeGatewayHookScope_def mergeLegacyGatewayHookScope_def
  default_failure_def

lemma sample_normal:
  "NormalizeGatewayHookDescriptor (sample_hook ''a'' ''v1'' 1) = sample_hook ''a'' ''v1'' 1"
  "NormalizeGatewayHookDescriptor sample_second = sample_second"
  by (simp_all add: normalize_defs sample_hook_def sample_second_def sample_trims)

lemmas check_defs = check_descriptor_def GatewayStagePolicy_def GatewayStagePolicies_def stage_policy_def
  gatewayFailurePolicyAllowed_def validateGatewayDataClasses_def validateGatewayStageDataClasses_def
  validateGatewayListStageScope_def MaxGatewayHookTimeoutMillis_def

lemma sample_checked:
  "check_descriptor (sample_hook ''a'' ''v1'' 1) = Inr ()" "check_descriptor sample_second = Inr ()"
  by (simp_all add: check_defs sample_hook_def sample_second_def)

definition sample_registry :: "GatewayHookDescriptor list \<Rightarrow> GatewayChainRegistry option" where
  "sample_registry hooks = Some ((\<lambda>_. [])(''settlement'' := hooks))"

lemma sample_register:
  "RegisterHook (\<lambda>_ xs. xs) (\<lambda>xs. xs) (sample_hook ''a'' ''v1'' 1) NewGatewayChainRegistry =
     Inr (sample_registry [sample_hook ''a'' ''v1'' 1])"
  "RegisterHook (\<lambda>_ xs. xs) (\<lambda>xs. xs) sample_second (sample_registry [sample_hook ''a'' ''v1'' 1]) =
     Inr (sample_registry [sample_second, sample_hook ''a'' ''v1'' 1])"
proof -
  have st: "H_Stage (sample_hook ''a'' ''v1'' 1) = ''settlement''" "H_Stage sample_second = ''settlement''"
    by (simp_all add: sample_hook_def sample_second_def)
  show "RegisterHook (\<lambda>_ xs. xs) (\<lambda>xs. xs) (sample_hook ''a'' ''v1'' 1) NewGatewayChainRegistry =
     Inr (sample_registry [sample_hook ''a'' ''v1'' 1])"
    by (simp add: RegisterHook_def NewGatewayChainRegistry_def sample_normal sample_checked Let_def st
        orderAndValidateGatewayHooks_def sample_registry_def)
  show "RegisterHook (\<lambda>_ xs. xs) (\<lambda>xs. xs) sample_second (sample_registry [sample_hook ''a'' ''v1'' 1]) =
     Inr (sample_registry [sample_second, sample_hook ''a'' ''v1'' 1])"
    using sample_pair_ordered
    by (simp add: RegisterHook_def sample_normal sample_checked Let_def st sample_registry_def flip: sample_second_def)
qed

lemma sample_registered: "registered (sample_registry [sample_hook ''a'' ''v1'' 1])"
  using registered.register [OF registered.new _ _ sample_register(1)] by simp

theorem registry_invariant_witness:
  "stage_ok ''settlement'' [sample_second, sample_hook ''a'' ''v1'' 1]"
  using registry_invariant [OF registered.register [OF sample_registered _ _ sample_register(2)], of "''settlement''"]
  by (simp add: Hooks_def sample_registry_def)

theorem RegisterHook_effect_witness:
  "mset (Hooks (sample_registry [sample_second, sample_hook ''a'' ''v1'' 1]) ''settlement'') =
     add_mset sample_second (mset (Hooks (sample_registry [sample_hook ''a'' ''v1'' 1]) ''settlement''))"
  using RegisterHook_effect [OF sample_registered _ _ sample_register(2)]
  by (simp add: sample_normal) (simp add: sample_second_def sample_hook_def)

text \<open>A hook for ranking routes whose list of provider types holds one blank item.\<close>

definition blank_scope_hook :: GatewayHookDescriptor where
  "blank_scope_hook = (sample_hook ''a'' ''v1'' 1)
     \<lparr>H_Stage := ''route_rank'', H_Metadata := [(''provider_type'', ''openai'')],
      H_Scope := (H_Scope (sample_hook ''a'' ''v1'' 1))\<lparr>ProviderTypes := ['' '']\<rparr>\<rparr>"

definition route_target :: "string \<Rightarrow> GatewayHookScopeTarget" where
  "route_target provider =
     \<lparr>T_ProjectID = ''p'', T_APIKeyID = ''k'', T_ProviderType = provider, T_ProviderID = ''x'', T_ResourceID = [],
      T_ResourceType = [], T_RouteProtocol = [], T_Operation = ''route_rank''\<rparr>"

lemma blank_trim: "TrimSpace '' '' = []" "TrimSpace ''provider_type'' = ''provider_type''" "TrimSpace ''openai'' = ''openai''"
    "TrimSpace ''azure'' = ''azure''"
proof -
  show "TrimSpace '' '' = []" by code_simp
qed (rule TrimSpace_graph_all, simp add: is_graph_def code_of_def)+

definition blank_scope_stored :: GatewayHookDescriptor where
  "blank_scope_stored = blank_scope_hook\<lparr>H_Scope := H_Scope (sample_hook ''a'' ''v1'' 1)\<rparr>"

lemma blank_normal: "NormalizeGatewayHookDescriptor blank_scope_hook = blank_scope_stored"
  by (simp add: normalize_defs sample_hook_def blank_scope_hook_def blank_scope_stored_def sample_trims blank_trim ToLower_def
      legacy_items_def meta_def splitGatewayScopeMetadata_def fields_func.simps)

lemma blank_fields: "fields_func sep [] = []" by (simp add: fields_func.simps)

lemma openai_split: "splitGatewayScopeMetadata ''openai'' = [''openai'']"
  by (simp add: splitGatewayScopeMetadata_def fields_func.simps blank_trim)

lemma blank_again: "H_Scope (NormalizeGatewayHookDescriptor blank_scope_stored) =
    (H_Scope (sample_hook ''a'' ''v1'' 1))\<lparr>ProviderTypes := [''openai'']\<rparr>"
  by (simp add: normalize_defs sample_hook_def blank_scope_hook_def blank_scope_stored_def sample_trims blank_trim ToLower_def
      legacy_items_def meta_def openai_split) (simp add: splitGatewayScopeMetadata_def blank_fields lower_char_def code_of_def)

text \<open>Normalising a descriptor twice is not normalising it once: a hook that ranks routes and names
  its provider in the metadata beside a blank list of provider types is accepted as unscoped, although
  such hooks must not have a provider scope, and afterwards runs for that provider only.\<close>

theorem list_scope_bypass:
  "RegisterHook (\<lambda>_ xs. xs) (\<lambda>xs. xs) blank_scope_hook NewGatewayChainRegistry =
     Inr (Some ((\<lambda>_. [])(''route_rank'' := [blank_scope_stored]))) \<and>
   ProviderTypes (H_Scope blank_scope_stored) = [] \<and>
   GatewayHookScopeMatches blank_scope_stored (route_target ''openai'') \<and>
   \<not> GatewayHookScopeMatches blank_scope_stored (route_target ''azure'')"
proof (intro conjI)
  have st: "H_Stage blank_scope_stored = ''route_rank''" by (simp add: blank_scope_stored_def blank_scope_hook_def)
  have "check_descriptor blank_scope_stored = Inr ()"
    by (simp add: check_defs sample_hook_def blank_scope_stored_def blank_scope_hook_def)
  then show "RegisterHook (\<lambda>_ xs. xs) (\<lambda>xs. xs) blank_scope_hook NewGatewayChainRegistry =
     Inr (Some ((\<lambda>_. [])(''route_rank'' := [blank_scope_stored])))"
    by (simp add: RegisterHook_def NewGatewayChainRegistry_def blank_normal Let_def st orderAndValidateGatewayHooks_def)
  show "ProviderTypes (H_Scope blank_scope_stored) = []" by (simp add: blank_scope_stored_def sample_hook_def)
qed (simp_all add: GatewayHookScopeMatches_def blank_again gatewayScopeListMatches_def route_target_def sample_hook_def
    blank_trim ToLower_def lower_char_def code_of_def)

end
