(* ===== verification/PluginPermissions.thy ===== *)
theory PluginPermissions
  imports HookChain "HOL-Library.Product_Lexorder"
begin

text \<open>
  Permissions of plugins and dependencies between them (\<open>permissions.go\<close>, \<open>permission_diff.go\<close>,
  \<open>dependency.go\<close>, \<open>safePluginContractToken\<close> of \<open>api_contract.go\<close>): the permissions a manifest
  grants, the check that a hook has those it needs, the comparison of the permissions of two versions,
  and the checks on activation and deactivation.

  \<open>parse\<close> stands for \<open>url.Parse\<close> and gives scheme and host; \<open>urls\<close> holds \<open>url.Parse\<close> and the method \<open>String\<close>
  of a parsed URL. The types \<open>'c\<close> and \<open>'v\<close> are the constraints and versions of
  the semantic-version package.
\<close>

section \<open>Descriptors\<close>

record PermissionDescriptor =
  P_Kind :: string
  P_Name :: string
  P_Access :: string
  P_Sensitivity :: string

record PermissionGrant =
  Enforced :: bool
  G_Permissions :: "PermissionDescriptor list"

record ManifestPermissions =
  Network_Allow :: "string list"
  Data_Read :: "string list"
  Data_Write :: "string list"

datatype permission_error =
    PermissionRequired string
  | PermissionUnsupported string
  | DataClassError hook_error
  | InvalidTarget string

type_synonym permissionKey = "string \<times> string \<times> string"

definition PermissionSensitivityFor :: "string \<Rightarrow> string \<Rightarrow> string" where
  "PermissionSensitivityFor kind name =
     (if kind \<noteq> ''data'' then ''internal''
      else if name = ''provider_credentials'' then ''secret''
      else if name \<in> set [''auth_context'', ''api_key_metadata'', ''request_headers'', ''request_body'', ''normalized_text'',
             ''file_content'', ''image_content'', ''provider_request'', ''provider_response'', ''stream_events'',
             ''cache_key'', ''cache_value''] then ''sensitive''
      else ''internal'')"

definition dataPermissionDescriptor :: "string \<Rightarrow> string \<Rightarrow> PermissionDescriptor" where
  "dataPermissionDescriptor dataClass access =
     \<lparr>P_Kind = ''data'', P_Name = dataClass, P_Access = access, P_Sensitivity = PermissionSensitivityFor ''data'' dataClass\<rparr>"

definition permissionKeyFor :: "PermissionDescriptor \<Rightarrow> permissionKey" where
  "permissionKeyFor permission =
     (TrimSpace (P_Kind permission), TrimSpace (P_Name permission), TrimSpace (P_Access permission))"

definition trim_permission :: "PermissionDescriptor \<Rightarrow> PermissionDescriptor" where
  "trim_permission item =
     (let kind = TrimSpace (P_Kind item); name = TrimSpace (P_Name item); sensitivity = TrimSpace (P_Sensitivity item)
      in \<lparr>P_Kind = kind, P_Name = name, P_Access = TrimSpace (P_Access item),
          P_Sensitivity = (if sensitivity = [] then PermissionSensitivityFor kind name else sensitivity)\<rparr>)"

fun keep_new :: "PermissionDescriptor list \<Rightarrow> PermissionDescriptor list \<Rightarrow> PermissionDescriptor list" where
  "keep_new seen [] = []"
| "keep_new seen (item # rest) =
     (let t = trim_permission item in
      if P_Kind t = [] \<or> P_Name t = [] \<or> P_Access t = [] \<or> t \<in> set seen then keep_new seen rest
      else t # keep_new (t # seen) rest)"

definition NormalizePermissionDescriptors :: "PermissionDescriptor list \<Rightarrow> PermissionDescriptor list" where
  "NormalizePermissionDescriptors items =
     sort_key (\<lambda>p. (P_Kind p, P_Name p, P_Access p)) (keep_new [] items)"

definition DataPermissionDescriptors :: "string list \<Rightarrow> string list \<Rightarrow> PermissionDescriptor list" where
  "DataPermissionDescriptors reads writes =
     NormalizePermissionDescriptors
       (map (\<lambda>c. dataPermissionDescriptor c ''read'') (normalizeDataClasses reads) @
        map (\<lambda>c. dataPermissionDescriptor c ''write'') (normalizeDataClasses writes))"

definition ManifestPermissionDescriptors :: "ManifestPermissions \<Rightarrow> PermissionDescriptor list" where
  "ManifestPermissionDescriptors permissions =
     NormalizePermissionDescriptors
       (map (\<lambda>c. dataPermissionDescriptor c ''read'') (normalizeDataClasses (Data_Read permissions)) @
        map (\<lambda>c. dataPermissionDescriptor c ''write'') (normalizeDataClasses (Data_Write permissions)) @
        map (\<lambda>target. \<lparr>P_Kind = ''network'', P_Name = target, P_Access = ''connect'', P_Sensitivity = ''internal''\<rparr>)
          (filter (\<lambda>target. target \<noteq> []) (normalizeStrings (Network_Allow permissions))))"

definition PermissionGrantFromManifest :: "ManifestPermissions \<Rightarrow> PermissionGrant" where
  "PermissionGrantFromManifest permissions =
     \<lparr>Enforced = True, G_Permissions = ManifestPermissionDescriptors permissions\<rparr>"

definition firstPermissionGrant :: "PermissionGrant list \<Rightarrow> PermissionGrant" where
  "firstPermissionGrant grants =
     (case grants of
        [] \<Rightarrow> \<lparr>Enforced = False, G_Permissions = []\<rparr>
      | grant # _ \<Rightarrow> grant\<lparr>G_Permissions := NormalizePermissionDescriptors (G_Permissions grant)\<rparr>)"

section \<open>Checks\<close>

definition permissionKeySet :: "PermissionDescriptor list \<Rightarrow> permissionKey list" where
  "permissionKeySet permissions = map permissionKeyFor (NormalizePermissionDescriptors permissions)"

definition RequirePluginPermissions :: "PermissionDescriptor list \<Rightarrow> PermissionGrant \<Rightarrow> permission_error + unit" where
  "RequirePluginPermissions required0 grant =
     (let required = NormalizePermissionDescriptors required0 in
      if required = [] \<or> \<not> Enforced grant then Inr ()
      else let allowed = permissionKeySet (G_Permissions grant) in
        case find (\<lambda>p. permissionKeyFor p \<notin> set allowed) required of
          Some p \<Rightarrow> Inl (PermissionRequired (P_Kind p @ '':'' @ P_Name p @ '':'' @ P_Access p))
        | None \<Rightarrow> Inr ())"

definition GatewayHookRequiredPermissions :: "GatewayHookDescriptor \<Rightarrow> PermissionDescriptor list" where
  "GatewayHookRequiredPermissions hook0 =
     (let hook = NormalizeGatewayHookDescriptor hook0 in DataPermissionDescriptors (H_Reads hook) (H_Writes hook))"

definition RequireGatewayHookPermissions :: "GatewayHookDescriptor \<Rightarrow> PermissionGrant \<Rightarrow> permission_error + unit" where
  "RequireGatewayHookPermissions hook grant = RequirePluginPermissions (GatewayHookRequiredPermissions hook) grant"

definition safePluginContractToken :: "string \<Rightarrow> bool" where
  "safePluginContractToken value0 =
     (let value = TrimSpace value0 in
      if value = [] \<or> sublist ''..'' value \<or> sublist [CHR 0x5C] value \<or> sublist ''<'' value then False
      else list_all (\<lambda>c. (97 \<le> code_of c \<and> code_of c \<le> 122) \<or> (65 \<le> code_of c \<and> code_of c \<le> 90) \<or>
             (48 \<le> code_of c \<and> code_of c \<le> 57) \<or> c \<in> {CHR ''_'', CHR ''-'', CHR ''.'', CHR '':''}) value)"

text \<open>A rune of the text is a control or white-space character: its encoding occurs in the bytes.\<close>

definition has_control_or_space :: "string \<Rightarrow> bool" where
  "has_control_or_space s \<longleftrightarrow>
     list_ex (\<lambda>c. code_of c < 32 \<or> code_of c = 127) s \<or>
     list_ex (\<lambda>n. sublist [CHR 0xC2, char_of n] s) [128::nat..<160] \<or>
     list_ex (\<lambda>w. sublist w s) go_spaces"

definition validNetworkPermissionTarget :: "(string \<Rightarrow> (string \<times> string) option) \<Rightarrow> string \<Rightarrow> bool" where
  "validNetworkPermissionTarget parse target0 =
     (let target = TrimSpace target0 in
      if target = [] then False
      else if target = ''*'' then True
      else if has_control_or_space target then False
      else if sublist ''..'' target \<or> CHR 0x5C \<in> set target \<or>
              list_ex (\<lambda>c. c \<in> {CHR ''<'', CHR ''>'', CHR 0x22, CHR 0x27}) target then False
      else case parse target of
        Some (scheme, host) \<Rightarrow>
          if scheme \<noteq> [] then (scheme = ''https'' \<or> scheme = ''http'') \<and> host \<noteq> []
          else safePluginContractToken (if prefix ''*.'' target then drop 2 target else target)
      | None \<Rightarrow> safePluginContractToken (if prefix ''*.'' target then drop 2 target else target))"

definition validPermissionSensitivity :: "string \<Rightarrow> bool" where
  "validPermissionSensitivity sensitivity \<longleftrightarrow> sensitivity \<in> set [''public'', ''internal'', ''sensitive'', ''secret'']"

definition ValidatePermissionDescriptor ::
  "(string \<Rightarrow> (string \<times> string) option) \<Rightarrow> PermissionDescriptor \<Rightarrow> permission_error + unit" where
  "ValidatePermissionDescriptor parse permission =
     (let kind = TrimSpace (P_Kind permission); name = TrimSpace (P_Name permission);
          access = TrimSpace (P_Access permission); sensitivity = TrimSpace (P_Sensitivity permission)
      in if kind = [] \<or> name = [] \<or> access = [] then Inl (PermissionRequired ''kind, name, and access are required'')
      else rbind
        (if kind = ''data'' then
           if access \<noteq> ''read'' \<and> access \<noteq> ''write'' then Inl (PermissionUnsupported ''data permission access'')
           else if \<not> validGatewayDataClass name then Inl (PermissionUnsupported ''data permission'') else Inr ()
         else if kind = ''network'' then
           if access \<noteq> ''connect'' then Inl (PermissionUnsupported ''network permission access'')
           else if \<not> validNetworkPermissionTarget parse name then Inl (PermissionUnsupported ''network permission target'') else Inr ()
         else Inl (PermissionUnsupported ''plugin permission kind'')) (\<lambda>_.
        if \<not> validPermissionSensitivity sensitivity then Inl (PermissionUnsupported ''plugin permission sensitivity'') else Inr ()))"

definition map_err :: "('e \<Rightarrow> 'f) \<Rightarrow> 'e + 'a \<Rightarrow> 'f + 'a" where
  "map_err f r = (case r of Inl e \<Rightarrow> Inl (f e) | Inr a \<Rightarrow> Inr a)"

definition ValidateManifestPermissions ::
  "(string \<Rightarrow> (string \<times> string) option) \<Rightarrow> ManifestPermissions \<Rightarrow> permission_error + unit" where
  "ValidateManifestPermissions parse permissions =
     rbind (map_err DataClassError (validateGatewayDataClasses (Data_Read permissions))) (\<lambda>_.
     rbind (map_err DataClassError (validateGatewayDataClasses (Data_Write permissions))) (\<lambda>_.
     case find (\<lambda>target. \<not> validNetworkPermissionTarget parse target) (Network_Allow permissions) of
       Some target \<Rightarrow> Inl (InvalidTarget target) | None \<Rightarrow> Inr ()))"

section \<open>Comparison of two versions\<close>

definition permissionSensitivityRank :: "string \<Rightarrow> nat" where
  "permissionSensitivityRank sensitivity =
     (if sensitivity = ''secret'' then 3 else if sensitivity = ''sensitive'' then 2
      else if sensitivity = ''internal'' then 1 else 0)"

definition maxPermissionSensitivity :: "string \<Rightarrow> string \<Rightarrow> string" where
  "maxPermissionSensitivity left right =
     (if permissionSensitivityRank right > permissionSensitivityRank left then right else left)"

record PermissionChange =
  Ch_Kind :: string
  Ch_Name :: string
  Ch_Access :: string
  Ch_Sensitivity :: string
  PreviousSensitivity :: string
  CandidateSensitivity :: string

record PermissionDiffSummary =
  N_Added :: nat
  N_Removed :: nat
  N_Unchanged :: nat
  N_ChangedSensitivity :: nat

record PermissionDiff =
  Available :: bool
  Verdict :: string
  ReasonCode :: string
  HighestSensitivity :: string
  Summary :: PermissionDiffSummary
  Added :: "PermissionChange list"
  Removed :: "PermissionChange list"
  Unchanged :: "PermissionChange list"
  ChangedSensitivity :: "PermissionChange list"

text \<open>A parsed URL: the parts that are read or cleared, and the rest as the library keeps it.\<close>

record URL =
  U_Scheme :: string
  U_User :: "string option"
  U_Host :: string
  U_RawQuery :: string
  U_ForceQuery :: bool
  U_Fragment :: string
  U_Rest :: string

record url_package =
  url_Parse :: "string \<Rightarrow> URL option"
  url_String :: "URL \<Rightarrow> string"

definition sanitizePermissionDiffName :: "url_package \<Rightarrow> PermissionDescriptor \<Rightarrow> string" where
  "sanitizePermissionDiffName urls permission =
     (let name = TrimSpace (P_Name permission);
          kept = (if name = [] then ''[redacted]'' else name) in
      if P_Kind permission \<noteq> ''network'' then name
      else if name = ''*'' \<or> prefix ''*.'' name then name
      else case url_Parse urls name of
        None \<Rightarrow> kept
      | Some parsed \<Rightarrow>
          if U_Scheme parsed = [] \<or> U_Host parsed = [] then kept
          else let safe = TrimSpace (url_String urls (parsed\<lparr>U_User := None, U_RawQuery := [], U_ForceQuery := False, U_Fragment := []\<rparr>))
               in if safe = [] then ''[redacted]'' else safe)"

definition diff_insert ::
  "url_package \<Rightarrow> (permissionKey \<times> PermissionDescriptor) list \<Rightarrow> PermissionDescriptor \<Rightarrow> (permissionKey \<times> PermissionDescriptor) list" where
  "diff_insert urls normalized item0 =
     (let item = item0\<lparr>P_Name := sanitizePermissionDiffName urls item0\<rparr>; key = permissionKeyFor item
      in case map_of normalized key of
           Some existing \<Rightarrow>
             if permissionSensitivityRank (P_Sensitivity existing) \<ge> permissionSensitivityRank (P_Sensitivity item)
             then normalized else AList.update key item normalized
         | None \<Rightarrow> AList.update key item normalized)"

definition permissionDiffMap ::
  "url_package \<Rightarrow> PermissionDescriptor list \<Rightarrow> (permissionKey \<times> PermissionDescriptor) list" where
  "permissionDiffMap urls items = foldl (diff_insert urls) [] (NormalizePermissionDescriptors items)"

definition permissionChange :: "PermissionDescriptor \<Rightarrow> PermissionChange" where
  "permissionChange permission =
     \<lparr>Ch_Kind = P_Kind permission, Ch_Name = P_Name permission, Ch_Access = P_Access permission,
      Ch_Sensitivity = P_Sensitivity permission, PreviousSensitivity = [], CandidateSensitivity = []\<rparr>"

definition sortPermissionChanges :: "PermissionChange list \<Rightarrow> PermissionChange list" where
  "sortPermissionChanges changes = sort_key (\<lambda>c. (Ch_Kind c, Ch_Name c, Ch_Access c)) changes"

definition diff_candidate ::
  "(permissionKey \<times> PermissionDescriptor) list \<Rightarrow> PermissionDiff \<Rightarrow> permissionKey \<times> PermissionDescriptor \<Rightarrow> PermissionDiff" where
  "diff_candidate previousByKey diff entry =
     (case entry of (key, c) \<Rightarrow>
      case map_of previousByKey key of
        None \<Rightarrow> diff\<lparr>Added := Added diff @ [permissionChange c],
                     HighestSensitivity := maxPermissionSensitivity (HighestSensitivity diff) (P_Sensitivity c)\<rparr>
      | Some p \<Rightarrow>
          if P_Sensitivity p \<noteq> P_Sensitivity c
          then diff\<lparr>ChangedSensitivity := ChangedSensitivity diff @
                      [(permissionChange c)\<lparr>PreviousSensitivity := P_Sensitivity p, CandidateSensitivity := P_Sensitivity c\<rparr>],
                    HighestSensitivity := maxPermissionSensitivity (HighestSensitivity diff) (P_Sensitivity c)\<rparr>
          else diff\<lparr>Unchanged := Unchanged diff @ [permissionChange c]\<rparr>)"

definition diff_previous ::
  "(permissionKey \<times> PermissionDescriptor) list \<Rightarrow> PermissionDiff \<Rightarrow> permissionKey \<times> PermissionDescriptor \<Rightarrow> PermissionDiff" where
  "diff_previous candidateByKey diff entry =
     (case entry of (key, p) \<Rightarrow>
      if map_of candidateByKey key = None
      then diff\<lparr>Removed := Removed diff @ [permissionChange p],
                HighestSensitivity := maxPermissionSensitivity (HighestSensitivity diff) (P_Sensitivity p)\<rparr>
      else diff)"

definition verdict_risk :: "PermissionDiff \<Rightarrow> string" where
  "verdict_risk diff =
     foldl (\<lambda>risk change.
        if permissionSensitivityRank (CandidateSensitivity change) > permissionSensitivityRank (PreviousSensitivity change)
        then maxPermissionSensitivity risk (CandidateSensitivity change) else risk)
      (foldl (\<lambda>risk change. maxPermissionSensitivity risk (Ch_Sensitivity change)) ''public'' (Added diff))
      (ChangedSensitivity diff)"

definition permissionDiffVerdict :: "PermissionDiff \<Rightarrow> string \<times> string" where
  "permissionDiffVerdict diff =
     (let risk = verdict_risk diff in
      if Added diff = [] \<and> risk = ''public'' then
        if Removed diff \<noteq> [] \<or> ChangedSensitivity diff \<noteq> [] then (''allow'', ''permission_reduced'')
        else (''allow'', ''unchanged'')
      else if risk = ''secret'' then (''approval_required'', ''secret_permission_added'')
      else if risk = ''sensitive'' then (''approval_required'', ''sensitive_permission_added'')
      else (''review_required'', ''permission_added''))"

definition DiffPermissions ::
  "url_package \<Rightarrow> PermissionDescriptor list \<Rightarrow> PermissionDescriptor list \<Rightarrow> PermissionDiff" where
  "DiffPermissions urls previous candidate =
     (let previousByKey = permissionDiffMap urls previous;
          candidateByKey = permissionDiffMap urls candidate;
          start = \<lparr>Available = True, Verdict = ''allow'', ReasonCode = ''unchanged'', HighestSensitivity = ''public'',
                   Summary = \<lparr>N_Added = 0, N_Removed = 0, N_Unchanged = 0, N_ChangedSensitivity = 0\<rparr>,
                   Added = [], Removed = [], Unchanged = [], ChangedSensitivity = []\<rparr>;
          walked = foldl (diff_previous candidateByKey) (foldl (diff_candidate previousByKey) start candidateByKey) previousByKey;
          diff = walked\<lparr>Added := sortPermissionChanges (Added walked), Removed := sortPermissionChanges (Removed walked),
                        Unchanged := sortPermissionChanges (Unchanged walked),
                        ChangedSensitivity := sortPermissionChanges (ChangedSensitivity walked)\<rparr>
      in diff\<lparr>Summary := \<lparr>N_Added = length (Added diff), N_Removed = length (Removed diff),
                           N_Unchanged = length (Unchanged diff), N_ChangedSensitivity = length (ChangedSensitivity diff)\<rparr>,
              Verdict := fst (permissionDiffVerdict diff), ReasonCode := snd (permissionDiffVerdict diff)\<rparr>)"

section \<open>Dependencies\<close>

record ManifestDependency =
  D_ID :: string
  D_Version :: string

record PluginDescriptor =
  PD_ID :: string
  PD_Version :: string
  PD_Status :: string
  PD_Dependencies :: "ManifestDependency list"

datatype dependency_error =
    InvalidConstraint string
  | NotEnabled string
  | ConstraintInvalid string string
  | VersionMismatch string string string
  | DependencyInUse string
  | ForPlugin string dependency_error

definition ValidatePluginVersionConstraint :: "(string \<Rightarrow> 'c option) \<Rightarrow> string \<Rightarrow> dependency_error + unit" where
  "ValidatePluginVersionConstraint NewConstraint raw =
     (let constraint = TrimSpace raw in
      if constraint = [] then Inr ()
      else if NewConstraint constraint = None then Inl (InvalidConstraint raw) else Inr ())"

definition pluginDependencyStatusAvailable :: "string \<Rightarrow> bool" where
  "pluginDependencyStatusAvailable status \<longleftrightarrow> status \<in> set [''enabled'', ''mandatory'', ''rollback_available'']"

text \<open>The map \<open>byID\<close>: the last descriptor of an identifier wins.\<close>

definition by_id :: "PluginDescriptor list \<Rightarrow> string \<Rightarrow> PluginDescriptor option" where
  "by_id available key = find (\<lambda>d. TrimSpace (PD_ID d) = key) (rev available)"

definition check_dependency ::
  "(string \<Rightarrow> 'c option) \<Rightarrow> (string \<Rightarrow> 'v option) \<Rightarrow> ('c \<Rightarrow> 'v \<Rightarrow> bool) \<Rightarrow> PluginDescriptor list \<Rightarrow> ManifestDependency \<Rightarrow> dependency_error + unit" where
  "check_dependency NewConstraint NewVersion Check available dependency =
     (let dep = TrimSpace (D_ID dependency) in
      case by_id available dep of
        None \<Rightarrow> Inl (NotEnabled dep)
      | Some descriptor \<Rightarrow>
          if \<not> pluginDependencyStatusAvailable (PD_Status descriptor) then Inl (NotEnabled dep)
          else let constraintText = TrimSpace (D_Version dependency) in
            if constraintText = [] then Inr ()
            else case NewConstraint constraintText of
              None \<Rightarrow> Inl (ConstraintInvalid dep (D_Version dependency))
            | Some constraint \<Rightarrow>
                (case NewVersion (TrimSpace (PD_Version descriptor)) of
                   None \<Rightarrow> Inl (VersionMismatch dep (PD_Version descriptor) (D_Version dependency))
                 | Some version \<Rightarrow>
                     if Check constraint version then Inr ()
                     else Inl (VersionMismatch dep (PD_Version descriptor) (D_Version dependency))))"

fun ValidateManifestDependencies ::
  "(string \<Rightarrow> 'c option) \<Rightarrow> (string \<Rightarrow> 'v option) \<Rightarrow> ('c \<Rightarrow> 'v \<Rightarrow> bool) \<Rightarrow> ManifestDependency list \<Rightarrow> PluginDescriptor list \<Rightarrow> dependency_error + unit" where
  "ValidateManifestDependencies nc nv chk [] available = Inr ()"
| "ValidateManifestDependencies nc nv chk (dependency # rest) available =
     rbind (check_dependency nc nv chk available dependency) (\<lambda>_. ValidateManifestDependencies nc nv chk rest available)"

fun validate_each ::
  "(string \<Rightarrow> 'c option) \<Rightarrow> (string \<Rightarrow> 'v option) \<Rightarrow> ('c \<Rightarrow> 'v \<Rightarrow> bool) \<Rightarrow> PluginDescriptor list \<Rightarrow> PluginDescriptor list \<Rightarrow> dependency_error + unit" where
  "validate_each nc nv chk available [] = Inr ()"
| "validate_each nc nv chk available (d # rest) =
     (if \<not> pluginDependencyStatusAvailable (PD_Status d) then validate_each nc nv chk available rest
      else rbind (map_err (ForPlugin (PD_ID d)) (ValidateManifestDependencies nc nv chk (PD_Dependencies d) available))
             (\<lambda>_. validate_each nc nv chk available rest))"

definition ValidatePluginDependencySet ::
  "(string \<Rightarrow> 'c option) \<Rightarrow> (string \<Rightarrow> 'v option) \<Rightarrow> ('c \<Rightarrow> 'v \<Rightarrow> bool) \<Rightarrow> PluginDescriptor list \<Rightarrow> dependency_error + unit" where
  "ValidatePluginDependencySet nc nv chk available = validate_each nc nv chk available available"

definition ValidatePluginDeactivation :: "string \<Rightarrow> PluginDescriptor list \<Rightarrow> dependency_error + unit" where
  "ValidatePluginDeactivation pluginID0 available =
     (let pluginID = TrimSpace pluginID0 in
      case find (\<lambda>d. TrimSpace (PD_ID d) \<noteq> pluginID \<and> pluginDependencyStatusAvailable (PD_Status d) \<and>
                     list_ex (\<lambda>dep. TrimSpace (D_ID dep) = pluginID) (PD_Dependencies d)) available of
        Some d \<Rightarrow> Inl (DependencyInUse (PD_ID d))
      | None \<Rightarrow> Inr ())"

section \<open>What the comparison decides\<close>

definition sanitized :: "url_package \<Rightarrow> PermissionDescriptor list \<Rightarrow> PermissionDescriptor list" where
  "sanitized urls items =
     map (\<lambda>item. item\<lparr>P_Name := sanitizePermissionDiffName urls item\<rparr>) (NormalizePermissionDescriptors items)"

abbreviation rank :: "PermissionDescriptor \<Rightarrow> nat" where
  "rank p \<equiv> permissionSensitivityRank (P_Sensitivity p)"

text \<open>A map entry for each key of the items, of the highest rank among them.\<close>

definition summarises :: "(permissionKey \<times> PermissionDescriptor) list \<Rightarrow> PermissionDescriptor list \<Rightarrow> bool" where
  "summarises m items \<longleftrightarrow>
     distinct (map fst m) \<and>
     (\<forall>(k, p) \<in> set m. p \<in> set items \<and> permissionKeyFor p = k \<and> (\<forall>q \<in> set items. permissionKeyFor q = k \<longrightarrow> rank q \<le> rank p)) \<and>
     permissionKeyFor ` set items = fst ` set m"

definition keep_highest ::
  "(permissionKey \<times> PermissionDescriptor) list \<Rightarrow> PermissionDescriptor \<Rightarrow> (permissionKey \<times> PermissionDescriptor) list" where
  "keep_highest m item =
     (case map_of m (permissionKeyFor item) of
        Some existing \<Rightarrow> if rank existing \<ge> rank item then m else AList.update (permissionKeyFor item) item m
      | None \<Rightarrow> AList.update (permissionKeyFor item) item m)"

lemma permissionDiffMap_alt: "permissionDiffMap urls items = foldl keep_highest [] (sanitized urls items)"
  unfolding permissionDiffMap_def sanitized_def
  by (simp add: foldl_map diff_insert_def keep_highest_def Let_def cong: foldl_cong)

lemma set_update:
  assumes "distinct (map fst m)"
  shows "set (AList.update k v m) = insert (k, v) {e \<in> set m. fst e \<noteq> k}"
  using assms by (induction m) (auto simp: image_iff)

lemma keep_highest_summarises:
  assumes "summarises m items"
  shows "summarises (keep_highest m item) (items @ [item])"
proof -
  let ?k = "permissionKeyFor item"
  have d: "distinct (map fst m)" and ks: "permissionKeyFor ` set items = fst ` set m"
    and best: "\<And>k p. (k, p) \<in> set m \<Longrightarrow> p \<in> set items \<and> permissionKeyFor p = k \<and>
      (\<forall>q \<in> set items. permissionKeyFor q = k \<longrightarrow> rank q \<le> rank p)"
    using assms by (auto simp: summarises_def)
  have upd: "summarises (AList.update ?k item m) (items @ [item])"
    if "\<And>q. q \<in> set items \<Longrightarrow> permissionKeyFor q = ?k \<Longrightarrow> rank q \<le> rank item"
  proof -
    have "permissionKeyFor ` set (items @ [item]) = fst ` set (AList.update ?k item m)"
      using ks by (auto simp: set_update [OF d] image_iff)
    moreover have "distinct (map fst (AList.update ?k item m))" by (rule distinct_update [OF d])
    ultimately show ?thesis using best that
      unfolding summarises_def set_update [OF d] by fastforce
  qed
  show ?thesis
  proof (cases "map_of m ?k")
    case None
    then have "?k \<notin> permissionKeyFor ` set items" by (simp add: map_of_eq_None_iff ks)
    then have "summarises (AList.update ?k item m) (items @ [item])" by (intro upd) (metis imageI)
    then show ?thesis using None by (simp add: keep_highest_def)
  next
    case (Some e)
    then have e: "(?k, e) \<in> set m" by (rule map_of_SomeD)
    show ?thesis
    proof (cases "rank e \<ge> rank item")
      case True
      have same: "p = e" if "(?k, p) \<in> set m" for p using that e d by (metis map_of_is_SomeI option.inject)
      have "summarises m (items @ [item])" unfolding summarises_def
      proof (intro conjI)
        show "\<forall>(k, p) \<in> set m. p \<in> set (items @ [item]) \<and> permissionKeyFor p = k \<and>
            (\<forall>q \<in> set (items @ [item]). permissionKeyFor q = k \<longrightarrow> rank q \<le> rank p)"
          using best same True by auto
        show "permissionKeyFor ` set (items @ [item]) = fst ` set m" using ks e by force
      qed (rule d)
      then show ?thesis by (simp add: keep_highest_def Some True)
    next
      case False
      then have "rank q \<le> rank item" if "q \<in> set items" "permissionKeyFor q = ?k" for q
        using best [OF e] that by fastforce
      then show ?thesis using upd False by (simp add: keep_highest_def Some)
    qed
  qed
qed

lemma foldl_summarises: "summarises m items \<Longrightarrow> summarises (foldl keep_highest m rest) (items @ rest)"
  by (induction rest arbitrary: m items) (use keep_highest_summarises in fastforce)+

lemma permissionDiffMap_summarises: "summarises (permissionDiffMap urls items) (sanitized urls items)"
  using foldl_summarises [of "[]" "[]" "sanitized urls items"]
  by (simp add: permissionDiffMap_alt) (simp add: summarises_def)

text \<open>A permission of the candidate that the previous version did not have at its rank.\<close>

definition escalates :: "PermissionDescriptor list \<Rightarrow> PermissionDescriptor \<Rightarrow> bool" where
  "escalates previous p \<longleftrightarrow> \<not> (\<exists>q \<in> set previous. permissionKeyFor q = permissionKeyFor p \<and> rank p \<le> rank q)"

lemma Added_candidate:
  "Added (foldl (diff_candidate pm) d m) = Added d @ map (\<lambda>e. permissionChange (snd e)) (filter (\<lambda>e. map_of pm (fst e) = None) m)"
  by (induction m arbitrary: d) (auto simp: diff_candidate_def split: prod.split option.split)

definition sensitivity_change ::
  "(permissionKey \<times> PermissionDescriptor) list \<Rightarrow> permissionKey \<times> PermissionDescriptor \<Rightarrow> PermissionChange option" where
  "sensitivity_change pm e =
     (case map_of pm (fst e) of
        None \<Rightarrow> None
      | Some p \<Rightarrow> if P_Sensitivity p = P_Sensitivity (snd e) then None
          else Some ((permissionChange (snd e))\<lparr>PreviousSensitivity := P_Sensitivity p,
                     CandidateSensitivity := P_Sensitivity (snd e)\<rparr>))"

lemma Changed_candidate:
  "ChangedSensitivity (foldl (diff_candidate pm) d m) = ChangedSensitivity d @ List.map_filter (sensitivity_change pm) m"
  by (induction m arbitrary: d)
    (auto simp: diff_candidate_def sensitivity_change_def map_filter_simps split: prod.split option.split)

lemma previous_keeps:
  "Added (foldl (diff_previous cm) d m) = Added d"
  "ChangedSensitivity (foldl (diff_previous cm) d m) = ChangedSensitivity d"
  by (induction m arbitrary: d) (simp_all add: diff_previous_def split: prod.split)

text \<open>The risk is the highest rank of an escalation, and \<open>public\<close> without one.\<close>

lemma rank_max: "n \<le> permissionSensitivityRank (maxPermissionSensitivity a b) \<longleftrightarrow>
    n \<le> permissionSensitivityRank a \<or> n \<le> permissionSensitivityRank b"
  by (auto simp: maxPermissionSensitivity_def)

lemma rank_fold_added:
  "n \<le> permissionSensitivityRank (foldl (\<lambda>risk c. maxPermissionSensitivity risk (Ch_Sensitivity c)) r cs) \<longleftrightarrow>
     n \<le> permissionSensitivityRank r \<or> (\<exists>c \<in> set cs. n \<le> permissionSensitivityRank (Ch_Sensitivity c))"
  by (induction cs arbitrary: r) (auto simp: rank_max)

abbreviation raised :: "PermissionChange \<Rightarrow> bool" where
  "raised c \<equiv> permissionSensitivityRank (CandidateSensitivity c) > permissionSensitivityRank (PreviousSensitivity c)"

lemma rank_fold_changed:
  "n \<le> permissionSensitivityRank (foldl (\<lambda>risk c. if raised c then maxPermissionSensitivity risk (CandidateSensitivity c) else risk) r cs) \<longleftrightarrow>
     n \<le> permissionSensitivityRank r \<or> (\<exists>c \<in> set cs. raised c \<and> n \<le> permissionSensitivityRank (CandidateSensitivity c))"
  by (induction cs arbitrary: r) (auto simp: rank_max)

definition plain_risk :: "string \<Rightarrow> bool" where
  "plain_risk r \<longleftrightarrow> r = ''public'' \<or> permissionSensitivityRank r > 0"

lemma plain_max: "plain_risk r \<Longrightarrow> plain_risk (maxPermissionSensitivity r b)"
  by (auto simp: plain_risk_def maxPermissionSensitivity_def)

lemma plain_risk_verdict: "plain_risk (verdict_risk d)"
proof -
  have a: "plain_risk (foldl (\<lambda>risk c. maxPermissionSensitivity risk (Ch_Sensitivity c)) r cs)" if "plain_risk r" for r cs
    using that by (induction cs arbitrary: r) (simp_all add: plain_max)
  have b: "plain_risk (foldl (\<lambda>risk c. if raised c then maxPermissionSensitivity risk (CandidateSensitivity c) else risk) r cs)"
    if "plain_risk r" for r cs
    using that by (induction cs arbitrary: r) (simp_all add: plain_max)
  show ?thesis unfolding verdict_risk_def by (intro a b) (simp add: plain_risk_def)
qed

lemma risk_cases:
  "plain_risk r \<Longrightarrow> r = ''public'' \<longleftrightarrow> \<not> 1 \<le> permissionSensitivityRank r"
  "r = ''secret'' \<or> r = ''sensitive'' \<longleftrightarrow> 2 \<le> permissionSensitivityRank r"
  by (auto simp: plain_risk_def permissionSensitivityRank_def split: if_splits)

definition raises :: "PermissionDiff \<Rightarrow> nat \<Rightarrow> bool" where
  "raises d n \<longleftrightarrow>
     (\<exists>c \<in> set (Added d). n \<le> permissionSensitivityRank (Ch_Sensitivity c)) \<or>
     (\<exists>c \<in> set (ChangedSensitivity d). raised c \<and> n \<le> permissionSensitivityRank (CandidateSensitivity c))"

lemma rank_risk: "0 < n \<Longrightarrow> n \<le> permissionSensitivityRank (verdict_risk d) \<longleftrightarrow> raises d n"
  unfolding verdict_risk_def rank_fold_changed rank_fold_added raises_def
  by (simp add: permissionSensitivityRank_def)

lemma verdict_of_raises:
  "fst (permissionDiffVerdict d) =
     (if \<not> raises d 0 then ''allow'' else if raises d 2 then ''approval_required'' else ''review_required'')"
proof -
  let ?r = "verdict_risk d"
  have 0: "raises d 0 \<longleftrightarrow> Added d \<noteq> [] \<or> raises d 1" by (auto simp: raises_def)
  have 1: "?r = ''public'' \<longleftrightarrow> \<not> raises d 1" using risk_cases(1) [OF plain_risk_verdict] rank_risk [of 1 d] by simp
  have 2: "?r = ''secret'' \<or> ?r = ''sensitive'' \<longleftrightarrow> raises d 2" using risk_cases(2) rank_risk [of 2 d] by simp
  have "raises d 2 \<longrightarrow> raises d 1" unfolding raises_def by (meson one_le_numeral order_trans)
  then show ?thesis using 0 1 2 by (auto simp: permissionDiffVerdict_def Let_def)
qed

lemma raises_sorted:
  "raises (d\<lparr>Added := sortPermissionChanges a, Removed := x, Unchanged := y, ChangedSensitivity := sortPermissionChanges b\<rparr>) n \<longleftrightarrow>
   raises (d\<lparr>Added := a, ChangedSensitivity := b\<rparr>) n"
  by (simp add: raises_def sortPermissionChanges_def)

lemma in_map_filterI: "f x = Some y \<Longrightarrow> x \<in> set xs \<Longrightarrow> y \<in> set (List.map_filter f xs)"
  by (induction xs) (auto simp: map_filter_simps split: option.split)

lemma raises_diff:
  assumes pm: "summarises pm previous" and cm: "summarises cm candidate"
    and a: "Added d = map (\<lambda>e. permissionChange (snd e)) (filter (\<lambda>e. map_of pm (fst e) = None) cm)"
    and c: "ChangedSensitivity d = List.map_filter (sensitivity_change pm) cm"
  shows "raises d n \<longleftrightarrow> (\<exists>p \<in> set candidate. escalates previous p \<and> n \<le> rank p)"
proof
  assume "raises d n"
  then obtain k p where kp: "(k, p) \<in> set cm" "n \<le> rank p"
    "map_of pm k = None \<or> (\<exists>q. map_of pm k = Some q \<and> rank q < rank p)"
    unfolding raises_def a c
    by (auto simp: permissionChange_def sensitivity_change_def map_filter_def split: option.splits if_splits)
  then have p: "p \<in> set candidate" "permissionKeyFor p = k" using cm by (auto simp: summarises_def)
  have "escalates previous p" using kp(3)
  proof
    assume "map_of pm k = None"
    then have "k \<notin> permissionKeyFor ` set previous" using pm by (simp add: summarises_def map_of_eq_None_iff)
    then show ?thesis unfolding escalates_def p(2) by (metis imageI)
  next
    assume "\<exists>q. map_of pm k = Some q \<and> rank q < rank p"
    then show ?thesis using pm p(2) by (fastforce simp: escalates_def summarises_def dest!: map_of_SomeD)
  qed
  with p kp(2) show "\<exists>p \<in> set candidate. escalates previous p \<and> n \<le> rank p" by blast
next
  assume "\<exists>p \<in> set candidate. escalates previous p \<and> n \<le> rank p"
  then obtain p where p: "p \<in> set candidate" "escalates previous p" "n \<le> rank p" by blast
  then have "permissionKeyFor p \<in> fst ` set cm" using cm by (auto simp: summarises_def)
  then obtain q where q: "(permissionKeyFor p, q) \<in> set cm" by auto
  then have q2: "rank p \<le> rank q" "permissionKeyFor q = permissionKeyFor p" using cm p(1) by (auto simp: summarises_def)
  show "raises d n"
  proof (cases "map_of pm (permissionKeyFor p)")
    case None
    then have "permissionChange q \<in> set (Added d)" unfolding a using q by force
    moreover have "n \<le> permissionSensitivityRank (Ch_Sensitivity (permissionChange q))"
      using q2(1) p(3) by (simp add: permissionChange_def)
    ultimately show ?thesis unfolding raises_def by blast
  next
    case (Some old)
    then have old: "old \<in> set previous" "permissionKeyFor old = permissionKeyFor p"
      using pm by (auto simp: summarises_def dest!: map_of_SomeD)
    then have lt: "rank old < rank p" using p(2) by (auto simp: escalates_def)
    let ?change = "(permissionChange q)\<lparr>PreviousSensitivity := P_Sensitivity old, CandidateSensitivity := P_Sensitivity q\<rparr>"
    have "P_Sensitivity old \<noteq> P_Sensitivity q" using q2(1) lt by auto
    then have "sensitivity_change pm (permissionKeyFor p, q) = Some ?change"
      using Some by (simp add: sensitivity_change_def)
    then have "?change \<in> set (ChangedSensitivity d)" unfolding c using q by (intro in_map_filterI)
    then show ?thesis unfolding raises_def using lt q2(1) p(3) by fastforce
  qed
qed

section \<open>Facts about dependencies\<close>

lemma ValidateManifestDependencies_iff:
  "ValidateManifestDependencies nc nv chk deps available = Inr () \<longleftrightarrow>
     (\<forall>dep \<in> set deps. check_dependency nc nv chk available dep = Inr ())"
  by (induction deps) (auto simp: rbind_eq_Inr_iff)

lemma validate_each_iff:
  "validate_each nc nv chk available ds = Inr () \<longleftrightarrow>
     (\<forall>d \<in> set ds. pluginDependencyStatusAvailable (PD_Status d) \<longrightarrow>
        (\<forall>dep \<in> set (PD_Dependencies d). check_dependency nc nv chk available dep = Inr ()))"
  by (induction ds)
    (auto simp: rbind_eq_Inr_iff map_err_def ValidateManifestDependencies_iff split: sum.splits simp flip: ValidateManifestDependencies_iff)

lemma check_dependency_cong:
  "by_id a (TrimSpace (D_ID dep)) = by_id b (TrimSpace (D_ID dep)) \<Longrightarrow>
     check_dependency nc nv chk a dep = check_dependency nc nv chk b dep"
  by (simp add: check_dependency_def)

lemma by_id_without:
  "k \<noteq> key \<Longrightarrow> by_id (filter (\<lambda>d. TrimSpace (PD_ID d) \<noteq> key) available) k = by_id available k"
proof -
  assume "k \<noteq> key"
  then have "find (\<lambda>d. TrimSpace (PD_ID d) = k) (filter (\<lambda>d. TrimSpace (PD_ID d) \<noteq> key) ds) =
      find (\<lambda>d. TrimSpace (PD_ID d) = k) ds" for ds :: "PluginDescriptor list"
    by (induction ds) auto
  then show ?thesis by (simp add: by_id_def rev_filter)
qed

lemma ValidatePluginDeactivation_iff:
  "ValidatePluginDeactivation key available = Inr () \<longleftrightarrow>
     (\<forall>d \<in> set available. TrimSpace (PD_ID d) \<noteq> TrimSpace key \<and> pluginDependencyStatusAvailable (PD_Status d) \<longrightarrow>
        (\<forall>dep \<in> set (PD_Dependencies d). TrimSpace (D_ID dep) \<noteq> TrimSpace key))"
  unfolding ValidatePluginDeactivation_def Let_def
  by (auto simp: find_None_iff list_ex_iff split: option.split dest!: find_SomeD)

section \<open>The verdict, and deactivation\<close>

text \<open>(C25) The comparison of two versions of a plugin allows the new one exactly when each of its
  permissions was already held, for the same resource and at least at the same sensitivity; a new or
  raised permission that is sensitive or secret needs approval and any other needs review. Network
  targets are compared as URLs without user, query and fragment.\<close>

theorem DiffPermissions_verdict:
  "Verdict (DiffPermissions urls previous candidate) =
     (let escalations = {p \<in> set (sanitized urls candidate). escalates (sanitized urls previous) p}
      in if escalations = {} then ''allow''
         else if \<exists>p \<in> escalations. 2 \<le> rank p then ''approval_required'' else ''review_required'')"
proof -
  let ?pm = "permissionDiffMap urls previous" and ?cm = "permissionDiffMap urls candidate"
  define start where "start = \<lparr>Available = True, Verdict = ''allow'', ReasonCode = ''unchanged'', HighestSensitivity = ''public'',
    Summary = \<lparr>N_Added = 0, N_Removed = 0, N_Unchanged = 0, N_ChangedSensitivity = 0\<rparr>,
    Added = [], Removed = [], Unchanged = [], ChangedSensitivity = []\<rparr>"
  define walked where "walked = foldl (diff_previous ?cm) (foldl (diff_candidate ?pm) start ?cm) ?pm"
  define diff where "diff = walked\<lparr>Added := sortPermissionChanges (Added walked), Removed := sortPermissionChanges (Removed walked),
    Unchanged := sortPermissionChanges (Unchanged walked), ChangedSensitivity := sortPermissionChanges (ChangedSensitivity walked)\<rparr>"
  have "Verdict (DiffPermissions urls previous candidate) = fst (permissionDiffVerdict diff)"
    by (simp add: DiffPermissions_def Let_def diff_def walked_def start_def)
  also have "\<dots> = (if \<not> raises walked 0 then ''allow'' else if raises walked 2 then ''approval_required'' else ''review_required'')"
    unfolding verdict_of_raises diff_def raises_sorted by simp
  finally have verdict: "Verdict (DiffPermissions urls previous candidate) =
      (if \<not> raises walked 0 then ''allow'' else if raises walked 2 then ''approval_required'' else ''review_required'')" .
  have "raises walked n \<longleftrightarrow>
      (\<exists>p \<in> set (sanitized urls candidate). escalates (sanitized urls previous) p \<and> n \<le> rank p)" for n
    by (rule raises_diff [OF permissionDiffMap_summarises permissionDiffMap_summarises])
      (simp_all add: walked_def previous_keeps Added_candidate Changed_candidate start_def)
  then show ?thesis unfolding verdict by (simp add: Let_def) blast
qed

text \<open>Removing a plugin that the deactivation check lets go never breaks the dependencies of the
  remaining plugins.\<close>

theorem deactivation_keeps_dependencies:
  assumes "ValidatePluginDependencySet nc nv chk available = Inr ()"
    and "ValidatePluginDeactivation pluginID available = Inr ()"
  shows "ValidatePluginDependencySet nc nv chk (filter (\<lambda>d. TrimSpace (PD_ID d) \<noteq> TrimSpace pluginID) available) = Inr ()"
  unfolding ValidatePluginDependencySet_def validate_each_iff
proof (intro ballI impI, goal_cases)
  case (1 d dep)
  then have "TrimSpace (D_ID dep) \<noteq> TrimSpace pluginID" "check_dependency nc nv chk available dep = Inr ()"
    using assms by (auto simp: ValidatePluginDeactivation_iff ValidatePluginDependencySet_def validate_each_iff)
  then show ?case using check_dependency_cong [OF by_id_without] by metis
qed

section \<open>What a grant covers\<close>

definition named :: "PermissionDescriptor \<Rightarrow> bool" where
  "named p \<longleftrightarrow> TrimSpace (P_Kind p) \<noteq> [] \<and> TrimSpace (P_Name p) \<noteq> [] \<and> TrimSpace (P_Access p) \<noteq> []"

lemma set_keep_new: "set (keep_new seen items) \<union> set seen = trim_permission ` {p \<in> set items. named p} \<union> set seen"
proof (induction seen items rule: keep_new.induct)
  case (2 seen item rest)
  have "named item \<longleftrightarrow> P_Kind (trim_permission item) \<noteq> [] \<and> P_Name (trim_permission item) \<noteq> [] \<and> P_Access (trim_permission item) \<noteq> []"
    by (simp add: named_def trim_permission_def Let_def)
  with 2 show ?case by (auto simp: Let_def)
qed simp

lemma permissionKeyFor_trim: "permissionKeyFor (trim_permission p) = permissionKeyFor p"
  by (simp add: permissionKeyFor_def trim_permission_def Let_def)

lemma set_permissionKeySet: "set (permissionKeySet ps) = permissionKeyFor ` {p \<in> set ps. named p}"
  using set_keep_new [of "[]" ps]
  by (simp add: permissionKeySet_def NormalizePermissionDescriptors_def image_image permissionKeyFor_trim)

lemma RequirePluginPermissions_iff:
  "RequirePluginPermissions required grant = Inr () \<longleftrightarrow>
     \<not> Enforced grant \<or> set (permissionKeySet required) \<subseteq> set (permissionKeySet (G_Permissions grant))"
  unfolding RequirePluginPermissions_def Let_def permissionKeySet_def
  by (auto simp: find_None_iff split: option.split dest!: find_SomeD)

lemma set_dedup: "set (dedup_nonempty seen xs) \<union> set seen = {x \<in> set xs. x \<noteq> []} \<union> set seen"
  by (induction seen xs rule: dedup_nonempty.induct) auto

lemma set_normalizeDataClasses [simp]: "set (normalizeDataClasses xs) = {x \<in> set xs. x \<noteq> []}"
  using set_dedup [of "[]" xs] by (simp add: normalizeDataClasses_def)

lemma named_normalized: "p \<in> set (NormalizePermissionDescriptors ps) \<Longrightarrow> named p"
  using set_keep_new [of "[]" ps] by (auto simp: NormalizePermissionDescriptors_def named_def trim_permission_def Let_def)

lemma keys_normalized: "set (permissionKeySet (NormalizePermissionDescriptors ps)) = set (permissionKeySet ps)"
proof -
  have "{p \<in> set (NormalizePermissionDescriptors ps). named p} = set (NormalizePermissionDescriptors ps)"
    using named_normalized by blast
  then show ?thesis unfolding set_permissionKeySet [of "NormalizePermissionDescriptors ps"] by (simp add: permissionKeySet_def)
qed

text \<open>Classes of the gateway are written without white space.\<close>

lemma valid_class_trim:
  assumes "validGatewayDataClass c"
  shows "TrimSpace c = c" and "c \<noteq> []"
proof -
  have "list_all (\<lambda>c. list_all is_graph c \<and> c \<noteq> []) allGatewayDataClasses"
    by (simp add: allGatewayDataClasses_def is_graph_def code_of_def)
  then have "list_all is_graph c \<and> c \<noteq> []" using assms by (simp add: validGatewayDataClass_def list_all_iff)
  then show "TrimSpace c = c" and "c \<noteq> []" by (simp_all add: TrimSpace_graph_all)
qed

definition class_keys :: "string list \<Rightarrow> string \<Rightarrow> permissionKey set" where
  "class_keys classes access = (\<lambda>c. (''data'', c, access)) ` set classes"

lemma const_trims:
  "TrimSpace ''data'' = ''data''" "TrimSpace ''read'' = ''read''" "TrimSpace ''write'' = ''write''"
  "TrimSpace ''network'' = ''network''" "TrimSpace ''connect'' = ''connect''"
  by (rule TrimSpace_graph_all, simp add: is_graph_def code_of_def)+

lemma descriptor_key:
  assumes "validGatewayDataClass c" and "TrimSpace access = access" and "access \<noteq> []"
  shows "permissionKeyFor (dataPermissionDescriptor c access) = (''data'', c, access)" and "named (dataPermissionDescriptor c access)"
  using assms valid_class_trim [OF assms(1)]
  by (simp_all add: permissionKeyFor_def named_def dataPermissionDescriptor_def const_trims)

lemma data_keys:
  assumes "\<forall>c \<in> set classes. validGatewayDataClass c" and "TrimSpace access = access" and "access \<noteq> []"
  shows "permissionKeyFor ` {p \<in> set (map (\<lambda>c. dataPermissionDescriptor c access) (normalizeDataClasses classes)). named p} =
    class_keys classes access"
proof -
  have "{p \<in> set (map (\<lambda>c. dataPermissionDescriptor c access) (normalizeDataClasses classes)). named p} =
      (\<lambda>c. dataPermissionDescriptor c access) ` set classes"
    using assms descriptor_key(2) valid_class_trim(2) by fastforce
  then show ?thesis using assms descriptor_key(1) by (auto simp: class_keys_def image_image cong: image_cong)
qed

lemma split_named: "permissionKeyFor ` {p \<in> set (xs @ ys). named p} =
    permissionKeyFor ` {p \<in> set xs. named p} \<union> permissionKeyFor ` {p \<in> set ys. named p}"
  by auto

lemma hook_ok_valid:
  assumes "hook_ok stage h"
  shows "\<forall>c \<in> set (H_Reads h) \<union> set (H_Writes h). validGatewayDataClass c"
proof -
  have "\<forall>(s, policy) \<in> set GatewayStagePolicies. set (PolicyReads policy) \<union> set (PolicyWrites policy) \<subseteq> set allGatewayDataClasses"
    by (simp add: GatewayStagePolicies_def stage_policy_def allGatewayDataClasses_def)
  then show ?thesis using assms
    by (fastforce simp: hook_ok_def GatewayStagePolicy_def validGatewayDataClass_def split: option.splits dest!: map_of_SomeD)
qed

lemma hook_required_keys:
  assumes "hook_ok stage h"
  shows "set (permissionKeySet (GatewayHookRequiredPermissions h)) = class_keys (H_Reads h) ''read'' \<union> class_keys (H_Writes h) ''write''"
proof -
  note valid = hook_ok_valid [OF assms]
  let ?n = "NormalizeGatewayHookDescriptor h"
  have fp: "H_FailurePolicy ?n = H_FailurePolicy h"
    using hook_ok_failure(2) [OF assms] by (simp add: NormalizeGatewayHookDescriptor_def Let_def)
  have r: "set (H_Reads ?n) = set (H_Reads h)" and w: "set (H_Writes ?n) = set (H_Writes h)"
  proof -
    have "set (H_Reads ?n) = {c \<in> set (H_Reads h). c \<noteq> []}"
      by (simp add: NormalizeGatewayHookDescriptor_def Let_def)
    then show "set (H_Reads ?n) = set (H_Reads h)" using valid valid_class_trim(2) by blast
    have "H_Writes ?n = (if H_FailurePolicy h = ''observe_only'' then [] else normalizeDataClasses (H_Writes h))"
      using fp by (simp add: NormalizeGatewayHookDescriptor_def Let_def)
    moreover have "{c \<in> set (H_Writes h). c \<noteq> []} = set (H_Writes h)" using valid valid_class_trim(2) by blast
    ultimately show "set (H_Writes ?n) = set (H_Writes h)" using assms by (auto simp: hook_ok_def)
  qed
  have vr: "\<forall>c \<in> set (H_Reads ?n). validGatewayDataClass c" and vw: "\<forall>c \<in> set (H_Writes ?n). validGatewayDataClass c"
    using valid r w by auto
  show ?thesis
    unfolding GatewayHookRequiredPermissions_def Let_def DataPermissionDescriptors_def keys_normalized unfolding set_permissionKeySet split_named
    using data_keys [OF vr const_trims(2)] data_keys [OF vw const_trims(3)] r w by (simp add: class_keys_def)
qed

lemma manifest_keys:
  assumes "\<forall>c \<in> set (Data_Read m) \<union> set (Data_Write m). validGatewayDataClass c"
  shows "\<exists>net. (\<forall>k \<in> net. fst k \<noteq> ''data'') \<and>
    set (permissionKeySet (ManifestPermissionDescriptors m)) =
      class_keys (Data_Read m) ''read'' \<union> class_keys (Data_Write m) ''write'' \<union> net"
proof -
  let ?net = "map (\<lambda>target. \<lparr>P_Kind = ''network'', P_Name = target, P_Access = ''connect'', P_Sensitivity = ''internal''\<rparr>)
          (filter (\<lambda>target. target \<noteq> []) (normalizeStrings (Network_Allow m)))"
  have dr: "permissionKeyFor ` {p \<in> set (map (\<lambda>c. dataPermissionDescriptor c ''read'') (normalizeDataClasses (Data_Read m))). named p} =
      class_keys (Data_Read m) ''read''"
    and dw: "permissionKeyFor ` {p \<in> set (map (\<lambda>c. dataPermissionDescriptor c ''write'') (normalizeDataClasses (Data_Write m))). named p} =
      class_keys (Data_Write m) ''write''"
    using assms by (intro data_keys; simp add: const_trims)+
  have "\<forall>k \<in> permissionKeyFor ` {p \<in> set ?net. named p}. fst k \<noteq> ''data''"
    by (auto simp: permissionKeyFor_def const_trims)
  moreover have "set (permissionKeySet (ManifestPermissionDescriptors m)) =
      class_keys (Data_Read m) ''read'' \<union> (class_keys (Data_Write m) ''write'' \<union> permissionKeyFor ` {p \<in> set ?net. named p})"
    unfolding ManifestPermissionDescriptors_def keys_normalized
    unfolding set_permissionKeySet split_named dr dw ..
  ultimately show ?thesis by (intro exI [of _ "permissionKeyFor ` {p \<in> set ?net. named p}"] conjI) (assumption, simp only: Un_assoc)
qed

lemma validateGatewayDataClasses_iff:
  "validateGatewayDataClasses cs = Inr () \<longleftrightarrow> (\<forall>c \<in> set cs. validGatewayDataClass c)"
  by (auto simp: validateGatewayDataClasses_def find_None_iff split: option.split dest!: find_SomeD)

text \<open>Under the grant of a valid manifest a well-formed hook may run exactly when the manifest
  declares every data class the hook reads or writes.\<close>

theorem manifest_grant_exact:
  assumes "ValidateManifestPermissions parse m = Inr ()" and "hook_ok stage h"
  shows "RequireGatewayHookPermissions h (PermissionGrantFromManifest m) = Inr () \<longleftrightarrow>
    set (H_Reads h) \<subseteq> set (Data_Read m) \<and> set (H_Writes h) \<subseteq> set (Data_Write m)"
proof -
  have valid: "\<forall>c \<in> set (Data_Read m) \<union> set (Data_Write m). validGatewayDataClass c"
    using assms(1) validateGatewayDataClasses_iff
    by (auto simp: ValidateManifestPermissions_def rbind_eq_Inr_iff map_err_def split: sum.splits)
  from manifest_keys [OF this] obtain net where net: "\<forall>k \<in> net. fst k \<noteq> ''data''"
    "set (permissionKeySet (ManifestPermissionDescriptors m)) =
      class_keys (Data_Read m) ''read'' \<union> class_keys (Data_Write m) ''write'' \<union> net" by blast
  have none: "(''data'', c, access) \<notin> net" for c access using net(1) by fastforce
  show ?thesis
    unfolding RequireGatewayHookPermissions_def RequirePluginPermissions_iff hook_required_keys [OF assms(2)]
    by (auto simp: PermissionGrantFromManifest_def net(2) class_keys_def image_subset_iff image_iff none)
qed

definition usage_manifest :: ManifestPermissions where
  "usage_manifest = \<lparr>Network_Allow = [''*''], Data_Read = [''usage''], Data_Write = []\<rparr>"

definition usage_hook :: GatewayHookDescriptor where
  "usage_hook = (sample_hook ''a'' ''v1'' 1)\<lparr>H_Reads := [''usage'']\<rparr>"

theorem manifest_grant_exact_witness:
  "RequireGatewayHookPermissions usage_hook (PermissionGrantFromManifest usage_manifest) = Inr ()"
proof -
  have star: "TrimSpace ''*'' = ''*''" by (rule TrimSpace_graph_all) (simp add: is_graph_def code_of_def)
  have "ValidateManifestPermissions (\<lambda>_. None) usage_manifest = Inr ()"
    by (simp add: ValidateManifestPermissions_def usage_manifest_def validateGatewayDataClasses_def validGatewayDataClass_def
        allGatewayDataClasses_def map_err_def validNetworkPermissionTarget_def star)
  moreover have "hook_ok ''settlement'' usage_hook"
    by (simp add: hook_ok_def usage_hook_def sample_hook_def GatewayStagePolicy_def GatewayStagePolicies_def stage_policy_def
        MaxGatewayHookTimeoutMillis_def)
  ultimately show ?thesis
    using manifest_grant_exact [of "\<lambda>_. None" usage_manifest "''settlement''" usage_hook]
    by (simp add: usage_hook_def usage_manifest_def sample_hook_def)
qed

text \<open>Plugin \<open>a\<close> needs plugin \<open>b\<close>; plugin \<open>c\<close> stands alone.\<close>

definition plugins :: "PluginDescriptor list" where
  "plugins =
     [\<lparr>PD_ID = ''a'', PD_Version = ''1'', PD_Status = ''enabled'', PD_Dependencies = [\<lparr>D_ID = ''b'', D_Version = ''1''\<rparr>]\<rparr>,
      \<lparr>PD_ID = ''b'', PD_Version = ''1'', PD_Status = ''mandatory'', PD_Dependencies = []\<rparr>,
      \<lparr>PD_ID = ''c'', PD_Version = ''2'', PD_Status = ''enabled'', PD_Dependencies = [\<lparr>D_ID = ''a'', D_Version = []\<rparr>]\<rparr>]"

theorem deactivation_keeps_dependencies_witness:
  "ValidatePluginDependencySet Some Some (=) (take 2 plugins) = Inr () \<and>
   ValidatePluginDeactivation ''b'' plugins = Inl (DependencyInUse ''a'')"
proof -
  have t: "TrimSpace ''a'' = ''a''" "TrimSpace ''b'' = ''b''" "TrimSpace ''c'' = ''c''" "TrimSpace ''1'' = ''1''"
    by (rule TrimSpace_graph_all, simp add: is_graph_def code_of_def)+
  have "ValidatePluginDependencySet Some Some (=) plugins = Inr ()"
    by (simp add: ValidatePluginDependencySet_def plugins_def check_dependency_def by_id_def t map_err_def
        pluginDependencyStatusAvailable_def)
  moreover have "ValidatePluginDeactivation ''c'' plugins = Inr ()"
    by (simp add: ValidatePluginDeactivation_def plugins_def t)
  ultimately have "ValidatePluginDependencySet Some Some (=) (filter (\<lambda>d. TrimSpace (PD_ID d) \<noteq> TrimSpace ''c'') plugins) = Inr ()"
    by (rule deactivation_keeps_dependencies)
  moreover have "filter (\<lambda>d. TrimSpace (PD_ID d) \<noteq> TrimSpace ''c'') plugins = take 2 plugins"
    by (simp add: plugins_def t)
  ultimately show ?thesis
    by (simp add: ValidatePluginDeactivation_def plugins_def t pluginDependencyStatusAvailable_def)
qed

end
