(* ===== verification/HookRunner.thy ===== *)
theory HookRunner
  imports PluginPermissions
begin

text \<open>
  The execution of the hooks of a stage (\<open>gateway_runner.go\<close>): the input a hook is shown, the check of
  its answer, what a failure does, and the run of a whole stage.

  A handler is a function from the input it is shown to its answer, the error of its context after the
  call (its deadline), and the measured time; handlers of a run do not share state. Every call of a
  handler returns: one that panics, or that ignores its deadline for ever, is not represented, and would
  take the run of the stage with it, since the runner does not recover and calls the handler directly. A nil message is the
  empty string; \<open>None\<close> is a nil map of data. Errors are values of \<open>run_error\<close> instead of texts. The
  decoder \<open>js\<close> stands for \<open>json.Unmarshal\<close> at the four types the code decodes.
\<close>

section \<open>Data\<close>

record TextSegment =
  Seg_ID :: string
  Seg_Text :: string

record GatewayEnvelope =
  E_RouteProtocol :: string
  E_Version :: string
  E_Protocol :: string
  E_Operation :: string
  E_Model :: string
  E_RequestBody :: string
  E_NormalizedText :: "TextSegment list"
  E_Metadata :: "(string \<times> string) list"

type_synonym GatewayHookData = "(string \<times> string) list option"

record GatewayHookInput =
  I_RequestID :: string
  I_Stage :: string
  I_Envelope :: GatewayEnvelope
  I_Data :: GatewayHookData
  I_OriginalEnvelope :: GatewayEnvelope
  I_OriginalData :: GatewayHookData

record GatewayHookResult =
  HR_Decision :: string
  HR_Writes :: "(string \<times> string) list"
  HR_AuditEvents :: "string list"

datatype run_error =
    RunnerNotConfigured
  | HandlerRequired
  | IdentityRequired
  | HandlerMissing string string
  | PermissionDenied permission_error
  | HandlerFailed string
  | ContextFailed string
  | UnsupportedStage string
  | UnsupportedDecision string
  | DenyNotAllowed string
  | ShortCircuitNotAllowed string
  | UndeclaredWrite string
  | ForbiddenWrite string
  | ScopeMismatch
  | RouteSkipped run_error
  | HookDenied

record GatewayHookRunResult =
  R_PluginID :: string
  R_HookID :: string
  R_Decision :: string
  R_Writes :: "(string \<times> string) list"
  R_AuditEvents :: "string list"
  R_FailurePolicy :: string
  R_Status :: string
  R_Error :: "run_error option"
  R_DurationMS :: int

record GatewayHookRunReport =
  Rep_Stage :: string
  Rep_Results :: "GatewayHookRunResult list"
  Rep_TerminalDecision :: string

record handler =
  ExecuteGatewayHook :: "GatewayHookInput \<Rightarrow> (string + GatewayHookResult) \<times> string option \<times> int"
  PluginPermissionGrant :: "PermissionGrant option"

record GatewayHookRunner =
  RN_chain :: "GatewayChainRegistry option"
  RN_handlers :: "string \<Rightarrow> handler option"

record json_decoder =
  decode_segments :: "string \<Rightarrow> TextSegment list option"
  decode_object :: "string \<Rightarrow> (string \<times> string) list option"
  decode_objects :: "string \<Rightarrow> (string \<times> string) list list option"
  decode_string :: "string \<Rightarrow> string option"

definition items :: "GatewayHookData \<Rightarrow> (string \<times> string) list" where
  "items data = (case data of None \<Rightarrow> [] | Some m \<Rightarrow> m)"

section \<open>Handlers\<close>

definition gatewayHookKey :: "GatewayHookDescriptor \<Rightarrow> string" where
  "gatewayHookKey hook = H_PluginID hook @ [CHR 0x00] @ H_HookID hook"

definition NewGatewayHookRunner :: "GatewayChainRegistry option \<Rightarrow> GatewayHookRunner option" where
  "NewGatewayHookRunner chain = Some \<lparr>RN_chain = chain, RN_handlers = (\<lambda>_. None)\<rparr>"

definition RegisterHandler ::
  "GatewayHookDescriptor \<Rightarrow> handler option \<Rightarrow> GatewayHookRunner option \<Rightarrow> run_error + GatewayHookRunner option" where
  "RegisterHandler descriptor0 h r =
     (case r of
        None \<Rightarrow> Inl RunnerNotConfigured
      | Some runner \<Rightarrow>
          if h = None then Inl HandlerRequired
          else let d = NormalizeGatewayHookDescriptor descriptor0 in
            if H_PluginID d = [] \<or> H_HookID d = [] then Inl IdentityRequired
            else Inr (Some (runner\<lparr>RN_handlers := (RN_handlers runner)(gatewayHookKey d := h)\<rparr>)))"

definition NoopGatewayHookHandler :: handler where
  "NoopGatewayHookHandler =
     \<lparr>ExecuteGatewayHook = (\<lambda>_. (Inr \<lparr>HR_Decision = ''continue'', HR_Writes = [], HR_AuditEvents = []\<rparr>, None, 0)),
      PluginPermissionGrant = None\<rparr>"

definition PluginPermissionGrantFromHandler :: "handler \<Rightarrow> PermissionGrant option" where
  "PluginPermissionGrantFromHandler h =
     map_option (\<lambda>grant. grant\<lparr>G_Permissions := NormalizePermissionDescriptors (G_Permissions grant)\<rparr>) (PluginPermissionGrant h)"

section \<open>The scope of a call\<close>

definition setIfPresent :: "json_decoder \<Rightarrow> (string \<times> string) list \<Rightarrow> string \<Rightarrow> string \<Rightarrow> string" where
  "setIfPresent js object key target =
     (if target \<noteq> [] then target
      else case map_of object key of
        None \<Rightarrow> target
      | Some raw \<Rightarrow> (case decode_string js raw of None \<Rightarrow> target | Some value \<Rightarrow> value))"

definition mergeGatewayProjectScopeFromRaw :: "json_decoder \<Rightarrow> string \<Rightarrow> GatewayHookScopeTarget \<Rightarrow> GatewayHookScopeTarget" where
  "mergeGatewayProjectScopeFromRaw js raw target =
     (if raw = [] then target
      else case decode_object js raw of
        None \<Rightarrow> target
      | Some object \<Rightarrow>
          target\<lparr>T_ProjectID := setIfPresent js object ''project_id'' (setIfPresent js object ''id'' (T_ProjectID target))\<rparr>)"

definition mergeGatewayAPIKeyScopeFromRaw :: "json_decoder \<Rightarrow> string \<Rightarrow> GatewayHookScopeTarget \<Rightarrow> GatewayHookScopeTarget" where
  "mergeGatewayAPIKeyScopeFromRaw js raw target =
     (if raw = [] then target
      else case decode_object js raw of
        None \<Rightarrow> target
      | Some object \<Rightarrow>
          target\<lparr>T_APIKeyID := setIfPresent js object ''api_key_id'' (setIfPresent js object ''id'' (T_APIKeyID target)),
                 T_ProjectID := setIfPresent js object ''project_id'' (T_ProjectID target)\<rparr>)"

definition mergeGatewayRouteScopeFromObject ::
  "json_decoder \<Rightarrow> (string \<times> string) list \<Rightarrow> GatewayHookScopeTarget \<Rightarrow> GatewayHookScopeTarget" where
  "mergeGatewayRouteScopeFromObject js object target =
     \<lparr>T_ProjectID = setIfPresent js object ''project_id'' (T_ProjectID target),
      T_APIKeyID = setIfPresent js object ''api_key_id'' (T_APIKeyID target),
      T_ProviderType = setIfPresent js object ''provider_type'' (T_ProviderType target),
      T_ProviderID = setIfPresent js object ''provider_id'' (T_ProviderID target),
      T_ResourceID = setIfPresent js object ''resource_id'' (T_ResourceID target),
      T_ResourceType = setIfPresent js object ''resource_type'' (T_ResourceType target),
      T_RouteProtocol = setIfPresent js object ''protocol'' (setIfPresent js object ''route_protocol'' (T_RouteProtocol target)),
      T_Operation = setIfPresent js object ''operation'' (T_Operation target)\<rparr>"

definition mergeGatewayRouteScopeFromRaw :: "json_decoder \<Rightarrow> string \<Rightarrow> GatewayHookScopeTarget \<Rightarrow> GatewayHookScopeTarget" where
  "mergeGatewayRouteScopeFromRaw js raw target =
     (if raw = [] then target
      else case decode_object js raw of
        Some object \<Rightarrow> mergeGatewayRouteScopeFromObject js object target
      | None \<Rightarrow>
          (case decode_objects js raw of
             Some (object # _) \<Rightarrow> mergeGatewayRouteScopeFromObject js object target
           | _ \<Rightarrow> target))"

definition gatewayHookScopeTargetFromInput :: "json_decoder \<Rightarrow> GatewayHookInput \<Rightarrow> GatewayHookScopeTarget" where
  "gatewayHookScopeTargetFromInput js input =
     (let e = I_Envelope input; data = items (I_Data input); metadata = E_Metadata e;
          target0 = \<lparr>T_ProjectID = [], T_APIKeyID = [], T_ProviderType = [], T_ProviderID = [], T_ResourceID = [],
            T_ResourceType = [],
            T_RouteProtocol = (if E_RouteProtocol e = [] \<and> E_Protocol e \<noteq> ''gateway'' then E_Protocol e else E_RouteProtocol e),
            T_Operation = E_Operation e\<rparr>;
          target1 = mergeGatewayProjectScopeFromRaw js (meta data ''project_metadata'') target0;
          target2 = mergeGatewayAPIKeyScopeFromRaw js (meta data ''api_key_metadata'') target1;
          target3 = mergeGatewayRouteScopeFromRaw js (meta data ''route_candidates'') target2
      in if metadata \<noteq> []
         then mergeGatewayRouteScopeFromRaw js (meta metadata ''scope'')
                (mergeGatewayRouteScopeFromRaw js (meta metadata ''route'') target3)
         else target3)"

definition gatewayHookScopeMatchesInput :: "json_decoder \<Rightarrow> GatewayHookDescriptor \<Rightarrow> GatewayHookInput \<Rightarrow> bool" where
  "gatewayHookScopeMatchesInput js hook input =
     (let target = gatewayHookScopeTargetFromInput js input; raw = meta (items (I_Data input)) ''route_candidates'' in
      if E_Operation (I_Envelope input) \<noteq> ''route_candidates'' \<and> E_Operation (I_Envelope input) \<noteq> ''route_rank''
      then GatewayHookScopeMatches hook target
      else if raw = [] then GatewayHookScopeMatches hook target
      else case decode_objects js raw of
        None \<Rightarrow> GatewayHookScopeMatches hook target
      | Some candidates \<Rightarrow>
          if candidates = [] then GatewayHookScopeMatches hook target
          else let baseInput = input\<lparr>I_Data := Some (filter (\<lambda>(key, value). key \<noteq> ''route_candidates'') (items (I_Data input)))\<rparr>;
                   baseTarget = gatewayHookScopeTargetFromInput js baseInput
               in list_ex (\<lambda>candidate. GatewayHookScopeMatches hook (mergeGatewayRouteScopeFromObject js candidate baseTarget)) candidates)"

section \<open>Input and answer of one hook\<close>

definition clipGatewayHookData :: "GatewayHookData \<Rightarrow> string list \<Rightarrow> GatewayHookData" where
  "clipGatewayHookData data reads =
     (let clipped = filter (\<lambda>(c, v). c \<in> set reads) (items data) in if clipped = [] then None else Some clipped)"

definition clipGatewayHookInput :: "GatewayHookInput \<Rightarrow> string list \<Rightarrow> GatewayHookInput" where
  "clipGatewayHookInput input reads =
     (let e = I_Envelope input in
      \<lparr>I_RequestID = I_RequestID input, I_Stage = I_Stage input,
       I_Envelope =
         \<lparr>E_RouteProtocol = E_RouteProtocol e, E_Version = E_Version e, E_Protocol = E_Protocol e, E_Operation = E_Operation e,
          E_Model = E_Model e,
          E_RequestBody = (if ''request_body'' \<in> set reads \<or> ''provider_request'' \<in> set reads \<or> ''provider_response'' \<in> set reads
                           then E_RequestBody e else []),
          E_NormalizedText = (if ''normalized_text'' \<in> set reads then E_NormalizedText e else []),
          E_Metadata = []\<rparr>,
       I_Data = clipGatewayHookData (I_Data input) reads,
       I_OriginalEnvelope = I_OriginalEnvelope input,
       I_OriginalData = clipGatewayHookData (I_OriginalData input) reads\<rparr>)"

definition gatewayEnvelopeEmpty :: "GatewayEnvelope \<Rightarrow> bool" where
  "gatewayEnvelopeEmpty e \<longleftrightarrow>
     E_Version e = [] \<and> E_Protocol e = [] \<and> E_Operation e = [] \<and> E_Model e = [] \<and> E_RequestBody e = [] \<and>
     E_NormalizedText e = [] \<and> E_Metadata e = []"

definition cloneGatewayHookData :: "GatewayHookData \<Rightarrow> GatewayHookData" where
  "cloneGatewayHookData data = (if items data = [] then None else Some (items data))"

definition preserveGatewayHookOriginals :: "GatewayHookInput \<Rightarrow> GatewayHookInput" where
  "preserveGatewayHookOriginals input0 =
     (let input = (if gatewayEnvelopeEmpty (I_OriginalEnvelope input0)
                   then input0\<lparr>I_OriginalEnvelope := I_Envelope input0\<rparr> else input0)
      in if I_OriginalData input = None then input\<lparr>I_OriginalData := cloneGatewayHookData (I_Data input)\<rparr> else input)"

definition apply_write :: "json_decoder \<Rightarrow> GatewayHookInput \<Rightarrow> string \<times> string \<Rightarrow> GatewayHookInput" where
  "apply_write js input write =
     (case write of (dataClass, value) \<Rightarrow>
      let input1 = input\<lparr>I_Data := Some (AList.update dataClass value (items (I_Data input)))\<rparr> in
      if dataClass = ''request_body'' \<or> dataClass = ''provider_request'' \<or> dataClass = ''provider_response''
      then input1\<lparr>I_Envelope := (I_Envelope input1)\<lparr>E_RequestBody := value\<rparr>\<rparr>
      else if dataClass = ''normalized_text'' then
        (case decode_segments js value of
           Some segments \<Rightarrow> input1\<lparr>I_Envelope := (I_Envelope input1)\<lparr>E_NormalizedText := segments\<rparr>\<rparr>
         | None \<Rightarrow> input1)
      else input1)"

definition applyGatewayHookWritesToInput :: "json_decoder \<Rightarrow> GatewayHookInput \<Rightarrow> (string \<times> string) list \<Rightarrow> GatewayHookInput" where
  "applyGatewayHookWritesToInput js input writes = foldl (apply_write js) input writes"

definition validateGatewayHookResult :: "GatewayHookDescriptor \<Rightarrow> GatewayHookResult \<Rightarrow> run_error + unit" where
  "validateGatewayHookResult hook result =
     (case GatewayStagePolicy (H_Stage hook) of
        None \<Rightarrow> Inl (UnsupportedStage (H_Stage hook))
      | Some policy \<Rightarrow>
          if HR_Decision result \<notin> set [''continue'', ''deny'', ''short_circuit''] then Inl (UnsupportedDecision (HR_Decision result))
          else if HR_Decision result = ''deny'' \<and> \<not> AllowsDeny policy then Inl (DenyNotAllowed (H_Stage hook))
          else if HR_Decision result = ''short_circuit'' \<and> \<not> AllowsShortCircuit policy then Inl (ShortCircuitNotAllowed (H_Stage hook))
          else case find (\<lambda>(c, v). c \<notin> set (H_Writes hook) \<or> c \<notin> set (PolicyWrites policy)) (HR_Writes result) of
            None \<Rightarrow> Inr ()
          | Some (c, v) \<Rightarrow> Inl (if c \<notin> set (H_Writes hook) then UndeclaredWrite c else ForbiddenWrite c))"

definition MaxGatewayHookAuditEventsPerRun :: nat where
  "MaxGatewayHookAuditEventsPerRun = 16"

definition MaxGatewayHookAuditEventBytes :: nat where
  "MaxGatewayHookAuditEventBytes = 16384"

definition boundedGatewayHookAuditEvents :: "string list \<Rightarrow> string list" where
  "boundedGatewayHookAuditEvents values =
     map (\<lambda>value.
       let trimmed = TrimSpace value in
       if length trimmed > MaxGatewayHookAuditEventBytes
       then ''{'' @ [CHR 0x22] @ ''truncated'' @ [CHR 0x22] @ '':true,'' @ [CHR 0x22] @ ''bytes'' @ [CHR 0x22] @ '':'' @ show_nat (length trimmed) @
            '','' @ [CHR 0x22] @ ''limit_bytes'' @ [CHR 0x22] @ '':'' @ show_nat MaxGatewayHookAuditEventBytes @ ''}''
       else trimmed)
     (take MaxGatewayHookAuditEventsPerRun values)"

definition applyGatewayHookFailure ::
  "GatewayHookRunResult \<Rightarrow> GatewayHookDescriptor \<Rightarrow> run_error \<Rightarrow> GatewayHookRunResult \<times> run_error option" where
  "applyGatewayHookFailure run hook err =
     (let failed = run\<lparr>R_Status := ''failed'', R_Error := Some err\<rparr> in
      if H_FailurePolicy hook = ''fail_open'' \<or> H_FailurePolicy hook = ''observe_only''
      then (failed\<lparr>R_Status := ''skipped''\<rparr>, None)
      else if H_FailurePolicy hook = ''skip_route'' then (failed, Some (RouteSkipped err))
      else (failed, Some err))"

definition skippedGatewayHookRunResult :: "GatewayHookDescriptor \<Rightarrow> string \<Rightarrow> run_error \<Rightarrow> GatewayHookRunResult" where
  "skippedGatewayHookRunResult hook status reason =
     \<lparr>R_PluginID = H_PluginID hook, R_HookID = H_HookID hook, R_Decision = ''continue'', R_Writes = [], R_AuditEvents = [],
      R_FailurePolicy = H_FailurePolicy hook, R_Status = status, R_Error = Some reason, R_DurationMS = 0\<rparr>"

definition elapsedMillis :: "int \<Rightarrow> int" where
  "elapsedMillis elapsed = (if elapsed < 0 then 0 else elapsed)"

definition settled_result :: "GatewayHookDescriptor \<Rightarrow> GatewayHookResult \<Rightarrow> GatewayHookResult" where
  "settled_result hook result0 =
     (let result = (if HR_Decision result0 = [] then result0\<lparr>HR_Decision := ''continue''\<rparr> else result0)
      in if H_FailurePolicy hook = ''observe_only'' then result\<lparr>HR_Decision := ''continue'', HR_Writes := []\<rparr> else result)"

definition handler_answer :: "handler \<Rightarrow> GatewayHookDescriptor \<Rightarrow> GatewayHookInput \<Rightarrow> (run_error + GatewayHookResult) \<times> int" where
  "handler_answer h hook input =
     (case ExecuteGatewayHook h ((clipGatewayHookInput input (H_Reads hook))\<lparr>I_Stage := H_Stage hook\<rparr>) of
        (Inl e, _, elapsed) \<Rightarrow> (Inl (HandlerFailed e), elapsed)
      | (Inr result, Some e, elapsed) \<Rightarrow> (Inl (ContextFailed e), elapsed)
      | (Inr result, None, elapsed) \<Rightarrow> (Inr (settled_result hook result), elapsed))"

definition runHook ::
  "(string \<Rightarrow> handler option) \<Rightarrow> int \<Rightarrow> GatewayHookDescriptor \<Rightarrow> GatewayHookInput \<Rightarrow> GatewayHookRunResult \<times> run_error option" where
  "runHook handlers early hook0 input =
     (let hook = NormalizeGatewayHookDescriptor hook0;
          run = \<lparr>R_PluginID = H_PluginID hook, R_HookID = H_HookID hook, R_Decision = ''continue'', R_Writes = [],
                 R_AuditEvents = [], R_FailurePolicy = H_FailurePolicy hook, R_Status = ''skipped'', R_Error = None,
                 R_DurationMS = elapsedMillis early\<rparr>
      in case handlers (gatewayHookKey hook) of
        None \<Rightarrow> applyGatewayHookFailure run hook (HandlerMissing (H_PluginID hook) (H_HookID hook))
      | Some h \<Rightarrow>
          (case (case PluginPermissionGrantFromHandler h of
                   None \<Rightarrow> Inr () | Some grant \<Rightarrow> RequireGatewayHookPermissions hook grant) of
             Inl e \<Rightarrow> applyGatewayHookFailure run hook (PermissionDenied e)
           | Inr _ \<Rightarrow>
               (case handler_answer h hook input of
                  (Inl e, elapsed) \<Rightarrow> applyGatewayHookFailure (run\<lparr>R_DurationMS := elapsedMillis elapsed\<rparr>) hook e
                | (Inr result, elapsed) \<Rightarrow>
                    (case validateGatewayHookResult hook result of
                       Inl e \<Rightarrow> applyGatewayHookFailure (run\<lparr>R_DurationMS := elapsedMillis elapsed\<rparr>) hook e
                     | Inr _ \<Rightarrow>
                         (run\<lparr>R_Status := ''succeeded'', R_Decision := HR_Decision result, R_Writes := HR_Writes result,
                              R_AuditEvents := boundedGatewayHookAuditEvents (HR_AuditEvents result),
                              R_DurationMS := elapsedMillis elapsed\<rparr>, None)))))"

section \<open>The run of a stage\<close>

fun run_hooks ::
  "json_decoder \<Rightarrow> (string \<Rightarrow> handler option) \<Rightarrow> (GatewayHookDescriptor \<Rightarrow> int) \<Rightarrow> string \<Rightarrow> GatewayHookInput \<Rightarrow>
   GatewayHookRunResult list \<Rightarrow> GatewayHookDescriptor list \<Rightarrow> GatewayHookRunReport \<times> run_error option" where
  "run_hooks js handlers early stage input done [] =
     (\<lparr>Rep_Stage = stage, Rep_Results = done, Rep_TerminalDecision = []\<rparr>, None)"
| "run_hooks js handlers early stage input done (hook0 # rest) =
     (let hook = NormalizeGatewayHookDescriptor hook0 in
      if H_Stage hook \<noteq> stage then run_hooks js handlers early stage input done rest
      else if \<not> gatewayHookScopeMatchesInput js hook input
      then run_hooks js handlers early stage input (done @ [skippedGatewayHookRunResult hook ''skipped'' ScopeMismatch]) rest
      else case runHook handlers (early hook) hook input of
        (result, Some err) \<Rightarrow> (\<lparr>Rep_Stage = stage, Rep_Results = done @ [result], Rep_TerminalDecision = []\<rparr>, Some err)
      | (result, None) \<Rightarrow>
          let input1 = applyGatewayHookWritesToInput js input (R_Writes result) in
          if R_Decision result \<noteq> ''continue''
          then (\<lparr>Rep_Stage = stage, Rep_Results = done @ [result], Rep_TerminalDecision = R_Decision result\<rparr>,
                if R_Decision result = ''deny'' then Some HookDenied else None)
          else run_hooks js handlers early stage input1 (done @ [result]) rest)"

definition RunStageHooks ::
  "json_decoder \<Rightarrow> (GatewayHookDescriptor \<Rightarrow> int) \<Rightarrow> GatewayHookRunner option \<Rightarrow> string \<Rightarrow> GatewayHookInput \<Rightarrow> GatewayHookDescriptor list \<Rightarrow>
   GatewayHookRunReport \<times> run_error option" where
  "RunStageHooks js early r stage input hooks =
     (case r of
        None \<Rightarrow> (\<lparr>Rep_Stage = stage, Rep_Results = [], Rep_TerminalDecision = []\<rparr>, None)
      | Some runner \<Rightarrow> run_hooks js (RN_handlers runner) early stage (preserveGatewayHookOriginals input) [] hooks)"

definition RunStage ::
  "json_decoder \<Rightarrow> (GatewayHookDescriptor \<Rightarrow> int) \<Rightarrow> GatewayHookRunner option \<Rightarrow> string \<Rightarrow> GatewayHookInput \<Rightarrow>
   GatewayHookRunReport \<times> run_error option" where
  "RunStage js early r stage input =
     (case r of
        None \<Rightarrow> (\<lparr>Rep_Stage = stage, Rep_Results = [], Rep_TerminalDecision = []\<rparr>, None)
      | Some runner \<Rightarrow>
          if RN_chain runner = None then (\<lparr>Rep_Stage = stage, Rep_Results = [], Rep_TerminalDecision = []\<rparr>, None)
          else RunStageHooks js early r stage input (Hooks (RN_chain runner) stage))"

fun IsGatewayHookDenied :: "run_error \<Rightarrow> bool" where
  "IsGatewayHookDenied HookDenied = True"
| "IsGatewayHookDenied (RouteSkipped e) = IsGatewayHookDenied e"
| "IsGatewayHookDenied _ = False"

fun IsGatewayHookRouteSkipped :: "run_error \<Rightarrow> bool" where
  "IsGatewayHookRouteSkipped (RouteSkipped e) = True"
| "IsGatewayHookRouteSkipped _ = False"

section \<open>Answers stay within the declaration\<close>

text \<open>What the result of a hook may contain, given the descriptor of the hook and its stage.\<close>

definition confined :: "string \<Rightarrow> GatewayHookDescriptor \<Rightarrow> GatewayHookRunResult \<Rightarrow> bool" where
  "confined stage h r \<longleftrightarrow>
     R_PluginID r = TrimSpace (H_PluginID h) \<and> R_HookID r = TrimSpace (H_HookID h) \<and>
     fst ` set (R_Writes r) \<subseteq> set (H_Writes h) \<and>
     length (R_AuditEvents r) \<le> MaxGatewayHookAuditEventsPerRun \<and>
     (H_FailurePolicy h = ''observe_only'' \<longrightarrow> R_Writes r = [] \<and> R_Decision r = ''continue'') \<and>
     (case GatewayStagePolicy stage of
        None \<Rightarrow> R_Decision r = ''continue'' \<and> R_Writes r = []
      | Some policy \<Rightarrow>
          fst ` set (R_Writes r) \<subseteq> set (PolicyWrites policy) \<and>
          R_Decision r \<in> {''continue'', ''deny'', ''short_circuit''} \<and>
          (R_Decision r = ''deny'' \<longrightarrow> AllowsDeny policy) \<and>
          (R_Decision r = ''short_circuit'' \<longrightarrow> AllowsShortCircuit policy))"

lemma normalize_keeps [simp]:
  "H_Stage (NormalizeGatewayHookDescriptor h) = H_Stage h"
  "H_PluginID (NormalizeGatewayHookDescriptor h) = TrimSpace (H_PluginID h)"
  "H_HookID (NormalizeGatewayHookDescriptor h) = TrimSpace (H_HookID h)"
  "H_FailurePolicy (NormalizeGatewayHookDescriptor h) = default_failure h"
  "set (H_Reads (NormalizeGatewayHookDescriptor h)) = {c \<in> set (H_Reads h). c \<noteq> []}"
  by (simp_all add: NormalizeGatewayHookDescriptor_def Let_def)

lemma normalize_writes: "set (H_Writes (NormalizeGatewayHookDescriptor h)) \<subseteq> set (H_Writes h)"
  by (auto simp: NormalizeGatewayHookDescriptor_def Let_def split: if_splits)

lemma failure_nonempty [simp]: "H_FailurePolicy h \<noteq> [] \<Longrightarrow> default_failure h = H_FailurePolicy h"
  by (simp add: default_failure_def)

lemma validated_result:
  assumes "validateGatewayHookResult hook result = Inr ()"
  obtains policy where "GatewayStagePolicy (H_Stage hook) = Some policy"
    "fst ` set (HR_Writes result) \<subseteq> set (H_Writes hook)" "fst ` set (HR_Writes result) \<subseteq> set (PolicyWrites policy)"
    "HR_Decision result \<in> {''continue'', ''deny'', ''short_circuit''}"
    "HR_Decision result = ''deny'' \<longrightarrow> AllowsDeny policy"
    "HR_Decision result = ''short_circuit'' \<longrightarrow> AllowsShortCircuit policy"
proof -
  obtain policy where p: "GatewayStagePolicy (H_Stage hook) = Some policy"
    using assms by (auto simp: validateGatewayHookResult_def split: option.splits)
  have "find (\<lambda>(c, v). c \<notin> set (H_Writes hook) \<or> c \<notin> set (PolicyWrites policy)) (HR_Writes result) = None"
    using assms p by (auto simp: validateGatewayHookResult_def split: option.splits if_splits)
  then show thesis
    using assms p by (intro that [OF p]) (auto simp: validateGatewayHookResult_def find_None_iff split: if_splits)
qed

lemma applyGatewayHookFailure_keeps:
  "R_PluginID (fst (applyGatewayHookFailure run hook e)) = R_PluginID run"
  "R_HookID (fst (applyGatewayHookFailure run hook e)) = R_HookID run"
  "R_Writes (fst (applyGatewayHookFailure run hook e)) = R_Writes run"
  "R_Decision (fst (applyGatewayHookFailure run hook e)) = R_Decision run"
  "R_AuditEvents (fst (applyGatewayHookFailure run hook e)) = R_AuditEvents run"
  by (simp_all add: applyGatewayHookFailure_def Let_def)

lemma applyGatewayHookFailure_open:
  "H_FailurePolicy hook = ''fail_open'' \<or> H_FailurePolicy hook = ''observe_only'' \<Longrightarrow> snd (applyGatewayHookFailure run hook e) = None"
  by (auto simp: applyGatewayHookFailure_def Let_def)

text \<open>The run of a hook either fails, keeping the empty result, or settles a validated answer.\<close>

lemma runHook_cases:
  obtains (failed) run e where "runHook handlers early hook input = applyGatewayHookFailure run (NormalizeGatewayHookDescriptor hook) e"
      "R_PluginID run = TrimSpace (H_PluginID hook)" "R_HookID run = TrimSpace (H_HookID hook)"
      "R_Decision run = ''continue''" "R_Writes run = []" "R_AuditEvents run = []"
  | (answered) result0 where "snd (runHook handlers early hook input) = None"
      "R_PluginID (fst (runHook handlers early hook input)) = TrimSpace (H_PluginID hook)"
      "R_HookID (fst (runHook handlers early hook input)) = TrimSpace (H_HookID hook)"
      "validateGatewayHookResult (NormalizeGatewayHookDescriptor hook) (settled_result (NormalizeGatewayHookDescriptor hook) result0) = Inr ()"
      "R_Decision (fst (runHook handlers early hook input)) = HR_Decision (settled_result (NormalizeGatewayHookDescriptor hook) result0)"
      "R_Writes (fst (runHook handlers early hook input)) = HR_Writes (settled_result (NormalizeGatewayHookDescriptor hook) result0)"
      "length (R_AuditEvents (fst (runHook handlers early hook input))) \<le> MaxGatewayHookAuditEventsPerRun"
proof -
  let ?hook = "NormalizeGatewayHookDescriptor hook"
  let ?run = "\<lparr>R_PluginID = H_PluginID ?hook, R_HookID = H_HookID ?hook, R_Decision = ''continue'', R_Writes = [],
     R_AuditEvents = [], R_FailurePolicy = H_FailurePolicy ?hook, R_Status = ''skipped'', R_Error = None,
     R_DurationMS = elapsedMillis early\<rparr>"
  show thesis
  proof (cases "handlers (gatewayHookKey ?hook)")
    case None
    then show thesis by (intro failed [of ?run]) (simp_all add: runHook_def Let_def)
  next
    case (Some h)
    let ?perm = "case PluginPermissionGrantFromHandler h of None \<Rightarrow> Inr () | Some grant \<Rightarrow> RequireGatewayHookPermissions ?hook grant"
    show thesis
    proof (cases ?perm)
      case (Inl e)
      then show thesis using Some by (intro failed [of ?run]) (simp_all add: runHook_def Let_def)
    next
      case (Inr u)
      obtain answer elapsed where a: "handler_answer h ?hook input = (answer, elapsed)" by fastforce
      show thesis
      proof (cases answer)
        case (Inl e)
        then show thesis using Some Inr a
          by (intro failed [of "?run\<lparr>R_DurationMS := elapsedMillis elapsed\<rparr>"]) (simp_all add: runHook_def Let_def)
      next
        case (Inr result)
        then obtain result0 where s: "result = settled_result ?hook result0"
          using a by (auto simp: handler_answer_def split: prod.splits sum.splits option.splits)
        note now = Some \<open>?perm = Inr u\<close> a Inr
        show thesis
        proof (cases "validateGatewayHookResult ?hook result")
          case (Inl e)
          then show thesis using now
            by (intro failed [of "?run\<lparr>R_DurationMS := elapsedMillis elapsed\<rparr>"]) (simp_all add: runHook_def Let_def)
        next
          case (Inr v)
          then show thesis using now
            by (intro answered [of result0]) (simp_all add: runHook_def Let_def s boundedGatewayHookAuditEvents_def)
        qed
      qed
    qed
  qed
qed

lemma settled_observe:
  "H_FailurePolicy hook = ''observe_only'' \<Longrightarrow> HR_Decision (settled_result hook r) = ''continue'' \<and> HR_Writes (settled_result hook r) = []"
  by (simp add: settled_result_def Let_def)

lemma normalize_twice_failure:
  "hook_ok stage h \<Longrightarrow> default_failure (NormalizeGatewayHookDescriptor h) = H_FailurePolicy h"
  using hook_ok_failure by (simp add: default_failure_def)

lemma runHook_confined:
  assumes "hook_ok stage h"
  shows "confined stage h (fst (runHook handlers early (NormalizeGatewayHookDescriptor h) input))"
proof -
  let ?n = "NormalizeGatewayHookDescriptor h"
  note f = hook_ok_failure [OF assms] normalize_twice_failure [OF assms]
  show ?thesis
  proof (cases rule: runHook_cases [of handlers early ?n input])
    case (failed run e)
    then show ?thesis by (auto simp: confined_def applyGatewayHookFailure_keeps split: option.split)
  next
    case (answered result0)
    from validated_result [OF answered(4)] obtain policy where p: "GatewayStagePolicy stage = Some policy"
      "fst ` set (HR_Writes (settled_result (NormalizeGatewayHookDescriptor ?n) result0)) \<subseteq> set (H_Writes (NormalizeGatewayHookDescriptor ?n))"
      "fst ` set (HR_Writes (settled_result (NormalizeGatewayHookDescriptor ?n) result0)) \<subseteq> set (PolicyWrites policy)"
      "HR_Decision (settled_result (NormalizeGatewayHookDescriptor ?n) result0) \<in> {''continue'', ''deny'', ''short_circuit''}"
      "HR_Decision (settled_result (NormalizeGatewayHookDescriptor ?n) result0) = ''deny'' \<longrightarrow> AllowsDeny policy"
      "HR_Decision (settled_result (NormalizeGatewayHookDescriptor ?n) result0) = ''short_circuit'' \<longrightarrow> AllowsShortCircuit policy"
      using f(3) by auto
    have w: "set (H_Writes (NormalizeGatewayHookDescriptor ?n)) \<subseteq> set (H_Writes h)"
      using normalize_writes [of ?n] normalize_writes [of h] by blast
    have o: "HR_Writes (settled_result (NormalizeGatewayHookDescriptor ?n) result0) = [] \<and>
        HR_Decision (settled_result (NormalizeGatewayHookDescriptor ?n) result0) = ''continue''"
      if "H_FailurePolicy h = ''observe_only''"
      using settled_observe [of "NormalizeGatewayHookDescriptor ?n" result0] f(4) that by simp
    show ?thesis unfolding confined_def answered(2,3,5,6) p(1)
      using p(2-6) w o answered(7) by (auto simp del: normalize_keeps(4,5))
  qed
qed

lemma skipped_confined:
  "hook_ok stage h \<Longrightarrow> confined stage h (skippedGatewayHookRunResult (NormalizeGatewayHookDescriptor h) ''skipped'' ScopeMismatch)"
  by (auto simp: confined_def skippedGatewayHookRunResult_def split: option.split)

lemma run_hooks_results:
  assumes "\<forall>h \<in> set hooks. hook_ok stage h" and "\<forall>r \<in> set results. P r"
    and "\<And>h r. h \<in> set hooks \<Longrightarrow> confined stage h r \<Longrightarrow> P r"
  shows "\<forall>r \<in> set (Rep_Results (fst (run_hooks js handlers early stage input results hooks))). P r"
  using assms
proof (induction hooks arbitrary: input results)
  case (Cons h hooks)
  let ?n = "NormalizeGatewayHookDescriptor h"
  let ?run = "runHook handlers (early ?n) ?n input"
  have h: "hook_ok stage h" using Cons.prems(1) by simp
  have step: "P (fst ?run)" "P (skippedGatewayHookRunResult ?n ''skipped'' ScopeMismatch)"
    by (rule Cons.prems(3) [OF _ runHook_confined [OF h]], simp) (rule Cons.prems(3) [OF _ skipped_confined [OF h]], simp)
  have rest: "\<forall>r \<in> set (Rep_Results (fst (run_hooks js handlers early stage i acc hooks))). P r"
    if "\<forall>r \<in> set acc. P r" for i acc
  proof (rule Cons.IH [OF _ that])
    show "\<forall>h \<in> set hooks. hook_ok stage h" using Cons.prems(1) by simp
    show "P r" if "k \<in> set hooks" "confined stage k r" for k r using Cons.prems(3) [of k r] that by simp
  qed
  have st: "H_Stage ?n = stage" using hook_ok_failure(3) [OF h] by simp
  obtain result err where run: "?run = (result, err)" by fastforce
  show ?case
  proof (cases "gatewayHookScopeMatchesInput js ?n input")
    case False
    then show ?thesis
      using st rest [of "results @ [skippedGatewayHookRunResult ?n ''skipped'' ScopeMismatch]" input] step Cons.prems(2)
      by (simp add: Let_def)
  next
    case True
    show ?thesis
      using st True rest [of "results @ [result]" "applyGatewayHookWritesToInput js input (R_Writes result)"] step(1) Cons.prems(2) run
      by (cases err) (simp_all add: Let_def)
  qed
qed simp

text \<open>(C20) Whatever its handler answers, a hook of the registry writes only data classes that it declared
  and that its stage allows, decides only what the stage allows, neither writes nor decides when it
  only observes, and leaves at most sixteen audit events.\<close>

theorem RunStage_confined:
  assumes "registered (RN_chain runner)"
    and "RunStage js early (Some runner) stage input = (report, err)" and "r \<in> set (Rep_Results report)"
  shows "\<exists>h \<in> set (Hooks (RN_chain runner) stage). confined stage h r"
proof -
  let ?hooks = "Hooks (RN_chain runner) stage"
  have ok: "\<forall>h \<in> set ?hooks. hook_ok stage h" using registered_stage_ok [OF assms(1)] by (simp add: stage_ok_def)
  have "r \<in> set (Rep_Results (fst (run_hooks js (RN_handlers runner) early stage (preserveGatewayHookOriginals input) [] ?hooks)))"
    using assms(2,3) by (auto simp: RunStage_def RunStageHooks_def split: if_splits)
  moreover have "\<forall>r \<in> set (Rep_Results (fst (run_hooks js (RN_handlers runner) early stage (preserveGatewayHookOriginals input) [] ?hooks))).
      \<exists>h \<in> set ?hooks. confined stage h r"
    by (rule run_hooks_results [OF ok]) auto
  ultimately show ?thesis by blast
qed

text \<open>Stages whose hooks may neither fail a call nor decide it.\<close>

definition harmless_stages :: "string list" where
  "harmless_stages = [''route_rank'', ''cache_write'', ''settlement'', ''trace_export'']"

lemma harmless_policy:
  assumes "stage \<in> set harmless_stages"
  shows "\<exists>policy. GatewayStagePolicy stage = Some policy \<and> set (AllowedFailurePolicy policy) = {''fail_open'', ''observe_only''} \<and>
    \<not> AllowsDeny policy \<and> \<not> AllowsShortCircuit policy"
proof -
  have "list_all (\<lambda>s. case GatewayStagePolicy s of
      None \<Rightarrow> False
    | Some policy \<Rightarrow> set (AllowedFailurePolicy policy) = {''fail_open'', ''observe_only''} \<and>
        \<not> AllowsDeny policy \<and> \<not> AllowsShortCircuit policy) harmless_stages"
    by (simp add: harmless_stages_def GatewayStagePolicy_def GatewayStagePolicies_def stage_policy_def insert_commute)
  then show ?thesis using assms by (auto simp: list_all_iff split: option.splits)
qed

lemma runHook_harmless:
  assumes "stage \<in> set harmless_stages" and "hook_ok stage h"
  shows "snd (runHook handlers early (NormalizeGatewayHookDescriptor h) input) = None"
    and "R_Decision (fst (runHook handlers early (NormalizeGatewayHookDescriptor h) input)) = ''continue''"
proof -
  obtain policy where p: "GatewayStagePolicy stage = Some policy" "set (AllowedFailurePolicy policy) = {''fail_open'', ''observe_only''}"
    "\<not> AllowsDeny policy" "\<not> AllowsShortCircuit policy" using harmless_policy [OF assms(1)] by blast
  then have fp: "H_FailurePolicy h = ''fail_open'' \<or> H_FailurePolicy h = ''observe_only''"
    using assms(2) by (simp add: hook_ok_def)
  let ?n = "NormalizeGatewayHookDescriptor h"
  have fp2: "H_FailurePolicy (NormalizeGatewayHookDescriptor ?n) = ''fail_open'' \<or> H_FailurePolicy (NormalizeGatewayHookDescriptor ?n) = ''observe_only''"
    using fp normalize_twice_failure [OF assms(2)] by simp
  show "snd (runHook handlers early ?n input) = None"
    by (cases rule: runHook_cases [of handlers early ?n input]) (simp_all add: applyGatewayHookFailure_open fp2 del: normalize_keeps(4))
  show "R_Decision (fst (runHook handlers early ?n input)) = ''continue''"
    using runHook_confined [OF assms(2), of handlers early input] p by (auto simp: confined_def)
qed

definition result_ids :: "GatewayHookRunResult \<Rightarrow> string \<times> string" where
  "result_ids r = (R_PluginID r, R_HookID r)"

lemma run_hooks_harmless:
  assumes "stage \<in> set harmless_stages" and "\<forall>h \<in> set hooks. hook_ok stage h"
  shows "\<exists>results. run_hooks js handlers early stage input prev hooks =
      (\<lparr>Rep_Stage = stage, Rep_Results = prev @ results, Rep_TerminalDecision = []\<rparr>, None) \<and>
      map result_ids results = map (\<lambda>h. (TrimSpace (H_PluginID h), TrimSpace (H_HookID h))) hooks"
  using assms(2)
proof (induction hooks arbitrary: input prev)
  case (Cons h hooks)
  let ?n = "NormalizeGatewayHookDescriptor h"
  obtain result err where run: "runHook handlers (early ?n) ?n input = (result, err)" by fastforce
  have h: "hook_ok stage h" and hs: "\<forall>h \<in> set hooks. hook_ok stage h" using Cons.prems by simp_all
  have r: "err = None" "R_Decision result = ''continue''" using runHook_harmless [OF assms(1) h, of handlers "early ?n" input] run by simp_all
  have ids: "result_ids result = (TrimSpace (H_PluginID h), TrimSpace (H_HookID h))"
    "result_ids (skippedGatewayHookRunResult ?n ''skipped'' ScopeMismatch) = (TrimSpace (H_PluginID h), TrimSpace (H_HookID h))"
    using runHook_confined [OF h, of handlers "early ?n" input] skipped_confined [OF h] run by (simp_all add: result_ids_def confined_def)
  have st: "H_Stage ?n = stage" using hook_ok_failure(3) [OF h] by simp
  show ?case
  proof (cases "gatewayHookScopeMatchesInput js ?n input")
    case False
    from Cons.IH [OF hs, of input "prev @ [skippedGatewayHookRunResult ?n ''skipped'' ScopeMismatch]"] show ?thesis
      using False st ids(2) by (auto simp: Let_def)
  next
    case True
    from Cons.IH [OF hs, of "applyGatewayHookWritesToInput js input (R_Writes result)" "prev @ [result]"] show ?thesis
      using True st ids(1) run r by (auto simp: Let_def)
  qed
qed simp

text \<open>(C21) Ranking routes, writing the cache, settling and exporting traces never fail because of a
  plugin: whatever answers, errors and timeouts the handlers return, the run of such a stage ends without an error and
  without a decision, with one result for each hook in the order of the registry.\<close>

theorem harmless_stages_complete:
  assumes "registered (RN_chain runner)" and "RN_chain runner \<noteq> None" and "stage \<in> set harmless_stages"
  shows "\<exists>results. RunStage js early (Some runner) stage input =
      (\<lparr>Rep_Stage = stage, Rep_Results = results, Rep_TerminalDecision = []\<rparr>, None) \<and>
      map result_ids results = map (\<lambda>h. (TrimSpace (H_PluginID h), TrimSpace (H_HookID h))) (Hooks (RN_chain runner) stage)"
proof -
  have "\<forall>h \<in> set (Hooks (RN_chain runner) stage). hook_ok stage h"
    using registered_stage_ok [OF assms(1)] by (simp add: stage_ok_def)
  from run_hooks_harmless [OF assms(3) this, of js "RN_handlers runner" early "preserveGatewayHookOriginals input" "[]"]
  show ?thesis using assms(2) by (auto simp: RunStage_def RunStageHooks_def)
qed

section \<open>Hooks see what they declare\<close>

text \<open>The part of the input that is sent to a plugin process: the fields without \<open>json:"-"\<close>.\<close>

definition wire :: "GatewayHookInput \<Rightarrow> string \<times> string \<times> GatewayEnvelope \<times> GatewayHookData" where
  "wire i = (I_RequestID i, I_Stage i, I_Envelope i, I_Data i)"

definition bodies :: "string set" where
  "bodies = {''request_body'', ''provider_request'', ''provider_response''}"

definition same_for :: "string set \<Rightarrow> GatewayHookInput \<Rightarrow> GatewayHookInput \<Rightarrow> bool" where
  "same_for reads i j \<longleftrightarrow>
     I_RequestID i = I_RequestID j \<and>
     E_RouteProtocol (I_Envelope i) = E_RouteProtocol (I_Envelope j) \<and> E_Version (I_Envelope i) = E_Version (I_Envelope j) \<and>
     E_Protocol (I_Envelope i) = E_Protocol (I_Envelope j) \<and> E_Operation (I_Envelope i) = E_Operation (I_Envelope j) \<and>
     E_Model (I_Envelope i) = E_Model (I_Envelope j) \<and>
     (reads \<inter> bodies \<noteq> {} \<longrightarrow> E_RequestBody (I_Envelope i) = E_RequestBody (I_Envelope j)) \<and>
     (''normalized_text'' \<in> reads \<longrightarrow> E_NormalizedText (I_Envelope i) = E_NormalizedText (I_Envelope j)) \<and>
     filter (\<lambda>(c, v). c \<in> reads) (items (I_Data i)) = filter (\<lambda>(c, v). c \<in> reads) (items (I_Data j))"

definition sees_wire_only :: "handler \<Rightarrow> bool" where
  "sees_wire_only h \<longleftrightarrow> (\<forall>i j. wire i = wire j \<longrightarrow> ExecuteGatewayHook h i = ExecuteGatewayHook h j)"

lemma clip_same:
  assumes "same_for (set reads) i j"
  shows "wire ((clipGatewayHookInput i reads)\<lparr>I_Stage := s\<rparr>) = wire ((clipGatewayHookInput j reads)\<lparr>I_Stage := s\<rparr>)"
  using assms by (auto simp: wire_def clipGatewayHookInput_def clipGatewayHookData_def same_for_def bodies_def Let_def)

text \<open>(C22) A plugin that is only sent the serialised input cannot depend on data it has not declared: two
  inputs that agree on the declared data classes give the same run.\<close>

theorem runHook_noninterference:
  assumes "\<forall>key h. handlers key = Some h \<longrightarrow> sees_wire_only h"
    and "same_for (set (H_Reads (NormalizeGatewayHookDescriptor hook))) i j"
  shows "runHook handlers early hook i = runHook handlers early hook j"
proof -
  have same: "handler_answer h (NormalizeGatewayHookDescriptor hook) i = handler_answer h (NormalizeGatewayHookDescriptor hook) j"
    if "handlers (gatewayHookKey (NormalizeGatewayHookDescriptor hook)) = Some h" for h
  proof -
    have "sees_wire_only h" using assms(1) that by blast
    then have "ExecuteGatewayHook h a = ExecuteGatewayHook h b" if "wire a = wire b" for a b
      using that unfolding sees_wire_only_def by blast
    from this [OF clip_same [OF assms(2)]] show ?thesis unfolding handler_answer_def by (rule arg_cong)
  qed
  show ?thesis
  proof (cases "handlers (gatewayHookKey (NormalizeGatewayHookDescriptor hook))")
    case None
    then show ?thesis by (simp add: runHook_def Let_def)
  next
    case (Some h)
    show ?thesis by (simp only: runHook_def Let_def Some option.case same [OF Some])
  qed
qed

section \<open>Witnesses\<close>

text \<open>A plugin that tries to deny the call and to change the usage from a stage that only observes.\<close>

definition rogue :: handler where
  "rogue = \<lparr>ExecuteGatewayHook = (\<lambda>_. (Inr \<lparr>HR_Decision = ''deny'', HR_Writes = [(''usage'', ''0'')], HR_AuditEvents = []\<rparr>, None, 0)),
            PluginPermissionGrant = None\<rparr>"

definition rogue_runner :: GatewayHookRunner where
  "rogue_runner = \<lparr>RN_chain = sample_registry [sample_hook ''a'' ''v1'' 1], RN_handlers = (\<lambda>_. Some rogue)\<rparr>"

definition no_json :: json_decoder where
  "no_json = \<lparr>decode_segments = (\<lambda>_. None), decode_object = (\<lambda>_. None), decode_objects = (\<lambda>_. None), decode_string = (\<lambda>_. None)\<rparr>"

definition sample_input :: "string \<Rightarrow> GatewayHookInput" where
  "sample_input body =
     (let e = \<lparr>E_RouteProtocol = [], E_Version = ''1'', E_Protocol = ''gateway'', E_Operation = ''chat'', E_Model = ''m'',
               E_RequestBody = body, E_NormalizedText = [], E_Metadata = []\<rparr>
      in \<lparr>I_RequestID = ''r'', I_Stage = ''settlement'', I_Envelope = e, I_Data = Some [(''usage'', ''7''), (''request_body'', body)],
          I_OriginalEnvelope = e, I_OriginalData = None\<rparr>)"

definition rogue_result :: GatewayHookRunResult where
  "rogue_result = \<lparr>R_PluginID = ''a'', R_HookID = ''h'', R_Decision = ''continue'', R_Writes = [], R_AuditEvents = [],
     R_FailurePolicy = ''observe_only'', R_Status = ''succeeded'', R_Error = None, R_DurationMS = 0\<rparr>"

lemma rogue_runs:
  "runHook (\<lambda>_. Some rogue) early (sample_hook ''a'' ''v1'' 1) input = (rogue_result, None)"
  unfolding runHook_def Let_def sample_normal
  by (simp add: rogue_def handler_answer_def settled_result_def validateGatewayHookResult_def PluginPermissionGrantFromHandler_def
      sample_hook_def GatewayStagePolicy_def GatewayStagePolicies_def stage_policy_def rogue_result_def
      boundedGatewayHookAuditEvents_def elapsedMillis_def Let_def)

lemma sample_scope: "GatewayHookScopeMatches (sample_hook ''a'' ''v1'' 1) target"
  unfolding GatewayHookScopeMatches_def sample_normal
  by (simp add: gatewayScopeListMatches_def sample_hook_def)

lemma rogue_stage:
  "RunStage no_json (\<lambda>_. 0) (Some rogue_runner) ''settlement'' (sample_input ''b'') =
     (\<lparr>Rep_Stage = ''settlement'', Rep_Results = [rogue_result], Rep_TerminalDecision = []\<rparr>, None)"
proof -
  have st: "H_Stage (sample_hook ''a'' ''v1'' 1) = ''settlement''" by (simp add: sample_hook_def)
  have m: "gatewayHookScopeMatchesInput no_json (sample_hook ''a'' ''v1'' 1) i" for i
    by (simp add: gatewayHookScopeMatchesInput_def sample_scope Let_def no_json_def)
  have "Hooks (RN_chain rogue_runner) ''settlement'' = [sample_hook ''a'' ''v1'' 1]" "RN_chain rogue_runner \<noteq> None"
    by (simp_all add: rogue_runner_def sample_registry_def Hooks_def)
  moreover have "RN_handlers rogue_runner = (\<lambda>_. Some rogue)" by (simp add: rogue_runner_def)
  moreover have "R_Decision rogue_result = ''continue''" by (simp add: rogue_result_def)
  ultimately show ?thesis
    by (simp add: RunStage_def RunStageHooks_def sample_normal st m rogue_runs del: normalize_keeps)
qed

lemma rogue_registered: "registered (RN_chain rogue_runner)"
  using sample_registered by (simp add: rogue_runner_def)

theorem RunStage_confined_witness:
  "confined ''settlement'' (sample_hook ''a'' ''v1'' 1) rogue_result"
  using RunStage_confined [OF rogue_registered rogue_stage, of rogue_result]
  by (simp add: rogue_runner_def sample_registry_def Hooks_def)

theorem harmless_stages_complete_witness:
  "\<exists>results. RunStage no_json (\<lambda>_. 0) (Some rogue_runner) ''settlement'' (sample_input ''b'') =
     (\<lparr>Rep_Stage = ''settlement'', Rep_Results = results, Rep_TerminalDecision = []\<rparr>, None) \<and>
   map result_ids results = [(''a'', ''h'')]"
  using harmless_stages_complete [OF rogue_registered, of "''settlement''" no_json "\<lambda>_. 0" "sample_input ''b''"]
  by (simp add: rogue_runner_def sample_registry_def Hooks_def harmless_stages_def)
    (simp add: sample_hook_def sample_trims)

theorem runHook_noninterference_witness:
  "runHook (\<lambda>_. Some rogue) 0 usage_hook (sample_input ''secret'') = runHook (\<lambda>_. Some rogue) 0 usage_hook (sample_input ''other'')"
proof (rule runHook_noninterference)
  show "\<forall>key h. Some rogue = Some h \<longrightarrow> sees_wire_only h" by (simp add: sees_wire_only_def rogue_def)
  have "set (H_Reads (NormalizeGatewayHookDescriptor usage_hook)) = {''usage''}" by (auto simp: usage_hook_def sample_hook_def)
  then show "same_for (set (H_Reads (NormalizeGatewayHookDescriptor usage_hook))) (sample_input ''secret'') (sample_input ''other'')"
    by (simp add: same_for_def sample_input_def bodies_def items_def Let_def)
qed

end
