(* ===== verification/Spec2Isabelle.thy ===== *)
theory Spec2Isabelle
  imports Metering ReconService Pricing ResponseJobs HookRunner
begin

text \<open>
  \<^bold>\<open>TokenHub, verified core.\<close> TokenHub is a gateway in front of language-model providers. A call is
  admitted against quotas, rate limits and budgets, passed through the hooks of plugins, routed to a
  provider, priced, settled and recorded; later the recorded usage is reconciled with the bills of the
  providers. This development models the parts of the Go code under \<open>src/backend/internal\<close> that
  decide about money and quotas, and the part that decides what a plugin may see and change.

  \<^bold>\<open>Pricing and reconciliation.\<close>

  \<^item> \<open>metering/pricing.go\<close>, \<open>metering/native_units.go\<close>: exact pricing with rationals. Theory
    \<open>Metering\<close>, over \<open>GoBig\<close> (\<open>big.Rat\<close> and its decimal syntax) and \<open>Rounding\<close>. \<open>Price\<close> is shown to be
    exact with a single rounding, \<open>Reserve\<close> to cover every usage within its bounds, \<open>round\<close> to be
    the half-even or ceiling rounding, and the accepted inputs are characterised.
  \<^item> \<open>reconciliation/money.go\<close>: fixed-point amounts in an \<open>int64\<close>. Theory \<open>ReconMoney\<close>: printing and
    reading are inverse, reading takes the nearest amount, addition is exact or an error.
  \<^item> \<open>reconciliation/types.go\<close>, \<open>policy.go\<close>, \<open>scope.go\<close>, \<open>audit.go\<close>: theories \<open>ReconTypes\<close> and
    \<open>ReconPolicy\<close>: records of runs, rules, bills and usages, canonical scopes, selection.
  \<^item> \<open>reconciliation/engine.go\<close>: the aggregated comparison. Theory \<open>ReconEngine\<close>: it implements
    grouping by key, loses and duplicates no record, succeeds when the amounts are readable and
    their sums representable, and matches totals by their distance modulo \<open>2^64\<close>.
  \<^item> \<open>reconciliation/detail.go\<close>: the request-level comparison. Theory \<open>ReconMatching\<close>: the dynamic
    program finds an optimal one-to-one pairing and its walk back terminates; theory \<open>ReconDetail\<close>:
    the emission of items conserves bills and usages.
  \<^item> \<open>reconciliation/service.go\<close> and \<open>persistence/store.go\<close>: theories \<open>ReconRules\<close> (rule
    normalisation and hashes), \<open>ReconStore\<close> (tables of rows, the locale \<open>run_store\<close> and its
    interpretation) and \<open>ReconService\<close> (the operations as a step relation, concurrent calls as a
    second one): locked runs never change, invariants of the reachable states, exclusion of
    overlapping calculations, failed recalculations, exports that are complete unless a query failed.
  \<^item> \<open>server/pricing_periods.go\<close>, \<open>pricing_period_validation.go\<close>, \<open>pricing_time_helpers.go\<close>,
    \<open>model_price_patch.go\<close>: theory \<open>Pricing\<close>: an accepted schedule never has two periods in force,
    the order of the periods is irrelevant, every prompt token is billed once.

  \<^bold>\<open>The life of a call.\<close>

  \<^item> \<open>server/store_backup_quota.go\<close>, \<open>store_helpers.go\<close>, \<open>user_quota_policy.go\<close>: theory
    \<open>QuotaPolicy\<close>: the merged limits refuse what one of the policies refuses.
  \<^item> \<open>server/store_routing_calls.go\<close>, \<open>store_providers.go\<close>, \<open>store_database.go\<close>: theory \<open>QuotaStore\<close>:
    counter rows with the locale \<open>counter_table\<close>, minute limits and leases: what a minute accepted and
    was not given back stays within its limit, a scope never has more leases than its largest limit.
  \<^item> the budget check of \<open>server/store_backup_quota.go\<close>: theory \<open>RuntimeBudget\<close>: reading only the tables
    it needs, it refuses exactly the calls a spent budget covers.
  \<^item> \<open>server/store_call_admission.go\<close>, \<open>quota_timezone.go\<close>, \<open>metering_capture.go\<close>: theory
    \<open>CallAdmission\<close>: \<open>admitCallTransaction\<close> over the tables of the gateway. An admitted call passed every
    check, and the counters afterwards are those of a specification.
  \<^item> \<open>finishCallTransaction\<close> of \<open>server/store_routing_calls.go\<close>, \<open>usage_record.go\<close>,
    \<open>admission_settlement.go\<close>: theory \<open>CallSettlement\<close>: a call is settled once, the counters
    afterwards are those of a specification, admission and settlement together leave nothing of a
    reservation behind, and a settlement commits when the database works.
  \<^item> \<open>server/image_generation.go\<close>, \<open>store_image_recovery.go\<close> and the job operations of
    \<open>store_routing_calls.go\<close>: theory \<open>ImageJobs\<close>: image jobs as a step relation on the tables. The
    status of a job and the settlement of completed jobs are invariants, the recovery of a job gives
    its admission back, and does so even when the call had been settled.
  \<^item> \<open>server/response_jobs_store.go\<close> and the finalisation in \<open>response_jobs.go\<close>: theory \<open>ResponseJobs\<close>:
    background responses as a step relation in which every transaction of workers, clients, recovery and
    retention may interleave. A job is dispatched at most once, a worker without the lease changes
    no job, event, counter or log, events and rows agree, and a requeued job gives its admission back.

  \<^bold>\<open>Plugins.\<close>

  \<^item> \<open>plugin/gateway_ordering.go\<close>, \<open>gateway_execution.go\<close>: theory \<open>HookOrdering\<close>: the order of the hooks
    of a stage is a topological order, found whenever there is one.
  \<^item> \<open>plugin/gateway_chain.go\<close>, \<open>gateway_list_scope.go\<close>: theory \<open>HookChain\<close>: normalisation, registration
    and scope matching; every reachable registry stays within the policies of the stages.
  \<^item> \<open>plugin/permissions.go\<close>, \<open>permission_diff.go\<close>, \<open>dependency.go\<close>: theory \<open>PluginPermissions\<close>: grants,
    the verdict on an update, the dependency checks.
  \<^item> \<open>plugin/gateway_runner.go\<close>: theory \<open>HookRunner\<close>: a hook sees only what it declared to read, writes
    only what it declared and its stage allows, and cannot stop the stages that must not fail.

  \<open>Prelude\<close>, \<open>GoStrings\<close>, \<open>GoTime\<close>, \<open>GoParse\<close>, \<open>GoFloat\<close> and \<open>ServerTypes\<close> hold the shared parts of the
  language, of its library and of the server package.

  \<^bold>\<open>Conventions.\<close> An \<open>int64\<close> is an \<open>int\<close> with the wrap-around written out. A \<open>float64\<close> is a rational,
  an infinity or not-a-number, and arithmetic rounds to the nearest double; the sign of zero is not
  represented. A string is a list of bytes. \<open>ToLower\<close>, \<open>ToUpper\<close> and \<open>EqualFold\<close> map ASCII letters;
  the few other letters that fold to ASCII (U+017F, U+0131, U+212A) are not mapped. A Go map is a HOL
  map, or an association list whose order stands for one iteration order where the order can be
  observed. An operation that can fail returns a sum. Sorting calls are modelled by a stable sort. A
  handler that reads the clock once or twice takes the readings as arguments. A database table is a
  list of rows; a database call may fail where a fault argument says so, and a failed transaction
  leaves the tables unchanged. Where the code drops the error of a query and goes on with no rows, so
  does the model.

  \<^bold>\<open>Parameters.\<close> The time-zone database behind \<open>time.LoadLocation\<close>, random identifiers, SHA-256 in
  the rule hashes, the shortest printing of a \<open>float64\<close>, the grouped \<open>SUM\<close> of the budget query,
  the encryption of stored payloads, \<open>url.Parse\<close> and the printing of a parsed URL, \<open>json.Unmarshal\<close>, the semantic-version package and
  the handlers of plugins are arguments of the definitions that use them.

  \<^bold>\<open>Loops.\<close> Every loop is structural or has a termination proof, except two that take fuel: the one that
  takes hooks from the graph of a stage (\<open>HookOrdering.kahn\<close>), whose fuel is the number of hooks, and the
  one that exports the items of a run in batches (\<open>ReconService.export_loop\<close>), for which one round per item
  and one more are enough. The theorems on the success of the ordering and on exports show that the fuel
  suffices.

  \<^bold>\<open>Not modelled.\<close> The HTTP handlers, the streaming and translation code of the provider adapters, the
  goroutines of schedulers, workers and heartbeats, the Lua scripts run by Redis and the Redis variant
  of admission and settlement, the plugin packages and processes, the schema migrations and the
  frontend: they are input and output around the modelled decisions, or code in another language. Of
  the admission and settlement, the prices and the payload in the metering entries, and the metrics
  and traces. A plugin handler that panics or never returns is not represented. The selection of routes, guardrail policies, egress checks and billing connectors
  are separate parts of the program that the modelled ones do not call.
\<close>

end
